(* ===== verification/R2_Prelude.thy ===== *)
theory R2_Prelude
  imports Main "HOL-Library.Word" "HOL-Library.Monad_Syntax" "HOL-Library.Code_Target_Nat"
begin

text \<open>
  Shared ground of the development: the machine integers of \<^verbatim>\<open>r_types.h\<close>, C strings and byte
  buffers as lists, and how C behaviour that has no defined result is represented.

  \<^item> \<open>ut8\<close> \<dots> \<open>ut64\<close> are words of their width, so \<open>+\<close>, \<open>-\<close> and \<open>*\<close> wrap as the C operators do.
    A C \<open>int\<close> is an \<open>int\<close>; a narrowing assignment from a \<open>ut64\<close> goes through \<open>c_int\<close>.
  \<^item> A non-null \<open>char *\<close> is a \<open>string\<close> without NUL characters; reading one past the end gives NUL
    (\<open>chr_at\<close>). A pointer that may be null is an option.
  \<^item> A buffer is a \<open>ut8 list\<close>. An access outside a buffer, a shift by at least the operand width
    and the use of an uninitialised integer have no defined result in C: an operation that can
    do one of them returns an option, and \<open>None\<close> stands for it.
\<close>

type_synonym ut8 = "8 word"
type_synonym ut16 = "16 word"
type_synonym ut32 = "32 word"
type_synonym ut64 = "64 word"

named_theorems io_laws \<open>equations of the address-translation layer\<close>
named_theorems wp_rules \<open>weakest-precondition equations for the undefined-behaviour monad\<close>
named_theorems keeps_intros \<open>invariant rules, one per operation\<close>

unbundle bit_operations_syntax

abbreviation UT64_MAX :: ut64 where "UT64_MAX \<equiv> - 1"
abbreviation UT32_MAX :: ut32 where "UT32_MAX \<equiv> - 1"

definition c_int :: "ut64 \<Rightarrow> int" where
  "c_int w = sint (ucast w :: 32 word)"

text \<open>The shift operators of C on \<open>ut64\<close>: undefined from the operand width on.\<close>

definition shl64 :: "ut64 \<Rightarrow> nat \<Rightarrow> ut64 option" where
  "shl64 x n = (if n < 64 then Some (push_bit n x) else None)"

definition shr64 :: "ut64 \<Rightarrow> nat \<Rightarrow> ut64 option" where
  "shr64 x n = (if n < 64 then Some (drop_bit n x) else None)"

text \<open>Characters of a C string, NUL past its end.\<close>

definition chr_at :: "string \<Rightarrow> nat \<Rightarrow> char" where
  "chr_at s i = (if i < length s then s ! i else CHR 0x00)"

abbreviation first_chr :: "string \<Rightarrow> char" where
  "first_chr s \<equiv> chr_at s 0"

definition char_code :: "char \<Rightarrow> nat" where
  "char_code c = of_char c"

text \<open>\<open>char\<close> is a signed type on the supported hosts.\<close>

definition schar :: "char \<Rightarrow> int" where
  "schar c = sint (of_char c :: 8 word)"

text \<open>Division and remainder of C round towards zero.\<close>

definition c_div :: "int \<Rightarrow> int \<Rightarrow> int" where
  "c_div a b = (if 0 \<le> a then a div b else - ((- a) div b))"

definition c_mod :: "int \<Rightarrow> int \<Rightarrow> int" where
  "c_mod a b = a - b * c_div a b"

definition bits2bytes :: "int \<Rightarrow> int" where
  "bits2bytes x = c_div x 8 + (if c_mod x 8 \<noteq> 0 then 1 else 0)"

text \<open>Array indexing, undefined outside the array.\<close>

definition nth_opt :: "'a list \<Rightarrow> int \<Rightarrow> 'a option" where
  "nth_opt xs i = (if 0 \<le> i \<and> i < int (length xs) then Some (xs ! nat i) else None)"

text \<open>\<open>memcpy\<close> and \<open>memset\<close> into a buffer, defined only inside it.\<close>

definition buf_write :: "'a list \<Rightarrow> nat \<Rightarrow> 'a list \<Rightarrow> 'a list option" where
  "buf_write buf off xs =
     (if off + length xs \<le> length buf
      then Some (take off buf @ xs @ drop (off + length xs) buf) else None)"

definition buf_read :: "'a list \<Rightarrow> nat \<Rightarrow> nat \<Rightarrow> 'a list option" where
  "buf_read buf off n =
     (if off + n \<le> length buf then Some (take n (drop off buf)) else None)"

lemma chr_at_Nil [simp]: "chr_at [] i = CHR 0x00"
  by (simp add: chr_at_def)

lemma chr_at_Cons [simp]:
  "chr_at (c # s) 0 = c" "chr_at (c # s) (Suc n) = chr_at s n"
  by (simp_all add: chr_at_def)

lemma chr_at_numeral [simp]:
  "chr_at (c # s) (numeral k) = chr_at s (pred_numeral k)"
  by (simp add: chr_at_def numeral_eq_Suc)

lemma c_div_mod_nonneg [simp]:
  "0 \<le> a \<Longrightarrow> c_div a b = a div b" "0 \<le> a \<Longrightarrow> c_mod a b = a mod b"
  by (simp_all add: c_div_def c_mod_def minus_mult_div_eq_mod)

lemma ceil_div_8: "(x + 7) div 8 = x div 8 + (if x mod 8 = 0 then 0 else 1)" for x :: int
proof -
  define q r where "q = x div 8" and "r = x mod 8"
  have x: "x = r + q * 8" "0 \<le> r" "r < 8" by (simp_all add: q_def r_def)
  then have "(x + 7) div 8 = q + (r + 7) div 8"
    using div_mult_self2 [of 8 "r + 7" q] by (simp add: algebra_simps)
  moreover have "(r + 7) div 8 = (if r = 0 then 0 else 1)"
    using x by (auto simp: int_div_pos_eq)
  ultimately show ?thesis by (simp add: q_def r_def)
qed

lemma bits2bytes_nonneg: "0 \<le> x \<Longrightarrow> bits2bytes x = (x + 7) div 8"
  by (simp add: bits2bytes_def ceil_div_8)

lemma nth_opt_Some_iff:
  "nth_opt xs i = Some x \<longleftrightarrow> 0 \<le> i \<and> i < int (length xs) \<and> x = xs ! nat i"
  by (auto simp: nth_opt_def)

lemma buf_write_length: "buf_write buf off xs = Some b \<Longrightarrow> length b = length buf"
  by (auto simp: buf_write_def split: if_splits)

lemma buf_write_defined: "off + length xs \<le> length buf \<Longrightarrow> \<exists>b. buf_write buf off xs = Some b"
  by (simp add: buf_write_def)

lemma buf_read_write_same:
  assumes "buf_write buf off xs = Some b"
  shows "buf_read b off (length xs) = Some xs"
proof -
  have "off + length xs \<le> length buf" and b: "b = take off buf @ xs @ drop (off + length xs) buf"
    using assms by (auto simp: buf_write_def split: if_splits)
  then show ?thesis by (simp add: buf_read_def)
qed

lemma buf_write_nth:
  assumes "buf_write buf off xs = Some b"
  shows "i < length buf \<Longrightarrow>
    b ! i = (if off \<le> i \<and> i < off + length xs then xs ! (i - off) else buf ! i)"
  using assms by (auto simp: buf_write_def nth_append min_def split: if_splits)

lemma buf_read_nth:
  "buf_read buf off n = Some ys \<Longrightarrow> length ys = n \<and> (\<forall>i < n. ys ! i = buf ! (off + i))"
  by (auto simp: buf_read_def min_def split: if_splits)

lemma buf_read_write_other:
  assumes "buf_write buf off xs = Some b" and "p + n \<le> off \<or> off + length xs \<le> p"
  shows "buf_read b p n = buf_read buf p n"
proof (cases "p + n \<le> length buf")
  case True
  have len: "length b = length buf" using assms(1) by (rule buf_write_length)
  have "take n (drop p b) = take n (drop p buf)"
  proof (rule nth_equalityI)
    show "length (take n (drop p b)) = length (take n (drop p buf))" by (simp add: len)
  next
    fix i assume "i < length (take n (drop p b))"
    then have i: "i < n" "p + i < length buf" using True len by auto
    then have "b ! (p + i) = buf ! (p + i)"
      using buf_write_nth [OF assms(1) i(2)] assms(2) by auto
    then show "take n (drop p b) ! i = take n (drop p buf) ! i" using i len by simp
  qed
  then show ?thesis using len by (simp add: buf_read_def)
next
  case False
  then show ?thesis using buf_write_length [OF assms(1)] by (simp add: buf_read_def)
qed

text \<open>
  Reasoning about an operation on a state that may be undefined: \<open>always m Q\<close> says that \<open>m\<close> is
  defined and its result and final state satisfy \<open>Q\<close>; \<open>whenever m Q\<close> is the liberal form, which
  says nothing where \<open>m\<close> is undefined.
\<close>

definition always :: "('a \<times> 's) option \<Rightarrow> ('a \<Rightarrow> 's \<Rightarrow> bool) \<Rightarrow> bool" where
  "always m Q = (case m of None \<Rightarrow> False | Some (x, s) \<Rightarrow> Q x s)"

definition whenever :: "('a \<times> 's) option \<Rightarrow> ('a \<Rightarrow> 's \<Rightarrow> bool) \<Rightarrow> bool" where
  "whenever m Q = (case m of None \<Rightarrow> True | Some (x, s) \<Rightarrow> Q x s)"

lemma always_simps [simp, wp_rules]:
  "always None Q = False"
  "always (Some (x, s)) Q = Q x s"
  by (simp_all add: always_def)

lemma whenever_simps [simp, wp_rules]:
  "whenever None Q = True"
  "whenever (Some (x, s)) Q = Q x s"
  by (simp_all add: whenever_def)

lemma always_bind [wp_rules]:
  "always (Option.bind m f) Q = always m (\<lambda>x s. always (f (x, s)) Q)"
  by (cases m) (auto simp: always_def)

lemma whenever_bind [wp_rules]:
  "whenever (Option.bind m f) Q = whenever m (\<lambda>x s. whenever (f (x, s)) Q)"
  by (cases m) (auto simp: whenever_def)

lemma always_mono: "always m P \<Longrightarrow> (\<And>x s. P x s \<Longrightarrow> Q x s) \<Longrightarrow> always m Q"
  by (auto simp: always_def split: option.splits)

lemma whenever_mono: "whenever m P \<Longrightarrow> (\<And>x s. P x s \<Longrightarrow> Q x s) \<Longrightarrow> whenever m Q"
  by (auto simp: whenever_def split: option.splits)

lemma wheneverD: "whenever m Q \<Longrightarrow> m = Some (x, s) \<Longrightarrow> Q x s"
  by simp

lemma wheneverI: "(\<And>x s. m = Some (x, s) \<Longrightarrow> Q x s) \<Longrightarrow> whenever m Q"
  by (auto simp: whenever_def split: option.splits)

lemma alwaysE:
  assumes "always m Q" obtains x s where "m = Some (x, s)" "Q x s"
  using assms by (auto simp: always_def split: option.splits)

text \<open>Facts on words used by several components.\<close>

lemma word_and_mask_unat:
  "unat (x AND mask n) = unat (x :: 'a :: len word) mod 2 ^ n"
proof -
  have "unat (x AND mask n) = take_bit n (unat x)"
    by (simp only: take_bit_eq_mask [symmetric] unsigned_take_bit_eq)
  then show ?thesis by (simp only: take_bit_eq_mod)
qed

lemma unat_less_64 [simp]: "unat (x :: ut64) < 2 ^ 64"
  using unsigned_less [of x] by simp

end
