(* ===== verification/R2_Num.thy ===== *)
theory R2_Num
  imports R2_Prelude
begin

text \<open>
  Number parsing: \<open>r_num_get\<close> of \<^verbatim>\<open>libr/util/num.c\<close> without a resolver (\<open>num == NULL\<close>, as ESIL
  calls it), over the pieces of the C library it uses (\<open>strtoull\<close>, the \<open>%x\<close>, \<open>%o\<close>, \<open>%d\<close>
  conversions of \<open>sscanf\<close>, \<open>%llx\<close> of \<open>snprintf\<close>). \<open>None\<close> is the undefined case of the code:
  a binary literal long enough to shift an \<open>int\<close> out of its width. The main result is that the
  numeral \<open>snprintf\<close> prints for a \<open>ut64\<close> is read back as that number.
\<close>

section \<open>The C library\<close>

definition isspace :: "char \<Rightarrow> bool" where
  "isspace c \<longleftrightarrow> c = CHR '' '' \<or> (9 \<le> char_code c \<and> char_code c \<le> 13)"

definition digit_val :: "char \<Rightarrow> nat" where
  "digit_val c = (let n = char_code c in
     if 48 \<le> n \<and> n \<le> 57 then n - 48
     else if 97 \<le> n \<and> n \<le> 122 then n - 87
     else if 65 \<le> n \<and> n \<le> 90 then n - 55
     else 99)"

definition is_digit :: "nat \<Rightarrow> char \<Rightarrow> bool" where
  "is_digit base c \<longleftrightarrow> digit_val c < base"

fun digits_val :: "nat \<Rightarrow> nat \<Rightarrow> string \<Rightarrow> nat" where
  "digits_val base acc [] = acc"
| "digits_val base acc (c # cs) = digits_val base (acc * base + digit_val c) cs"

text \<open>Sign, optional hexadecimal prefix and digits of the longest numeral at the start of a string.\<close>

definition scan_sign :: "string \<Rightarrow> bool \<times> string" where
  "scan_sign s = (if first_chr s = CHR ''-'' then (True, tl s)
     else if first_chr s = CHR ''+'' then (False, tl s) else (False, s))"

definition hex_prefix :: "string \<Rightarrow> bool" where
  "hex_prefix s \<longleftrightarrow> chr_at s 0 = CHR ''0'' \<and> (chr_at s 1 = CHR ''x'' \<or> chr_at s 1 = CHR ''X'')"

definition saturate :: "bool \<Rightarrow> nat \<Rightarrow> ut64" where
  "saturate neg v = (if 2 ^ 64 \<le> v then UT64_MAX else if neg then - of_nat v else of_nat v)"

text \<open>\<open>strtoull\<close>: the value and the rest of the string (the whole string if nothing converts).\<close>

definition strtoull :: "nat \<Rightarrow> string \<Rightarrow> ut64 \<times> string" where
  "strtoull base str =
     (let (neg, s) = scan_sign (dropWhile isspace str);
          s' = (if base = 16 \<and> hex_prefix s \<and> is_digit 16 (chr_at s 2) then drop 2 s else s);
          ds = takeWhile (is_digit base) s'
      in if ds = [] then (0, str)
         else (saturate neg (digits_val base 0 ds), dropWhile (is_digit base) s'))"

text \<open>
  An integer conversion of \<open>sscanf\<close> with a maximal field width: the converted value and the rest,
  or nothing when the field does not match (\<open>0x\<close> with no digit after it included).
\<close>

definition scan_uint :: "nat \<Rightarrow> nat \<Rightarrow> string \<Rightarrow> (ut64 \<times> string) option" where
  "scan_uint base width str =
     (let field = take width (dropWhile isspace str);
          rest = drop width (dropWhile isspace str);
          (neg, s) = scan_sign field;
          s' = (if base = 16 \<and> hex_prefix s then drop 2 s else s);
          ds = takeWhile (is_digit base) s'
      in if ds = [] then None
         else Some (saturate neg (digits_val base 0 ds), dropWhile (is_digit base) s' @ rest))"

definition scan_int :: "string \<Rightarrow> (ut64 \<times> string) option" where
  "scan_int str =
     (let (neg, s) = scan_sign (dropWhile isspace str);
          ds = takeWhile (is_digit 10) s; v = int (digits_val 10 0 ds)
      in if ds = [] then None
         else Some (of_int (if neg then max (- (2 ^ 63)) (- v) else min (2 ^ 63 - 1) v),
                    dropWhile (is_digit 10) s))"

definition scan_lit :: "string \<Rightarrow> string \<Rightarrow> string option" where
  "scan_lit lit str = (if take (length lit) str = lit then Some (drop (length lit) str) else None)"

text \<open>\<open>%llx\<close>: lower-case hexadecimal digits without leading zeros.\<close>

definition hex_digit :: "nat \<Rightarrow> char" where
  "hex_digit n = ''0123456789abcdef'' ! n"

fun hex_of_nat :: "nat \<Rightarrow> string" where
  "hex_of_nat n = (if n < 16 then [hex_digit n] else hex_of_nat (n div 16) @ [hex_digit (n mod 16)])"

declare hex_of_nat.simps [simp del]

definition fmt_0x :: "ut64 \<Rightarrow> string" where
  "fmt_0x n = ''0x'' @ hex_of_nat (unat n)"

section \<open>r\_num\_get\<close>

text \<open>
  The loops over a binary literal read it from its end; \<open>1 << j\<close> is an \<open>int\<close> shift, undefined
  from bit 31 on. The argument is the reversed text and \<open>j\<close> the bit reached.
\<close>

fun num_bits :: "string \<Rightarrow> nat \<Rightarrow> ut64 \<Rightarrow> ut64 option" where
  "num_bits [] j ret = Some ret"
| "num_bits (c # cs) j ret =
     (if c = CHR ''1'' then
        (if j < 31 then num_bits cs (Suc j) (ret OR push_bit j 1) else None)
      else if c = CHR ''0'' then num_bits cs (Suc j) ret
      else Some ret)"

definition num_seg_off :: "ut64 \<Rightarrow> ut64 \<Rightarrow> ut64" where
  "num_seg_off s a = ucast (push_bit 4 (ucast s :: ut32) + (ucast a :: ut32))"

text \<open>The \<open>segment:offset\<close> notations, tried first.\<close>

definition num_segment :: "string \<Rightarrow> int \<Rightarrow> ut64 option" where
  "num_segment str len =
     (if len > 3 \<and> chr_at str 4 = CHR '':'' then do {
        (s, _) \<leftarrow> scan_uint 16 4 str;
        (a, _) \<leftarrow> scan_uint 16 4 (drop 5 str);
        Some (num_seg_off s a) }
      else if len > 6 \<and> chr_at str 6 = CHR '':'' then
        (case do { r \<leftarrow> scan_lit ''0x'' str; (s, r) \<leftarrow> scan_uint 16 4 r;
                   r \<leftarrow> scan_lit '':0x'' r; (a, _) \<leftarrow> scan_uint 16 4 r; Some (num_seg_off s a) } of
           Some v \<Rightarrow> Some v
         | None \<Rightarrow> do { r \<leftarrow> scan_lit ''0x'' str; (s, r) \<leftarrow> scan_uint 16 4 r;
                   r \<leftarrow> scan_lit '':'' r; (a, _) \<leftarrow> scan_uint 16 4 r; Some (num_seg_off s a) })
      else None)"

definition num_suffixed :: "string \<Rightarrow> int \<Rightarrow> ut64 option" where
  "num_suffixed str len =
     (let lch0 = chr_at str (if len > 0 then nat (len - 1) else 0);
          lch = (if first_chr str = CHR ''0'' \<and> lch0 \<noteq> CHR ''b'' \<and> lch0 \<noteq> CHR ''h''
                 then CHR ''o'' else lch0);
          val = (\<lambda>r. case r of None \<Rightarrow> 0 | Some (v, _) \<Rightarrow> v)
      in if lch = CHR ''h'' then Some (val (scan_uint 16 (length str) str))
         else if lch = CHR ''o'' then Some (val (scan_uint 8 (length str) str))
         else if lch = CHR ''b'' then num_bits (rev (butlast str)) 0 0
         else if lch = CHR ''K'' \<or> lch = CHR ''k'' then Some (val (scan_int str) * 1024)
         else if lch = CHR ''M'' \<or> lch = CHR ''m'' then Some (val (scan_int str) * (1024 * 1024))
         else if lch = CHR ''G'' \<or> lch = CHR ''g'' then Some (val (scan_int str) * (1024 * 1024 * 1024))
         else Some (fst (strtoull 10 str)))"

definition r_num_get :: "string \<Rightarrow> ut64 option" where
  "r_num_get str0 =
     (let str = dropWhile (\<lambda>c. c = CHR '' '') str0;
          len = sint (of_nat (length str) :: 8 word)
      in if str = [] then Some 0
         else if length str \<ge> 3 \<and> str ! 0 = CHR 0x27 \<and> str ! 2 = CHR 0x27
         then Some (of_int (schar (str ! 1)))
         else case num_segment str len of
           Some v \<Rightarrow> Some v
         | None \<Rightarrow>
           if first_chr str = CHR ''0'' \<and> chr_at str 1 = CHR ''b'' then num_bits (rev (tl str)) 0 0
           else if first_chr str = CHR 0x27 then Some (of_nat (char_code (chr_at str 1)))
           else if first_chr str = CHR ''0'' \<and> chr_at str 1 = CHR ''x''
           then Some (fst (strtoull 16 (drop 2 str)))
           else num_suffixed str len)"

section \<open>Printing and reading back\<close>

lemma hex_digit_val: "n < 16 \<Longrightarrow> digit_val (hex_digit n) = n"
proof -
  have "list_all (\<lambda>n. digit_val (hex_digit n) = n) [0..<16]"
    by code_simp
  then show "n < 16 \<Longrightarrow> ?thesis" by (simp add: list_all_iff)
qed

lemma hex_digit_is_digit: "n < 16 \<Longrightarrow> is_digit 16 (hex_digit n)"
  by (simp add: is_digit_def hex_digit_val)

lemma is_digit_hex_imp: "is_digit 16 c \<Longrightarrow>
   \<not> isspace c \<and> c \<noteq> CHR ''-'' \<and> c \<noteq> CHR ''+'' \<and> c \<noteq> CHR ''x'' \<and> c \<noteq> CHR ''X'' \<and> c \<noteq> CHR '':''
    \<and> c \<noteq> CHR 0x27"
  by (auto simp: is_digit_def digit_val_def isspace_def char_code_def split: if_splits)

lemma hex_of_nat_digits: "c \<in> set (hex_of_nat n) \<Longrightarrow> is_digit 16 c"
proof (induction n rule: hex_of_nat.induct)
  case (1 n)
  show ?case
  proof (cases "n < 16")
    case True
    with "1.prems" show ?thesis by (simp add: hex_of_nat.simps [of n] hex_digit_is_digit)
  next
    case False
    with "1.prems" have "c \<in> set (hex_of_nat (n div 16)) \<or> c = hex_digit (n mod 16)"
      by (auto simp: hex_of_nat.simps [of n])
    with False "1.IH" show ?thesis by (auto simp: hex_digit_is_digit)
  qed
qed

lemma hex_of_nat_nonempty [simp]: "hex_of_nat n \<noteq> []"
  by (subst hex_of_nat.simps) simp

lemma digits_val_append: "digits_val b acc (xs @ ys) = digits_val b (digits_val b acc xs) ys"
  by (induction xs arbitrary: acc) auto

lemma digits_val_hex: "digits_val 16 0 (hex_of_nat n) = n"
proof (induction n rule: hex_of_nat.induct)
  case (1 n)
  then show ?case
    by (cases "n < 16") (simp_all add: hex_of_nat.simps [of n] digits_val_append hex_digit_val)
qed

lemma strtoull_hex:
  assumes "\<And>c. c \<in> set h \<Longrightarrow> is_digit 16 c" and "h \<noteq> []"
  shows "strtoull 16 h = (saturate False (digits_val 16 0 h), [])"
proof -
  have h0: "is_digit 16 (hd h)" and h1: "1 < length h \<Longrightarrow> is_digit 16 (h ! 1)"
    using assms by auto
  have sp: "dropWhile isspace h = h"
    using is_digit_hex_imp [OF h0] assms(2) by (cases h) auto
  have sg: "scan_sign h = (False, h)"
    using is_digit_hex_imp [OF h0] assms(2) by (cases h) (auto simp: scan_sign_def)
  have np: "\<not> hex_prefix h"
    using is_digit_hex_imp [OF h1] by (auto simp: hex_prefix_def chr_at_def split: if_splits)
  have "takeWhile (is_digit 16) h = h" and "dropWhile (is_digit 16) h = []"
    using assms(1) by auto
  then show ?thesis using assms(2) np
    by (simp only: strtoull_def sp sg Let_def prod.case simp_thms if_False)
qed

lemma r_num_get_fmt_0x: "r_num_get (fmt_0x n) = Some n"
proof -
  let ?h = "hex_of_nat (unat n)"
  have dig: "\<And>c. c \<in> set ?h \<Longrightarrow> is_digit 16 c" by (rule hex_of_nat_digits)
  have nocolon: "chr_at (fmt_0x n) i \<noteq> CHR '':''" for i
  proof -
    have "chr_at (fmt_0x n) i \<in> insert (CHR 0x00) (set (fmt_0x n))"
      by (auto simp: chr_at_def)
    then show ?thesis using dig is_digit_hex_imp by (auto simp: fmt_0x_def)
  qed
  have "num_segment (fmt_0x n) len = None" for len
    using nocolon by (simp add: num_segment_def)
  moreover have "strtoull 16 ?h = (saturate False (unat n), [])"
    using strtoull_hex [OF dig] by (simp add: digits_val_hex)
  moreover have "saturate False (unat n) = n"
    using unat_less_64 [of n] by (simp add: saturate_def)
  ultimately show ?thesis
    by (simp add: r_num_get_def fmt_0x_def Let_def)
qed

end
