(* ===== verification/R2_Sdb.thy ===== *)
theory R2_Sdb
  imports R2_Num
begin

text \<open>
  The part of the string database (\<^verbatim>\<open>shlr/sdb/src/util.c\<close>, \<^verbatim>\<open>array.c\<close>) the interpreter rests on:
  the string hash, number printing, and the array-valued keys its statistics are kept in. A database
  is an association list; a new binding shadows an old one, and the value of an array key is the
  list of its comma-separated fields.
\<close>

definition CDB_HASHSTART :: ut32 where "CDB_HASHSTART = 5381"

definition sdb_hash :: "string \<Rightarrow> ut32" where
  "sdb_hash s = foldl (\<lambda>h c. (h + push_bit 5 h) XOR of_int (schar c)) CDB_HASHSTART s"

text \<open>The digit loop writes backwards from index 62 of the buffer and stops at index 0.\<close>

fun itoa_loop :: "nat \<Rightarrow> nat \<Rightarrow> nat \<Rightarrow> string \<Rightarrow> string" where
  "itoa_loop base n 0 acc = acc"
| "itoa_loop base n (Suc i) acc =
     (if n = 0 then acc else itoa_loop base (n div base) i (hex_digit (n mod base) # acc))"

definition sdb_itoa :: "ut64 \<Rightarrow> int \<Rightarrow> string option" where
  "sdb_itoa n base0 =
     (let base = abs base0 in
      if base > 16 \<or> base < 1 then None
      else if n = 0 then Some ''0''
      else let ds = itoa_loop (nat base) (unat n) 62 []
           in Some (if base \<le> 10 then ds else ''0x'' @ ds))"

type_synonym sdb = "(string \<times> string list) list"

definition sdb_array_get :: "sdb \<Rightarrow> string \<Rightarrow> string list" where
  "sdb_array_get db key = (case map_of db key of None \<Rightarrow> [] | Some l \<Rightarrow> l)"

definition sdb_array_contains :: "sdb \<Rightarrow> string \<Rightarrow> string \<Rightarrow> bool" where
  "sdb_array_contains db key val \<longleftrightarrow> val \<in> set (sdb_array_get db key)"

definition sdb_array_add :: "sdb \<Rightarrow> string \<Rightarrow> string \<Rightarrow> sdb" where
  "sdb_array_add db key val =
     (if sdb_array_contains db key val then db else (key, sdb_array_get db key @ [val]) # db)"

definition sdb_array_add_num :: "sdb \<Rightarrow> string \<Rightarrow> ut64 \<Rightarrow> sdb" where
  "sdb_array_add_num db key val =
     (if sdb_array_contains db key (the (sdb_itoa val 10)) then db
      else sdb_array_add db key (the (sdb_itoa val 16)))"

section \<open>Hexadecimal keys\<close>

lemma itoa_loop_hex:
  "n < 16 ^ k \<Longrightarrow> k \<le> i \<Longrightarrow> n \<noteq> 0 \<Longrightarrow> itoa_loop 16 n i acc = hex_of_nat n @ acc"
proof (induction k arbitrary: n i acc)
  case 0
  then show ?case by simp
next
  case (Suc k)
  then obtain j where i: "i = Suc j" by (cases i) auto
  show ?case
  proof (cases "n < 16")
    case True
    have "itoa_loop 16 0 j x = x" for x by (cases j) simp_all
    with True Suc.prems i show ?thesis by (simp add: hex_of_nat.simps [of n])
  next
    case False
    then have "itoa_loop 16 (n div 16) j (hex_digit (n mod 16) # acc)
        = hex_of_nat (n div 16) @ hex_digit (n mod 16) # acc"
      using Suc.prems i by (intro Suc.IH) (auto simp: div_less_iff_less_mult)
    with False i show ?thesis by (simp add: hex_of_nat.simps [of n])
  qed
qed

lemma sdb_itoa_hex: "n \<noteq> 0 \<Longrightarrow> sdb_itoa n 16 = Some (fmt_0x n)"
  using unat_less_64 [of n] itoa_loop_hex [of "unat n" 16 62 "[]"]
  by (simp add: sdb_itoa_def fmt_0x_def unat_eq_zero)

lemma fmt_0x_inject: "fmt_0x m = fmt_0x n \<longleftrightarrow> m = n"
  by (metis option.inject r_num_get_fmt_0x)

lemma fmt_0x_not_0: "fmt_0x n \<noteq> ''0''"
  by (simp add: fmt_0x_def)

lemma sdb_itoa_0: "sdb_itoa 0 16 = Some ''0''"
  by (simp add: sdb_itoa_def)

lemma sdb_itoa_inject: "sdb_itoa m 16 = sdb_itoa n 16 \<longleftrightarrow> m = n"
  using fmt_0x_not_0 [of m] fmt_0x_not_0 [of n, symmetric]
  by (cases "m = 0"; cases "n = 0") (simp_all add: sdb_itoa_0 sdb_itoa_hex fmt_0x_inject)

lemma sdb_array_add_get:
  "sdb_array_get (sdb_array_add db key val) k =
     (if k = key \<and> \<not> sdb_array_contains db key val then sdb_array_get db key @ [val]
      else sdb_array_get db k)"
  by (auto simp: sdb_array_add_def sdb_array_get_def)

section \<open>The hash over the integers\<close>

text \<open>The same hash without words, which evaluates faster.\<close>

definition char_int :: "char \<Rightarrow> int" where
  "char_int c = (let n = of_char c in if n < 128 then n else n - 256)"

lemma schar_char_int: "schar c = char_int c"
proof -
  have "list_all (\<lambda>c. schar c = char_int c) (map char_of [0..<256])" by code_simp
  moreover have "c \<in> set (map char_of [0..<256])"
    by (metis UNIV_char_of_nat UNIV_I set_map set_upt atLeast0LessThan lessThan_def)
  ultimately show ?thesis by (simp only: list_all_iff)
qed

definition hash_int :: "string \<Rightarrow> int" where
  "hash_int s = foldl (\<lambda>h c. ((h * 33) XOR char_int c) mod 4294967296) 5381 s"

lemma hash_step: "uint ((h + push_bit 5 h) XOR (of_int c :: ut32)) = ((uint h * 33) XOR c) mod 4294967296"
proof -
  have "h + push_bit 5 h = of_int (uint h * 33)"
    by (simp add: push_bit_eq_mult)
  then have "(h + push_bit 5 h) XOR (of_int c :: ut32) = of_int ((uint h * 33) XOR c)"
    by (simp add: of_int_xor_eq mult.commute)
  then show ?thesis by (simp add: uint_word_of_int take_bit_eq_mod)
qed

lemma hash_int: "uint (sdb_hash s) = hash_int s"
proof -
  have "uint (foldl (\<lambda>h c. (h + push_bit 5 h) XOR of_int (schar c)) h s) =
      foldl (\<lambda>h c. ((h * 33) XOR char_int c) mod 4294967296) (uint h) s" for h :: ut32
    by (induction s arbitrary: h) (simp_all add: hash_step schar_char_int)
  then show ?thesis by (simp add: sdb_hash_def hash_int_def CDB_HASHSTART_def)
qed

lemma sdb_hash_code [code]: "sdb_hash s = of_int (hash_int s)"
  by (simp flip: hash_int)

end
