(* ===== verification/R2_Endian.thy ===== *)
theory R2_Endian
  imports R2_Prelude
begin

text \<open>
  The endian accessors of \<^verbatim>\<open>libr/include/r_endian.h\<close> and the byte movers of
  \<^verbatim>\<open>libr/util/mem.c\<close> that the register file and the ESIL machine rest on. A pointer into a buffer
  is the buffer with a position; an accessor is undefined (\<open>None\<close>) when it leaves the buffer.
  The locale \<open>scalar_codec\<close> states the contract every fixed-width reader/writer pair keeps and is
  interpreted on all seven pairs of the header.
\<close>

section \<open>Accessors of r\_endian.h\<close>

definition r_read_ble8 :: "ut8 list \<Rightarrow> nat \<Rightarrow> ut8 option" where
  "r_read_ble8 src p = (if p < length src then Some (src ! p) else None)"

definition r_write_ble8 :: "ut8 list \<Rightarrow> nat \<Rightarrow> ut8 \<Rightarrow> ut8 list option" where
  "r_write_ble8 dest p val = (if p < length dest then Some (dest[p := val]) else None)"

definition r_read_be16 :: "ut8 list \<Rightarrow> nat \<Rightarrow> ut16 option" where
  "r_read_be16 s p = do {
     s0 \<leftarrow> r_read_ble8 s p; s1 \<leftarrow> r_read_ble8 s (p + 1);
     Some (push_bit 8 (ucast s0) OR push_bit 0 (ucast s1)) }"

definition r_write_be16 :: "ut8 list \<Rightarrow> nat \<Rightarrow> ut16 \<Rightarrow> ut8 list option" where
  "r_write_be16 dest p val = do {
     d \<leftarrow> r_write_ble8 dest p (ucast (drop_bit 8 val));
     r_write_ble8 d (p + 1) (ucast (drop_bit 0 val)) }"

definition r_read_be32 :: "ut8 list \<Rightarrow> nat \<Rightarrow> ut32 option" where
  "r_read_be32 s p = do {
     s0 \<leftarrow> r_read_ble8 s p; s1 \<leftarrow> r_read_ble8 s (p + 1);
     s2 \<leftarrow> r_read_ble8 s (p + 2); s3 \<leftarrow> r_read_ble8 s (p + 3);
     Some (push_bit 24 (ucast s0) OR push_bit 16 (ucast s1) OR
           push_bit 8 (ucast s2) OR push_bit 0 (ucast s3)) }"

definition r_write_be32 :: "ut8 list \<Rightarrow> nat \<Rightarrow> ut32 \<Rightarrow> ut8 list option" where
  "r_write_be32 dest p val = do {
     d \<leftarrow> r_write_be16 dest p (ucast (drop_bit 16 val));
     r_write_be16 d (p + 2) (ucast (drop_bit 0 val)) }"

definition r_read_be64 :: "ut8 list \<Rightarrow> nat \<Rightarrow> ut64 option" where
  "r_read_be64 src p = do {
     hi \<leftarrow> r_read_be32 src p; lo \<leftarrow> r_read_be32 src (p + 4);
     Some (push_bit 32 (ucast hi) OR ucast lo) }"

definition r_write_be64 :: "ut8 list \<Rightarrow> nat \<Rightarrow> ut64 \<Rightarrow> ut8 list option" where
  "r_write_be64 dest p val = do {
     d \<leftarrow> r_write_be32 dest p (ucast (drop_bit 32 val));
     r_write_be32 d (p + 4) (ucast (drop_bit 0 val)) }"

definition r_read_le16 :: "ut8 list \<Rightarrow> nat \<Rightarrow> ut16 option" where
  "r_read_le16 s p = do {
     s0 \<leftarrow> r_read_ble8 s p; s1 \<leftarrow> r_read_ble8 s (p + 1);
     Some (push_bit 8 (ucast s1) OR push_bit 0 (ucast s0)) }"

definition r_write_le16 :: "ut8 list \<Rightarrow> nat \<Rightarrow> ut16 \<Rightarrow> ut8 list option" where
  "r_write_le16 dest p val = do {
     d \<leftarrow> r_write_ble8 dest p (ucast (drop_bit 0 val));
     r_write_ble8 d (p + 1) (ucast (drop_bit 8 val)) }"

definition r_read_le32 :: "ut8 list \<Rightarrow> nat \<Rightarrow> ut32 option" where
  "r_read_le32 s p = do {
     s0 \<leftarrow> r_read_ble8 s p; s1 \<leftarrow> r_read_ble8 s (p + 1);
     s2 \<leftarrow> r_read_ble8 s (p + 2); s3 \<leftarrow> r_read_ble8 s (p + 3);
     Some (push_bit 24 (ucast s3) OR push_bit 16 (ucast s2) OR
           push_bit 8 (ucast s1) OR push_bit 0 (ucast s0)) }"

definition r_write_le32 :: "ut8 list \<Rightarrow> nat \<Rightarrow> ut32 \<Rightarrow> ut8 list option" where
  "r_write_le32 dest p val = do {
     d \<leftarrow> r_write_le16 dest p (ucast (drop_bit 0 val));
     r_write_le16 d (p + 2) (ucast (drop_bit 16 val)) }"

definition r_read_le64 :: "ut8 list \<Rightarrow> nat \<Rightarrow> ut64 option" where
  "r_read_le64 src p = do {
     hi \<leftarrow> r_read_le32 src (p + 4); lo \<leftarrow> r_read_le32 src p;
     Some (push_bit 32 (ucast hi) OR ucast lo) }"

definition r_write_le64 :: "ut8 list \<Rightarrow> nat \<Rightarrow> ut64 \<Rightarrow> ut8 list option" where
  "r_write_le64 dest p val = do {
     d \<leftarrow> r_write_le32 dest p (ucast (drop_bit 0 val));
     r_write_le32 d (p + 4) (ucast (drop_bit 32 val)) }"

definition r_read_ble16 :: "ut8 list \<Rightarrow> nat \<Rightarrow> bool \<Rightarrow> ut16 option" where
  "r_read_ble16 src p big_endian = (if big_endian then r_read_be16 src p else r_read_le16 src p)"

definition r_read_ble32 :: "ut8 list \<Rightarrow> nat \<Rightarrow> bool \<Rightarrow> ut32 option" where
  "r_read_ble32 src p big_endian = (if big_endian then r_read_be32 src p else r_read_le32 src p)"

definition r_read_ble64 :: "ut8 list \<Rightarrow> nat \<Rightarrow> bool \<Rightarrow> ut64 option" where
  "r_read_ble64 src p big_endian = (if big_endian then r_read_be64 src p else r_read_le64 src p)"

definition r_read_ble :: "ut8 list \<Rightarrow> nat \<Rightarrow> bool \<Rightarrow> int \<Rightarrow> ut64 option" where
  "r_read_ble src p big_endian sz =
     (if sz = 8 then map_option ucast (r_read_ble8 src p)
      else if sz = 16 then map_option ucast (r_read_ble16 src p big_endian)
      else if sz = 32 then map_option ucast (r_read_ble32 src p big_endian)
      else if sz = 64 then r_read_ble64 src p big_endian
      else Some UT64_MAX)"

definition r_write_ble16 :: "ut8 list \<Rightarrow> nat \<Rightarrow> ut16 \<Rightarrow> bool \<Rightarrow> ut8 list option" where
  "r_write_ble16 dest p val big_endian =
     (if big_endian then r_write_be16 dest p val else r_write_le16 dest p val)"

definition r_write_ble32 :: "ut8 list \<Rightarrow> nat \<Rightarrow> ut32 \<Rightarrow> bool \<Rightarrow> ut8 list option" where
  "r_write_ble32 dest p val big_endian =
     (if big_endian then r_write_be32 dest p val else r_write_le32 dest p val)"

definition r_write_ble64 :: "ut8 list \<Rightarrow> nat \<Rightarrow> ut64 \<Rightarrow> bool \<Rightarrow> ut8 list option" where
  "r_write_ble64 dest p val big_endian =
     (if big_endian then r_write_be64 dest p val else r_write_le64 dest p val)"

definition r_write_ble :: "ut8 list \<Rightarrow> nat \<Rightarrow> ut64 \<Rightarrow> bool \<Rightarrow> int \<Rightarrow> ut8 list option" where
  "r_write_ble dst p val big_endian sz =
     (if sz = 8 then r_write_ble8 dst p (ucast val)
      else if sz = 16 then r_write_ble16 dst p (ucast val) big_endian
      else if sz = 32 then r_write_ble32 dst p (ucast val) big_endian
      else if sz = 64 then r_write_ble64 dst p val big_endian
      else Some dst)"

section \<open>Byte movers of mem.c\<close>

definition r_mem_copybits :: "ut8 list \<Rightarrow> nat \<Rightarrow> ut8 list \<Rightarrow> int \<Rightarrow> ut8 list option" where
  "r_mem_copybits dst p src bits0 =
     (let bytes = nat (bits0 div 8); bits = bits0 mod 8 in do {
        s \<leftarrow> buf_read src 0 bytes;
        d \<leftarrow> buf_write dst p s;
        (if bits \<noteq> 0 then
           let (srcmask, dstmask) =
             (if bits = 1 then (0x80, 0x7f) else if bits = 2 then (0xc0, 0x3f)
              else if bits = 3 then (0xe0, 0x1f) else if bits = 4 then (0xf0, 0x0f)
              else if bits = 5 then (0xf8, 0x07) else if bits = 6 then (0xfc, 0x03)
              else (0xfe, 0x01))
           in do {
             db \<leftarrow> r_read_ble8 d (p + bytes);
             sb \<leftarrow> r_read_ble8 src bytes;
             r_write_ble8 d (p + bytes) ((db AND dstmask) OR (sb AND srcmask)) }
         else Some d) })"

text \<open>In-place byte reversal of the first \<open>size\<close> bytes; other sizes leave the buffer as it is.\<close>

definition r_mem_swapendian :: "ut8 list \<Rightarrow> int \<Rightarrow> ut8 list option" where
  "r_mem_swapendian orig sz =
     (if sz \<in> {1, 2, 4, 8}
      then do { b \<leftarrow> buf_read orig 0 (nat sz); buf_write orig 0 (rev b) }
      else Some orig)"

definition r_mem_get_num :: "ut8 list \<Rightarrow> int \<Rightarrow> ut64 option" where
  "r_mem_get_num b sz =
     (if sz = 1 then map_option ucast (r_read_ble8 b 0)
      else if sz = 2 then map_option ucast (r_read_le16 b 0)
      else if sz = 4 then map_option ucast (r_read_le32 b 0)
      else if sz = 8 then r_read_le64 b 0
      else Some 0)"

definition r_mem_set_num :: "ut8 list \<Rightarrow> int \<Rightarrow> ut64 \<Rightarrow> (bool \<times> ut8 list) option" where
  "r_mem_set_num dest dest_size num =
     (if dest_size = 1 then map_option (Pair True) (r_write_ble8 dest 0 (ucast (num AND 0xff)))
      else if dest_size = 2 then map_option (Pair True) (r_write_le16 dest 0 (ucast (num AND 0xffff)))
      else if dest_size = 4 then map_option (Pair True) (r_write_le32 dest 0 (ucast (num AND 0xffffffff)))
      else if dest_size = 8 then map_option (Pair True) (r_write_le64 dest 0 num)
      else Some (False, dest))"

section \<open>The contract of a fixed-width codec\<close>

locale scalar_codec =
  fixes rd :: "ut8 list \<Rightarrow> nat \<Rightarrow> 'v option"
    and wr :: "ut8 list \<Rightarrow> nat \<Rightarrow> 'v \<Rightarrow> ut8 list option"
    and enc :: "'v \<Rightarrow> ut8 list"
    and dec :: "ut8 list \<Rightarrow> 'v"
    and width :: nat
  assumes wr_enc: "wr buf p v = buf_write buf p (enc v)"
    and rd_dec: "rd buf p = map_option dec (buf_read buf p width)"
    and enc_width: "length (enc v) = width"
    and dec_enc: "dec (enc v) = v"
begin

lemma wr_defined: "p + width \<le> length buf \<Longrightarrow> \<exists>b. wr buf p v = Some b"
  by (simp add: wr_enc enc_width buf_write_def)

lemma wr_outside: "\<not> p + width \<le> length buf \<Longrightarrow> wr buf p v = None"
  by (simp add: wr_enc enc_width buf_write_def)

lemma wr_length: "wr buf p v = Some b \<Longrightarrow> length b = length buf"
  by (auto simp: wr_enc intro: buf_write_length)

lemma rd_defined: "p + width \<le> length buf \<Longrightarrow> \<exists>v. rd buf p = Some v"
  by (simp add: rd_dec buf_read_def)

lemma rd_wr_same: "wr buf p v = Some b \<Longrightarrow> rd b p = Some v"
  using buf_read_write_same [of buf p "enc v" b] by (simp add: wr_enc rd_dec enc_width dec_enc)

lemma rd_wr_other:
  "wr buf p v = Some b \<Longrightarrow> q + width \<le> p \<or> p + width \<le> q \<Longrightarrow> rd b q = rd buf q"
  using buf_read_write_other [of buf p "enc v" b q width] by (simp add: wr_enc rd_dec enc_width)

lemma wr_frame:
  "wr buf p v = Some b \<Longrightarrow> i < length buf \<Longrightarrow> i < p \<or> p + width \<le> i \<Longrightarrow> b ! i = buf ! i"
  using buf_write_nth [of buf p "enc v" b i] by (auto simp: wr_enc enc_width)

lemma enc_inject: "enc v = enc w \<Longrightarrow> v = w"
  by (metis dec_enc)

end


section \<open>Interpretations\<close>

lemma buf_write_append:
  "Option.bind (buf_write buf p xs) (\<lambda>b. buf_write b (p + length xs) ys) = buf_write buf p (xs @ ys)"
proof (cases "p + length xs \<le> length buf")
  case True
  then have "min (length buf) p = p" by simp
  with True show ?thesis by (auto simp: buf_write_def ac_simps)
next
  case False
  then show ?thesis by (simp add: buf_write_def)
qed

lemma buf_write_pair:
  "n = length xs \<Longrightarrow>
   Option.bind (buf_write buf p xs) (\<lambda>b. buf_write b (p + n) ys) = buf_write buf p (xs @ ys)"
  by (simp add: buf_write_append)

lemma buf_read_Suc:
  "buf_read s p (Suc n) = do { a \<leftarrow> r_read_ble8 s p; as \<leftarrow> buf_read s (Suc p) n; Some (a # as) }"
  by (auto simp: buf_read_def r_read_ble8_def Cons_nth_drop_Suc [symmetric])

lemma buf_read_0: "buf_read s p 0 = (if p \<le> length s then Some [] else None)"
  by (simp add: buf_read_def)

lemma r_read_ble8_bound: "r_read_ble8 s p = Some x \<Longrightarrow> Suc p \<le> length s"
  by (auto simp: r_read_ble8_def split: if_splits)

lemma buf_read_split:
  "buf_read s p (m + n) = do { a \<leftarrow> buf_read s p m; b \<leftarrow> buf_read s (p + m) n; Some (a @ b) }"
  by (auto simp: buf_read_def take_add add.commute add.left_commute)

definition enc8 :: "ut8 \<Rightarrow> ut8 list" where "enc8 v = [v]"

definition enc_le16 :: "ut16 \<Rightarrow> ut8 list" where
  "enc_le16 v = [ucast v, ucast (drop_bit 8 v)]"

definition enc_le32 :: "ut32 \<Rightarrow> ut8 list" where
  "enc_le32 v = enc_le16 (ucast v) @ enc_le16 (ucast (drop_bit 16 v))"

definition enc_le64 :: "ut64 \<Rightarrow> ut8 list" where
  "enc_le64 v = enc_le32 (ucast v) @ enc_le32 (ucast (drop_bit 32 v))"

definition dec_le16 :: "ut8 list \<Rightarrow> ut16" where
  "dec_le16 b = push_bit 8 (ucast (b ! 1)) OR ucast (b ! 0)"

definition dec_le32 :: "ut8 list \<Rightarrow> ut32" where
  "dec_le32 b = push_bit 24 (ucast (b ! 3)) OR push_bit 16 (ucast (b ! 2)) OR
     push_bit 8 (ucast (b ! 1)) OR ucast (b ! 0)"

definition dec_le64 :: "ut8 list \<Rightarrow> ut64" where
  "dec_le64 b = push_bit 32 (ucast (dec_le32 (drop 4 b))) OR ucast (dec_le32 b)"

lemmas enc_defs = enc8_def enc_le16_def enc_le32_def enc_le64_def
lemmas dec_defs = dec_le16_def dec_le32_def dec_le64_def

lemma r_write_ble8_eq: "r_write_ble8 dest p v = buf_write dest p [v]"
  by (auto simp: r_write_ble8_def buf_write_def upd_conv_take_nth_drop)

lemma r_read_ble8_eq: "r_read_ble8 src p = map_option hd (buf_read src p 1)"
  by (auto simp: r_read_ble8_def buf_read_def hd_drop_conv_nth take_Suc)

lemma write_le_eqs:
  "r_write_le16 d p v16 = buf_write d p (enc_le16 v16)"
  "r_write_le32 d p v32 = buf_write d p (enc_le32 v32)"
  "r_write_le64 d p v64 = buf_write d p (enc_le64 v64)"
proof -
  show 16: "r_write_le16 d p v = buf_write d p (enc_le16 v)" for d p v
    unfolding r_write_le16_def r_write_ble8_eq by (subst buf_write_pair) (simp_all add: enc_defs)
  show 32: "r_write_le32 d p v = buf_write d p (enc_le32 v)" for d p v
    unfolding r_write_le32_def 16 by (subst buf_write_pair) (simp_all add: enc_defs)
  show "r_write_le64 d p v64 = buf_write d p (enc_le64 v64)"
    unfolding r_write_le64_def 32 by (subst buf_write_pair) (simp_all add: enc_defs)
qed

lemma write_be_eqs:
  "r_write_be16 d p v16 = buf_write d p (rev (enc_le16 v16))"
  "r_write_be32 d p v32 = buf_write d p (rev (enc_le32 v32))"
  "r_write_be64 d p v64 = buf_write d p (rev (enc_le64 v64))"
proof -
  show 16: "r_write_be16 d p v = buf_write d p (rev (enc_le16 v))" for d p v
    unfolding r_write_be16_def r_write_ble8_eq by (subst buf_write_pair) (simp_all add: enc_defs)
  show 32: "r_write_be32 d p v = buf_write d p (rev (enc_le32 v))" for d p v
    unfolding r_write_be32_def 16 by (subst buf_write_pair) (simp_all add: enc_defs)
  show "r_write_be64 d p v64 = buf_write d p (rev (enc_le64 v64))"
    unfolding r_write_be64_def 32 by (subst buf_write_pair) (simp_all add: enc_defs)
qed

lemma read_16_eqs:
  "r_read_le16 s p = map_option dec_le16 (buf_read s p 2)"
  "r_read_be16 s p = map_option (dec_le16 \<circ> rev) (buf_read s p 2)"
  by (auto simp: r_read_le16_def r_read_be16_def buf_read_def r_read_ble8_def dec_defs rev_nth)

lemma read_32_eqs:
  "r_read_le32 s p = map_option dec_le32 (buf_read s p 4)"
  "r_read_be32 s p = map_option (dec_le32 \<circ> rev) (buf_read s p 4)"
  by (auto simp: r_read_le32_def r_read_be32_def buf_read_def r_read_ble8_def dec_defs rev_nth)

lemma read_64_eqs:
  "r_read_le64 s p = map_option dec_le64 (buf_read s p 8)"
  "r_read_be64 s p = map_option (dec_le64 \<circ> rev) (buf_read s p 8)"
  by (auto simp: r_read_le64_def r_read_be64_def read_32_eqs buf_read_def dec_defs rev_nth
      drop_rev take_drop add.commute [of _ p])

lemma dec_enc_le:
  "dec_le16 (enc_le16 v16) = v16"
  "dec_le32 (enc_le32 v32) = v32"
  by (auto simp: dec_defs enc_defs nth_append bit_simps intro!: bit_word_eqI)

lemma length_enc [simp]:
  "length (enc_le16 a) = 2" "length (enc_le32 b) = 4" "length (enc_le64 c) = 8"
  by (simp_all add: enc_defs)

lemma dec_enc_le64: "dec_le64 (enc_le64 v) = v"
proof -
  have "dec_le32 (x @ y) = dec_le32 x" if "length x = 4" for x y
    using that by (simp add: dec_defs nth_append)
  then show ?thesis
    by (auto simp: dec_le64_def enc_le64_def dec_enc_le bit_simps intro!: bit_word_eqI)
qed

interpretation ble8: scalar_codec r_read_ble8 r_write_ble8 enc8 hd 1
  by unfold_locales (simp_all add: r_write_ble8_eq r_read_ble8_eq enc8_def)

interpretation le16: scalar_codec r_read_le16 r_write_le16 enc_le16 dec_le16 2
  by unfold_locales (simp_all add: write_le_eqs read_16_eqs dec_enc_le)

interpretation le32: scalar_codec r_read_le32 r_write_le32 enc_le32 dec_le32 4
  by unfold_locales (simp_all add: write_le_eqs read_32_eqs dec_enc_le)

interpretation le64: scalar_codec r_read_le64 r_write_le64 enc_le64 dec_le64 8
  by unfold_locales (simp_all add: write_le_eqs read_64_eqs dec_enc_le64)

interpretation be16: scalar_codec r_read_be16 r_write_be16 "rev \<circ> enc_le16" "dec_le16 \<circ> rev" 2
  by unfold_locales (simp_all add: write_be_eqs read_16_eqs dec_enc_le)

interpretation be32: scalar_codec r_read_be32 r_write_be32 "rev \<circ> enc_le32" "dec_le32 \<circ> rev" 4
  by unfold_locales (simp_all add: write_be_eqs read_32_eqs dec_enc_le)

interpretation be64: scalar_codec r_read_be64 r_write_be64 "rev \<circ> enc_le64" "dec_le64 \<circ> rev" 8
  by unfold_locales (simp_all add: write_be_eqs read_64_eqs dec_enc_le64)

end
