(* ===== verification/R2_Reg.thy ===== *)
theory R2_Reg
  imports R2_Endian
begin

text \<open>
  The register file: \<^verbatim>\<open>libr/reg/reg.c\<close>, \<^verbatim>\<open>value.c\<close>, \<^verbatim>\<open>arena.c\<close> and \<^verbatim>\<open>cond.c\<close>.

  A register is an item (name, type, size and offset in bits); its bits live in the arena of its
  register set. \<open>regset.arena\<close> is a pointer that aliases the last arena of \<open>regset.pool\<close>, and the
  pools are stacks of saved contents, so arenas are objects of a store: a pointer is an index of
  \<open>store\<close>, a freed arena is \<open>None\<close> there. \<open>arena->size\<close> is the length of the arena's bytes; the eight
  bytes \<open>r_reg_arena_new\<close> over-allocates are never initialised and an access to them counts as
  undefined, as does every other access outside an arena. Allocation does not fail.
\<close>

section \<open>Data\<close>

record reg_item =
  ri_name :: string
  ri_type :: int
  ri_size :: int
  ri_offset :: int
  ri_packed_size :: int
  ri_is_float :: bool
  ri_flags :: "string option"
  ri_index :: int

type_synonym arena = "ut8 list"

record reg_set =
  rs_arena :: nat
  rs_pool :: "nat list"
  rs_regs :: "reg_item list"

record reg =
  rg_profile_str :: "string option"
  rg_profile_cmt :: string
  rg_name :: "string option list"
  rg_regset :: "reg_set list"
  rg_store :: "arena option list"
  rg_bits :: int
  rg_size :: int
  rg_big_endian :: bool

abbreviation (input) R_REG_TYPE_GPR :: int where "R_REG_TYPE_GPR \<equiv> 0"
abbreviation (input) R_REG_TYPE_FLG :: int where "R_REG_TYPE_FLG \<equiv> 5"
abbreviation (input) R_REG_TYPE_LAST :: int where "R_REG_TYPE_LAST \<equiv> 7"
abbreviation (input) R_REG_TYPE_ALL :: int where "R_REG_TYPE_ALL \<equiv> - 1"
abbreviation (input) R_REG_NAME_PC :: int where "R_REG_NAME_PC \<equiv> 0"
abbreviation (input) R_REG_NAME_SP :: int where "R_REG_NAME_SP \<equiv> 1"
abbreviation (input) R_REG_NAME_BP :: int where "R_REG_NAME_BP \<equiv> 3"
abbreviation (input) R_REG_NAME_LAST :: int where "R_REG_NAME_LAST \<equiv> 21"

definition reg_types :: "string list" where
  "reg_types = [''gpr'', ''drx'', ''fpu'', ''mmx'', ''xmm'', ''flg'', ''seg'']"

text \<open>Loads and stores through an arena pointer.\<close>

definition arena_get :: "reg \<Rightarrow> nat \<Rightarrow> arena option" where
  "arena_get r a = (if a < length (rg_store r) then rg_store r ! a else None)"

definition arena_set :: "reg \<Rightarrow> nat \<Rightarrow> arena \<Rightarrow> reg" where
  "arena_set r a bs = r\<lparr>rg_store := (rg_store r)[a := Some bs]\<rparr>"

definition regset_arena :: "reg \<Rightarrow> int \<Rightarrow> (nat \<times> arena) option" where
  "regset_arena r t = do {
     rs \<leftarrow> nth_opt (rg_regset r) t;
     bs \<leftarrow> arena_get r (rs_arena rs);
     Some (rs_arena rs, bs) }"

section \<open>reg.c\<close>

definition strlower :: "string \<Rightarrow> string" where
  "strlower = map (\<lambda>c. if 65 \<le> char_code c \<and> char_code c \<le> 90 then char_of (char_code c + 32) else c)"

definition r_reg_32_to_64 :: "reg \<Rightarrow> string \<Rightarrow> string option" where
  "r_reg_32_to_64 r rreg32 =
     (let hit = (\<lambda>rs. find (\<lambda>i. strlower rreg32 = strlower (ri_name i) \<and> ri_size i = 32) (rs_regs rs));
          j = foldl (\<lambda>j rs. case hit rs of Some i \<Rightarrow> ri_offset i | None \<Rightarrow> j) (- 1) (rg_regset r)
      in if j \<noteq> - 1
         then map_option ri_name
           (find (\<lambda>i. ri_offset i = j \<and> ri_size i = 64) (concat (map rs_regs (rg_regset r))))
         else None)"

definition r_reg_get_type :: "int \<Rightarrow> string option" where
  "r_reg_get_type idx = (if 0 \<le> idx \<and> idx < R_REG_TYPE_LAST then Some (reg_types ! nat idx) else None)"

definition index_of :: "'a \<Rightarrow> 'a list \<Rightarrow> int" where
  "index_of x xs = int (length (takeWhile (\<lambda>y. y \<noteq> x) xs))"

definition r_reg_type_by_name :: "string \<Rightarrow> int" where
  "r_reg_type_by_name str =
     (if str \<in> set reg_types then index_of str reg_types
      else if str = ''all'' then R_REG_TYPE_ALL
      else - 1)"

definition reg_name_idx_table :: "(string \<times> int) list" where
  "reg_name_idx_table =
     [(''ZF'', 16), (''SF'', 17), (''CF'', 18), (''OF'', 19),
      (''PC'', 0), (''SR'', 2), (''LR'', 4), (''SP'', 1), (''BP'', 3), (''SN'', 20),
      (''A0'', 5), (''A1'', 6), (''A2'', 7), (''A3'', 8), (''A4'', 9), (''A5'', 10), (''A6'', 11),
      (''R0'', 12), (''R1'', 13), (''R2'', 14), (''R3'', 15)]"

text \<open>Only the first two characters of the role name are looked at.\<close>

definition r_reg_get_name_idx :: "string \<Rightarrow> int" where
  "r_reg_get_name_idx type =
     (if type = [] then - 1
      else case map_of reg_name_idx_table [chr_at type 0, chr_at type 1] of
        Some i \<Rightarrow> i | None \<Rightarrow> - 1)"

definition r_reg_set_name :: "reg \<Rightarrow> int \<Rightarrow> string \<Rightarrow> bool \<times> reg" where
  "r_reg_set_name r role name =
     (if 0 \<le> role \<and> role < R_REG_NAME_LAST
      then (True, r\<lparr>rg_name := (rg_name r)[nat role := Some name]\<rparr>)
      else (False, r))"

definition r_reg_get_name :: "reg \<Rightarrow> int \<Rightarrow> string option" where
  "r_reg_get_name r role =
     (if 0 \<le> role \<and> role < R_REG_NAME_LAST then Option.bind (nth_opt (rg_name r) role) id else None)"

definition reg_roles :: "string list" where
  "reg_roles = [''PC'', ''SP'', ''SR'', ''BP'', ''Ao'', ''A1'',
     ''A2'', ''A3'', ''A4'', ''A5'', ''A6'', ''ZF'', ''SF'', ''CF'', ''OF'', ''SB'']"

definition r_reg_get_role :: "int \<Rightarrow> string option" where
  "r_reg_get_role role =
     (if 0 \<le> role \<and> role < R_REG_NAME_LAST then nth_opt reg_roles role else None)"

definition r_reg_free_internal :: "reg \<Rightarrow> reg" where
  "r_reg_free_internal r =
     r\<lparr>rg_profile_str := None, rg_profile_cmt := [],
       rg_name := map (\<lambda>_. None) (rg_name r),
       rg_regset := map (\<lambda>rs. rs\<lparr>rs_regs := []\<rparr>) (rg_regset r),
       rg_size := 0\<rparr>"

definition r_reg_get :: "reg \<Rightarrow> string \<Rightarrow> int \<Rightarrow> reg_item option" where
  "r_reg_get r name type =
     (let type' = (if type = R_REG_TYPE_FLG then R_REG_TYPE_GPR else type);
          sets = (if type' = - 1 then rg_regset r
                  else (case nth_opt (rg_regset r) type' of None \<Rightarrow> [] | Some rs \<Rightarrow> [rs]))
      in find (\<lambda>i. ri_name i = name) (concat (map rs_regs sets)))"

definition r_reg_get_list :: "reg \<Rightarrow> int \<Rightarrow> reg_item list option" where
  "r_reg_get_list r type =
     (if type < 0 \<or> type > R_REG_TYPE_LAST - 1 then None
      else map_option rs_regs (nth_opt (rg_regset r) type))"

definition r_reg_get_at :: "reg \<Rightarrow> int \<Rightarrow> int \<Rightarrow> int \<Rightarrow> reg_item option" where
  "r_reg_get_at r type regsize delta =
     (case r_reg_get_list r type of
        None \<Rightarrow> None
      | Some l \<Rightarrow> find (\<lambda>ri. ri_size ri = regsize \<and> bits2bytes (ri_offset ri) = delta) l)"

section \<open>arena.c\<close>

definition r_reg_arena_new :: "reg \<Rightarrow> int \<Rightarrow> nat \<times> reg" where
  "r_reg_arena_new r sz =
     (length (rg_store r),
      r\<lparr>rg_store := rg_store r @ [Some (replicate (nat (if sz < 1 then 1 else sz)) 0)]\<rparr>)"

definition r_reg_arena_free :: "reg \<Rightarrow> nat \<Rightarrow> reg" where
  "r_reg_arena_free r a = r\<lparr>rg_store := (rg_store r)[a := None]\<rparr>"

definition upd_regset :: "reg \<Rightarrow> nat \<Rightarrow> (reg_set \<Rightarrow> reg_set) \<Rightarrow> reg" where
  "upd_regset r i f =
     (if i < length (rg_regset r) then r\<lparr>rg_regset := (rg_regset r)[i := f (rg_regset r ! i)]\<rparr> else r)"

text \<open>One turn of the loop of \<open>r_reg_arena_push\<close>: copy the current arena into a fresh one.\<close>

definition arena_push_set :: "nat \<Rightarrow> reg \<Rightarrow> reg option" where
  "arena_push_set i r = do {
     (_, a) \<leftarrow> regset_arena r (int i);
     (let (b, r1) = r_reg_arena_new r (int (length a));
          new = a @ replicate (max 1 (length a) - length a) 0
      in Some (upd_regset (arena_set r1 b new) i
                 (\<lambda>rs. rs\<lparr>rs_pool := rs_pool rs @ [b], rs_arena := b\<rparr>))) }"

fun for_sets :: "(nat \<Rightarrow> 'r \<Rightarrow> 'r option) \<Rightarrow> nat list \<Rightarrow> 'r \<Rightarrow> 'r option" where
  "for_sets f [] r = Some r"
| "for_sets f (i # is) r = Option.bind (f i r) (for_sets f is)"

definition r_reg_arena_push :: "reg \<Rightarrow> (int \<times> reg) option" where
  "r_reg_arena_push r = do {
     r \<leftarrow> for_sets arena_push_set [0..<7] r;
     rs \<leftarrow> nth_opt (rg_regset r) 0;
     Some (int (length (rs_pool rs)), r) }"

definition arena_pop_set :: "nat \<Rightarrow> reg \<Rightarrow> reg option" where
  "arena_pop_set i r = do {
     rs \<leftarrow> nth_opt (rg_regset r) (int i);
     (if length (rs_pool rs) < 2 then Some r
      else let a = last (rs_pool rs); pool = butlast (rs_pool rs)
           in Some (upd_regset (r_reg_arena_free r a) i
                      (\<lambda>rs. rs\<lparr>rs_pool := pool, rs_arena := last pool\<rparr>))) }"

definition r_reg_arena_pop :: "reg \<Rightarrow> reg option" where
  "r_reg_arena_pop r = for_sets arena_pop_set [0..<7] r"

definition swap_last2 :: "'a list \<Rightarrow> 'a list" where
  "swap_last2 xs = (case rev xs of a # b # ys \<Rightarrow> rev (b # a # ys) | _ \<Rightarrow> xs)"

text \<open>The loop stops at the first set whose pool has fewer than two arenas.\<close>

fun arena_swap_sets :: "nat list \<Rightarrow> reg \<Rightarrow> reg" where
  "arena_swap_sets [] r = r"
| "arena_swap_sets (i # is) r =
     (case nth_opt (rg_regset r) (int i) of
        None \<Rightarrow> r
      | Some rs \<Rightarrow>
          if length (rs_pool rs) > 1
          then let pool = swap_last2 (rs_pool rs)
               in arena_swap_sets is (upd_regset r i (\<lambda>rs. rs\<lparr>rs_pool := pool, rs_arena := last pool\<rparr>))
          else r)"

definition r_reg_arena_swap :: "reg \<Rightarrow> reg" where
  "r_reg_arena_swap r = arena_swap_sets [0..<7] r"

definition arena_zero_set :: "nat \<Rightarrow> reg \<Rightarrow> reg option" where
  "arena_zero_set i r = do {
     (a, bs) \<leftarrow> regset_arena r (int i);
     Some (if length bs > 0 then arena_set r a (replicate (length bs) 0) else r) }"

definition r_reg_arena_zero :: "reg \<Rightarrow> reg option" where
  "r_reg_arena_zero r = for_sets arena_zero_set [0..<7] r"

definition r_reg_arena_peek :: "reg \<Rightarrow> arena option option" where
  "r_reg_arena_peek r = do {
     (_, bs) \<leftarrow> regset_arena r R_REG_TYPE_GPR;
     Some (if length bs < 1 then None else Some bs) }"

definition r_reg_arena_poke :: "reg \<Rightarrow> ut8 list option \<Rightarrow> reg option" where
  "r_reg_arena_poke r ret = do {
     (a, bs) \<leftarrow> regset_arena r R_REG_TYPE_GPR;
     (case ret of
        None \<Rightarrow> Some r
      | Some src \<Rightarrow>
          if bs = [] then Some r
          else do { s \<leftarrow> buf_read src 0 (length bs); Some (arena_set r a s) }) }"

definition r_reg_arena_dup :: "reg \<Rightarrow> ut8 list \<Rightarrow> arena option option" where
  "r_reg_arena_dup r source = do {
     (_, bs) \<leftarrow> regset_arena r R_REG_TYPE_GPR;
     (if length bs < 1 then Some None
      else do { s \<leftarrow> buf_read source 0 (length bs); Some (Some s) }) }"

text \<open>\<open>None\<close> inside is the null pointer the function returns for a bad type.\<close>

definition r_reg_get_bytes :: "reg \<Rightarrow> int \<Rightarrow> ut8 list option option" where
  "r_reg_get_bytes r type =
     (if type = - 1 then do {
        bss \<leftarrow> those (map (\<lambda>i. map_option snd (regset_arena r (int i))) [0..<7]);
        Some (Some (concat bss)) }
      else if type < 0 \<or> type > R_REG_TYPE_LAST - 1 then Some None
      else do { (_, bs) \<leftarrow> regset_arena r type; Some (Some bs) })"

definition r_reg_set_bytes :: "reg \<Rightarrow> int \<Rightarrow> ut8 list option \<Rightarrow> int \<Rightarrow> (bool \<times> reg) option" where
  "r_reg_set_bytes r type buf len =
     (case buf of
        None \<Rightarrow> Some (False, r)
      | Some b \<Rightarrow>
          if len < 1 then Some (False, r)
          else if type < 0 \<or> type \<ge> R_REG_TYPE_LAST then Some (False, r)
          else do {
            (a, bs) \<leftarrow> regset_arena r type;
            (let maxsz = max (int (length bs)) len; minsz = min (int (length bs)) len in do {
              s \<leftarrow> buf_read b 0 (nat minsz);
              Some (True, arena_set r a (s @ replicate (nat (maxsz - minsz)) 0)) }) })"

text \<open>
  \<open>r_reg_read_regs\<close> fills the arenas one after the other from a buffer of \<open>len\<close> bytes; the copy of
  \<open>R_MIN (len - off, arena->size)\<close> bytes is undefined when \<open>off\<close> has passed \<open>len\<close>.
\<close>

fun read_regs_loop :: "nat list \<Rightarrow> reg \<Rightarrow> ut8 list \<Rightarrow> int \<Rightarrow> int \<Rightarrow> (bool \<times> reg) option" where
  "read_regs_loop [] r buf len off = Some (True, r)"
| "read_regs_loop (i # is) r buf len off = do {
     (a, bs) \<leftarrow> regset_arena r (int i);
     (if bs = [] then Some (False, r)
      else if len - off < 0 then None
      else let n = nat (min (len - off) (int (length bs))) in do {
        s \<leftarrow> buf_read buf (nat off) n;
        (let r' = arena_set r a (s @ replicate (length bs - n) 0); off' = off + int (length bs)
         in if off' > len then Some (False, r') else read_regs_loop is r' buf len off') }) }"

definition r_reg_read_regs :: "reg \<Rightarrow> ut8 list \<Rightarrow> int \<Rightarrow> (bool \<times> reg) option" where
  "r_reg_read_regs r buf len = read_regs_loop [0..<7] r buf len 0"

definition set_extent :: "reg_set \<Rightarrow> int" where
  "set_extent rs = foldl (\<lambda>m i. max (bits2bytes (ri_offset i + ri_size i)) m) 0 (rs_regs rs)"

definition fit_arena_set :: "nat \<Rightarrow> reg \<Rightarrow> reg option" where
  "fit_arena_set i r = do {
     rs \<leftarrow> nth_opt (rg_regset r) (int i);
     (_, _) \<leftarrow> regset_arena r (int i);
     (let newsize = set_extent rs
      in Some (arena_set r (rs_arena rs) (if newsize < 1 then [] else replicate (nat newsize) 0))) }"

definition r_reg_fit_arena :: "reg \<Rightarrow> (bool \<times> reg) option" where
  "r_reg_fit_arena r = map_option (Pair True) (for_sets fit_arena_set [0..<7] r)"

text \<open>\<open>r_reg_new\<close>: seven sets with a one-byte arena each, pushed once.\<close>

definition reg_blank :: reg where
  "reg_blank = \<lparr>rg_profile_str = None, rg_profile_cmt = [], rg_name = replicate 21 None,
     rg_regset = map (\<lambda>i. \<lparr>rs_arena = i, rs_pool = [], rs_regs = []\<rparr>) [0..<7],
     rg_store = replicate 7 (Some [0]), rg_bits = 0, rg_size = 0, rg_big_endian = False\<rparr>"

definition r_reg_new :: "reg option" where
  "r_reg_new = map_option snd (r_reg_arena_push reg_blank)"

section \<open>value.c\<close>

definition rd_at :: "(ut8 list \<Rightarrow> nat \<Rightarrow> 'v option) \<Rightarrow> ut8 list \<Rightarrow> int \<Rightarrow> 'v option" where
  "rd_at rd bs off = (if off < 0 then None else rd bs (nat off))"

text \<open>
  A \<open>long double\<close> read from memory (sixteen bytes of which the x87 format uses ten) and converted
  to \<open>ut64\<close>; the conversion of a value outside the range of \<open>ut64\<close> is undefined.
\<close>

definition longdouble_to_ut64 :: "ut8 list \<Rightarrow> nat \<Rightarrow> ut64 option" where
  "longdouble_to_ut64 bs p = do {
     _ \<leftarrow> buf_read bs p 16;
     mant \<leftarrow> r_read_le64 bs p;
     se \<leftarrow> r_read_le16 bs (p + 8);
     (let e = unat (se AND 0x7fff)
      in if mant = 0 \<or> e < 16383 then Some 0
         else if bit se 15 \<or> e > 16446 then None
         else Some (drop_bit (16446 - e) mant)) }"

definition r_reg_get_value :: "reg \<Rightarrow> reg_item option \<Rightarrow> ut64 option" where
  "r_reg_get_value r item = (case item of
     None \<Rightarrow> Some 0
   | Some it \<Rightarrow> do {
       (_, bs) \<leftarrow> regset_arena r (ri_type it);
       (let off = bits2bytes (ri_offset it); sz = int (length bs) in
        if ri_size it = 1 then
          (if ri_offset it < 0 then None
           else do { b \<leftarrow> r_read_ble8 bs (nat (ri_offset it div 8));
                     Some (if bit b (nat (ri_offset it mod 8)) then 1 else 0) })
        else if ri_size it = 4 then
          (if sz - off - 1 \<ge> 0 then map_option (\<lambda>b. ucast b AND 0xF) (rd_at r_read_ble8 bs off) else Some 0)
        else if ri_size it = 8 then
          (if sz - off - 1 \<ge> 0 then map_option ucast (rd_at r_read_ble8 bs off) else Some 0)
        else if ri_size it = 16 then
          (if sz - off - 2 \<ge> 0
           then map_option ucast (rd_at (\<lambda>b p. r_read_ble16 b p (rg_big_endian r)) bs off) else Some 0)
        else if ri_size it = 32 then
          (if off + 4 \<le> sz
           then map_option ucast (rd_at (\<lambda>b p. r_read_ble32 b p (rg_big_endian r)) bs off) else Some 0)
        else if ri_size it = 64 then
          (if off + 8 \<le> sz
           then rd_at (\<lambda>b p. r_read_ble64 b p (rg_big_endian r)) bs off else Some 0)
        else if ri_size it = 80 \<or> ri_size it = 96 then
          (if sz - off - 1 \<ge> 0 then rd_at longdouble_to_ut64 bs off else Some 0)
        else Some 0) })"

text \<open>
  The value to store is first laid out in the twelve-byte buffer \<open>bytes\<close> of the C function. For 80
  and 96 bits nothing is laid out there, so what is copied is indeterminate.
\<close>

definition set_value_src :: "bool \<Rightarrow> int \<Rightarrow> ut64 \<Rightarrow> ut8 list option" where
  "set_value_src be sz value =
     (let bytes = replicate 12 0 in
      if sz = 64 then (if be then r_write_be64 bytes 0 value else r_write_le64 bytes 0 value)
      else if sz = 32 then (if be then r_write_be32 bytes 0 (ucast value) else r_write_le32 bytes 0 (ucast value))
      else if sz = 16 then (if be then r_write_be16 bytes 0 (ucast value) else r_write_le16 bytes 0 (ucast value))
      else if sz = 8 then r_write_ble8 bytes 0 (ucast (value AND 0xff))
      else None)"

definition r_reg_set_value :: "reg \<Rightarrow> reg_item option \<Rightarrow> ut64 \<Rightarrow> (bool \<times> reg) option" where
  "r_reg_set_value r item value = (case item of
     None \<Rightarrow> Some (False, r)
   | Some it \<Rightarrow>
       if ri_size it = 1 then do {
         (a, bs) \<leftarrow> regset_arena r (ri_type it);
         (if ri_offset it < 0 then None
          else let p = nat (ri_offset it div 8); mask = push_bit (nat (ri_offset it mod 8)) (1 :: ut8) in do {
            b \<leftarrow> r_read_ble8 bs p;
            bs' \<leftarrow> r_write_ble8 bs p (if value \<noteq> 0 then (b AND (0xff XOR mask)) OR mask
                                     else (b AND (0xff XOR mask)) OR 0);
            Some (True, arena_set r a bs') }) }
       else if ri_size it \<in> {8, 16, 32, 64, 80, 96} then do {
         (a, bs) \<leftarrow> regset_arena r (ri_type it);
         (if int (length bs) - bits2bytes (ri_offset it) - bits2bytes (ri_size it) \<ge> 0 then do {
            src \<leftarrow> set_value_src (rg_big_endian r) (ri_size it) value;
            (if bits2bytes (ri_offset it) < 0 then None
             else do {
               bs' \<leftarrow> r_mem_copybits bs (nat (bits2bytes (ri_offset it))) src (ri_size it);
               Some (True, arena_set r a bs') }) }
          else Some (False, r)) }
       else Some (False, r))"

definition r_reg_setv :: "reg \<Rightarrow> string \<Rightarrow> ut64 \<Rightarrow> (bool \<times> reg) option" where
  "r_reg_setv r name val = r_reg_set_value r (r_reg_get r name (- 1)) val"

definition r_reg_getv :: "reg \<Rightarrow> string \<Rightarrow> ut64 option" where
  "r_reg_getv r name = r_reg_get_value r (r_reg_get r name (- 1))"

text \<open>Packed registers. \<open>memcpy\<close> into an eight-byte integer on a little-endian host.\<close>

definition r_reg_get_pack :: "reg \<Rightarrow> reg_item option \<Rightarrow> int \<Rightarrow> int \<Rightarrow> ut64 option" where
  "r_reg_get_pack r item packidx packbits0 = (case item of
     None \<Rightarrow> Some 0
   | Some it \<Rightarrow>
       (let packbits = (if packbits0 < 1 then ri_packed_size it else packbits0);
            packbytes = c_div packbits 8
        in if c_mod packbits 8 \<noteq> 0 then Some 0
           else do {
             (_, bs) \<leftarrow> regset_arena r (ri_type it);
             (let off = bits2bytes (ri_offset it) + packidx * packbytes
              in if int (length bs) - off - 1 \<ge> 0
                 then (if off < 0 \<or> packbytes < 0 \<or> packbytes > 8 then None
                       else do {
                         s \<leftarrow> buf_read bs (nat off) (nat packbytes);
                         d \<leftarrow> buf_write (replicate 8 0) 0 s;
                         r_read_le64 d 0 })
                 else Some 0) }))"

definition r_reg_set_pack :: "reg \<Rightarrow> reg_item option \<Rightarrow> int \<Rightarrow> int \<Rightarrow> ut64 \<Rightarrow> (bool \<times> reg) option" where
  "r_reg_set_pack r item packidx packbits0 val = (case item of
     None \<Rightarrow> Some (False, r)
   | Some it \<Rightarrow>
       (let packbits = (if packbits0 < 1 then ri_packed_size it else packbits0);
            off = ri_offset it; packbytes = c_div packbits 8
        in if packidx * packbits > ri_size it then Some (False, r)
           else if c_mod packbits 8 \<noteq> 0 then Some (False, r)
           else do {
             (a, bs) \<leftarrow> regset_arena r (ri_type it);
             (if int (length bs) - bits2bytes off - bits2bytes packbytes \<ge> 0
              then (if bits2bytes off < 0 \<or> packbytes < 0 then None
                    else do {
                      bs' \<leftarrow> r_mem_copybits bs (nat (bits2bytes off)) (enc_le64 val) packbytes;
                      Some (True, arena_set r a bs') })
              else Some (False, r)) }))"

section \<open>cond.c\<close>

record reg_flags =
  rf_s :: bool
  rf_z :: bool
  rf_c :: bool
  rf_o :: bool
  rf_p :: bool

definition r_reg_cond_get :: "reg \<Rightarrow> string option \<Rightarrow> reg_item option" where
  "r_reg_cond_get r name = (case name of
     None \<Rightarrow> None
   | Some n \<Rightarrow> (case nth_opt (rg_regset r) R_REG_TYPE_GPR of
       None \<Rightarrow> None
     | Some rs \<Rightarrow> find (\<lambda>i. ri_flags i = Some n) (rs_regs rs)))"

text \<open>The cast to \<open>int\<close> binds tighter than the conditional: only the low 32 bits decide.\<close>

definition r_reg_cond_get_value :: "reg \<Rightarrow> string \<Rightarrow> bool option" where
  "r_reg_cond_get_value r name =
     map_option (\<lambda>v. c_int v \<noteq> 0) (r_reg_get_value r (r_reg_cond_get r (Some name)))"

definition reg_conds :: "string list" where
  "reg_conds = [''eq'', ''ne'', ''cf'', ''neg'', ''of'', ''hi'', ''he'',
     ''lo'', ''loe'', ''ge'', ''gt'', ''lt'', ''le'']"

definition r_reg_cond_to_string :: "int \<Rightarrow> string option" where
  "r_reg_cond_to_string n = nth_opt reg_conds n"

definition r_reg_cond_from_string :: "string \<Rightarrow> int" where
  "r_reg_cond_from_string str = (if str \<in> set reg_conds then index_of str reg_conds else - 1)"

definition r_reg_cond_bits :: "int \<Rightarrow> reg_flags \<Rightarrow> bool" where
  "r_reg_cond_bits type f =
     (let zf = rf_z f; sf = rf_s f; cf = rf_c f; ovf = rf_o f in
      if type = 0 then zf
      else if type = 1 then \<not> zf
      else if type = 2 then cf
      else if type = 3 then sf
      else if type = 4 then ovf
      else if type = 5 then \<not> zf \<and> cf
      else if type = 6 then zf \<or> (\<not> zf \<and> cf)
      else if type = 7 then zf \<or> \<not> cf
      else if type = 8 then zf \<or> \<not> cf
      else if type = 9 then (sf \<and> ovf) \<or> (\<not> sf \<and> \<not> ovf)
      else if type = 10 then (sf \<and> \<not> zf \<and> ovf) \<or> (\<not> sf \<and> \<not> zf \<and> \<not> ovf)
      else if type = 11 then (sf \<and> \<not> ovf) \<or> (\<not> sf \<and> ovf)
      else if type = 12 then zf \<or> (sf \<and> \<not> ovf) \<or> (\<not> sf \<and> ovf)
      else False)"

definition r_reg_cond_retrieve :: "reg \<Rightarrow> reg_flags option" where
  "r_reg_cond_retrieve r = do {
     s \<leftarrow> r_reg_cond_get_value r ''sign'';
     z \<leftarrow> r_reg_cond_get_value r ''zero'';
     c \<leftarrow> r_reg_cond_get_value r ''carry'';
     ov \<leftarrow> r_reg_cond_get_value r ''overflow'';
     p \<leftarrow> r_reg_cond_get_value r ''parity'';
     Some \<lparr>rf_s = s, rf_z = z, rf_c = c, rf_o = ov, rf_p = p\<rparr> }"

definition r_reg_cond :: "reg \<Rightarrow> int \<Rightarrow> bool option" where
  "r_reg_cond r type = map_option (r_reg_cond_bits type) (r_reg_cond_retrieve r)"

end
