(* ===== verification/R2_Esil.thy ===== *)
theory R2_Esil
  imports R2_Sdb R2_Reg
begin

text \<open>
  The state of the ESIL virtual machine and its primitives: \<^verbatim>\<open>libr/anal/esil.c\<close> up to the access
  functions, and \<^verbatim>\<open>libr/anal/esil_stats.c\<close>.

  \<^item> \<open>esil\<close> is \<open>RAnalEsil\<close>. \<open>es_stack\<close> holds the used part of the stack, bottom first; its length is
    \<open>stackptr\<close>. \<open>es_anal\<close> is \<open>None\<close> for a null \<open>esil->anal\<close>; an \<open>anal\<close> always has a register file.
    The debug printing, \<open>flags\<close>, \<open>user\<close> and the trace database have no effect on the machine and
    are left out.
  \<^item> The function pointers of the machine (\<open>esil->cb\<close>, \<open>esil->cmd\<close>, the hooks of the architecture
    plugin, \<open>coreb.setab\<close>, the interrupt table) are the record \<open>esil_cb\<close>, an argument of every
    operation. A callback works on the whole state and, as everything else, may be undefined.
    \<open>cb_garbage\<close> gives the contents of an uninitialised buffer on the C stack.
  \<^item> An operation has type \<open>esil_cb \<Rightarrow> esil \<Rightarrow> (result \<times> esil) option\<close>. A C function that returns
    false or fills an output parameter returns \<open>None\<close> or \<open>Some v\<close> as its result.
\<close>

section \<open>Data\<close>

record 'io anal =
  an_reg :: reg
  an_bits :: int
  an_big_endian :: bool
  an_esil_goto_limit :: int
  an_io :: "'io option"

record reil =
  rl_addr :: ut64
  rl_skip :: int
  rl_cmd_count :: int
  rl_if_buf :: string

record 'io esil =
  es_anal :: "'io anal option"
  es_stack :: "string list"
  es_stacksize :: int
  es_skip :: int
  es_nowrite :: int
  es_iotrap :: int
  es_repeat :: int
  es_parse_stop :: int
  es_parse_goto :: int
  es_parse_goto_count :: int
  es_address :: ut64
  es_delay :: int
  es_jump_target :: ut64
  es_jump_target_set :: int
  es_trap :: int
  es_trap_code :: ut32
  es_old :: ut64
  es_cur :: ut64
  es_lastsz :: ut8
  es_stats :: "sdb option"
  es_reil :: "reil option"
  es_cmd_intr :: "string option"
  es_cmd_trap :: "string option"

record 's esil_cb =
  cb_hook_flag_read :: "(string \<Rightarrow> 's \<Rightarrow> (ut64 option \<times> 's) option) option"
  cb_hook_command :: "(string \<Rightarrow> 's \<Rightarrow> (int \<times> 's) option) option"
  cb_hook_mem_read :: "(ut64 \<Rightarrow> ut8 list \<Rightarrow> int \<Rightarrow> 's \<Rightarrow> ((int \<times> ut8 list) \<times> 's) option) option"
  cb_mem_read :: "(ut64 \<Rightarrow> ut8 list \<Rightarrow> int \<Rightarrow> 's \<Rightarrow> ((int \<times> ut8 list) \<times> 's) option) option"
  cb_hook_mem_write :: "(ut64 \<Rightarrow> ut8 list \<Rightarrow> int \<Rightarrow> 's \<Rightarrow> (int \<times> 's) option) option"
  cb_mem_write :: "(ut64 \<Rightarrow> ut8 list \<Rightarrow> int \<Rightarrow> 's \<Rightarrow> (int \<times> 's) option) option"
  cb_hook_reg_read :: "(string \<Rightarrow> 's \<Rightarrow> ((ut64 \<times> int option) option \<times> 's) option) option"
  cb_reg_read :: "(string \<Rightarrow> 's \<Rightarrow> ((ut64 \<times> int option) option \<times> 's) option) option"
  cb_hook_reg_write :: "(string \<Rightarrow> ut64 \<Rightarrow> 's \<Rightarrow> ((int \<times> ut64) \<times> 's) option) option"
  cb_reg_write :: "(string \<Rightarrow> ut64 \<Rightarrow> 's \<Rightarrow> (int \<times> 's) option) option"
  cb_cmd :: "(string option \<Rightarrow> int \<Rightarrow> int \<Rightarrow> 's \<Rightarrow> (int \<times> 's) option) option"
  cb_esil_trap :: "(int \<Rightarrow> int \<Rightarrow> 's \<Rightarrow> (int \<times> 's) option) option"
  cb_esil_intr :: "(int \<Rightarrow> 's \<Rightarrow> (int \<times> 's) option) option"
  cb_setab :: "(int \<Rightarrow> 's \<Rightarrow> (unit \<times> 's) option) option"
  cb_interrupts :: "(string \<times> (int \<Rightarrow> 's \<Rightarrow> (int \<times> 's) option)) list"
  cb_garbage :: "nat \<Rightarrow> ut8"

text \<open>
  \<open>RIOBind\<close>: the two entries the interpreter calls, on the \<open>RIO\<close> object they are bound to; as every
  operation they may be undefined.
\<close>

record 'io io_bind =
  iob_read_at :: "'io \<Rightarrow> ut64 \<Rightarrow> ut8 list \<Rightarrow> int \<Rightarrow> ((int \<times> ut8 list) \<times> 'io) option"
  iob_write_at :: "'io \<Rightarrow> ut64 \<Rightarrow> ut8 list \<Rightarrow> int \<Rightarrow> (int \<times> 'io) option"

abbreviation (input) R_ANAL_TRAP_DIVBYZERO :: int where "R_ANAL_TRAP_DIVBYZERO \<equiv> 3"
abbreviation (input) R_ANAL_TRAP_WRITE_ERR :: int where "R_ANAL_TRAP_WRITE_ERR \<equiv> 4"
abbreviation (input) R_ANAL_TRAP_READ_ERR :: int where "R_ANAL_TRAP_READ_ERR \<equiv> 5"
abbreviation (input) R_ANAL_ESIL_GOTO_LIMIT :: int where "R_ANAL_ESIL_GOTO_LIMIT \<equiv> 4096"

datatype parm_type = PARM_INVALID | PARM_INTERNAL | PARM_REG | PARM_NUM

definition cbool :: "bool \<Rightarrow> int" where
  "cbool b = (if b then 1 else 0)"

abbreviation bool64 :: "bool \<Rightarrow> ut64" where
  "bool64 b \<equiv> (if b then 1 else 0)"

section \<open>Creation, the stack, traps and interrupts\<close>

definition genmask :: "int \<Rightarrow> ut64 option" where
  "genmask bits =
     (if bits < 0 then None
      else do { x \<leftarrow> shl64 2 (nat bits); (let m = x - 1 in Some (if m = 0 then UT64_MAX else m)) })"

definition r_anal_esil_new :: "int \<Rightarrow> int \<Rightarrow> 'io esil option" where
  "r_anal_esil_new stacksize iotrap =
     (if stacksize < 3 then None
      else Some \<lparr>es_anal = None, es_stack = [], es_stacksize = stacksize, es_skip = 0, es_nowrite = 0,
        es_iotrap = iotrap, es_repeat = 0, es_parse_stop = 0, es_parse_goto = 0,
        es_parse_goto_count = R_ANAL_ESIL_GOTO_LIMIT, es_address = 0, es_delay = 0,
        es_jump_target = 0, es_jump_target_set = 0, es_trap = 0, es_trap_code = 0, es_old = 0,
        es_cur = 0, es_lastsz = 0, es_stats = None, es_reil = None, es_cmd_intr = None,
        es_cmd_trap = None\<rparr>)"

definition r_anal_esil_push :: "string option \<Rightarrow> 'io esil \<Rightarrow> bool \<times> 'io esil" where
  "r_anal_esil_push str s = (case str of
     None \<Rightarrow> (False, s)
   | Some x \<Rightarrow> if x = [] \<or> int (length (es_stack s)) > es_stacksize s - 1 then (False, s)
               else (True, s\<lparr>es_stack := es_stack s @ [x]\<rparr>))"

definition r_anal_esil_pushnum :: "ut64 \<Rightarrow> 'io esil \<Rightarrow> bool \<times> 'io esil" where
  "r_anal_esil_pushnum num s = r_anal_esil_push (Some (fmt_0x num)) s"

abbreviation pushed :: "string option \<Rightarrow> 'io esil \<Rightarrow> 'io esil" where
  "pushed str s \<equiv> snd (r_anal_esil_push str s)"

abbreviation pushed_num :: "ut64 \<Rightarrow> 'io esil \<Rightarrow> 'io esil" where
  "pushed_num num s \<equiv> snd (r_anal_esil_pushnum num s)"

definition r_anal_esil_pop :: "'io esil \<Rightarrow> string option \<times> 'io esil" where
  "r_anal_esil_pop s =
     (if es_stack s = [] then (None, s)
      else (Some (last (es_stack s)), s\<lparr>es_stack := butlast (es_stack s)\<rparr>))"

definition r_anal_esil_set_pc :: "ut64 \<Rightarrow> 'io esil \<Rightarrow> bool \<times> 'io esil" where
  "r_anal_esil_set_pc addr s = (True, s\<lparr>es_address := addr\<rparr>)"

definition r_anal_esil_stack_free :: "'io esil \<Rightarrow> 'io esil" where
  "r_anal_esil_stack_free s = s\<lparr>es_stack := []\<rparr>"

text \<open>
  \<open>r_anal_esil_fire_trap\<close> and \<open>r_anal_esil_fire_interrupt\<close>: the external command first, then the
  plugin of the architecture, then (interrupts only) the table of handlers.
\<close>

definition call_cmd :: "'s esil_cb \<Rightarrow> string option \<Rightarrow> int \<Rightarrow> int \<Rightarrow> 's \<Rightarrow> (int \<times> 's) option" where
  "call_cmd cb name a0 a1 s = (case cb_cmd cb of None \<Rightarrow> Some (0, s) | Some f \<Rightarrow> f name a0 a1 s)"

definition r_anal_esil_fire_trap :: "'io esil esil_cb \<Rightarrow> int \<Rightarrow> int \<Rightarrow> 'io esil \<Rightarrow> (int \<times> 'io esil) option" where
  "r_anal_esil_fire_trap cb trap_type trap_code s = do {
     (ret, s) \<leftarrow> call_cmd cb (es_cmd_trap s) trap_type trap_code s;
     (if ret \<noteq> 0 then Some (1, s)
      else case (es_anal s, cb_esil_trap cb) of
        (Some _, Some f) \<Rightarrow> do { (ret, s) \<leftarrow> f trap_type trap_code s; Some (cbool (ret \<noteq> 0), s) }
      | _ \<Rightarrow> Some (0, s)) }"

definition r_anal_esil_set_interrupt ::
  "'s esil_cb \<Rightarrow> int \<Rightarrow> (int \<Rightarrow> 's \<Rightarrow> (int \<times> 's) option) \<Rightarrow> bool \<times> 's esil_cb" where
  "r_anal_esil_set_interrupt cb interrupt icb =
     (True, cb\<lparr>cb_interrupts := (the (sdb_itoa (of_int interrupt) 16), icb) # cb_interrupts cb\<rparr>)"

definition r_anal_esil_fire_interrupt :: "'io esil esil_cb \<Rightarrow> int \<Rightarrow> 'io esil \<Rightarrow> (int \<times> 'io esil) option" where
  "r_anal_esil_fire_interrupt cb interrupt s = do {
     (ret, s) \<leftarrow> call_cmd cb (es_cmd_intr s) interrupt 0 s;
     (if ret \<noteq> 0 then Some (1, s)
      else do {
        (ret, s) \<leftarrow> (case (es_anal s, cb_esil_intr cb) of
            (Some _, Some f) \<Rightarrow> f interrupt s | _ \<Rightarrow> Some (0, s));
        (if ret \<noteq> 0 then Some (1, s)
         else case map_of (cb_interrupts cb) (the (sdb_itoa (of_int interrupt) 16)) of
           None \<Rightarrow> Some (0, s)
         | Some icb \<Rightarrow> icb interrupt s) }) }"

text \<open>A conversion to \<open>ut8\<close> cuts the size of a register to eight bits.\<close>

definition esil_internal_sizeof_reg :: "'io esil \<Rightarrow> string \<Rightarrow> ut8" where
  "esil_internal_sizeof_reg s r = (case es_anal s of
     None \<Rightarrow> 0
   | Some an \<Rightarrow> (case r_reg_get (an_reg an) r (- 1) of None \<Rightarrow> 0 | Some ri \<Rightarrow> of_int (ri_size ri)))"

section \<open>Memory\<close>

definition upd_io :: "'io esil \<Rightarrow> 'io \<Rightarrow> 'io esil" where
  "upd_io s io = s\<lparr>es_anal := map_option (\<lambda>an. an\<lparr>an_io := Some io\<rparr>) (es_anal s)\<rparr>"

definition upd_reg :: "'io esil \<Rightarrow> reg \<Rightarrow> 'io esil" where
  "upd_reg s r = s\<lparr>es_anal := map_option (\<lambda>an. an\<lparr>an_reg := r\<rparr>) (es_anal s)\<rparr>"

definition es_io :: "'io esil \<Rightarrow> 'io option" where
  "es_io s = Option.bind (es_anal s) an_io"

definition internal_esil_mem_read ::
  "'io io_bind \<Rightarrow> ut64 \<Rightarrow> ut8 list \<Rightarrow> int \<Rightarrow> 'io esil \<Rightarrow> ((int \<times> ut8 list) \<times> 'io esil) option" where
  "internal_esil_mem_read iob addr buf len s = (case es_io s of
     None \<Rightarrow> Some ((0, buf), s)
   | Some io \<Rightarrow> do {
       ((ret, buf'), io') \<leftarrow> iob_read_at iob io addr buf len;
       Some ((ret, buf'), upd_io s io') })"

definition internal_esil_mem_read_no_null ::
  "'io io_bind \<Rightarrow> ut64 \<Rightarrow> ut8 list \<Rightarrow> int \<Rightarrow> 'io esil \<Rightarrow> ((int \<times> ut8 list) \<times> 'io esil) option" where
  "internal_esil_mem_read_no_null iob addr buf len s = (case es_io s of
     None \<Rightarrow> Some ((0, buf), s)
   | Some io \<Rightarrow> if addr = 0 then Some ((0, buf), s)
               else do {
                 ((ret, buf'), io') \<leftarrow> iob_read_at iob io addr buf len;
                 Some ((ret, buf'), upd_io s io') })"

text \<open>Reading into a buffer shorter than \<open>len\<close> is undefined whatever the callback is.\<close>

definition r_anal_esil_mem_read ::
  "'io esil esil_cb \<Rightarrow> ut64 \<Rightarrow> ut8 list \<Rightarrow> int \<Rightarrow> 'io esil \<Rightarrow> ((int \<times> ut8 list) \<times> 'io esil) option" where
  "r_anal_esil_mem_read cb addr buf len s =
     (if int (length buf) < len then None else do {
        ((ret, buf), s) \<leftarrow> (case cb_hook_mem_read cb of
            None \<Rightarrow> Some ((0, buf), s) | Some f \<Rightarrow> f addr buf len s);
        (case cb_mem_read cb of
           None \<Rightarrow> Some ((ret, buf), s)
         | Some f \<Rightarrow>
             if ret \<noteq> 0 then Some ((ret, buf), s)
             else do {
               ((ret, buf), s) \<leftarrow> f addr buf len s;
               Some ((ret, buf), if ret \<noteq> len \<and> es_iotrap s \<noteq> 0
                 then s\<lparr>es_trap := R_ANAL_TRAP_READ_ERR, es_trap_code := ucast addr\<rparr> else s) }) })"

definition write_result :: "ut64 \<Rightarrow> int \<Rightarrow> int \<Rightarrow> 'io esil \<Rightarrow> (int \<times> 'io esil) option" where
  "write_result addr len ret s =
     Some (ret, if ret \<noteq> len \<and> es_iotrap s \<noteq> 0
       then s\<lparr>es_trap := R_ANAL_TRAP_WRITE_ERR, es_trap_code := ucast addr\<rparr> else s)"

definition internal_esil_mem_write ::
  "'io io_bind \<Rightarrow> ut64 \<Rightarrow> ut8 list \<Rightarrow> int \<Rightarrow> 'io esil \<Rightarrow> (int \<times> 'io esil) option" where
  "internal_esil_mem_write iob addr buf len s = (case es_io s of
     None \<Rightarrow> Some (0, s)
   | Some io \<Rightarrow> if es_nowrite s \<noteq> 0 then Some (0, s)
               else do {
                 (ret, io') \<leftarrow> iob_write_at iob io addr buf len;
                 write_result addr len ret (upd_io s io') })"

definition internal_esil_mem_write_no_null ::
  "'io io_bind \<Rightarrow> ut64 \<Rightarrow> ut8 list \<Rightarrow> int \<Rightarrow> 'io esil \<Rightarrow> (int \<times> 'io esil) option" where
  "internal_esil_mem_write_no_null iob addr buf len s = (case es_io s of
     None \<Rightarrow> Some (0, s)
   | Some io \<Rightarrow> if addr = 0 then Some (0, s)
               else if es_nowrite s \<noteq> 0 then Some (0, s)
               else do {
                 (ret, io') \<leftarrow> iob_write_at iob io addr buf len;
                 write_result addr len ret (upd_io s io') })"

definition r_anal_esil_mem_write ::
  "'io esil esil_cb \<Rightarrow> ut64 \<Rightarrow> ut8 list \<Rightarrow> int \<Rightarrow> 'io esil \<Rightarrow> (int \<times> 'io esil) option" where
  "r_anal_esil_mem_write cb addr buf len s =
     (if int (length buf) < len then None else do {
        (ret, s) \<leftarrow> (case cb_hook_mem_write cb of
            None \<Rightarrow> Some (0, s) | Some f \<Rightarrow> f addr buf len s);
        (case cb_mem_write cb of
           None \<Rightarrow> Some (ret, s)
         | Some f \<Rightarrow> if ret \<noteq> 0 then Some (ret, s) else f addr buf len s) })"

section \<open>Registers\<close>

definition internal_esil_reg_read ::
  "string \<Rightarrow> 'io esil \<Rightarrow> ((ut64 \<times> int option) option \<times> 'io esil) option" where
  "internal_esil_reg_read regname s = do {
     an \<leftarrow> es_anal s;
     (case r_reg_get (an_reg an) regname (- 1) of
        None \<Rightarrow> Some (None, s)
      | Some reg \<Rightarrow> do {
          v \<leftarrow> r_reg_get_value (an_reg an) (Some reg);
          Some (Some (v, Some (ri_size reg)), s) }) }"

definition internal_esil_reg_write :: "string \<Rightarrow> ut64 \<Rightarrow> 'io esil \<Rightarrow> (int \<times> 'io esil) option" where
  "internal_esil_reg_write regname num s = do {
     an \<leftarrow> es_anal s;
     (case r_reg_get (an_reg an) regname (- 1) of
        None \<Rightarrow> Some (0, s)
      | Some reg \<Rightarrow> do {
          (_, r) \<leftarrow> r_reg_set_value (an_reg an) (Some reg) num;
          Some (1, upd_reg s r) }) }"

definition role_name :: "reg \<Rightarrow> int \<Rightarrow> string \<Rightarrow> string" where
  "role_name r role dflt = (case r_reg_get_name r role of None \<Rightarrow> dflt | Some n \<Rightarrow> n)"

definition internal_esil_reg_write_no_null :: "string \<Rightarrow> ut64 \<Rightarrow> 'io esil \<Rightarrow> (int \<times> 'io esil) option" where
  "internal_esil_reg_write_no_null regname num s = do {
     an \<leftarrow> es_anal s;
     (let r = an_reg an;
          pc = role_name r R_REG_NAME_PC ''pc'';
          sp = role_name r R_REG_NAME_SP ''sp'';
          bp = role_name r R_REG_NAME_BP ''bp''
      in case r_reg_get r regname (- 1) of
           None \<Rightarrow> Some (0, s)
         | Some reg \<Rightarrow>
             if (ri_name reg \<noteq> pc \<and> ri_name reg \<noteq> sp \<and> ri_name reg \<noteq> bp) \<or> num \<noteq> 0
             then do { (_, r) \<leftarrow> r_reg_set_value r (Some reg) num; Some (1, upd_reg s r) }
             else Some (0, s)) }"

section \<open>Flags computed from the last operation\<close>

definition esil_internal_borrow_check :: "'io esil \<Rightarrow> ut8 \<Rightarrow> bool option" where
  "esil_internal_borrow_check s bit0 = do {
     m \<leftarrow> genmask (uint (((bit0 AND 0x3f) + 0x3f) AND 0x3f));
     Some (es_old s AND m < es_cur s AND m) }"

definition esil_internal_carry_check :: "'io esil \<Rightarrow> ut8 \<Rightarrow> bool option" where
  "esil_internal_carry_check s bit0 = do {
     m \<leftarrow> genmask (uint bit0);
     Some (es_cur s AND m < es_old s AND m) }"

definition esil_internal_parity_check :: "'io esil \<Rightarrow> bool" where
  "esil_internal_parity_check s =
     (let c1 = 0x0101010101010101; c2 = 0x8040201008040201; c3 = 0x1FF; lsb = es_cur s AND 0xff
      in ((((lsb * c1) AND c2) mod c3) AND 1) = 0)"

definition esil_internal_sign_check :: "'io esil \<Rightarrow> bool option" where
  "esil_internal_sign_check s =
     (if es_lastsz s = 0 then Some False
      else do { x \<leftarrow> shr64 (es_cur s) (unat (es_lastsz s - 1)); Some (x AND 1 \<noteq> 0) })"

definition esil_internal_overflow_check :: "'io esil \<Rightarrow> bool option" where
  "esil_internal_overflow_check s =
     (if es_lastsz s < 2 then Some False
      else do {
        c1 \<leftarrow> esil_internal_carry_check s (es_lastsz s - 1);
        c2 \<leftarrow> esil_internal_carry_check s (es_lastsz s - 2);
        Some (c1 \<noteq> c2) })"

text \<open>The value of an internal \<open>$\<close>-name by the switch of \<open>esil_internal_read\<close>; \<open>None\<close> inside: no such name.\<close>

definition esil_internal_value :: "string \<Rightarrow> 'io esil \<Rightarrow> ut64 option option" where
  "esil_internal_value str s =
     (let c = chr_at str 1; c2 = chr_at str 2; flag = map_option (\<lambda>b. Some (bool64 b)) in
      if c = CHR ''$'' then Some (Some (es_address s))
      else if c = CHR ''z'' then
        do { m \<leftarrow> genmask (uint (es_lastsz s) - 1); Some (Some (bool64 (es_cur s AND m = 0))) }
      else if c = CHR ''b'' then
        do { n \<leftarrow> r_num_get (drop 2 str); flag (esil_internal_borrow_check s (ucast n)) }
      else if c = CHR ''c'' then
        do { n \<leftarrow> r_num_get (drop 2 str); flag (esil_internal_carry_check s (ucast n)) }
      else if c = CHR ''o'' then flag (esil_internal_overflow_check s)
      else if c = CHR ''p'' then Some (Some (bool64 (esil_internal_parity_check s)))
      else if c = CHR ''r'' then do { an \<leftarrow> es_anal s; Some (Some (of_int (c_div (an_bits an) 8))) }
      else if c = CHR ''s'' then flag (esil_internal_sign_check s)
      else if c = CHR ''d'' then
        Some (if c2 = CHR ''s'' then Some (of_int (es_delay s)) else None)
      else if c = CHR ''j'' then
        Some (if c2 = CHR ''t'' then Some (es_jump_target s)
              else if c2 = CHR ''s'' then Some (of_int (es_jump_target_set s)) else None)
      else (let (imm, endptr) = strtoull 10 (drop 1 str)
            in Some (if endptr = drop 1 str then None else Some imm)))"

definition esil_internal_read ::
  "'io esil esil_cb \<Rightarrow> string \<Rightarrow> 'io esil \<Rightarrow> (ut64 option \<times> 'io esil) option" where
  "esil_internal_read cb str s =
     (if str = [] then Some (None, s)
      else do {
        (r, s) \<leftarrow> (case cb_hook_flag_read cb of None \<Rightarrow> Some (None, s) | Some f \<Rightarrow> f (drop 1 str) s);
        (case r of
           Some v \<Rightarrow> Some (Some v, s)
         | None \<Rightarrow> map_option (\<lambda>v. (v, s)) (esil_internal_value str s)) })"

text \<open>The \<open>j\<close> case has no \<open>break\<close>: it falls into the default and reports failure after its write.\<close>

definition esil_internal_write :: "string \<Rightarrow> ut64 \<Rightarrow> 'io esil \<Rightarrow> bool \<times> 'io esil" where
  "esil_internal_write str num s =
     (let c = chr_at str 1; c2 = chr_at str 2 in
      if str = [] then (False, s)
      else if c = CHR ''d'' then
        (if c2 = CHR ''s'' then (True, s\<lparr>es_delay := c_int num\<rparr>) else (False, s))
      else if c = CHR ''j'' then
        (if c2 = CHR ''t'' then (False, s\<lparr>es_jump_target := num, es_jump_target_set := 1\<rparr>)
         else if c2 = CHR ''s'' then (False, s\<lparr>es_jump_target_set := c_int num\<rparr>)
         else (False, s))
      else (False, s))"

section \<open>Parameters\<close>

definition internal_name :: "string \<Rightarrow> bool" where
  "internal_name str \<longleftrightarrow> chr_at str 0 = CHR ''$'' \<and> chr_at str 1 \<noteq> CHR 0x00"

definition decimal :: "char \<Rightarrow> bool" where
  "decimal c \<longleftrightarrow> 48 \<le> char_code c \<and> char_code c \<le> 57"

definition r_anal_esil_get_parm_type :: "'io esil \<Rightarrow> string \<Rightarrow> parm_type option" where
  "r_anal_esil_get_parm_type s str =
     (if str = [] then Some PARM_INVALID
      else if internal_name str then Some PARM_INTERNAL
      else if take 2 str = ''0x'' then Some PARM_NUM
      else if (decimal (hd str) \<or> hd str = CHR ''-'') \<and> list_all decimal (tl str) then Some PARM_NUM
      else do {
        an \<leftarrow> es_anal s;
        Some (if r_reg_get (an_reg an) str (- 1) \<noteq> None then PARM_REG else PARM_INVALID) })"

text \<open>
  \<open>want\<close> says that the caller passes a \<open>size\<close> pointer; the size is meaningless otherwise. The size
  defaults to the word size of the architecture and \<open>cb.reg_read\<close> may overwrite it.
\<close>

definition default_size :: "bool \<Rightarrow> 'io esil \<Rightarrow> int option" where
  "default_size want s = (if want then map_option an_bits (es_anal s) else Some 0)"

definition sized :: "int \<Rightarrow> (ut64 \<times> int option) option \<Rightarrow> (ut64 \<times> int) option" where
  "sized sz r = map_option (\<lambda>(v, o'). (v, case o' of None \<Rightarrow> sz | Some n \<Rightarrow> n)) r"

definition r_anal_esil_reg_read ::
  "'io esil esil_cb \<Rightarrow> bool \<Rightarrow> string \<Rightarrow> 'io esil \<Rightarrow> ((ut64 \<times> int) option \<times> 'io esil) option" where
  "r_anal_esil_reg_read cb want regname s = do {
     sz \<leftarrow> default_size want s;
     (if internal_name regname
      then map_option (\<lambda>(v, s). (map_option (\<lambda>n. (n, sz)) v, s)) (esil_internal_read cb regname s)
      else do {
        (r, s) \<leftarrow> (case cb_hook_reg_read cb of None \<Rightarrow> Some (None, s) | Some f \<Rightarrow> f regname s);
        (case (r, cb_reg_read cb) of
           (None, Some f) \<Rightarrow> do { (r, s) \<leftarrow> f regname s; Some (sized sz r, s) }
         | _ \<Rightarrow> Some (sized sz r, s)) }) }"

definition r_anal_esil_reg_read_nocallback ::
  "'io esil esil_cb \<Rightarrow> bool \<Rightarrow> string \<Rightarrow> 'io esil \<Rightarrow> ((ut64 \<times> int) option \<times> 'io esil) option" where
  "r_anal_esil_reg_read_nocallback cb want regname s =
     r_anal_esil_reg_read (cb\<lparr>cb_hook_reg_read := None\<rparr>) want regname s"

definition r_anal_esil_reg_write ::
  "'io esil esil_cb \<Rightarrow> string \<Rightarrow> ut64 \<Rightarrow> 'io esil \<Rightarrow> (int \<times> 'io esil) option" where
  "r_anal_esil_reg_write cb dst num0 s = do {
     ((ret, num), s) \<leftarrow> (case cb_hook_reg_write cb of
         None \<Rightarrow> Some ((0, num0), s) | Some f \<Rightarrow> f dst num0 s);
     (let (ret, s) = (if ret = 0 \<and> internal_name dst
          then map_prod cbool id (esil_internal_write dst num s) else (ret, s))
      in case cb_reg_write cb of
           None \<Rightarrow> Some (ret, s)
         | Some f \<Rightarrow> if ret \<noteq> 0 then Some (ret, s) else f dst num s) }"

definition r_anal_esil_get_parm_size ::
  "'io esil esil_cb \<Rightarrow> bool \<Rightarrow> string \<Rightarrow> 'io esil \<Rightarrow> ((ut64 \<times> int) option \<times> 'io esil) option" where
  "r_anal_esil_get_parm_size cb want str s = do {
     t \<leftarrow> r_anal_esil_get_parm_type s str;
     (case t of
        PARM_INTERNAL \<Rightarrow> do {
          sz \<leftarrow> default_size want s;
          map_option (\<lambda>(v, s). (map_option (\<lambda>n. (n, sz)) v, s)) (esil_internal_read cb str s) }
      | PARM_NUM \<Rightarrow> do { n \<leftarrow> r_num_get str; sz \<leftarrow> default_size want s; Some (Some (n, sz), s) }
      | PARM_REG \<Rightarrow> r_anal_esil_reg_read cb want str s
      | PARM_INVALID \<Rightarrow> Some (None, s\<lparr>es_parse_stop := 1\<rparr>)) }"

definition r_anal_esil_get_parm ::
  "'io esil esil_cb \<Rightarrow> string \<Rightarrow> 'io esil \<Rightarrow> (ut64 option \<times> 'io esil) option" where
  "r_anal_esil_get_parm cb str s =
     map_option (\<lambda>(r, s). (map_option fst r, s)) (r_anal_esil_get_parm_size cb False str s)"

text \<open>\<open>isnum\<close> and \<open>isregornum\<close> store 0 when they return false, so a caller that ignores the result reads 0.\<close>

definition isnum :: "string \<Rightarrow> ut64 option option" where
  "isnum str = (if str \<noteq> [] \<and> decimal (hd str) then map_option Some (r_num_get str) else Some None)"

definition isregornum :: "'io esil esil_cb \<Rightarrow> string \<Rightarrow> 'io esil \<Rightarrow> (ut64 option \<times> 'io esil) option" where
  "isregornum cb str s = do {
     (r, s) \<leftarrow> r_anal_esil_reg_read cb False str s;
     (case r of
        Some (v, _) \<Rightarrow> Some (Some v, s)
      | None \<Rightarrow> map_option (\<lambda>n. (n, s)) (isnum str)) }"

definition popRN :: "'io esil esil_cb \<Rightarrow> 'io esil \<Rightarrow> (ut64 option \<times> 'io esil) option" where
  "popRN cb s = (let (str, s) = r_anal_esil_pop s in
     case str of None \<Rightarrow> Some (None, s) | Some x \<Rightarrow> isregornum cb x s)"

section \<open>Statistics and read-only memory\<close>

definition stat_add :: "string \<Rightarrow> string \<Rightarrow> 'io esil \<Rightarrow> 'io esil" where
  "stat_add key val s = s\<lparr>es_stats := map_option (\<lambda>db. sdb_array_add db key val) (es_stats s)\<rparr>"

definition stat_add_num :: "string \<Rightarrow> ut64 \<Rightarrow> 'io esil \<Rightarrow> 'io esil" where
  "stat_add_num key val s = s\<lparr>es_stats := map_option (\<lambda>db. sdb_array_add_num db key val) (es_stats s)\<rparr>"

definition hook_flag_read :: "string \<Rightarrow> 'io esil \<Rightarrow> (ut64 option \<times> 'io esil) option" where
  "hook_flag_read flag s = Some (None, stat_add ''flg.read'' flag s)"

definition hook_command :: "string \<Rightarrow> 'io esil \<Rightarrow> (int \<times> 'io esil) option" where
  "hook_command op s = Some (0, stat_add ''ops.list'' op s)"

definition hook_mem_read ::
  "ut64 \<Rightarrow> ut8 list \<Rightarrow> int \<Rightarrow> 'io esil \<Rightarrow> ((int \<times> ut8 list) \<times> 'io esil) option" where
  "hook_mem_read addr buf len s = Some ((0, buf), stat_add_num ''mem.read'' addr s)"

definition hook_mem_write :: "ut64 \<Rightarrow> ut8 list \<Rightarrow> int \<Rightarrow> 'io esil \<Rightarrow> (int \<times> 'io esil) option" where
  "hook_mem_write addr buf len s = Some (0, stat_add_num ''mem.write'' addr s)"

definition hook_reg_read ::
  "string \<Rightarrow> 'io esil \<Rightarrow> ((ut64 \<times> int option) option \<times> 'io esil) option" where
  "hook_reg_read name s =
     Some (None, stat_add (if decimal (chr_at name 0) then ''num.load'' else ''reg.read'') name s)"

definition hook_reg_write :: "string \<Rightarrow> ut64 \<Rightarrow> 'io esil \<Rightarrow> ((int \<times> ut64) \<times> 'io esil) option" where
  "hook_reg_write name val s = Some ((0, val), stat_add ''reg.write'' name s)"

definition hook_NOP_mem_write :: "ut64 \<Rightarrow> ut8 list \<Rightarrow> int \<Rightarrow> 'io esil \<Rightarrow> (int \<times> 'io esil) option" where
  "hook_NOP_mem_write addr buf len s = Some (1, s)"

definition r_anal_esil_mem_ro :: "'io esil esil_cb \<Rightarrow> bool \<Rightarrow> 'io esil esil_cb" where
  "r_anal_esil_mem_ro cb mem_readonly =
     cb\<lparr>cb_hook_mem_write := if mem_readonly then Some hook_NOP_mem_write else None\<rparr>"

definition r_anal_esil_stats ::
  "'io esil esil_cb \<Rightarrow> bool \<Rightarrow> 'io esil \<Rightarrow> 'io esil esil_cb \<times> 'io esil" where
  "r_anal_esil_stats cb enable s =
     (if enable
      then (cb\<lparr>cb_hook_reg_read := Some hook_reg_read, cb_hook_mem_read := Some hook_mem_read,
               cb_hook_mem_write := Some hook_mem_write, cb_hook_reg_write := Some hook_reg_write,
               cb_hook_flag_read := Some hook_flag_read, cb_hook_command := Some hook_command\<rparr>,
            s\<lparr>es_stats := Some []\<rparr>)
      else (cb\<lparr>cb_hook_mem_write := None, cb_hook_flag_read := None, cb_hook_command := None\<rparr>,
            s\<lparr>es_stats := None\<rparr>))"

end
