(* ===== verification/R2_Esil_Ops.thy ===== *)
theory R2_Esil_Ops
  imports R2_Esil
begin

text \<open>
  The operations of the ESIL machine that work on the stack and on registers (\<^verbatim>\<open>libr/anal/esil.c\<close>,
  \<open>esil_eq\<close> to \<open>esil_deceq\<close> and \<open>esil_num\<close> to \<open>esil_bigger_equal\<close>). Each is one definition: it pops its
  operands in the order of the code, and the branches in which a parameter is missing or unreadable
  return 0 with the operands gone.
\<close>

type_synonym 's op = "'s esil_cb \<Rightarrow> 's \<Rightarrow> (int \<times> 's) option"

text \<open>The guards \<open>x && r_anal_esil_get_parm (esil, x, &n)\<close>, \<open>x && r_anal_esil_reg_read (esil, x, &n, NULL)\<close>.\<close>

definition if_parm ::
  "'io esil esil_cb \<Rightarrow> string option \<Rightarrow> 'io esil \<Rightarrow>
   (string \<Rightarrow> ut64 \<Rightarrow> 'io esil \<Rightarrow> (int \<times> 'io esil) option) \<Rightarrow> (int \<times> 'io esil) option" where
  "if_parm cb str s k = (case str of
     None \<Rightarrow> Some (0, s)
   | Some x \<Rightarrow> do {
       (r, s) \<leftarrow> r_anal_esil_get_parm cb x s;
       (case r of None \<Rightarrow> Some (0, s) | Some v \<Rightarrow> k x v s) })"

definition if_parm_size ::
  "'io esil esil_cb \<Rightarrow> string option \<Rightarrow> 'io esil \<Rightarrow>
   (string \<Rightarrow> ut64 \<Rightarrow> int \<Rightarrow> 'io esil \<Rightarrow> (int \<times> 'io esil) option) \<Rightarrow> (int \<times> 'io esil) option" where
  "if_parm_size cb str s k = (case str of
     None \<Rightarrow> Some (0, s)
   | Some x \<Rightarrow> do {
       (r, s) \<leftarrow> r_anal_esil_get_parm_size cb True x s;
       (case r of None \<Rightarrow> Some (0, s) | Some (v, sz) \<Rightarrow> k x v sz s) })"

definition if_reg ::
  "'io esil esil_cb \<Rightarrow> string option \<Rightarrow> 'io esil \<Rightarrow>
   (string \<Rightarrow> ut64 \<Rightarrow> 'io esil \<Rightarrow> (int \<times> 'io esil) option) \<Rightarrow> (int \<times> 'io esil) option" where
  "if_reg cb str s k = (case str of
     None \<Rightarrow> Some (0, s)
   | Some x \<Rightarrow> do {
       (r, s) \<leftarrow> r_anal_esil_reg_read cb False x s;
       (case r of None \<Rightarrow> Some (0, s) | Some (v, _) \<Rightarrow> k x v s) })"

text \<open>The record of the last operation, from which the flags are computed.\<close>

definition set_last :: "ut64 \<Rightarrow> ut64 \<Rightarrow> string \<Rightarrow> 'io esil \<Rightarrow> 'io esil" where
  "set_last o' c dst s = s\<lparr>es_old := o', es_cur := c, es_lastsz := esil_internal_sizeof_reg s dst\<rparr>"

definition set_last_unless_internal ::
  "string \<Rightarrow> ut64 \<Rightarrow> ut64 \<Rightarrow> string \<Rightarrow> 'io esil \<Rightarrow> (unit \<times> 'io esil) option" where
  "set_last_unless_internal src o' c dst s = do {
     t \<leftarrow> r_anal_esil_get_parm_type s src;
     Some ((), if t \<noteq> PARM_INTERNAL then set_last o' c dst s else s) }"

definition write_ok :: "'io esil esil_cb \<Rightarrow> string \<Rightarrow> ut64 \<Rightarrow> 'io esil \<Rightarrow> (int \<times> 'io esil) option" where
  "write_ok cb dst num s = do { (_, s) \<leftarrow> r_anal_esil_reg_write cb dst num s; Some (1, s) }"

definition div_trap :: "'io esil \<Rightarrow> 'io esil" where
  "div_trap s = s\<lparr>es_trap := R_ANAL_TRAP_DIVBYZERO, es_trap_code := 0\<rparr>"

section \<open>Assignment and logic\<close>

definition esil_eq :: "'io esil op" where
  "esil_eq cb s = (let (dst, s) = r_anal_esil_pop s; (src, s) = r_anal_esil_pop s in
     case (src, dst) of
       (Some src, Some dst) \<Rightarrow> do {
         (r, s) \<leftarrow> r_anal_esil_reg_read_nocallback cb False dst s;
         (case r of
            None \<Rightarrow> Some (0, s)
          | Some (num, _) \<Rightarrow> if_parm cb (Some src) s (\<lambda>src num2 s. do {
              (ret, s) \<leftarrow> r_anal_esil_reg_write cb dst num2 s;
              (if ret \<noteq> 0
               then do { (_, s) \<leftarrow> set_last_unless_internal src num num2 dst s; Some (ret, s) }
               else Some (ret, s)) })) }
     | _ \<Rightarrow> Some (0, s))"

definition esil_neg :: "'io esil op" where
  "esil_neg cb s = (let (src, s) = r_anal_esil_pop s in
     case src of
       None \<Rightarrow> Some (0, s)
     | Some src \<Rightarrow> do {
         (r, s) \<leftarrow> r_anal_esil_get_parm cb src s;
         (case r of
            Some num \<Rightarrow> Some (1, pushed_num (bool64 (num = 0)) s)
          | None \<Rightarrow> do {
              (r, s) \<leftarrow> isregornum cb src s;
              (case r of
                 Some num \<Rightarrow> Some (1, pushed_num (bool64 (num = 0)) s)
               | None \<Rightarrow> Some (0, s)) }) })"

definition esil_negeq :: "'io esil op" where
  "esil_negeq cb s = (let (src, s) = r_anal_esil_pop s in
     if_reg cb src s (\<lambda>src num s. write_ok cb src (bool64 (num = 0)) s))"

definition esil_nop :: "'io esil op" where
  "esil_nop cb s = Some (0, s)"

definition esil_andeq :: "'io esil op" where
  "esil_andeq cb s = (let (dst, s) = r_anal_esil_pop s; (src, s) = r_anal_esil_pop s in
     if_reg cb dst s (\<lambda>dst num s. if_parm cb src s (\<lambda>src num2 s. do {
       (_, s) \<leftarrow> set_last_unless_internal src num (num AND num2) dst s;
       write_ok cb dst (num AND num2) s })))"

definition esil_oreq :: "'io esil op" where
  "esil_oreq cb s = (let (dst, s) = r_anal_esil_pop s; (src, s) = r_anal_esil_pop s in
     if_reg cb dst s (\<lambda>dst num s. if_parm cb src s (\<lambda>src num2 s. do {
       (_, s) \<leftarrow> set_last_unless_internal src num (num OR num2) dst s;
       write_ok cb dst (num OR num2) s })))"

definition esil_xoreq :: "'io esil op" where
  "esil_xoreq cb s = (let (dst, s) = r_anal_esil_pop s; (src, s) = r_anal_esil_pop s in
     if_reg cb dst s (\<lambda>dst num s. if_parm cb src s (\<lambda>src num2 s. do {
       (_, s) \<leftarrow> set_last_unless_internal src num (num XOR num2) dst s;
       write_ok cb dst (num XOR num2) s })))"

section \<open>Traps, interrupts, comparison and conditionals\<close>

definition esil_trap :: "'io esil op" where
  "esil_trap cb s0 = do {
     (r, s1) \<leftarrow> popRN cb s0;
     (case r of
        None \<Rightarrow> Some (0, s1)
      | Some s \<Rightarrow> do {
          (r, s1) \<leftarrow> popRN cb s1;
          (case r of
             None \<Rightarrow> Some (0, s1)
           | Some d \<Rightarrow> r_anal_esil_fire_trap cb (c_int s) (c_int d)
                        (s1\<lparr>es_trap := c_int s, es_trap_code := ucast d\<rparr>)) }) }"

definition esil_bits :: "'io esil op" where
  "esil_bits cb s0 = do {
     (r, s1) \<leftarrow> popRN cb s0;
     (case r of
        None \<Rightarrow> Some (0, s1)
      | Some s \<Rightarrow> (case (es_anal s1, cb_setab cb) of
          (Some _, Some f) \<Rightarrow> do { (_, s1) \<leftarrow> f (c_int s) s1; Some (1, s1) }
        | _ \<Rightarrow> Some (1, s1))) }"

definition esil_interrupt :: "'io esil op" where
  "esil_interrupt cb s = do {
     (r, s) \<leftarrow> popRN cb s;
     (case r of None \<Rightarrow> Some (0, s) | Some i \<Rightarrow> r_anal_esil_fire_interrupt cb (c_int i) s) }"

text \<open>The size a comparison is made at: that of the first operand that names a register, else 64.\<close>

definition cmp_size :: "string \<Rightarrow> string \<Rightarrow> 'io esil \<Rightarrow> ut8 option" where
  "cmp_size dst src s = do {
     an \<leftarrow> es_anal s;
     Some (if r_reg_get (an_reg an) dst (- 1) \<noteq> None then esil_internal_sizeof_reg s dst
           else if r_reg_get (an_reg an) src (- 1) \<noteq> None then esil_internal_sizeof_reg s src
           else 64) }"

text \<open>The shape the five comparisons share; \<open>f\<close> is the number pushed.\<close>

definition compare_with :: "(ut64 \<Rightarrow> ut64 \<Rightarrow> ut64 \<Rightarrow> ut64) \<Rightarrow> 'io esil op" where
  "compare_with f cb s = (let (dst, s) = r_anal_esil_pop s; (src, s) = r_anal_esil_pop s in
     if_parm cb dst s (\<lambda>dst num s. if_parm cb src s (\<lambda>src num2 s. do {
       sz \<leftarrow> cmp_size dst src s;
       (let s = s\<lparr>es_old := num, es_cur := num - num2, es_lastsz := sz\<rparr>
        in Some (1, pushed_num (f num num2 (ucast sz)) s)) })))"

definition esil_cmp :: "'io esil op" where
  "esil_cmp = compare_with (\<lambda>num num2 sz. bool64 (num = num2))"

definition signed_compare_gt :: "ut64 \<Rightarrow> ut64 \<Rightarrow> ut64 \<Rightarrow> bool" where
  "signed_compare_gt a b sz =
     (if sz = 1 then a AND 1 > b AND 1
      else if sz = 8 then sint (ucast a :: 8 word) > sint (ucast b :: 8 word)
      else if sz = 16 then sint (ucast a :: 16 word) > sint (ucast b :: 16 word)
      else if sz = 32 then sint (ucast a :: 32 word) > sint (ucast b :: 32 word)
      else sint a > sint b)"

definition esil_smaller :: "'io esil op" where
  "esil_smaller = compare_with (\<lambda>num num2 sz. bool64 (num \<noteq> num2 \<and> \<not> signed_compare_gt num num2 sz))"

definition esil_bigger :: "'io esil op" where
  "esil_bigger = compare_with (\<lambda>num num2 sz. bool64 (signed_compare_gt num num2 sz))"

definition esil_smaller_equal :: "'io esil op" where
  "esil_smaller_equal = compare_with (\<lambda>num num2 sz. bool64 (\<not> signed_compare_gt num num2 sz))"

definition esil_bigger_equal :: "'io esil op" where
  "esil_bigger_equal = compare_with (\<lambda>num num2 sz. bool64 (num = num2 \<or> signed_compare_gt num num2 sz))"

text \<open>
  \<open>esil_if\<close> does not look at the result of \<open>r_anal_esil_get_parm\<close>. When it fails, \<open>num\<close> is 0 if the
  parameter named a register (\<open>r_anal_esil_reg_read\<close> clears it first) and uninitialised otherwise.
\<close>

definition esil_if :: "'io esil op" where
  "esil_if cb s = (let (src, s) = r_anal_esil_pop s in
     case src of
       None \<Rightarrow> Some (0, s)
     | Some src \<Rightarrow> do {
         t \<leftarrow> r_anal_esil_get_parm_type s src;
         (r, s) \<leftarrow> r_anal_esil_get_parm cb src s;
         num \<leftarrow> (case r of Some n \<Rightarrow> Some n | None \<Rightarrow> if t = PARM_REG then Some 0 else None);
         Some (1, if num = 0 then s\<lparr>es_skip := 1\<rparr> else s) })"

section \<open>Shifts and rotations\<close>

definition esil_lsl :: "'io esil op" where
  "esil_lsl cb s = (let (dst, s) = r_anal_esil_pop s; (src, s) = r_anal_esil_pop s in
     if_parm cb dst s (\<lambda>dst num s. if_parm cb src s (\<lambda>src num2 s. do {
       res \<leftarrow> shl64 num (unat num2);
       Some (1, pushed_num res s) })))"

definition esil_lsleq :: "'io esil op" where
  "esil_lsleq cb s = (let (dst, s) = r_anal_esil_pop s; (src, s) = r_anal_esil_pop s in
     if_reg cb dst s (\<lambda>dst num s. if_parm cb src s (\<lambda>src num2 s. do {
       res \<leftarrow> shl64 num (unat num2);
       write_ok cb dst res (set_last num res dst s) })))"

definition esil_lsr :: "'io esil op" where
  "esil_lsr cb s = (let (dst, s) = r_anal_esil_pop s; (src, s) = r_anal_esil_pop s in
     if_parm cb dst s (\<lambda>dst num s. if_parm cb src s (\<lambda>src num2 s. do {
       res \<leftarrow> shr64 num (unat num2);
       Some (1, pushed_num res s) })))"

definition esil_lsreq :: "'io esil op" where
  "esil_lsreq cb s = (let (dst, s) = r_anal_esil_pop s; (src, s) = r_anal_esil_pop s in
     if_reg cb dst s (\<lambda>dst num s. if_parm cb src s (\<lambda>src num2 s. do {
       res \<leftarrow> shr64 num (unat num2);
       write_ok cb dst res (set_last num res dst s) })))"

definition ror64 :: "ut64 \<Rightarrow> ut64 \<Rightarrow> int \<Rightarrow> ut64 option" where
  "ror64 num n regsize =
     (let mask = of_int (regsize - 1); num2 = n AND mask in do {
        a \<leftarrow> shr64 num (unat num2);
        b \<leftarrow> shl64 num (unat ((- num2) AND mask));
        Some (a OR b) })"

definition esil_ror :: "'io esil op" where
  "esil_ror cb s = (let (dst, s) = r_anal_esil_pop s; (src, s) = r_anal_esil_pop s in
     if_parm_size cb dst s (\<lambda>dst num regsize s. if_parm cb src s (\<lambda>src num2 s. do {
       res \<leftarrow> ror64 num num2 regsize;
       Some (1, pushed_num res s) })))"

definition rol64 :: "ut64 \<Rightarrow> ut64 \<Rightarrow> int \<Rightarrow> ut64 option" where
  "rol64 num n regsize =
     (let mask = of_int (regsize - 1); num2 = n AND mask in do {
        a \<leftarrow> shl64 num (unat num2);
        b \<leftarrow> shr64 num (unat ((- num2) AND mask));
        Some (a OR b) })"

definition esil_rol :: "'io esil op" where
  "esil_rol cb s = (let (dst, s) = r_anal_esil_pop s; (src, s) = r_anal_esil_pop s in
     if_parm_size cb dst s (\<lambda>dst num regsize s. if_parm cb src s (\<lambda>src num2 s. do {
       res \<leftarrow> rol64 num num2 regsize;
       Some (1, pushed_num res s) })))"

definition esil_and :: "'io esil op" where
  "esil_and cb s = (let (dst, s) = r_anal_esil_pop s; (src, s) = r_anal_esil_pop s in
     if_parm cb dst s (\<lambda>dst num s. if_parm cb src s (\<lambda>src num2 s.
       Some (1, pushed_num (num AND num2) s))))"

definition esil_xor :: "'io esil op" where
  "esil_xor cb s = (let (dst, s) = r_anal_esil_pop s; (src, s) = r_anal_esil_pop s in
     if_parm cb dst s (\<lambda>dst num s. if_parm cb src s (\<lambda>src num2 s.
       Some (1, pushed_num (num XOR num2) s))))"

definition esil_or :: "'io esil op" where
  "esil_or cb s = (let (dst, s) = r_anal_esil_pop s; (src, s) = r_anal_esil_pop s in
     if_parm cb dst s (\<lambda>dst num s. if_parm cb src s (\<lambda>src num2 s.
       Some (1, pushed_num (num OR num2) s))))"

section \<open>Control\<close>

definition r_anal_esil_trapstr :: "int \<Rightarrow> string" where
  "r_anal_esil_trapstr type =
     (if type = R_ANAL_TRAP_READ_ERR then ''read-err''
      else if type = R_ANAL_TRAP_WRITE_ERR then ''write-err''
      else if type = 2 then ''breakpoint''
      else if type = 1 then ''unhandled''
      else if type = R_ANAL_TRAP_DIVBYZERO then ''divbyzero''
      else ''unknown'')"

text \<open>Printing the stack reads \<open>esil->anal\<close> unless the stack is empty.\<close>

definition r_anal_esil_dumpstack :: "'io esil op" where
  "r_anal_esil_dumpstack cb s =
     (if es_stack s = [] then Some (0, s) else do { _ \<leftarrow> es_anal s; Some (1, s) })"

definition esil_break :: "'io esil op" where
  "esil_break cb s = Some (1, s\<lparr>es_parse_stop := 1\<rparr>)"

function pop_all :: "'io esil \<Rightarrow> 'io esil" where
  "pop_all s = (case r_anal_esil_pop s of (None, s') \<Rightarrow> s' | (Some _, s') \<Rightarrow> pop_all s')"
  by auto
termination
  by (relation "measure (\<lambda>s. length (es_stack s))") (auto simp: r_anal_esil_pop_def split: if_splits)

declare pop_all.simps [simp del]

definition esil_clear :: "'io esil op" where
  "esil_clear cb s = Some (1, pop_all s)"

definition esil_todo :: "'io esil op" where
  "esil_todo cb s = Some (1, s\<lparr>es_parse_stop := 2\<rparr>)"

definition esil_goto :: "'io esil op" where
  "esil_goto cb s = (let (src, s) = r_anal_esil_pop s in
     do { (_, s) \<leftarrow> if_parm cb (case src of Some [] \<Rightarrow> None | _ \<Rightarrow> src) s
            (\<lambda>src num s. Some (1, s\<lparr>es_parse_goto := c_int num\<rparr>));
          Some (1, s) })"

definition esil_pop :: "'io esil op" where
  "esil_pop cb s = Some (1, snd (r_anal_esil_pop s))"

section \<open>Arithmetic\<close>

definition esil_mod :: "'io esil op" where
  "esil_mod cb s0 = (let (dst, s1) = r_anal_esil_pop s0; (src, s1) = r_anal_esil_pop s1 in
     if_parm cb src s1 (\<lambda>src s s1. if_parm cb dst s1 (\<lambda>dst d s1.
       Some (1, if s = 0 then div_trap s1 else pushed_num (d mod s) s1))))"

definition esil_modeq :: "'io esil op" where
  "esil_modeq cb s0 = (let (dst, s1) = r_anal_esil_pop s0; (src, s1) = r_anal_esil_pop s1 in
     if_parm cb src s1 (\<lambda>src s s1. if_reg cb dst s1 (\<lambda>dst d s1.
       if s \<noteq> 0 then do {
         (_, s1) \<leftarrow> set_last_unless_internal src d (d mod s) dst s1;
         write_ok cb dst (d mod s) s1 }
       else Some (1, div_trap s1))))"

definition esil_div :: "'io esil op" where
  "esil_div cb s0 = (let (dst, s1) = r_anal_esil_pop s0; (src, s1) = r_anal_esil_pop s1 in
     if_parm cb src s1 (\<lambda>src s s1. if_parm cb dst s1 (\<lambda>dst d s1.
       Some (1, if s = 0 then div_trap s1 else pushed_num (d div s) s1))))"

definition esil_diveq :: "'io esil op" where
  "esil_diveq cb s0 = (let (dst, s1) = r_anal_esil_pop s0; (src, s1) = r_anal_esil_pop s1 in
     if_parm cb src s1 (\<lambda>src s s1. if_reg cb dst s1 (\<lambda>dst d s1.
       if s \<noteq> 0 then do {
         (_, s1) \<leftarrow> set_last_unless_internal src d (d div s) dst s1;
         write_ok cb dst (d div s) s1 }
       else Some (1, div_trap s1))))"

definition esil_mul :: "'io esil op" where
  "esil_mul cb s0 = (let (dst, s1) = r_anal_esil_pop s0; (src, s1) = r_anal_esil_pop s1 in
     if_parm cb src s1 (\<lambda>src s s1. if_parm cb dst s1 (\<lambda>dst d s1. Some (1, pushed_num (d * s) s1))))"

definition esil_muleq :: "'io esil op" where
  "esil_muleq cb s0 = (let (dst, s1) = r_anal_esil_pop s0; (src, s1) = r_anal_esil_pop s1 in
     if_parm cb src s1 (\<lambda>src s s1. if_reg cb dst s1 (\<lambda>dst d s1. do {
       (_, s1) \<leftarrow> set_last_unless_internal src d (d * s) dst s1;
       write_ok cb dst (s * d) s1 })))"

definition esil_add :: "'io esil op" where
  "esil_add cb s0 = (let (dst, s1) = r_anal_esil_pop s0; (src, s1) = r_anal_esil_pop s1 in
     if_parm cb src s1 (\<lambda>src s s1. if_parm cb dst s1 (\<lambda>dst d s1. Some (1, pushed_num (s + d) s1))))"

definition esil_addeq :: "'io esil op" where
  "esil_addeq cb s0 = (let (dst, s1) = r_anal_esil_pop s0; (src, s1) = r_anal_esil_pop s1 in
     if_parm cb src s1 (\<lambda>src s s1. if_reg cb dst s1 (\<lambda>dst d s1. do {
       (_, s1) \<leftarrow> set_last_unless_internal src d (d + s) dst s1;
       write_ok cb dst (s + d) s1 })))"

definition esil_inc :: "'io esil op" where
  "esil_inc cb s0 = (let (src, s1) = r_anal_esil_pop s0 in
     if_parm cb src s1 (\<lambda>src s s1. Some (1, pushed_num (s + 1) s1)))"

text \<open>
  \<open>++=\<close> and \<open>--=\<close> take a register only; \<open>delta\<close> is 1 or -1. They write the register before they
  record its size.
\<close>

definition step_reg :: "ut64 \<Rightarrow> 'io esil op" where
  "step_reg delta cb s0 = (let (src_dst, s1) = r_anal_esil_pop s0 in
     case src_dst of
       None \<Rightarrow> Some (0, s1)
     | Some x \<Rightarrow> do {
         t \<leftarrow> r_anal_esil_get_parm_type s1 x;
         (if t \<noteq> PARM_REG then Some (0, s1)
          else if_parm cb (Some x) s1 (\<lambda>x sd s1. do {
            (_, s1) \<leftarrow> r_anal_esil_reg_write cb x (sd + delta) (s1\<lparr>es_old := sd, es_cur := sd + delta\<rparr>);
            Some (1, s1\<lparr>es_lastsz := esil_internal_sizeof_reg s1 x\<rparr>) })) })"

definition esil_inceq :: "'io esil op" where
  "esil_inceq = step_reg 1"

definition esil_sub :: "'io esil op" where
  "esil_sub cb s0 = do {
     (r, s1) \<leftarrow> popRN cb s0;
     (case r of
        None \<Rightarrow> Some (0, s1)
      | Some d \<Rightarrow> do {
          (r, s1) \<leftarrow> popRN cb s1;
          (case r of None \<Rightarrow> Some (0, s1) | Some s \<Rightarrow> Some (1, pushed_num (d - s) s1)) }) }"

definition esil_subeq :: "'io esil op" where
  "esil_subeq cb s0 = (let (dst, s1) = r_anal_esil_pop s0; (src, s1) = r_anal_esil_pop s1 in
     if_parm cb src s1 (\<lambda>src s s1. if_reg cb dst s1 (\<lambda>dst d s1. do {
       (_, s1) \<leftarrow> set_last_unless_internal src d (d - s) dst s1;
       write_ok cb dst (d - s) s1 })))"

definition esil_dec :: "'io esil op" where
  "esil_dec cb s0 = (let (src, s1) = r_anal_esil_pop s0 in
     if_parm cb src s1 (\<lambda>src s s1. Some (1, pushed_num (s - 1) s1)))"

definition esil_deceq :: "'io esil op" where
  "esil_deceq = step_reg (- 1)"

section \<open>Stack shuffling\<close>

definition esil_num :: "'io esil op" where
  "esil_num cb s = (let (dup_me, s) = r_anal_esil_pop s in
     if_parm cb dup_me s (\<lambda>_ dup s. Some (map_prod cbool id (r_anal_esil_pushnum dup s))))"

definition esil_dup :: "'io esil op" where
  "esil_dup cb s =
     (if es_stack s = [] \<or> int (length (es_stack s)) > es_stacksize s - 1 then Some (0, s)
      else Some (map_prod cbool id (r_anal_esil_push (Some (last (es_stack s))) s)))"

definition esil_swap :: "'io esil op" where
  "esil_swap cb s =
     (let n = length (es_stack s) in
      if n < 2 then Some (0, s)
      else Some (1, s\<lparr>es_stack := (es_stack s)[n - 1 := es_stack s ! (n - 2), n - 2 := es_stack s ! (n - 1)]\<rparr>))"

text \<open>
  \<open>PICK\<close> reads \<open>stack[stackptr - i]\<close>. For \<open>i = 0\<close> that is the slot the index was popped from, which
  still holds the index itself (freed only on return) unless a callback used the stack meanwhile.
  The negation of the least \<open>st64\<close> overflows.
\<close>

definition pick_slot :: "string \<Rightarrow> string list \<Rightarrow> ut64 \<Rightarrow> 'io esil \<Rightarrow> string option" where
  "pick_slot idx stk0 i s =
     (if i = 0 then (if es_stack s = stk0 then Some idx else None)
      else Some (es_stack s ! (length (es_stack s) - unat i)))"

definition esil_generic_pick :: "bool \<Rightarrow> 'io esil op" where
  "esil_generic_pick rv cb s = (let (idx, s) = r_anal_esil_pop s; stk0 = es_stack s in
     if_parm cb idx s (\<lambda>idx i0 s.
       let n = of_nat (length (es_stack s)) in
       if rv \<and> i0 = 0x8000000000000000 then None
       else let i = (if rv then n - i0 else i0) in
         if n < i then Some (0, s)
         else do {
           x \<leftarrow> pick_slot idx stk0 i s;
           (let (ok, s) = r_anal_esil_push (Some x) s
            in Some (if ok then (1, s) else (0, s\<lparr>es_trap := 1, es_trap_code := 1\<rparr>))) }))"

definition esil_pick :: "'io esil op" where
  "esil_pick = esil_generic_pick False"

definition esil_rpick :: "'io esil op" where
  "esil_rpick = esil_generic_pick True"

end
