(* ===== verification/R2_Esil_Mem_Ops.thy ===== *)
theory R2_Esil_Mem_Ops
  imports R2_Esil_Ops
begin

text \<open>
  The operations of the ESIL machine that read and write memory (\<^verbatim>\<open>libr/anal/esil.c\<close>, \<open>esil_poke_n\<close> to
  \<open>esil_mem_deceq\<close>). Bytes move through buffers on the C stack: eight uninitialised bytes in
  \<open>esil_poke_n\<close>, eight zero bytes in \<open>esil_peek_n\<close>.
\<close>

section \<open>Poke\<close>

definition c_buffer :: "'s esil_cb \<Rightarrow> nat \<Rightarrow> ut8 list" where
  "c_buffer cb n = map (cb_garbage cb) [0..<n]"

definition esil_poke_n :: "int \<Rightarrow> 'io esil op" where
  "esil_poke_n bits cb s = do {
     bitmask \<leftarrow> genmask (bits - 1);
     (let (dst, s) = r_anal_esil_pop s; (src, s) = r_anal_esil_pop s;
          b = c_buffer cb 8; bytes = min 8 (bits div 8)
      in if bits mod 8 \<noteq> 0 then Some (0, s)
         else if_parm cb src s (\<lambda>src num s. if_parm cb dst s (\<lambda>dst addr s. do {
           t \<leftarrow> r_anal_esil_get_parm_type s src;
           ((num, b), s) \<leftarrow>
             (if t \<noteq> PARM_INTERNAL then do {
                ((_, b), s) \<leftarrow> r_anal_esil_mem_read cb addr b bytes s;
                an \<leftarrow> es_anal s;
                n \<leftarrow> r_read_ble64 b 0 (an_big_endian an);
                Some ((num AND bitmask, b), s\<lparr>es_old := n, es_cur := num, es_lastsz := of_int bits\<rparr>) }
              else Some ((num, b), s));
           an \<leftarrow> es_anal s;
           b \<leftarrow> r_write_ble b 0 num (an_big_endian an) bits;
           r_anal_esil_mem_write cb addr b bytes s }))) }"

definition arch_bits :: "(int \<Rightarrow> 'io esil op) \<Rightarrow> 'io esil op" where
  "arch_bits f cb s = do { an \<leftarrow> es_anal s; f (an_bits an) cb s }"

definition esil_poke1 :: "'io esil op" where "esil_poke1 = esil_poke_n 8"
definition esil_poke2 :: "'io esil op" where "esil_poke2 = esil_poke_n 16"
definition esil_poke4 :: "'io esil op" where "esil_poke4 = esil_poke_n 32"
definition esil_poke8 :: "'io esil op" where "esil_poke8 = esil_poke_n 64"
definition esil_poke :: "'io esil op" where "esil_poke = arch_bits esil_poke_n"

text \<open>
  \<open>=[*]\<close> stores several values one after the other; the loop ends early when the stack is empty. A
  register narrower than a byte would give a buffer of length zero, which C does not have.
\<close>

definition ornum0 :: "'io esil esil_cb \<Rightarrow> string \<Rightarrow> 'io esil \<Rightarrow> (ut64 \<times> 'io esil) option" where
  "ornum0 cb str s = map_option (\<lambda>(r, s). (case r of None \<Rightarrow> 0 | Some v \<Rightarrow> v, s)) (isregornum cb str s)"

fun poke_some_loop :: "nat \<Rightarrow> ut64 \<Rightarrow> int \<Rightarrow> 'io esil op" where
  "poke_some_loop 0 ptr regsize cb s = Some (1, s)"
| "poke_some_loop (Suc n) ptr regsize cb s = (let (foo, s) = r_anal_esil_pop s in
     case foo of
       None \<Rightarrow> Some (1, s)
     | Some foo \<Rightarrow>
         (let bytes = (of_int (c_div regsize 8) :: ut8) in do {
            (num64, s) \<leftarrow> ornum0 cb foo s;
            an \<leftarrow> es_anal s;
            b \<leftarrow> r_write_ble (c_buffer cb (unat bytes)) 0 num64 (an_big_endian an) regsize;
            (ret, s) \<leftarrow> r_anal_esil_mem_write cb ptr b (uint bytes) s;
            poke_some_loop n (ptr + ucast bytes) regsize cb
              (if ret \<noteq> uint bytes then s\<lparr>es_trap := 1\<rparr> else s) }))"

definition esil_poke_some :: "'io esil op" where
  "esil_poke_some cb s = (let (dst, s) = r_anal_esil_pop s in
     if_parm_size cb dst s (\<lambda>dst _ regsize s. do {
       (ptr, s) \<leftarrow> ornum0 cb dst s;
       (let (count, s) = r_anal_esil_pop s in
        case count of
          None \<Rightarrow> Some (0, s)
        | Some count \<Rightarrow> do {
            (regs, s) \<leftarrow> ornum0 cb count s;
            (if regs = 0 then Some (1, s)
             else if (of_int (c_div regsize 8) :: ut8) = 0 then None
             else poke_some_loop (unat regs) ptr regsize cb s) }) }))"

section \<open>Peek\<close>

definition esil_peek_n :: "int \<Rightarrow> 'io esil op" where
  "esil_peek_n bits cb s = (let (dst, s) = r_anal_esil_pop s; bytes = bits div 8 in
     if bits mod 8 \<noteq> 0 then Some (0, s)
     else case dst of
       None \<Rightarrow> Some (0, s)
     | Some dst \<Rightarrow> do {
         (r, s) \<leftarrow> isregornum cb dst s;
         (case r of
            None \<Rightarrow> Some (0, s)
          | Some addr \<Rightarrow> do {
              bitmask \<leftarrow> genmask (bits - 1);
              ((ret, a), s) \<leftarrow> r_anal_esil_mem_read cb addr (replicate 8 0) bytes s;
              b \<leftarrow> r_read_ble64 a 0 False;
              an \<leftarrow> es_anal s;
              b \<leftarrow> (if an_big_endian an
                    then map_option dec_le64 (r_mem_swapendian (enc_le64 b) bytes)
                    else Some b);
              Some (ret, (pushed (Some (fmt_0x (b AND bitmask))) s)\<lparr>es_lastsz := of_int bits\<rparr>) }) })"

definition esil_peek1 :: "'io esil op" where "esil_peek1 = esil_peek_n 8"
definition esil_peek2 :: "'io esil op" where "esil_peek2 = esil_peek_n 16"
definition esil_peek4 :: "'io esil op" where "esil_peek4 = esil_peek_n 32"
definition esil_peek8 :: "'io esil op" where "esil_peek8 = esil_peek_n 64"
definition esil_peek :: "'io esil op" where "esil_peek = arch_bits esil_peek_n"

fun peek_some_loop :: "nat \<Rightarrow> ut64 \<Rightarrow> 'io esil op" where
  "peek_some_loop 0 ptr cb s = Some (1, s)"
| "peek_some_loop (Suc n) ptr cb s = (let (foo, s) = r_anal_esil_pop s in
     case foo of
       None \<Rightarrow> Some (0, s)
     | Some foo \<Rightarrow> do {
         ((ret, a), s) \<leftarrow> r_anal_esil_mem_read cb ptr (c_buffer cb 4) 4 s;
         (_, s) \<leftarrow>
           (if ret = 4 then do {
              an \<leftarrow> es_anal s;
              num32 \<leftarrow> r_read_ble32 a 0 (an_big_endian an);
              r_anal_esil_reg_write cb foo (ucast num32) s }
            else Some (0, s));
         peek_some_loop n (ptr + 4) cb s })"

definition esil_peek_some :: "'io esil op" where
  "esil_peek_some cb s = (let (dst, s) = r_anal_esil_pop s in
     case dst of
       None \<Rightarrow> Some (0, s)
     | Some dst \<Rightarrow> do {
         (ptr, s) \<leftarrow> ornum0 cb dst s;
         (let (count, s) = r_anal_esil_pop s in
          case count of
            None \<Rightarrow> Some (0, s)
          | Some count \<Rightarrow> do {
              (regs, s) \<leftarrow> ornum0 cb count s;
              peek_some_loop (unat regs) ptr cb s }) })"

section \<open>Read, modify, write\<close>

text \<open>
  The part all operations on a memory operand share: push the address back, read through
  \<open>esil_peek_n\<close>, pop the value, let \<open>put\<close> push what is computed from it, push the address again and
  write through \<open>esil_poke_n\<close>.
\<close>

definition mem_update ::
  "int \<Rightarrow> string option \<Rightarrow> (ut64 \<Rightarrow> 'io esil \<Rightarrow> 'io esil) \<Rightarrow> 'io esil op" where
  "mem_update bits dst put cb s = do {
     (ret, s) \<leftarrow> esil_peek_n bits cb (pushed dst s);
     (let (src1, s) = r_anal_esil_pop s in
      if_parm cb src1 s (\<lambda>_ d s. do {
        (ret2, s) \<leftarrow> esil_poke_n bits cb (pushed dst (put d s));
        Some (cbool (ret \<noteq> 0 \<and> ret2 \<noteq> 0), s) })) }"

definition mem_binop_n :: "(ut64 \<Rightarrow> ut64 \<Rightarrow> ut64) \<Rightarrow> int \<Rightarrow> 'io esil op" where
  "mem_binop_n f bits cb s0 = (let (dst, s1) = r_anal_esil_pop s0; (src0, s1) = r_anal_esil_pop s1 in
     if_parm cb src0 s1 (\<lambda>_ s s1. mem_update bits dst (\<lambda>d. pushed_num (f d s)) cb s1))"

definition esil_mem_oreq_n :: "int \<Rightarrow> 'io esil op" where "esil_mem_oreq_n = mem_binop_n (OR)"
definition esil_mem_oreq1 :: "'io esil op" where "esil_mem_oreq1 = esil_mem_oreq_n 8"
definition esil_mem_oreq2 :: "'io esil op" where "esil_mem_oreq2 = esil_mem_oreq_n 16"
definition esil_mem_oreq4 :: "'io esil op" where "esil_mem_oreq4 = esil_mem_oreq_n 32"
definition esil_mem_oreq8 :: "'io esil op" where "esil_mem_oreq8 = esil_mem_oreq_n 64"
definition esil_mem_oreq :: "'io esil op" where "esil_mem_oreq = arch_bits esil_mem_oreq_n"

definition esil_mem_xoreq_n :: "int \<Rightarrow> 'io esil op" where "esil_mem_xoreq_n = mem_binop_n (XOR)"
definition esil_mem_xoreq1 :: "'io esil op" where "esil_mem_xoreq1 = esil_mem_xoreq_n 8"
definition esil_mem_xoreq2 :: "'io esil op" where "esil_mem_xoreq2 = esil_mem_xoreq_n 16"
definition esil_mem_xoreq4 :: "'io esil op" where "esil_mem_xoreq4 = esil_mem_xoreq_n 32"
definition esil_mem_xoreq8 :: "'io esil op" where "esil_mem_xoreq8 = esil_mem_xoreq_n 64"
definition esil_mem_xoreq :: "'io esil op" where "esil_mem_xoreq = arch_bits esil_mem_xoreq_n"

definition esil_mem_andeq_n :: "int \<Rightarrow> 'io esil op" where "esil_mem_andeq_n = mem_binop_n (AND)"
definition esil_mem_andeq1 :: "'io esil op" where "esil_mem_andeq1 = esil_mem_andeq_n 8"
definition esil_mem_andeq2 :: "'io esil op" where "esil_mem_andeq2 = esil_mem_andeq_n 16"
definition esil_mem_andeq4 :: "'io esil op" where "esil_mem_andeq4 = esil_mem_andeq_n 32"
definition esil_mem_andeq8 :: "'io esil op" where "esil_mem_andeq8 = esil_mem_andeq_n 64"
definition esil_mem_andeq :: "'io esil op" where "esil_mem_andeq = arch_bits esil_mem_andeq_n"

definition esil_mem_addeq_n :: "int \<Rightarrow> 'io esil op" where "esil_mem_addeq_n = mem_binop_n (+)"
definition esil_mem_addeq1 :: "'io esil op" where "esil_mem_addeq1 = esil_mem_addeq_n 8"
definition esil_mem_addeq2 :: "'io esil op" where "esil_mem_addeq2 = esil_mem_addeq_n 16"
definition esil_mem_addeq4 :: "'io esil op" where "esil_mem_addeq4 = esil_mem_addeq_n 32"
definition esil_mem_addeq8 :: "'io esil op" where "esil_mem_addeq8 = esil_mem_addeq_n 64"
definition esil_mem_addeq :: "'io esil op" where "esil_mem_addeq = arch_bits esil_mem_addeq_n"

definition esil_mem_subeq_n :: "int \<Rightarrow> 'io esil op" where "esil_mem_subeq_n = mem_binop_n (-)"
definition esil_mem_subeq1 :: "'io esil op" where "esil_mem_subeq1 = esil_mem_subeq_n 8"
definition esil_mem_subeq2 :: "'io esil op" where "esil_mem_subeq2 = esil_mem_subeq_n 16"
definition esil_mem_subeq4 :: "'io esil op" where "esil_mem_subeq4 = esil_mem_subeq_n 32"
definition esil_mem_subeq8 :: "'io esil op" where "esil_mem_subeq8 = esil_mem_subeq_n 64"
definition esil_mem_subeq :: "'io esil op" where "esil_mem_subeq = arch_bits esil_mem_subeq_n"

text \<open>The remainder is pushed twice; \<open>esil_poke_n\<close> takes one of the two.\<close>

definition esil_mem_modeq_n :: "int \<Rightarrow> 'io esil op" where
  "esil_mem_modeq_n bits cb s0 = (let (dst, s1) = r_anal_esil_pop s0; (src0, s1) = r_anal_esil_pop s1 in
     if_parm cb src0 s1 (\<lambda>_ s s1.
       if s = 0 then Some (0, div_trap s1)
       else mem_update bits dst (\<lambda>d s1. pushed_num (d mod s) (pushed_num (d mod s) s1)) cb s1))"

definition esil_mem_modeq1 :: "'io esil op" where "esil_mem_modeq1 = esil_mem_modeq_n 8"
definition esil_mem_modeq2 :: "'io esil op" where "esil_mem_modeq2 = esil_mem_modeq_n 16"
definition esil_mem_modeq4 :: "'io esil op" where "esil_mem_modeq4 = esil_mem_modeq_n 32"
definition esil_mem_modeq8 :: "'io esil op" where "esil_mem_modeq8 = esil_mem_modeq_n 64"
definition esil_mem_modeq :: "'io esil op" where "esil_mem_modeq = arch_bits esil_mem_modeq_n"

definition esil_mem_diveq_n :: "int \<Rightarrow> 'io esil op" where
  "esil_mem_diveq_n bits cb s0 = (let (dst, s1) = r_anal_esil_pop s0; (src0, s1) = r_anal_esil_pop s1 in
     if_parm cb src0 s1 (\<lambda>_ s s1.
       if s = 0 then Some (0, div_trap s1)
       else mem_update bits dst (\<lambda>d. pushed_num (d div s)) cb s1))"

definition esil_mem_diveq1 :: "'io esil op" where "esil_mem_diveq1 = esil_mem_diveq_n 8"
definition esil_mem_diveq2 :: "'io esil op" where "esil_mem_diveq2 = esil_mem_diveq_n 16"
definition esil_mem_diveq4 :: "'io esil op" where "esil_mem_diveq4 = esil_mem_diveq_n 32"
definition esil_mem_diveq8 :: "'io esil op" where "esil_mem_diveq8 = esil_mem_diveq_n 64"
definition esil_mem_diveq :: "'io esil op" where "esil_mem_diveq = arch_bits esil_mem_diveq_n"

text \<open>The \<open>bitmask\<close> parameter of \<open>esil_mem_muleq_n\<close> is not used by its body.\<close>

definition esil_mem_muleq_n :: "int \<Rightarrow> 'io esil op" where "esil_mem_muleq_n = mem_binop_n (*)"
definition esil_mem_muleq1 :: "'io esil op" where "esil_mem_muleq1 = esil_mem_muleq_n 8"
definition esil_mem_muleq2 :: "'io esil op" where "esil_mem_muleq2 = esil_mem_muleq_n 16"
definition esil_mem_muleq4 :: "'io esil op" where "esil_mem_muleq4 = esil_mem_muleq_n 32"
definition esil_mem_muleq8 :: "'io esil op" where "esil_mem_muleq8 = esil_mem_muleq_n 64"

definition esil_mem_muleq :: "'io esil op" where
  "esil_mem_muleq cb s = do {
     an \<leftarrow> es_anal s;
     (if an_bits an = 64 then esil_mem_muleq8 cb s
      else if an_bits an = 32 then esil_mem_muleq4 cb s
      else if an_bits an = 16 then esil_mem_muleq2 cb s
      else if an_bits an = 8 then esil_mem_muleq1 cb s
      else Some (0, s)) }"

definition mem_step_n :: "ut64 \<Rightarrow> int \<Rightarrow> 'io esil op" where
  "mem_step_n delta bits cb s = (let (off, s) = r_anal_esil_pop s in
     case off of
       None \<Rightarrow> Some (0, s)
     | Some _ \<Rightarrow> mem_update bits off (\<lambda>v. pushed_num (v + delta)) cb s)"

definition esil_mem_inceq_n :: "int \<Rightarrow> 'io esil op" where "esil_mem_inceq_n = mem_step_n 1"
definition esil_mem_inceq1 :: "'io esil op" where "esil_mem_inceq1 = esil_mem_inceq_n 8"
definition esil_mem_inceq2 :: "'io esil op" where "esil_mem_inceq2 = esil_mem_inceq_n 16"
definition esil_mem_inceq4 :: "'io esil op" where "esil_mem_inceq4 = esil_mem_inceq_n 32"
definition esil_mem_inceq8 :: "'io esil op" where "esil_mem_inceq8 = esil_mem_inceq_n 64"
definition esil_mem_inceq :: "'io esil op" where "esil_mem_inceq = arch_bits esil_mem_inceq_n"

definition esil_mem_deceq_n :: "int \<Rightarrow> 'io esil op" where "esil_mem_deceq_n = mem_step_n (- 1)"
definition esil_mem_deceq1 :: "'io esil op" where "esil_mem_deceq1 = esil_mem_deceq_n 8"
definition esil_mem_deceq2 :: "'io esil op" where "esil_mem_deceq2 = esil_mem_deceq_n 16"
definition esil_mem_deceq4 :: "'io esil op" where "esil_mem_deceq4 = esil_mem_deceq_n 32"
definition esil_mem_deceq8 :: "'io esil op" where "esil_mem_deceq8 = esil_mem_deceq_n 64"
definition esil_mem_deceq :: "'io esil op" where "esil_mem_deceq = arch_bits esil_mem_deceq_n"

end
