(* ===== verification/R2_Esil_Parse.thy ===== *)
theory R2_Esil_Parse
  imports R2_Esil_Mem_Ops
begin

text \<open>
  The word loop of the ESIL machine: \<open>iscommand\<close>, \<open>runword\<close>, \<open>gotoWord\<close>, \<open>evalWord\<close>,
  \<open>r_anal_esil_parse\<close>, \<open>r_anal_esil_condition\<close> and the set-up of the machine
  (\<^verbatim>\<open>libr/anal/esil.c\<close>). The table \<open>esil->ops\<close> maps the printed hash of a word to its operation.

  \<open>GOTO\<close> moves the read position back, so the loop of \<open>r_anal_esil_parse\<close> is given fuel, one unit per
  turn; \<open>OutOfFuel\<close> is not an outcome of the C code, and \<open>parse_fuel\<close> below is enough of it.
  \<open>str\<close> is the unread suffix of the string, \<open>word\<close> the first \<open>wordi\<close> bytes of the word buffer.
\<close>

datatype 's outcome = Done int 's | Undefined | OutOfFuel

definition outcome_of :: "(int \<times> 's) option \<Rightarrow> 's outcome" where
  "outcome_of m = (case m of None \<Rightarrow> Undefined | Some (r, s) \<Rightarrow> Done r s)"

section \<open>The table of operations\<close>

type_synonym 's ops = "(string \<times> 's op) list"

definition op_key :: "string \<Rightarrow> string" where
  "op_key word = the (sdb_itoa (ucast (sdb_hash word)) 16)"

definition r_anal_esil_set_op :: "'s ops \<Rightarrow> string \<Rightarrow> 's op \<Rightarrow> bool \<times> 's ops" where
  "r_anal_esil_set_op tbl op code =
     (if op = [] then (False, tbl) else (True, (op_key op, code) # tbl))"

definition iscommand :: "'s ops \<Rightarrow> string \<Rightarrow> 's op option" where
  "iscommand tbl word = map_of tbl (op_key word)"

definition esil_ops_list :: "(string \<times> 'io esil op) list" where
  "esil_ops_list =
    [(''$'', esil_interrupt), (''=='', esil_cmp), (''<'', esil_smaller), (''>'', esil_bigger),
     (''<='', esil_smaller_equal), (''>='', esil_bigger_equal), (''?{'', esil_if),
     (''<<'', esil_lsl), (''<<='', esil_lsleq), (''>>'', esil_lsr), (''>>='', esil_lsreq),
     (''>>>'', esil_ror), (''<<<'', esil_rol), (''&'', esil_and), (''&='', esil_andeq),
     (''}'', esil_nop), (''|'', esil_or), (''|='', esil_oreq), (''!'', esil_neg),
     (''!='', esil_negeq), (''='', esil_eq), (''*'', esil_mul), (''*='', esil_muleq),
     (''^'', esil_xor), (''^='', esil_xoreq), (''+'', esil_add), (''+='', esil_addeq),
     (''++'', esil_inc), (''++='', esil_inceq), (''-'', esil_sub), (''-='', esil_subeq),
     (''--'', esil_dec), (''--='', esil_deceq), (''/'', esil_div), (''/='', esil_diveq),
     (''%'', esil_mod), (''%='', esil_modeq), (''=[]'', esil_poke), (''=[1]'', esil_poke1),
     (''=[2]'', esil_poke2), (''=[4]'', esil_poke4), (''=[8]'', esil_poke8),
     (''|=[]'', esil_mem_oreq), (''|=[1]'', esil_mem_oreq1), (''|=[2]'', esil_mem_oreq2),
     (''|=[4]'', esil_mem_oreq4), (''|=[8]'', esil_mem_oreq8), (''^=[]'', esil_mem_xoreq),
     (''^=[1]'', esil_mem_xoreq1), (''^=[2]'', esil_mem_xoreq2), (''^=[4]'', esil_mem_xoreq4),
     (''^=[8]'', esil_mem_xoreq8), (''&=[]'', esil_mem_andeq), (''&=[1]'', esil_mem_andeq1),
     (''&=[2]'', esil_mem_andeq2), (''&=[4]'', esil_mem_andeq4), (''&=[8]'', esil_mem_andeq8),
     (''+=[]'', esil_mem_addeq), (''+=[1]'', esil_mem_addeq1), (''+=[2]'', esil_mem_addeq2),
     (''+=[4]'', esil_mem_addeq4), (''+=[8]'', esil_mem_addeq8), (''-=[]'', esil_mem_subeq),
     (''-=[1]'', esil_mem_subeq1), (''-=[2]'', esil_mem_subeq2), (''-=[4]'', esil_mem_subeq4),
     (''-=[8]'', esil_mem_subeq8), (''%=[]'', esil_mem_modeq), (''%=[1]'', esil_mem_modeq1),
     (''%=[2]'', esil_mem_modeq2), (''%=[4]'', esil_mem_modeq4), (''%=[8]'', esil_mem_modeq8),
     (''/=[]'', esil_mem_diveq), (''/=[1]'', esil_mem_diveq1), (''/=[2]'', esil_mem_diveq2),
     (''/=[4]'', esil_mem_diveq4), (''/=[8]'', esil_mem_diveq8), (''*=[]'', esil_mem_muleq),
     (''*=[1]'', esil_mem_muleq1), (''*=[2]'', esil_mem_muleq2), (''*=[4]'', esil_mem_muleq4),
     (''*=[8]'', esil_mem_muleq8), (''++=[]'', esil_mem_inceq), (''++=[1]'', esil_mem_inceq1),
     (''++=[2]'', esil_mem_inceq2), (''++=[4]'', esil_mem_inceq4), (''++=[8]'', esil_mem_inceq8),
     (''--=[]'', esil_mem_deceq), (''--=[1]'', esil_mem_deceq1), (''--=[2]'', esil_mem_deceq2),
     (''--=[4]'', esil_mem_deceq4), (''--=[8]'', esil_mem_deceq8), (''[]'', esil_peek),
     (''[*]'', esil_peek_some), (''=[*]'', esil_poke_some), (''[1]'', esil_peek1),
     (''[2]'', esil_peek2), (''[4]'', esil_peek4), (''[8]'', esil_peek8),
     (''STACK'', r_anal_esil_dumpstack), (''POP'', esil_pop), (''TODO'', esil_todo),
     (''GOTO'', esil_goto), (''BREAK'', esil_break), (''CLEAR'', esil_clear), (''DUP'', esil_dup),
     (''NUM'', esil_num), (''PICK'', esil_pick), (''RPICK'', esil_rpick), (''SWAP'', esil_swap),
     (''TRAP'', esil_trap), (''BITS'', esil_bits)]"

definition r_anal_esil_setup_ops :: "'io esil ops \<Rightarrow> 'io esil ops" where
  "r_anal_esil_setup_ops tbl = foldl (\<lambda>t (x, y). snd (r_anal_esil_set_op t x y)) tbl esil_ops_list"

section \<open>Running one word\<close>

text \<open>
  In REIL mode the words of a conditional are collected in the 64 bytes of \<open>if_buf\<close> and parsed when
  it closes. With 63 characters in the buffer the size given to \<open>strncat\<close> wraps around and the copy
  leaves the buffer.
\<close>

definition reil_toggle :: "string \<Rightarrow> reil \<Rightarrow> reil" where
  "reil_toggle word r =
     (if word \<noteq> ''?{'' then r
      else if rl_skip r \<noteq> 0 then r\<lparr>rl_skip := 0\<rparr>
      else r\<lparr>rl_skip := 1, rl_cmd_count := 0, rl_if_buf := []\<rparr>)"

definition reil_append :: "string \<Rightarrow> reil \<Rightarrow> reil option" where
  "reil_append word r =
     (let n = length (rl_if_buf r) in
      if n > 62 then None
      else Some (r\<lparr>rl_if_buf := rl_if_buf r @ take (62 - n) word @ '',''\<rparr>))"

definition runword_reil ::
  "(string \<Rightarrow> 'io esil \<Rightarrow> 'io esil outcome) \<Rightarrow> 'io esil ops \<Rightarrow> string \<Rightarrow> reil \<Rightarrow> 'io esil \<Rightarrow> 'io esil outcome" where
  "runword_reil parse tbl word r s = (case reil_append word r of
     None \<Rightarrow> Undefined
   | Some r \<Rightarrow>
       if word = ''}'' then
         (case parse (rl_if_buf r)
             (pushed_num (rl_addr r + of_int (rl_cmd_count r) + 1) (s\<lparr>es_reil := Some r\<rparr>)) of
            Done _ s \<Rightarrow> Done 1 s
          | x \<Rightarrow> x)
       else Done 1 (s\<lparr>es_reil := Some (if iscommand tbl word \<noteq> None
              then r\<lparr>rl_cmd_count := rl_cmd_count r + 1\<rparr> else r)\<rparr>))"

definition runword_push :: "string \<Rightarrow> 'io esil \<Rightarrow> 'io esil outcome" where
  "runword_push word s =
     (if word = [] \<or> hd word = CHR '','' then Done 1 s
      else let (ok, s) = r_anal_esil_push (Some word) s
           in Done 1 (if ok then s else s\<lparr>es_trap := 1, es_trap_code := 1\<rparr>))"

definition runword_op :: "'io esil esil_cb \<Rightarrow> 'io esil op \<Rightarrow> string \<Rightarrow> 'io esil \<Rightarrow> 'io esil outcome" where
  "runword_op cb op word s = outcome_of (do {
     (h, s) \<leftarrow> (case cb_hook_command cb of None \<Rightarrow> Some (0, s) | Some f \<Rightarrow> f word s);
     (if h \<noteq> 0 then Some (1, s) else op cb s) })"

definition runword_plain ::
  "'io esil esil_cb \<Rightarrow> 'io esil ops \<Rightarrow> string \<Rightarrow> 'io esil \<Rightarrow> 'io esil outcome" where
  "runword_plain cb tbl word s =
     (if word = ''}{'' then Done 1 (s\<lparr>es_skip := if es_skip s \<noteq> 0 then 0 else 1\<rparr>)
      else if word = ''}'' then Done 1 (s\<lparr>es_skip := 0\<rparr>)
      else if es_skip s \<noteq> 0 then Done 1 s
      else case iscommand tbl word of
        Some op \<Rightarrow> runword_op cb op word s
      | None \<Rightarrow> runword_push word s)"

definition runword ::
  "(string \<Rightarrow> 'io esil \<Rightarrow> 'io esil outcome) \<Rightarrow> 'io esil esil_cb \<Rightarrow> 'io esil ops \<Rightarrow> string \<Rightarrow>
   'io esil \<Rightarrow> 'io esil outcome" where
  "runword parse cb tbl word s0 =
     (let s = s0\<lparr>es_parse_goto_count := es_parse_goto_count s0 - 1\<rparr> in
      if es_parse_goto_count s < 1 then Done 0 (s\<lparr>es_trap := 1, es_parse_stop := 1\<rparr>)
      else let s = s\<lparr>es_reil := map_option (reil_toggle word) (es_reil s)\<rparr> in
        case es_reil s of
          Some r \<Rightarrow>
            if rl_skip r \<noteq> 0 then runword_reil parse tbl word r s
            else runword_plain cb tbl word s
        | None \<Rightarrow> runword_plain cb tbl word s)"

section \<open>The word loop\<close>

fun goto_scan :: "string \<Rightarrow> string \<Rightarrow> int \<Rightarrow> int \<Rightarrow> string option" where
  "goto_scan ostr [] count n = None"
| "goto_scan ostr (c # str) count n =
     (if count = n then Some ostr
      else if first_chr str = CHR '','' then goto_scan (drop 1 str) str (count + 1) n
      else goto_scan ostr str count n)"

definition gotoWord :: "string \<Rightarrow> int \<Rightarrow> string option" where
  "gotoWord str n = goto_scan str str 0 n"

datatype action = Act_Loop | Act_Stop | Act_Continue string | Act_Normal

definition evalWord :: "string \<Rightarrow> string \<Rightarrow> 'io esil \<Rightarrow> action \<times> 'io esil" where
  "evalWord ostr str s =
     (if str \<noteq> [] \<and> chr_at str 1 = CHR '','' then (Act_Continue str, s)
      else if es_repeat s \<noteq> 0 then (Act_Loop, s)
      else if es_parse_goto s \<noteq> - 1 then
        (case gotoWord ostr (es_parse_goto s) of
           Some str' \<Rightarrow> (Act_Continue str', s\<lparr>es_parse_goto := - 1\<rparr>)
         | None \<Rightarrow> (Act_Stop, s))
      else if es_parse_stop s \<noteq> 0 then (Act_Stop, s)
      else (Act_Normal, s))"

text \<open>The assignments after the label \<open>loop\<close>.\<close>

definition loop_reset :: "'io esil \<Rightarrow> 'io esil" where
  "loop_reset s = s\<lparr>es_repeat := 0, es_skip := 0, es_parse_goto := - 1, es_parse_stop := 0,
     es_parse_goto_count := (case es_anal s of Some an \<Rightarrow> an_esil_goto_limit an
                             | None \<Rightarrow> R_ANAL_ESIL_GOTO_LIMIT)\<rparr>"

text \<open>Running a complete word and acting on it: the part the loop and the end of the string share.\<close>

definition run_word_then ::
  "(string \<Rightarrow> 'io esil \<Rightarrow> 'io esil outcome) \<Rightarrow> 'io esil esil_cb \<Rightarrow> 'io esil ops \<Rightarrow> string \<Rightarrow> string \<Rightarrow> string \<Rightarrow>
   ('io esil \<Rightarrow> 'io esil outcome) \<Rightarrow> (string \<Rightarrow> 'io esil \<Rightarrow> 'io esil outcome) \<Rightarrow>
   ('io esil \<Rightarrow> 'io esil outcome) \<Rightarrow> 'io esil \<Rightarrow> 'io esil outcome" where
  "run_word_then parse cb tbl ostr str word on_loop on_continue on_normal s =
     (case runword parse cb tbl word s of
        Done r s \<Rightarrow>
          if r = 0 then Done 0 s
          else (case evalWord ostr str s of
              (Act_Loop, s) \<Rightarrow> on_loop s
            | (Act_Stop, s) \<Rightarrow> Done 0 s
            | (Act_Continue str', s) \<Rightarrow> on_continue str' s
            | (Act_Normal, s) \<Rightarrow> on_normal s)
      | x \<Rightarrow> x)"

fun parse_loop ::
  "nat \<Rightarrow> 'io esil esil_cb \<Rightarrow> 'io esil ops \<Rightarrow> string \<Rightarrow> string \<Rightarrow> string \<Rightarrow> 'io esil \<Rightarrow> 'io esil outcome" where
  "parse_loop 0 cb tbl ostr str word s = OutOfFuel"
| "parse_loop (Suc n) cb tbl ostr str word s =
     (let parse = (\<lambda>x s. if x = [] then Done 0 s
                         else parse_loop n cb tbl x x [] (loop_reset (s\<lparr>es_trap := 0\<rparr>)));
          run = run_word_then parse cb tbl ostr str word
                  (\<lambda>s. parse_loop n cb tbl ostr ostr [] (loop_reset s))
                  (\<lambda>str' s. parse_loop n cb tbl ostr str' [] s);
          advance = (\<lambda>w s. parse_loop n cb tbl ostr (drop 2 str) (w @ [chr_at str 1]) s)
      in if str = [] then
           (if first_chr word = CHR 0x00 then Done 1 s else run (Done 1) s)
         else if length word > 62 then Done (- 1) s
         else if hd str = CHR '';'' \<or> hd str = CHR '','' then
           (if first_chr word \<noteq> CHR 0x00
            then run (if hd str = CHR '';'' then Done 0 else advance []) s
            else advance word s)
         else parse_loop n cb tbl ostr (tl str) (word @ [hd str]) s)"

definition r_anal_esil_parse ::
  "nat \<Rightarrow> 'io esil esil_cb \<Rightarrow> 'io esil ops \<Rightarrow> string \<Rightarrow> 'io esil \<Rightarrow> 'io esil outcome" where
  "r_anal_esil_parse fuel cb tbl str s =
     (if str = [] then Done 0 s
      else parse_loop fuel cb tbl str str [] (loop_reset (s\<lparr>es_trap := 0\<rparr>)))"

definition r_anal_esil_condition ::
  "nat \<Rightarrow> 'io esil esil_cb \<Rightarrow> 'io esil ops \<Rightarrow> string \<Rightarrow> 'io esil \<Rightarrow> 'io esil outcome" where
  "r_anal_esil_condition fuel cb tbl str s =
     (case r_anal_esil_parse fuel cb tbl (dropWhile (\<lambda>c. c = CHR '' '') str) s of
        Done ret s \<Rightarrow> (let (popped, s) = r_anal_esil_pop s in
          case popped of
            None \<Rightarrow> Done (- 1) s
          | Some x \<Rightarrow> outcome_of (do {
              (r, s) \<leftarrow> isregornum cb x s;
              Some (case r of Some num \<Rightarrow> cbool (num \<noteq> 0) | None \<Rightarrow> 0, s) }))
      | x \<Rightarrow> x)"

section \<open>Set-up\<close>

text \<open>
  \<open>init\<close> is \<open>anal->cur->esil_init\<close>, given when the plugin has both \<open>esil_init\<close> and \<open>esil_fini\<close>.
\<close>

definition esil_setup_cb :: "'io io_bind \<Rightarrow> bool \<Rightarrow> 'io esil esil_cb \<Rightarrow> 'io esil esil_cb" where
  "esil_setup_cb iob nonull cb =
     (let cb = cb\<lparr>cb_reg_read := Some internal_esil_reg_read\<rparr> in
      if nonull
      then cb\<lparr>cb_reg_write := Some internal_esil_reg_write_no_null,
              cb_mem_read := Some (internal_esil_mem_read_no_null iob),
              cb_mem_write := Some (internal_esil_mem_write_no_null iob)\<rparr>
      else cb\<lparr>cb_reg_write := Some internal_esil_reg_write,
              cb_mem_read := Some (internal_esil_mem_read iob),
              cb_mem_write := Some (internal_esil_mem_write iob)\<rparr>)"

definition r_anal_esil_setup ::
  "'io io_bind \<Rightarrow> ('io esil \<Rightarrow> (int \<times> 'io esil) option) option \<Rightarrow> 'io esil esil_cb \<Rightarrow> 'io esil ops \<Rightarrow>
   'io anal \<Rightarrow> bool \<Rightarrow> bool \<Rightarrow> bool \<Rightarrow> 'io esil \<Rightarrow>
   (int \<times> 'io esil) option \<times> 'io esil esil_cb \<times> 'io esil ops" where
  "r_anal_esil_setup iob init cb tbl an romem stats nonull s =
     (let s = s\<lparr>es_anal := Some an, es_parse_goto_count := an_esil_goto_limit an,
                es_trap := 0, es_trap_code := 0\<rparr>;
          cb = r_anal_esil_mem_ro (esil_setup_cb iob nonull cb) romem;
          (cb, s) = r_anal_esil_stats cb stats s;
          tbl = r_anal_esil_setup_ops tbl
      in (case init of None \<Rightarrow> Some (1, s) | Some f \<Rightarrow> f s, cb, tbl))"

end
