(* ===== verification/R2_Esil_Inv.thy ===== *)
theory R2_Esil_Inv
  imports R2_Esil_Parse
begin

text \<open>
  Invariants of the machine. A predicate on the state that its own assignments respect
  (\<open>data_closed\<close>) and that the installed callbacks respect (\<open>cb_keeps\<close>) is kept by each of the
  operations of the table, whatever the operands are. The locale \<open>machine_invariant\<close> states the
  contract between the machine and its callbacks; its lemmas go once through all operations.
\<close>

abbreviation kept :: "('s \<Rightarrow> bool) \<Rightarrow> ('a \<times> 's) option \<Rightarrow> bool" where
  "kept I m \<equiv> whenever m (\<lambda>_ s. I s)"

definition data_closed :: "('io esil \<Rightarrow> bool) \<Rightarrow> bool" where
  "data_closed I \<longleftrightarrow> (\<forall>s. I s \<longrightarrow>
     (\<forall>x. x \<noteq> [] \<longrightarrow> int (length (es_stack s)) \<le> es_stacksize s - 1 \<longrightarrow> I (s\<lparr>es_stack := es_stack s @ [x]\<rparr>)) \<and>
     I (s\<lparr>es_stack := butlast (es_stack s)\<rparr>) \<and>
     (\<forall>xs. length xs = length (es_stack s) \<longrightarrow> set xs \<subseteq> set (es_stack s) \<longrightarrow> I (s\<lparr>es_stack := xs\<rparr>)) \<and>
     (\<forall>v. I (s\<lparr>es_old := v\<rparr>)) \<and> (\<forall>v. I (s\<lparr>es_cur := v\<rparr>)) \<and> (\<forall>v. I (s\<lparr>es_lastsz := v\<rparr>)) \<and>
     (\<forall>v. I (s\<lparr>es_trap := v\<rparr>)) \<and> (\<forall>v. I (s\<lparr>es_trap_code := v\<rparr>)) \<and>
     (\<forall>v. I (s\<lparr>es_delay := v\<rparr>)) \<and> (\<forall>v. I (s\<lparr>es_jump_target := v\<rparr>)) \<and>
     (\<forall>v. I (s\<lparr>es_jump_target_set := v\<rparr>)) \<and> (\<forall>v. I (s\<lparr>es_skip := v\<rparr>)) \<and>
     (\<forall>v. I (s\<lparr>es_parse_stop := v\<rparr>)) \<and> (\<forall>v. I (s\<lparr>es_parse_goto := v\<rparr>)))"

definition cb_keeps :: "('s \<Rightarrow> bool) \<Rightarrow> 's esil_cb \<Rightarrow> bool" where
  "cb_keeps I cb \<longleftrightarrow>
     (\<forall>f. cb_hook_flag_read cb = Some f \<longrightarrow> (\<forall>a s. I s \<longrightarrow> kept I (f a s))) \<and>
     (\<forall>f. cb_hook_command cb = Some f \<longrightarrow> (\<forall>a s. I s \<longrightarrow> kept I (f a s))) \<and>
     (\<forall>f. cb_hook_mem_read cb = Some f \<longrightarrow> (\<forall>a b n s. I s \<longrightarrow> kept I (f a b n s))) \<and>
     (\<forall>f. cb_mem_read cb = Some f \<longrightarrow> (\<forall>a b n s. I s \<longrightarrow> kept I (f a b n s))) \<and>
     (\<forall>f. cb_hook_mem_write cb = Some f \<longrightarrow> (\<forall>a b n s. I s \<longrightarrow> kept I (f a b n s))) \<and>
     (\<forall>f. cb_mem_write cb = Some f \<longrightarrow> (\<forall>a b n s. I s \<longrightarrow> kept I (f a b n s))) \<and>
     (\<forall>f. cb_hook_reg_read cb = Some f \<longrightarrow> (\<forall>a s. I s \<longrightarrow> kept I (f a s))) \<and>
     (\<forall>f. cb_reg_read cb = Some f \<longrightarrow> (\<forall>a s. I s \<longrightarrow> kept I (f a s))) \<and>
     (\<forall>f. cb_hook_reg_write cb = Some f \<longrightarrow> (\<forall>a v s. I s \<longrightarrow> kept I (f a v s))) \<and>
     (\<forall>f. cb_reg_write cb = Some f \<longrightarrow> (\<forall>a v s. I s \<longrightarrow> kept I (f a v s))) \<and>
     (\<forall>f. cb_cmd cb = Some f \<longrightarrow> (\<forall>n a b s. I s \<longrightarrow> kept I (f n a b s))) \<and>
     (\<forall>f. cb_esil_trap cb = Some f \<longrightarrow> (\<forall>a b s. I s \<longrightarrow> kept I (f a b s))) \<and>
     (\<forall>f. cb_esil_intr cb = Some f \<longrightarrow> (\<forall>a s. I s \<longrightarrow> kept I (f a s))) \<and>
     (\<forall>f. cb_setab cb = Some f \<longrightarrow> (\<forall>a s. I s \<longrightarrow> kept I (f a s))) \<and>
     (\<forall>k f. (k, f) \<in> set (cb_interrupts cb) \<longrightarrow> (\<forall>a s. I s \<longrightarrow> kept I (f a s)))"

lemma kept_Some: "I s \<Longrightarrow> kept I (Some (x, s))"
  by simp

lemma kept_None: "kept I None"
  by simp

lemma kept_bind:
  fixes m :: "('a \<times> 'io esil) option"
  assumes "kept I m" "\<And>x s. I s \<Longrightarrow> kept I (f (x, s))"
  shows "kept I (Option.bind m f)"
  using assms by (auto simp: whenever_bind intro: whenever_mono)

text \<open>One statement per type of value, so that the rule never takes a result and its state apart.\<close>

lemma kept_pure:
  "(\<And>x :: ut64. m0 = Some x \<Longrightarrow> kept I (f0 x)) \<Longrightarrow> kept I (Option.bind m0 f0)"
  "(\<And>x :: ut8. m1 = Some x \<Longrightarrow> kept I (f1 x)) \<Longrightarrow> kept I (Option.bind m1 f1)"
  "(\<And>x :: parm_type. m2 = Some x \<Longrightarrow> kept I (f2 x)) \<Longrightarrow> kept I (Option.bind m2 f2)"
  "(\<And>x :: ut8 list. m3 = Some x \<Longrightarrow> kept I (f3 x)) \<Longrightarrow> kept I (Option.bind m3 f3)"
  "(\<And>x :: string. m4 = Some x \<Longrightarrow> kept I (f4 x)) \<Longrightarrow> kept I (Option.bind m4 f4)"
  "(\<And>x :: 'io anal. m5 = Some x \<Longrightarrow> kept I (f5 x)) \<Longrightarrow> kept I (Option.bind m5 f5)"
  "(\<And>x :: int. m6 = Some x \<Longrightarrow> kept I (f6 x)) \<Longrightarrow> kept I (Option.bind m6 f6)"
  "(\<And>x :: ut32. m7 = Some x \<Longrightarrow> kept I (f7 x)) \<Longrightarrow> kept I (Option.bind m7 f7)"
  by (cases m0, simp, simp) (cases m1, simp, simp, cases m2, simp, simp, cases m3, simp, simp,
      cases m4, simp, simp, cases m5, simp, simp, cases m6, simp, simp, cases m7, simp, simp)

lemma kept_map:
  "kept I m \<Longrightarrow> kept I (map_option (\<lambda>(v, s). (g v, s)) m)"
  "I s \<Longrightarrow> kept I (map_option (\<lambda>v. (h v, s)) m')"
  by (auto simp: whenever_def split: option.splits)

lemmas kept_basic = kept_Some kept_None kept_bind kept_pure kept_map

section \<open>Every operation keeps an invariant its callbacks keep\<close>

locale machine_invariant =
  fixes I :: "'io esil \<Rightarrow> bool" and cb :: "'io esil esil_cb"
  assumes closed: "data_closed I" and callbacks: "cb_keeps I cb"
begin

lemma inv_data [keeps_intros]:
  assumes "I s"
  shows "I (s\<lparr>es_old := a\<rparr>)" "I (s\<lparr>es_cur := a\<rparr>)" "I (s\<lparr>es_lastsz := b\<rparr>)" "I (s\<lparr>es_trap := c\<rparr>)"
    "I (s\<lparr>es_trap_code := d\<rparr>)" "I (s\<lparr>es_delay := c\<rparr>)" "I (s\<lparr>es_jump_target := a\<rparr>)"
    "I (s\<lparr>es_jump_target_set := c\<rparr>)" "I (s\<lparr>es_skip := c\<rparr>)" "I (s\<lparr>es_parse_stop := c\<rparr>)"
    "I (s\<lparr>es_parse_goto := c\<rparr>)"
  using closed [unfolded data_closed_def, rule_format, OF assms] by simp_all

lemma inv_pop [keeps_intros]: "I s \<Longrightarrow> I (snd (r_anal_esil_pop s))"
  using closed [unfolded data_closed_def, rule_format, of s] by (simp add: r_anal_esil_pop_def)

lemma inv_push [keeps_intros]: "I s \<Longrightarrow> I (pushed x s)"
  using closed [unfolded data_closed_def, rule_format, of s]
  by (simp add: r_anal_esil_push_def split: option.split)

lemma inv_pushnum [keeps_intros]: "I s \<Longrightarrow> I (pushed_num n s)"
  unfolding r_anal_esil_pushnum_def by (rule inv_push)

lemma inv_stack: "I s \<Longrightarrow> length xs = length (es_stack s) \<Longrightarrow> set xs \<subseteq> set (es_stack s) \<Longrightarrow>
   I (s\<lparr>es_stack := xs\<rparr>)"
  using closed [unfolded data_closed_def, rule_format, of s] by simp

lemma inv_pop_all [keeps_intros]: "I s \<Longrightarrow> I (pop_all s)"
proof (induction s rule: pop_all.induct)
  case (1 s)
  then show ?case using inv_pop [of s] by (subst pop_all.simps) (auto split: prod.splits option.splits)
qed

lemma inv_cb:
  assumes "I s"
  shows
    "cb_hook_flag_read cb = Some f0 \<Longrightarrow> kept I (f0 a0 s)"
    "cb_hook_command cb = Some f1 \<Longrightarrow> kept I (f1 a1 s)"
    "cb_hook_mem_read cb = Some f2 \<Longrightarrow> kept I (f2 a2 b2 n2 s)"
    "cb_mem_read cb = Some f3 \<Longrightarrow> kept I (f3 a3 b3 n3 s)"
    "cb_hook_mem_write cb = Some f4 \<Longrightarrow> kept I (f4 a4 b4 n4 s)"
    "cb_mem_write cb = Some f5 \<Longrightarrow> kept I (f5 a5 b5 n5 s)"
    "cb_hook_reg_read cb = Some f6 \<Longrightarrow> kept I (f6 a6 s)"
    "cb_reg_read cb = Some f7 \<Longrightarrow> kept I (f7 a7 s)"
    "cb_hook_reg_write cb = Some f8 \<Longrightarrow> kept I (f8 a8 v8 s)"
    "cb_reg_write cb = Some f9 \<Longrightarrow> kept I (f9 a9 v9 s)"
    "cb_cmd cb = Some f10 \<Longrightarrow> kept I (f10 n10 a10 b10 s)"
    "cb_esil_trap cb = Some f11 \<Longrightarrow> kept I (f11 a11 b11 s)"
    "cb_esil_intr cb = Some f12 \<Longrightarrow> kept I (f12 a12 s)"
    "cb_setab cb = Some f13 \<Longrightarrow> kept I (f13 a13 s)"
    "(k, g) \<in> set (cb_interrupts cb) \<Longrightarrow> kept I (g x s)"
  using callbacks assms unfolding cb_keeps_def by simp_all

text \<open>The calls of a hook that may be absent.\<close>

lemma inv_hooks [keeps_intros]:
  assumes "I s"
  shows "kept I (case cb_hook_flag_read cb of None \<Rightarrow> Some (d1, s) | Some f \<Rightarrow> f x1 s)"
    "kept I (case cb_hook_command cb of None \<Rightarrow> Some (d2, s) | Some f \<Rightarrow> f x1 s)"
    "kept I (case cb_hook_mem_read cb of None \<Rightarrow> Some (d3, s) | Some f \<Rightarrow> f a b n s)"
    "kept I (case cb_hook_mem_write cb of None \<Rightarrow> Some (d2, s) | Some f \<Rightarrow> f a b n s)"
    "kept I (case cb_hook_reg_read cb of None \<Rightarrow> Some (d5, s) | Some f \<Rightarrow> f x1 s)"
    "kept I (case cb_hook_reg_write cb of None \<Rightarrow> Some (d6, s) | Some f \<Rightarrow> f x1 a s)"
  by (split option.split, intro conjI impI allI, simp add: assms, erule inv_cb [OF assms])+

lemma inv_mains [keeps_intros]:
  assumes "I s"
  shows "kept I m1 \<Longrightarrow> kept I (case cb_mem_write cb of None \<Rightarrow> m1 | Some f \<Rightarrow> if p then m1 else f a b n s)"
    "kept I m1 \<Longrightarrow> kept I (case cb_reg_write cb of None \<Rightarrow> m1 | Some f \<Rightarrow> if p then m1 else f x1 a s)"
    "kept I m2 \<Longrightarrow> (\<And>r s. I s \<Longrightarrow> kept I (g (r, s))) \<Longrightarrow>
       kept I (case cb_mem_read cb of None \<Rightarrow> m2 | Some f \<Rightarrow> if p then m2 else Option.bind (f a b n s) g)"
    "kept I m3 \<Longrightarrow> (\<And>r s. I s \<Longrightarrow> kept I (h (r, s))) \<Longrightarrow>
       kept I (case v of None \<Rightarrow> (case cb_reg_read cb of None \<Rightarrow> m3 | Some f \<Rightarrow> Option.bind (f x1 s) h)
               | Some _ \<Rightarrow> m3)"
  using assms
  by (auto split: option.split intro: kept_bind elim: inv_cb)

lemma inv_internal_read [keeps_intros]: "I s \<Longrightarrow> kept I (esil_internal_read cb x s)"
  unfolding esil_internal_read_def
  by (simp, intro impI kept_bind inv_hooks, assumption) (auto intro!: kept_basic split: option.split)

lemma inv_reg_read [keeps_intros]: "I s \<Longrightarrow> kept I (r_anal_esil_reg_read cb want x s)"
  unfolding r_anal_esil_reg_read_def
  by (auto intro!: kept_basic inv_hooks inv_mains inv_internal_read)

lemma inv_internal_write: "I s \<Longrightarrow> I (snd (esil_internal_write x v s))"
  unfolding esil_internal_write_def by (auto simp: Let_def intro!: inv_data)

lemma inv_reg_write [keeps_intros]: "I s \<Longrightarrow> kept I (r_anal_esil_reg_write cb x v s)"
  unfolding r_anal_esil_reg_write_def
  by (auto simp: Let_def split_beta intro!: kept_basic inv_hooks inv_mains inv_internal_write)

lemma inv_get_parm_size [keeps_intros]: "I s \<Longrightarrow> kept I (r_anal_esil_get_parm_size cb want x s)"
  unfolding r_anal_esil_get_parm_size_def
  by (auto intro!: kept_basic inv_internal_read inv_reg_read inv_data split: parm_type.split)

lemma inv_get_parm [keeps_intros]: "I s \<Longrightarrow> kept I (r_anal_esil_get_parm cb x s)"
  unfolding r_anal_esil_get_parm_def by (intro kept_basic inv_get_parm_size)

lemma inv_isregornum [keeps_intros]: "I s \<Longrightarrow> kept I (isregornum cb x s)"
  unfolding isregornum_def by (auto intro!: kept_basic inv_reg_read split: option.split)

lemma inv_popRN [keeps_intros]: "I s \<Longrightarrow> kept I (popRN cb s)"
  unfolding popRN_def
  by (auto simp: split_beta intro!: kept_basic inv_pop inv_isregornum split: option.split)

lemma inv_mem_read [keeps_intros]: "I s \<Longrightarrow> kept I (r_anal_esil_mem_read cb a b n s)"
  unfolding r_anal_esil_mem_read_def
  by (auto intro!: kept_basic inv_hooks inv_mains inv_data)

lemma inv_mem_write [keeps_intros]: "I s \<Longrightarrow> kept I (r_anal_esil_mem_write cb a b n s)"
  unfolding r_anal_esil_mem_write_def
  by (auto intro!: kept_basic inv_hooks inv_mains)

lemma inv_reg_read_nocallback [keeps_intros]:
  "I s \<Longrightarrow> kept I (r_anal_esil_reg_read_nocallback cb want x s)"
proof -
  have "machine_invariant I (cb\<lparr>cb_hook_reg_read := None\<rparr>)"
    using closed callbacks by unfold_locales (simp_all add: cb_keeps_def)
  then show "I s \<Longrightarrow> ?thesis"
    unfolding r_anal_esil_reg_read_nocallback_def by (rule machine_invariant.inv_reg_read)
qed

lemma inv_if_parm [keeps_intros]:
  "I s \<Longrightarrow> (\<And>x v s. I s \<Longrightarrow> kept I (k x v s)) \<Longrightarrow> kept I (if_parm cb str s k)"
  unfolding if_parm_def by (auto intro!: kept_basic inv_get_parm split: option.split)

lemma inv_if_parm_size [keeps_intros]:
  "I s \<Longrightarrow> (\<And>x v n s. I s \<Longrightarrow> kept I (k x v n s)) \<Longrightarrow> kept I (if_parm_size cb str s k)"
  unfolding if_parm_size_def by (auto intro!: kept_basic inv_get_parm_size split: option.split)

lemma inv_if_reg [keeps_intros]:
  "I s \<Longrightarrow> (\<And>x v s. I s \<Longrightarrow> kept I (k x v s)) \<Longrightarrow> kept I (if_reg cb str s k)"
  unfolding if_reg_def by (auto intro!: kept_basic inv_reg_read split: option.split)

lemma inv_set_last [keeps_intros]: "I s \<Longrightarrow> I (set_last a b x s)"
  unfolding set_last_def by (intro inv_data)

lemma inv_set_last_unless [keeps_intros]: "I s \<Longrightarrow> kept I (set_last_unless_internal x a b y s)"
  unfolding set_last_unless_internal_def by (auto intro!: kept_basic inv_set_last)

lemma inv_write_ok [keeps_intros]: "I s \<Longrightarrow> kept I (write_ok cb x v s)"
  unfolding write_ok_def by (auto intro!: kept_basic inv_reg_write)

lemma inv_div_trap [keeps_intros]: "I s \<Longrightarrow> I (div_trap s)"
  unfolding div_trap_def by (intro inv_data)

lemma inv_call_cmd [keeps_intros]: "I s \<Longrightarrow> kept I (call_cmd cb n a b s)"
  unfolding call_cmd_def by (auto split: option.split elim: inv_cb)

lemma inv_plugins [keeps_intros]:
  assumes "I s"
  shows "kept I m1 \<Longrightarrow> (\<And>r s. I s \<Longrightarrow> kept I (g (r, s))) \<Longrightarrow>
      kept I (case an of None \<Rightarrow> m1 | Some _ \<Rightarrow> (case cb_esil_trap cb of None \<Rightarrow> m1 | Some f \<Rightarrow> Option.bind (f c d s) g))"
    "kept I m1 \<Longrightarrow>
      kept I (case an of None \<Rightarrow> m1 | Some _ \<Rightarrow> (case cb_esil_intr cb of None \<Rightarrow> m1 | Some f \<Rightarrow> f c s))"
    "kept I m1 \<Longrightarrow> kept I (case map_of (cb_interrupts cb) key of None \<Rightarrow> m1 | Some f \<Rightarrow> f c s)"
  using assms
  by (auto split: option.split intro: kept_bind elim: inv_cb dest!: map_of_SomeD)

lemma inv_fire [keeps_intros]:
  assumes "I s"
  shows "kept I (r_anal_esil_fire_trap cb a b s)" "kept I (r_anal_esil_fire_interrupt cb a s)"
  unfolding r_anal_esil_fire_trap_def r_anal_esil_fire_interrupt_def
  using assms by (auto intro!: kept_basic inv_call_cmd inv_plugins)

lemma inv_compare [keeps_intros]: "I s \<Longrightarrow> kept I (compare_with f cb s)"
  unfolding compare_with_def
  by (auto simp: split_beta Let_def intro!: kept_basic keeps_intros)

lemma inv_step_reg [keeps_intros]: "I s \<Longrightarrow> kept I (step_reg d cb s)"
  unfolding step_reg_def
  by (auto simp: split_beta Let_def intro!: kept_basic keeps_intros split: option.split)

lemma inv_pushes [keeps_intros]:
  assumes "I s"
  shows "kept I (Some (map_prod cbool id (r_anal_esil_push x s)))"
    "kept I (Some (map_prod cbool id (r_anal_esil_pushnum n s)))"
  using inv_push [OF assms, of x] inv_pushnum [OF assms, of n]
  by (simp_all add: whenever_def split_beta)

lemma inv_bits [keeps_intros]: "I s \<Longrightarrow> kept I (esil_bits cb s)"
  unfolding esil_bits_def
proof (intro kept_bind inv_popRN, assumption)
  fix r s assume "I s"
  then show "kept I (case (r, s) of (r, s1) \<Rightarrow> (case r of None \<Rightarrow> Some (0, s1)
      | Some v \<Rightarrow> (case (es_anal s1, cb_setab cb) of
          (Some _, Some f) \<Rightarrow> Option.bind (f (c_int v) s1) (\<lambda>(_, s1). Some (1, s1)) | _ \<Rightarrow> Some (1, s1))))"
    by (cases r; cases "es_anal s"; cases "cb_setab cb") (auto intro: kept_bind elim: inv_cb)
qed

lemma inv_swap [keeps_intros]: "I s \<Longrightarrow> kept I (esil_swap cb s)"
  unfolding esil_swap_def
  by (auto simp: Let_def intro!: kept_Some inv_stack dest!: subsetD [OF set_update_subset_insert])

lemma inv_pick [keeps_intros]: "I s \<Longrightarrow> kept I (esil_generic_pick rv cb s)"
  unfolding esil_generic_pick_def
  by (auto simp: split_beta Let_def intro!: kept_basic keeps_intros)

lemma inv_assign_ops [keeps_intros]:
  assumes "I s"
  shows "kept I (esil_eq cb s)" "kept I (esil_negeq cb s)" "kept I (esil_andeq cb s)"
    "kept I (esil_oreq cb s)" "kept I (esil_xoreq cb s)" "kept I (esil_lsleq cb s)"
    "kept I (esil_lsreq cb s)" "kept I (esil_modeq cb s)" "kept I (esil_diveq cb s)"
    "kept I (esil_muleq cb s)" "kept I (esil_addeq cb s)" "kept I (esil_subeq cb s)"
    "kept I (esil_inceq cb s)" "kept I (esil_deceq cb s)"
  unfolding esil_eq_def esil_negeq_def esil_andeq_def esil_oreq_def esil_xoreq_def esil_lsleq_def
    esil_lsreq_def esil_modeq_def esil_diveq_def esil_muleq_def esil_addeq_def esil_subeq_def
    esil_inceq_def esil_deceq_def
  using assms
  by (auto simp: split_beta Let_def intro!: kept_basic keeps_intros split: option.split)

lemma inv_push_ops [keeps_intros]:
  assumes "I s"
  shows "kept I (esil_neg cb s)" "kept I (esil_lsl cb s)" "kept I (esil_lsr cb s)"
    "kept I (esil_ror cb s)" "kept I (esil_rol cb s)" "kept I (esil_and cb s)"
    "kept I (esil_xor cb s)" "kept I (esil_or cb s)" "kept I (esil_mod cb s)"
    "kept I (esil_div cb s)" "kept I (esil_mul cb s)" "kept I (esil_add cb s)"
    "kept I (esil_sub cb s)" "kept I (esil_inc cb s)" "kept I (esil_dec cb s)"
    "kept I (esil_num cb s)"
  unfolding esil_neg_def esil_lsl_def esil_lsr_def esil_ror_def esil_rol_def esil_and_def
    esil_xor_def esil_or_def esil_mod_def esil_div_def esil_mul_def esil_add_def esil_sub_def
    esil_inc_def esil_dec_def esil_num_def
  using assms
  by (auto simp: split_beta Let_def intro!: kept_basic keeps_intros split: option.split)

lemma inv_compare_ops [keeps_intros]:
  assumes "I s"
  shows "kept I (esil_cmp cb s)" "kept I (esil_smaller cb s)" "kept I (esil_bigger cb s)"
    "kept I (esil_smaller_equal cb s)" "kept I (esil_bigger_equal cb s)"
  unfolding esil_cmp_def esil_smaller_def esil_bigger_def esil_smaller_equal_def
    esil_bigger_equal_def
  using assms
  by (auto simp: split_beta Let_def intro!: kept_basic keeps_intros split: option.split)

lemma inv_control_ops [keeps_intros]:
  assumes "I s"
  shows "kept I (esil_nop cb s)" "kept I (esil_trap cb s)" "kept I (esil_interrupt cb s)"
    "kept I (esil_if cb s)" "kept I (r_anal_esil_dumpstack cb s)" "kept I (esil_break cb s)"
    "kept I (esil_clear cb s)" "kept I (esil_todo cb s)" "kept I (esil_goto cb s)"
    "kept I (esil_pop cb s)" "kept I (esil_dup cb s)" "kept I (esil_pick cb s)"
    "kept I (esil_rpick cb s)"
  unfolding esil_nop_def esil_trap_def esil_interrupt_def esil_if_def r_anal_esil_dumpstack_def
    esil_break_def esil_clear_def esil_todo_def esil_goto_def esil_pop_def esil_dup_def
    esil_pick_def esil_rpick_def
  using assms
  by (auto simp: split_beta Let_def intro!: kept_basic keeps_intros split: option.split)

lemma inv_poke_n [keeps_intros]: "I s \<Longrightarrow> kept I (esil_poke_n bits cb s)"
  unfolding esil_poke_n_def
  by (auto simp: split_beta Let_def intro!: kept_basic keeps_intros)

lemma inv_peek_n [keeps_intros]: "I s \<Longrightarrow> kept I (esil_peek_n bits cb s)"
  unfolding esil_peek_n_def
  by (auto simp: split_beta Let_def intro!: kept_basic keeps_intros split: option.split)

lemma inv_ornum0 [keeps_intros]: "I s \<Longrightarrow> kept I (ornum0 cb x s)"
  unfolding ornum0_def by (intro kept_basic keeps_intros)

lemma inv_poke_some_loop [keeps_intros]: "I s \<Longrightarrow> kept I (poke_some_loop n ptr sz cb s)"
proof (induction n arbitrary: ptr s)
  case (Suc n)
  then show ?case
    by (auto simp: split_beta Let_def intro!: kept_basic keeps_intros Suc.IH split: option.split)
qed simp

lemma inv_peek_some_loop [keeps_intros]: "I s \<Longrightarrow> kept I (peek_some_loop n ptr cb s)"
proof (induction n arbitrary: ptr s)
  case (Suc n)
  then show ?case
    by (auto simp: split_beta Let_def intro!: kept_basic keeps_intros Suc.IH split: option.split)
qed simp

lemma inv_some [keeps_intros]:
  assumes "I s"
  shows "kept I (esil_poke_some cb s)" "kept I (esil_peek_some cb s)"
  unfolding esil_poke_some_def esil_peek_some_def
  using assms
  by (auto simp: split_beta Let_def intro!: kept_basic keeps_intros split: option.split)

lemma inv_mem_update [keeps_intros]:
  "I s \<Longrightarrow> (\<And>v s. I s \<Longrightarrow> I (put v s)) \<Longrightarrow> kept I (mem_update bits dst put cb s)"
  unfolding mem_update_def
  by (auto simp: split_beta Let_def intro!: kept_basic keeps_intros)

lemma inv_arch_bits [keeps_intros]:
  "I s \<Longrightarrow> (\<And>n s. I s \<Longrightarrow> kept I (f n cb s)) \<Longrightarrow> kept I (arch_bits f cb s)"
  unfolding arch_bits_def by (auto intro!: kept_basic)

lemma inv_mem_n [keeps_intros]:
  assumes "I s"
  shows "kept I (mem_binop_n g bits cb s)" "kept I (esil_mem_modeq_n bits cb s)"
    "kept I (esil_mem_diveq_n bits cb s)" "kept I (mem_step_n d bits cb s)"
  unfolding mem_binop_n_def esil_mem_modeq_n_def esil_mem_diveq_n_def mem_step_n_def
  using assms
  by (auto simp: split_beta Let_def intro!: kept_basic keeps_intros split: option.split)

lemmas mem_op_defs =
  esil_poke1_def esil_poke2_def esil_poke4_def esil_poke8_def esil_poke_def
  esil_peek1_def esil_peek2_def esil_peek4_def esil_peek8_def esil_peek_def
  esil_mem_oreq1_def esil_mem_oreq2_def esil_mem_oreq4_def esil_mem_oreq8_def esil_mem_oreq_def
  esil_mem_xoreq1_def esil_mem_xoreq2_def esil_mem_xoreq4_def esil_mem_xoreq8_def esil_mem_xoreq_def
  esil_mem_andeq1_def esil_mem_andeq2_def esil_mem_andeq4_def esil_mem_andeq8_def esil_mem_andeq_def
  esil_mem_addeq1_def esil_mem_addeq2_def esil_mem_addeq4_def esil_mem_addeq8_def esil_mem_addeq_def
  esil_mem_subeq1_def esil_mem_subeq2_def esil_mem_subeq4_def esil_mem_subeq8_def esil_mem_subeq_def
  esil_mem_modeq1_def esil_mem_modeq2_def esil_mem_modeq4_def esil_mem_modeq8_def esil_mem_modeq_def
  esil_mem_diveq1_def esil_mem_diveq2_def esil_mem_diveq4_def esil_mem_diveq8_def esil_mem_diveq_def
  esil_mem_muleq1_def esil_mem_muleq2_def esil_mem_muleq4_def esil_mem_muleq8_def esil_mem_muleq_def
  esil_mem_inceq1_def esil_mem_inceq2_def esil_mem_inceq4_def esil_mem_inceq8_def esil_mem_inceq_def
  esil_mem_deceq1_def esil_mem_deceq2_def esil_mem_deceq4_def esil_mem_deceq8_def esil_mem_deceq_def
  esil_mem_oreq_n_def esil_mem_xoreq_n_def esil_mem_andeq_n_def esil_mem_addeq_n_def
  esil_mem_subeq_n_def esil_mem_muleq_n_def esil_mem_inceq_n_def esil_mem_deceq_n_def

lemma inv_ops_list:
  assumes "I s"
  shows "list_all (\<lambda>(_, op). kept I (op cb s)) esil_ops_list"
  unfolding esil_ops_list_def mem_op_defs
  using assms
  by (simp only: list.pred_inject prod.case, intro conjI) (auto intro!: kept_basic keeps_intros)

end

end
