(* ===== verification/R2_Esil_Run.thy ===== *)
theory R2_Esil_Run
  imports R2_Esil_Inv
begin

text \<open>
  Running whole expressions: which states the word loop can end in, that it ends, and that the
  result does not depend on the fuel once there is enough of it.
\<close>

definition ends :: "('s \<Rightarrow> bool) \<Rightarrow> 's outcome \<Rightarrow> bool" where
  "ends I x = (case x of Done _ s \<Rightarrow> I s | _ \<Rightarrow> True)"

lemma ends_simps [simp]: "ends I (Done r s) = I s" "ends I Undefined" "ends I OutOfFuel"
  by (simp_all add: ends_def)

lemma ends_outcome_of [simp]: "ends I (outcome_of m) = kept I m"
  by (auto simp: ends_def outcome_of_def whenever_def split: option.splits)

definition ops_keep :: "('s \<Rightarrow> bool) \<Rightarrow> 's esil_cb \<Rightarrow> 's ops \<Rightarrow> bool" where
  "ops_keep I cb tbl \<longleftrightarrow> (\<forall>(_, op) \<in> set tbl. \<forall>s. I s \<longrightarrow> kept I (op cb s))"

section \<open>The table of operations\<close>

lemma set_op_keep: "ops_keep I cb tbl \<Longrightarrow> (\<And>s. I s \<Longrightarrow> kept I (op cb s)) \<Longrightarrow>
   ops_keep I cb (snd (r_anal_esil_set_op tbl name op))"
  by (auto simp: ops_keep_def r_anal_esil_set_op_def)

lemma setup_foldl_keep:
  "ops_keep I cb tbl \<Longrightarrow> (\<And>s. I s \<Longrightarrow> list_all (\<lambda>(_, op). kept I (op cb s)) xs) \<Longrightarrow>
   ops_keep I cb (foldl (\<lambda>t (x, y). snd (r_anal_esil_set_op t x y)) tbl xs)"
proof (induction xs arbitrary: tbl)
  case (Cons x xs)
  obtain n op where x: "x = (n, op)" by force
  have "ops_keep I cb (snd (r_anal_esil_set_op tbl n op))"
    using Cons.prems(2) by (intro set_op_keep [OF Cons.prems(1)]) (simp add: x)
  then show ?case using Cons.IH Cons.prems(2) by (simp add: x)
qed simp

lemma ops_keep_iscommand: "ops_keep I cb tbl \<Longrightarrow> iscommand tbl w = Some op \<Longrightarrow> I s \<Longrightarrow> kept I (op cb s)"
  unfolding ops_keep_def iscommand_def by (drule map_of_SomeD) auto

context machine_invariant
begin

lemma setup_ops_keep: "ops_keep I cb tbl \<Longrightarrow> ops_keep I cb (r_anal_esil_setup_ops tbl)"
  unfolding r_anal_esil_setup_ops_def by (rule setup_foldl_keep [OF _ inv_ops_list])

lemma runword_push_ends: "I s \<Longrightarrow> ends I (runword_push w s)"
  using inv_push [of s "Some w"]
  by (auto simp: runword_push_def Let_def split_beta intro!: inv_data)

lemma runword_op_ends: "(\<And>s. I s \<Longrightarrow> kept I (op cb s)) \<Longrightarrow> I s \<Longrightarrow> ends I (runword_op cb op w s)"
  by (auto simp: runword_op_def intro!: kept_basic inv_hooks)

lemma runword_plain_ends: "ops_keep I cb tbl \<Longrightarrow> I s \<Longrightarrow> ends I (runword_plain cb tbl w s)"
  by (auto simp: runword_plain_def intro!: inv_data runword_push_ends runword_op_ends
      dest: ops_keep_iscommand split: option.split)

end

section \<open>Invariants of whole runs\<close>

text \<open>A predicate that also survives the bookkeeping of the word loop holds after every expression.\<close>

locale run_invariant = machine_invariant +
  fixes tbl :: "'a esil ops"
  assumes ops: "ops_keep I cb tbl"
    and inv_count: "I s \<Longrightarrow> I (s\<lparr>es_parse_goto_count := n\<rparr>)"
    and inv_repeat: "I s \<Longrightarrow> I (s\<lparr>es_repeat := n\<rparr>)"
    and inv_reil: "I s \<Longrightarrow> I (s\<lparr>es_reil := r\<rparr>)"
begin

lemma loop_reset_inv: "I s \<Longrightarrow> I (loop_reset s)"
  unfolding loop_reset_def by (intro inv_count inv_data inv_repeat)

lemma runword_reil_ends:
  assumes "\<And>x s. I s \<Longrightarrow> ends I (parse x s)" "I s"
  shows "ends I (runword_reil parse tbl w r s)"
proof -
  have "I s'" if "parse x (pushed_num v (s\<lparr>es_reil := r'\<rparr>)) = Done c s'" for x v r' c s'
    using assms(1) [OF inv_pushnum [OF inv_reil [OF assms(2)]], of x v r'] that by simp
  then show ?thesis
    unfolding runword_reil_def using assms(2)
    by (auto intro: inv_reil split: option.split outcome.split)
qed

lemma runword_ends:
  "(\<And>x s. I s \<Longrightarrow> ends I (parse x s)) \<Longrightarrow> I s \<Longrightarrow> ends I (runword parse cb tbl w s)"
  unfolding runword_def
  by (auto simp: Let_def intro!: inv_data inv_count inv_reil runword_reil_ends
      runword_plain_ends [OF ops] split: option.split)

lemma evalWord_inv: "I s \<Longrightarrow> I (snd (evalWord ostr str s))"
  unfolding evalWord_def by (auto intro!: inv_data split: option.split)

lemma run_word_then_ends:
  assumes "\<And>x s. I s \<Longrightarrow> ends I (parse x s)" "\<And>s. I s \<Longrightarrow> ends I (f s)"
    "\<And>x s. I s \<Longrightarrow> ends I (g x s)" "\<And>s. I s \<Longrightarrow> ends I (h s)" "I s"
  shows "ends I (run_word_then parse cb tbl ostr str w f g h s)"
proof (cases "runword parse cb tbl w s")
  case (Done c s')
  have "ends I (runword parse cb tbl w s)" by (rule runword_ends [OF _ assms(5)]) (rule assms(1))
  then have "I s'" using Done by simp
  moreover from this have "I (snd (evalWord ostr str s'))" by (rule evalWord_inv)
  ultimately show ?thesis
    using Done assms by (auto simp: run_word_then_def split: prod.split action.split)
qed (simp_all add: run_word_then_def)

lemma parse_loop_ends: "I s \<Longrightarrow> ends I (parse_loop n cb tbl ostr str w s)"
proof (induction n arbitrary: ostr str w s)
  case (Suc n)
  show ?case
    using Suc.prems
    by (auto simp: Let_def intro!: run_word_then_ends loop_reset_inv inv_data Suc.IH)
qed simp

lemma parse_ends: "I s \<Longrightarrow> ends I (r_anal_esil_parse n cb tbl str s)"
  unfolding r_anal_esil_parse_def by (auto intro!: parse_loop_ends loop_reset_inv inv_data)

end

section \<open>Termination\<close>

text \<open>
  Every word run costs one unit of \<open>parse_goto_count\<close>, and between two words the loop only moves
  forward. So an expression ends if no callback and no operation touches the counter, asks for a
  repetition or turns on the REIL mode.
\<close>

definition steady :: "int \<Rightarrow> 'io esil \<Rightarrow> bool" where
  "steady c s \<longleftrightarrow> es_repeat s = 0 \<and> es_reil s = None \<and> es_parse_goto_count s = c"

definition settles :: "'s outcome \<Rightarrow> bool" where
  "settles x \<longleftrightarrow> x \<noteq> OutOfFuel"

lemma settles_simps [simp]: "settles (Done r s)" "settles Undefined" "\<not> settles OutOfFuel"
  by (simp_all add: settles_def)

definition goto_limit :: "'io esil \<Rightarrow> int" where
  "goto_limit s = (case es_anal s of Some an \<Rightarrow> an_esil_goto_limit an | None \<Rightarrow> R_ANAL_ESIL_GOTO_LIMIT)"

definition parse_fuel :: "string \<Rightarrow> 'io esil \<Rightarrow> nat" where
  "parse_fuel str s = nat (goto_limit s) * (length str + 2) + length str + 1"

lemma steady_closed: "data_closed (steady c)"
  by (simp add: data_closed_def steady_def)

lemma goto_scan_length:
  "goto_scan ostr str c n = Some x \<Longrightarrow> length ostr \<le> l \<Longrightarrow> length str \<le> l \<Longrightarrow> length x \<le> l"
  by (induction ostr str c n rule: goto_scan.induct) (auto split: if_splits)

lemma gotoWord_length: "gotoWord str n = Some x \<Longrightarrow> length x \<le> length str"
  unfolding gotoWord_def by (rule goto_scan_length) auto

lemma evalWord_steady:
  assumes "steady c s"
  shows "fst (evalWord ostr str s) \<noteq> Act_Loop" "steady c (snd (evalWord ostr str s))"
    "evalWord ostr str s = (Act_Continue str', s') \<Longrightarrow> length str \<le> length ostr \<Longrightarrow>
     length str' \<le> length ostr"
  using assms by (auto simp: evalWord_def steady_def dest: gotoWord_length split: if_splits option.splits)

locale terminating =
  fixes cb :: "'io esil esil_cb" and tbl :: "'io esil ops"
  assumes cb_steady: "cb_keeps (steady c) cb" and ops_steady: "ops_keep (steady c) cb tbl"
begin

lemma runword_steady:
  assumes "steady c s"
  shows "settles (runword parse cb tbl w s)"
    "runword parse cb tbl w s = Done r s' \<Longrightarrow> r \<noteq> 0 \<Longrightarrow> 1 \<le> c - 1 \<and> steady (c - 1) s'"
proof -
  have inv: "machine_invariant (steady k) cb" for k
    using steady_closed cb_steady by unfold_locales
  let ?s = "s\<lparr>es_parse_goto_count := es_parse_goto_count s - 1, es_reil := None\<rparr>"
  have st: "steady (c - 1) ?s" using assms by (simp add: steady_def)
  have e: "runword parse cb tbl w s =
      (if c - 1 < 1 then Done 0 (s\<lparr>es_parse_goto_count := c - 1, es_trap := 1, es_parse_stop := 1\<rparr>)
       else runword_plain cb tbl w ?s)"
    using assms by (simp add: runword_def steady_def Let_def)
  show "settles (runword parse cb tbl w s)"
    by (auto simp: e runword_plain_def runword_op_def runword_push_def outcome_of_def Let_def
        split: option.split prod.split)
  show "r \<noteq> 0 \<Longrightarrow> 1 \<le> c - 1 \<and> steady (c - 1) s'" if "runword parse cb tbl w s = Done r s'"
    using that machine_invariant.runword_plain_ends [OF inv ops_steady st, of w]
    by (auto simp: e split: if_splits)
qed

lemma run_word_then_ends_in:
  assumes "steady c s" "length str \<le> length ostr"
    and "\<And>x s. steady (c - 1) s \<Longrightarrow> 1 \<le> c - 1 \<Longrightarrow> length x \<le> length ostr \<Longrightarrow> settles (g x s)"
    and "\<And>s. steady (c - 1) s \<Longrightarrow> 1 \<le> c - 1 \<Longrightarrow> settles (h s)"
  shows "settles (run_word_then parse cb tbl ostr str w f g h s)"
proof (cases "runword parse cb tbl w s")
  case (Done r s')
  show ?thesis
  proof (cases "r = 0")
    case False
    have st: "1 \<le> c - 1" "steady (c - 1) s'" using runword_steady(2) [OF assms(1) Done False] by auto
    obtain act s2 where ev: "evalWord ostr str s' = (act, s2)" by force
    have "steady (c - 1) s2" "act \<noteq> Act_Loop" "act = Act_Continue x \<Longrightarrow> length x \<le> length ostr" for x
      using evalWord_steady [OF st(2), of ostr str] ev assms(2) by auto
    then show ?thesis
      using Done False ev st assms(3,4) by (auto simp: run_word_then_def split: action.split)
  qed (simp add: Done run_word_then_def)
qed (use runword_steady(1) [OF assms(1), of parse w] in \<open>simp_all add: run_word_then_def\<close>)

lemma count_step:
  assumes "1 \<le> c - 1"
  shows "nat c * (l + 2) = nat (c - 1) * (l + 2) + (l + 2)"
proof -
  have "nat c = Suc (nat (c - 1))" using assms by simp
  then show ?thesis by simp
qed

lemma parse_loop_terminates:
  assumes "steady c s" "length str \<le> length ostr"
    and "nat c * (length ostr + 2) + length str + 1 \<le> n"
  shows "settles (parse_loop n cb tbl ostr str w s)"
  using assms
proof (induction n arbitrary: c s str w)
  case (Suc n)
  have run: "settles (parse_loop n cb tbl ostr x v s')"
    if "steady (c - 1) s'" "1 \<le> c - 1" "length x \<le> length ostr" for x v s'
    using that Suc.prems(3) count_step [OF that(2), of "length ostr"] by (intro Suc.IH) auto
  have fwd: "settles (parse_loop n cb tbl ostr x v s)" if "length x < length str" for x v
    using that Suc.prems by (intro Suc.IH) auto
  show ?case
    using Suc.prems(1,2)
    by (auto simp: Let_def intro!: run_word_then_ends_in [OF Suc.prems(1)] run fwd)
qed simp

lemma parse_terminates:
  assumes "es_reil s = None" "parse_fuel str s \<le> n"
  shows "settles (r_anal_esil_parse n cb tbl str s)"
proof -
  have "steady (goto_limit s) (loop_reset (s\<lparr>es_trap := 0\<rparr>))"
    using assms(1) by (simp add: steady_def loop_reset_def goto_limit_def)
  then show ?thesis
    using assms(2) parse_loop_terminates [of "goto_limit s" "loop_reset (s\<lparr>es_trap := 0\<rparr>)" str str n "[]"]
    by (simp add: r_anal_esil_parse_def parse_fuel_def)
qed

end

section \<open>More fuel gives the same result\<close>

lemma runword_reil_fuel:
  assumes "\<And>x s. settles (p x s) \<Longrightarrow> q x s = p x s" "settles (runword_reil p tbl w r s)"
  shows "runword_reil q tbl w r s = runword_reil p tbl w r s"
proof (cases "reil_append w r")
  case (Some r')
  then show ?thesis
    using assms(1) [of "rl_if_buf r'"] assms(2)
    by (auto simp: runword_reil_def split: outcome.splits)
qed (simp add: runword_reil_def)

lemma runword_fuel:
  assumes "\<And>x s. settles (p x s) \<Longrightarrow> q x s = p x s" "settles (runword p cb tbl w s)"
  shows "runword q cb tbl w s = runword p cb tbl w s"
proof (cases "es_reil s")
  case (Some r)
  let ?s = "s\<lparr>es_parse_goto_count := es_parse_goto_count s - 1, es_reil := Some (reil_toggle w r)\<rparr>"
  have e: "runword x cb tbl w s =
      (if es_parse_goto_count s - 1 < 1
       then Done 0 (s\<lparr>es_parse_goto_count := es_parse_goto_count s - 1, es_trap := 1, es_parse_stop := 1\<rparr>)
       else if rl_skip (reil_toggle w r) \<noteq> 0 then runword_reil x tbl w (reil_toggle w r) ?s
       else runword_plain cb tbl w ?s)" for x
    by (simp add: runword_def Some Let_def)
  show ?thesis
    using assms(2) runword_reil_fuel [of p q tbl w "reil_toggle w r" ?s] assms(1)
    unfolding e by (simp split: if_splits)
qed (simp add: runword_def Let_def)

lemma run_word_then_fuel:
  assumes "\<And>x s. settles (p x s) \<Longrightarrow> q x s = p x s" "\<And>s. settles (f s) \<Longrightarrow> f' s = f s"
    "\<And>x s. settles (g x s) \<Longrightarrow> g' x s = g x s" "\<And>s. settles (h s) \<Longrightarrow> h' s = h s"
    "settles (run_word_then p cb tbl ostr str w f g h s)"
  shows "run_word_then q cb tbl ostr str w f' g' h' s = run_word_then p cb tbl ostr str w f g h s"
proof -
  have "settles (runword p cb tbl w s)"
    using assms(5) by (auto simp: run_word_then_def split: outcome.splits)
  with runword_fuel [of p q] assms(1) have "runword q cb tbl w s = runword p cb tbl w s" by blast
  then show ?thesis
    using assms(2-5) by (auto simp: run_word_then_def split: outcome.splits action.splits prod.splits)
qed

text \<open>One turn of the loop, with the rest of the run as a parameter.\<close>

definition parse_turn ::
  "(string \<Rightarrow> string \<Rightarrow> string \<Rightarrow> 'io esil \<Rightarrow> 'io esil outcome) \<Rightarrow> 'io esil esil_cb \<Rightarrow> 'io esil ops \<Rightarrow>
   string \<Rightarrow> string \<Rightarrow> string \<Rightarrow> 'io esil \<Rightarrow> 'io esil outcome" where
  "parse_turn rec cb tbl ostr str word s =
     (let run = run_word_then (\<lambda>x s. if x = [] then Done 0 s else rec x x [] (loop_reset (s\<lparr>es_trap := 0\<rparr>)))
            cb tbl ostr str word (\<lambda>s. rec ostr ostr [] (loop_reset s)) (\<lambda>str' s. rec ostr str' [] s);
          advance = (\<lambda>w s. rec ostr (drop 2 str) (w @ [chr_at str 1]) s)
      in if str = [] then (if first_chr word = CHR 0x00 then Done 1 s else run (Done 1) s)
         else if length word > 62 then Done (- 1) s
         else if hd str = CHR '';'' \<or> hd str = CHR '','' then
           (if first_chr word \<noteq> CHR 0x00
            then run (if hd str = CHR '';'' then Done 0 else advance []) s
            else advance word s)
         else rec ostr (tl str) (word @ [hd str]) s)"

lemma parse_loop_turn:
  "parse_loop (Suc n) cb tbl ostr str w s = parse_turn (parse_loop n cb tbl) cb tbl ostr str w s"
  by (simp add: parse_turn_def)

lemma parse_turn_fuel:
  assumes "\<And>o' x w s. settles (p o' x w s) \<Longrightarrow> q o' x w s = p o' x w s"
    and "settles (parse_turn p cb tbl ostr str w s)"
  shows "parse_turn q cb tbl ostr str w s = parse_turn p cb tbl ostr str w s"
  using assms(2) unfolding parse_turn_def
  by (auto simp: Let_def assms(1) intro!: run_word_then_fuel split: if_splits)

lemma parse_loop_Suc:
  "settles (parse_loop n cb tbl ostr str w s) \<Longrightarrow>
   parse_loop (Suc n) cb tbl ostr str w s = parse_loop n cb tbl ostr str w s"
proof (induction n arbitrary: ostr str w s)
  case (Suc n)
  then show ?case
    using parse_turn_fuel [of "parse_loop n cb tbl" "parse_loop (Suc n) cb tbl"]
    by (simp only: parse_loop_turn)
qed simp

lemma parse_fuel_mono:
  assumes "settles (r_anal_esil_parse n cb tbl str s)" "n \<le> m"
  shows "r_anal_esil_parse m cb tbl str s = r_anal_esil_parse n cb tbl str s"
  using assms(2)
proof (induction rule: dec_induct)
  case (step k)
  then show ?case
    using assms(1) parse_loop_Suc [of k cb tbl str str "[]"]
    by (cases "str = []") (simp_all add: r_anal_esil_parse_def del: parse_loop.simps)
qed simp

section \<open>The machine as \<open>r_anal_esil_setup\<close> leaves it\<close>

definition no_callbacks :: "(nat \<Rightarrow> ut8) \<Rightarrow> 's esil_cb" where
  "no_callbacks g = \<lparr>cb_hook_flag_read = None, cb_hook_command = None, cb_hook_mem_read = None,
     cb_mem_read = None, cb_hook_mem_write = None, cb_mem_write = None, cb_hook_reg_read = None,
     cb_reg_read = None, cb_hook_reg_write = None, cb_reg_write = None, cb_cmd = None,
     cb_esil_trap = None, cb_esil_intr = None, cb_setab = None, cb_interrupts = [], cb_garbage = g\<rparr>"

definition setup_cb :: "'io io_bind \<Rightarrow> (nat \<Rightarrow> ut8) \<Rightarrow> bool \<Rightarrow> bool \<Rightarrow> bool \<Rightarrow> 'io esil esil_cb" where
  "setup_cb iob g romem stats nonull =
     fst (r_anal_esil_stats (r_anal_esil_mem_ro (esil_setup_cb iob nonull (no_callbacks g)) romem) stats
            (the (r_anal_esil_new 3 0)))"

lemma setup_cb_eq:
  "r_anal_esil_setup iob None (no_callbacks g) tbl an romem stats nonull s = (r, cb, tbl') \<Longrightarrow>
   cb = setup_cb iob g romem stats nonull \<and> tbl' = r_anal_esil_setup_ops tbl"
  by (auto simp: r_anal_esil_setup_def setup_cb_def r_anal_esil_stats_def Let_def split: if_splits)

lemma setup_cb_keeps:
  assumes "data_closed I" and io: "\<And>s io. I s \<Longrightarrow> I (upd_io s io)" and reg: "\<And>s r. I s \<Longrightarrow> I (upd_reg s r)"
    and st: "\<And>s d. I s \<Longrightarrow> I (s\<lparr>es_stats := d\<rparr>)"
  shows "cb_keeps I (setup_cb iob g romem stats nonull)"
proof -
  have trap: "I s \<Longrightarrow> I (s\<lparr>es_trap := a, es_trap_code := b\<rparr>)" for s a b
    using assms(1) by (simp add: data_closed_def)
  have regs: "kept I (internal_esil_reg_read x s)" "kept I (internal_esil_reg_write x v s)"
    "kept I (internal_esil_reg_write_no_null x v s)" if "I s" for x v s
    using that reg unfolding internal_esil_reg_read_def internal_esil_reg_write_def
      internal_esil_reg_write_no_null_def
    by (auto simp: whenever_def Let_def split: option.splits bind_splits if_splits)
  have mems: "kept I (internal_esil_mem_read iob a b n s)" "kept I (internal_esil_mem_read_no_null iob a b n s)"
    "kept I (internal_esil_mem_write iob a b n s)" "kept I (internal_esil_mem_write_no_null iob a b n s)"
    if "I s" for a b n s
    using that io trap unfolding internal_esil_mem_read_def internal_esil_mem_read_no_null_def
      internal_esil_mem_write_def internal_esil_mem_write_no_null_def write_result_def
    by (auto simp: whenever_def split: option.splits bind_splits)
  have hooks: "kept I (hook_flag_read x s)" "kept I (hook_command x s)" "kept I (hook_mem_read a b n s)"
    "kept I (hook_mem_write a b n s)" "kept I (hook_reg_read x s)" "kept I (hook_reg_write x a s)"
    "kept I (hook_NOP_mem_write a b n s)" if "I s" for x a b n s
    using that st by (simp_all add: hook_flag_read_def hook_command_def hook_mem_read_def
        hook_mem_write_def hook_reg_read_def hook_reg_write_def hook_NOP_mem_write_def
        stat_add_def stat_add_num_def)
  show ?thesis
    by (cases nonull; cases stats; cases romem)
      (simp_all add: cb_keeps_def setup_cb_def r_anal_esil_stats_def r_anal_esil_mem_ro_def
        esil_setup_cb_def no_callbacks_def regs mems hooks)
qed

text \<open>The stack never grows past its size and never holds an empty string.\<close>

definition stack_ok :: "'io esil \<Rightarrow> bool" where
  "stack_ok s \<longleftrightarrow> int (length (es_stack s)) \<le> es_stacksize s \<and> [] \<notin> set (es_stack s)"

lemma stack_ok_closed: "data_closed stack_ok"
  by (auto simp: data_closed_def stack_ok_def dest: in_set_butlastD)

lemma upd_closed:
  "stack_ok s \<Longrightarrow> stack_ok (upd_io s io)" "stack_ok s \<Longrightarrow> stack_ok (upd_reg s r)"
  "stack_ok s \<Longrightarrow> stack_ok (s\<lparr>es_stats := d\<rparr>)"
  "steady c s \<Longrightarrow> steady c (upd_io s io)" "steady c s \<Longrightarrow> steady c (upd_reg s r)"
  "steady c s \<Longrightarrow> steady c (s\<lparr>es_stats := d\<rparr>)"
  by (simp_all add: stack_ok_def steady_def upd_io_def upd_reg_def)

lemma setup_machines:
  "machine_invariant stack_ok (setup_cb iob g romem stats nonull)"
  "machine_invariant (steady c) (setup_cb iob g romem stats nonull)"
  by (unfold_locales; (rule stack_ok_closed steady_closed setup_cb_keeps | erule upd_closed)+)+

lemma setup_ops_kept:
  "ops_keep stack_ok (setup_cb iob g romem stats nonull) (r_anal_esil_setup_ops [])"
  "ops_keep (steady c) (setup_cb iob g romem stats nonull) (r_anal_esil_setup_ops [])"
  by (rule setup_machines [THEN machine_invariant.setup_ops_keep], simp add: ops_keep_def)+

interpretation stk: run_invariant stack_ok "setup_cb iob g romem stats nonull" "r_anal_esil_setup_ops []"
  for iob g romem stats nonull
  by (rule run_invariant.intro [OF setup_machines(1)], unfold_locales, rule setup_ops_kept)
    (simp_all add: stack_ok_def)

interpretation fin: terminating "setup_cb iob g romem stats nonull" "r_anal_esil_setup_ops []"
  for iob g romem stats nonull
  by (unfold_locales, rule machine_invariant.callbacks [OF setup_machines(2)], rule setup_ops_kept)

end
