(* ===== verification/R2_Esil_Flags.thy ===== *)
theory R2_Esil_Flags
  imports R2_Esil_Run
begin

text \<open>
  What the internal flags mean. The machine keeps the old value, the new value and the width of the
  last operation; the \<open>$\<close>-names compute the flags of a processor from them. Each is compared with the
  textbook definition over integers.
\<close>

section \<open>Masks\<close>

lemma genmask_eq: "n < 64 \<Longrightarrow> genmask (int n) = Some (mask (Suc n))"
proof -
  assume n: "n < 64"
  have "push_bit n (2 :: ut64) - 1 = mask (Suc n)"
    by (simp add: mask_eq_exp_minus_1 push_bit_eq_mult mult.commute)
  moreover have "mask (Suc n) \<noteq> (0 :: ut64)" by (simp add: mask_eq_0_iff)
  ultimately have "push_bit n (2 :: ut64) - 1 = mask (Suc n)" "push_bit n (2 :: ut64) \<noteq> 1" by auto
  then show ?thesis using n by (simp add: genmask_def shl64_def Let_def)
qed

definition low :: "nat \<Rightarrow> ut64 \<Rightarrow> nat" where
  "low n x = unat x mod 2 ^ n"

lemma low_mask: "unat (x AND mask n) = low n x"
  by (simp add: low_def word_and_mask_unat)

lemma low_less [simp]: "low n x < 2 ^ n"
  by (simp add: low_def)

lemma and_mask_less: "x AND mask n < y AND mask n \<longleftrightarrow> low n x < low n y"
  by (simp add: word_less_nat_alt low_mask)

lemma and_mask_zero: "x AND mask n = 0 \<longleftrightarrow> low n x = 0"
  using low_mask [of x n] by (metis unat_eq_zero unat_0)

lemma mod_pow_mod: "k \<le> m \<Longrightarrow> x mod 2 ^ m mod 2 ^ k = (x :: nat) mod 2 ^ k"
  by (simp add: mod_mod_cancel le_imp_power_dvd)

lemma low_add: "n \<le> 64 \<Longrightarrow> low n (x + y) = (low n x + low n y) mod 2 ^ n"
  using mod_pow_mod [of n 64 "unat x + unat y"] by (simp add: low_def unat_word_ariths mod_add_eq)

lemma mod_add_less_iff:
  assumes "a < (m :: nat)" "b < m"
  shows "(a + b) mod m < a \<longleftrightarrow> m \<le> a + b"
proof (cases "a + b < m")
  case False
  then have "(a + b) mod m = a + b - m" using assms by (simp add: le_mod_geq)
  then show ?thesis using False assms by auto
qed simp

section \<open>Carry, borrow, overflow\<close>

lemma carry_eq:
  assumes "unat b < 64"
  shows "esil_internal_carry_check s b =
    Some (low (Suc (unat b)) (es_cur s) < low (Suc (unat b)) (es_old s))"
proof -
  have "int (unat b) = uint b" by simp
  then have "genmask (uint b) = Some (mask (Suc (unat b)))"
    using genmask_eq [OF assms] by metis
  then show ?thesis by (simp add: esil_internal_carry_check_def and_mask_less)
qed

lemma carry_after_add:
  assumes "unat b < 64" "es_cur s = es_old s + x"
  shows "esil_internal_carry_check s b =
    Some (2 ^ Suc (unat b) \<le> low (Suc (unat b)) (es_old s) + low (Suc (unat b)) x)"
  using assms mod_add_less_iff [OF low_less low_less, of "Suc (unat b)" "es_old s" x]
  by (simp add: carry_eq low_add del: power_Suc)

lemma borrow_bit:
  assumes "1 \<le> n" "n \<le> 64"
  shows "uint ((((of_nat n :: ut8) AND 0x3f) + 0x3f) AND 0x3f) = int (n - 1)"
proof -
  have "list_all (\<lambda>n. uint ((((of_nat n :: ut8) AND 0x3f) + 0x3f) AND 0x3f) = int (n - 1)) [1..<65]"
    by code_simp
  then show ?thesis using assms by (simp add: list_all_iff)
qed

lemma borrow_after_sub:
  assumes "1 \<le> n" "n \<le> 64" "es_cur s = es_old s - x"
  shows "esil_internal_borrow_check s (of_nat n) = Some (low n (es_old s) < low n x)"
proof -
  have "n - 1 < 64" using assms(1,2) by simp
  then have m: "genmask (int (n - 1)) = Some (mask n)" using genmask_eq [of "n - 1"] assms(1) by (simp only: Suc_diff_1)
  have "low n (es_old s) = (low n (es_cur s) + low n x) mod 2 ^ n"
    using low_add [OF assms(2), of "es_cur s" x] assms(3) by simp
  moreover have "(low n (es_cur s) + low n x) mod 2 ^ n < low n (es_cur s) \<longleftrightarrow>
      (low n (es_cur s) + low n x) mod 2 ^ n < low n x"
    using mod_add_less_iff [OF low_less low_less, of n "es_cur s" x]
      mod_add_less_iff [OF low_less low_less, of n x "es_cur s"] by (simp add: add.commute)
  ultimately show ?thesis
    unfolding esil_internal_borrow_check_def borrow_bit [OF assms(1,2)]
    unfolding m by (simp add: and_mask_less)
qed

text \<open>The value of the low \<open>n\<close> bits as a two's complement number.\<close>

definition sval :: "nat \<Rightarrow> ut64 \<Rightarrow> int" where
  "sval n x = (if low n x < 2 ^ (n - 1) then int (low n x) else int (low n x) - 2 ^ n)"

lemma low_pred:
  assumes "1 \<le> n"
  shows "low (n - 1) x = (if low n x < 2 ^ (n - 1) then low n x else low n x - 2 ^ (n - 1))"
proof -
  have p: "(2 :: nat) ^ n = 2 ^ (n - 1) + 2 ^ (n - 1)"
    using assms by (cases n) simp_all
  have "low (n - 1) x = low n x mod 2 ^ (n - 1)"
    by (simp add: low_def mod_pow_mod)
  then show ?thesis
    using low_less [of n x] unfolding p by (simp add: le_mod_geq not_less)
qed

lemma overflow_iff_carries:
  assumes "1 \<le> n"
  shows "(2 ^ n \<le> low n x + low n y) \<noteq> (2 ^ (n - 1) \<le> low (n - 1) x + low (n - 1) y) \<longleftrightarrow>
    sval n x + sval n y < - (2 ^ (n - 1)) \<or> 2 ^ (n - 1) \<le> sval n x + sval n y"
proof -
  define h :: nat where "h = 2 ^ (n - 1)"
  have p: "(2 :: nat) ^ n = h + h" "(2 :: int) ^ n = int h + int h" "(2 :: int) ^ (n - 1) = int h"
    using assms by (cases n; simp add: h_def)+
  have "low n x < h + h" "low n y < h + h" using low_less [of n] by (simp_all only: p [symmetric])
  then show ?thesis
    unfolding low_pred [OF assms] sval_def p h_def [symmetric] by auto
qed

lemma overflow_after_add:
  assumes "2 \<le> unat (es_lastsz s)" "unat (es_lastsz s) \<le> 64" "es_cur s = es_old s + x"
  defines "n \<equiv> unat (es_lastsz s)"
  shows "esil_internal_overflow_check s =
    Some (sval n (es_old s) + sval n x < - (2 ^ (n - 1)) \<or> 2 ^ (n - 1) \<le> sval n (es_old s) + sval n x)"
proof -
  have two: "(2 :: ut8) \<le> es_lastsz s" using assms(1) by (simp add: word_le_nat_alt)
  have one: "(1 :: ut8) \<le> es_lastsz s" using assms(1) by (simp add: word_le_nat_alt)
  have u: "unat (es_lastsz s - 1) = n - 1" "unat (es_lastsz s - 2) = n - 2"
    using one two by (simp_all add: unat_sub n_def)
  have n: "Suc (n - 1) = n" "Suc (n - 2) = n - 1" "n - 1 < 64" "n - 2 < 64" "1 \<le> n"
    using assms(1,2) by (auto simp: n_def)
  have "esil_internal_carry_check s (es_lastsz s - 1) = Some (2 ^ n \<le> low n (es_old s) + low n x)"
    "esil_internal_carry_check s (es_lastsz s - 2) =
      Some (2 ^ (n - 1) \<le> low (n - 1) (es_old s) + low (n - 1) x)"
    using carry_after_add [OF _ assms(3), of "es_lastsz s - 1"]
      carry_after_add [OF _ assms(3), of "es_lastsz s - 2"] u n by simp_all
  moreover have "\<not> es_lastsz s < 2" using two by simp
  ultimately show ?thesis
    using overflow_iff_carries [OF n(5), of "es_old s" x]
    by (simp add: esil_internal_overflow_check_def)
qed

section \<open>Zero, sign, parity\<close>

lemma zero_eq:
  assumes "1 \<le> unat (es_lastsz s)" "unat (es_lastsz s) \<le> 64"
  shows "esil_internal_value ''$z'' s = Some (Some (bool64 (low (unat (es_lastsz s)) (es_cur s) = 0)))"
proof -
  have "uint (es_lastsz s) - 1 = int (unat (es_lastsz s) - 1)" using assms(1) by (simp add: of_nat_diff)
  then show ?thesis
    using assms genmask_eq [of "unat (es_lastsz s) - 1"]
    by (simp add: esil_internal_value_def Let_def and_mask_zero)
qed

lemma sign_eq:
  assumes "1 \<le> unat (es_lastsz s)" "unat (es_lastsz s) \<le> 64"
  shows "esil_internal_sign_check s = Some (bit (es_cur s) (unat (es_lastsz s) - 1))"
proof -
  have "(1 :: ut8) \<le> es_lastsz s" "es_lastsz s \<noteq> 0" using assms(1) by (auto simp: word_le_nat_alt)
  then show ?thesis
    using assms by (simp add: esil_internal_sign_check_def shr64_def unat_sub and_one_eq
        odd_iff_mod_2_eq_one [symmetric] bit_iff_odd_drop_bit)
qed

text \<open>
  The multiplication spreads the bits of the byte, the mask keeps bit \<open>i\<close> at position \<open>9 * i\<close>, and
  the remainder by 511 adds them up. The 256 cases are evaluated over the integers.
\<close>

lemma parity_table:
  "list_all (\<lambda>k :: int. even ((((k * 0x0101010101010101) AND 0x8040201008040201) mod 0x1FF)) =
     even (\<Sum>i \<leftarrow> [0..<8]. k div 2 ^ i mod 2)) [0..255]"
  by code_simp

lemma card_low_bits: "int (card {i. i < 8 \<and> bit (x :: ut64) i}) = (\<Sum>i \<leftarrow> [0..<8]. uint (x AND mask 8) div 2 ^ i mod 2)"
proof -
  have "int (card {i. i < 8 \<and> bit x i}) = (\<Sum>i < 8. of_bool (bit x i))"
    by (simp add: sum_of_bool_eq Int_def lessThan_def)
  also have "\<dots> = (\<Sum>i < 8. uint (x AND mask 8) div 2 ^ i mod 2)"
  proof (rule sum.cong)
    fix i :: nat assume "i \<in> {..<8}"
    then have "bit (uint (x AND mask 8)) i = bit x i" by (simp add: bit_uint_iff bit_simps)
    then show "of_bool (bit x i) = uint (x AND mask 8) div 2 ^ i mod 2"
      by (metis bit_iff_odd odd_iff_mod_2_eq_one of_bool_eq even_iff_mod_2_eq_zero)
  qed simp
  also have "\<dots> = (\<Sum>i \<leftarrow> [0..<8]. uint (x AND mask 8) div 2 ^ i mod 2)"
    by (simp only: interv_sum_list_conv_sum_set_nat atLeast0LessThan [symmetric] set_upt)
  finally show ?thesis .
qed

lemma and_one_even: "(x AND 1 = 0) = even (uint (x :: ut64))"
proof -
  have "even (uint x) = even x" using bit_uint_iff [of x 0] by (simp add: bit_0)
  then show ?thesis by (simp add: and_one_eq even_iff_mod_2_eq_zero)
qed

lemma parity_eq: "esil_internal_parity_check s = even (card {i. i < 8 \<and> bit (es_cur s) i})"
proof -
  let ?w = "es_cur s AND mask 8" and ?c1 = "0x0101010101010101 :: ut64"
  define k where "k = uint ?w"
  have ff: "(0xff :: ut64) = mask 8" by (simp add: mask_eq_exp_minus_1)
  have "unat ?w < 256" by (simp add: low_mask low_def)
  then have "int (unat ?w) < 256" by linarith
  then have k: "0 \<le> k" "k \<le> 255" by (simp_all add: k_def)
  have mul: "uint (?w * ?c1) = k * 0x0101010101010101"
    using k by (simp add: uint_word_ariths k_def [symmetric])
  have "esil_internal_parity_check s = even (uint ((?w * ?c1 AND 0x8040201008040201) mod 0x1FF))"
    unfolding esil_internal_parity_check_def ff Let_def by (rule and_one_even)
  also have "\<dots> = even ((k * 0x0101010101010101 AND 0x8040201008040201) mod 0x1FF)"
    using mul by (simp add: uint_mod uint_and)
  also have "\<dots> = even (\<Sum>i \<leftarrow> [0..<8]. k div 2 ^ i mod 2)"
    using parity_table k by (simp add: list_all_iff)
  also have "\<dots> = even (int (card {i. i < 8 \<and> bit (es_cur s) i}))"
    unfolding card_low_bits k_def ..
  finally show ?thesis by simp
qed

end
