(* ===== verification/R2_Reg_Laws.thy ===== *)
theory R2_Reg_Laws
  imports R2_Reg
begin

text \<open>
  What the register file promises. A register occupies a run of whole bytes of its arena (the byte
  that holds it for a one-bit flag); \<open>item_ok\<close> says that the run lies inside the arena. On such
  registers reading after writing gives the value cut to the width of the register, in either byte
  order, and leaves every register elsewhere alone. \<open>register_file\<close> states this contract once; the
  interpretation at the end discharges it for \<open>r_reg_get_value\<close> and \<open>r_reg_set_value\<close>.
\<close>

section \<open>Values as bytes\<close>

definition ordered :: "bool \<Rightarrow> 'a list \<Rightarrow> 'a list" where
  "ordered be xs = (if be then rev xs else xs)"

definition enc_val :: "bool \<Rightarrow> int \<Rightarrow> ut64 \<Rightarrow> ut8 list" where
  "enc_val be sz v =
     (if sz = 8 then [ucast v]
      else if sz = 16 then ordered be (enc_le16 (ucast v))
      else if sz = 32 then ordered be (enc_le32 (ucast v))
      else ordered be (enc_le64 v))"

definition dec_val :: "bool \<Rightarrow> int \<Rightarrow> ut8 list \<Rightarrow> ut64" where
  "dec_val be sz b =
     (if sz = 8 then ucast (hd b)
      else if sz = 16 then ucast (dec_le16 (ordered be b))
      else if sz = 32 then ucast (dec_le32 (ordered be b))
      else dec_le64 (ordered be b))"

abbreviation whole_size :: "int \<Rightarrow> bool" where
  "whole_size sz \<equiv> sz = 8 \<or> sz = 16 \<or> sz = 32 \<or> sz = 64"

lemma ordered_ordered [simp]: "ordered be (ordered be xs) = xs" "length (ordered be xs) = length xs"
  by (simp_all add: ordered_def)

lemma enc_val_length: "whole_size sz \<Longrightarrow> length (enc_val be sz v) = nat (sz div 8)"
  by (auto simp: enc_val_def)

lemma ucast_down_up:
  "ucast (ucast (v :: ut64) :: ut8) = v AND mask 8"
  "ucast (ucast (v :: ut64) :: ut16) = v AND mask 16"
  "ucast (ucast (v :: ut64) :: ut32) = v AND mask 32"
  by (auto intro!: bit_word_eqI simp: bit_simps)

lemma dec_enc_val: "whole_size sz \<Longrightarrow> dec_val be sz (enc_val be sz v) = v AND mask (nat sz)"
  by (auto simp: dec_val_def enc_val_def dec_enc_le dec_enc_le64 ucast_down_up intro!: bit_word_eqI
      simp: bit_simps)

lemma set_value_src_eq:
  assumes "whole_size sz"
  shows "\<exists>rest. set_value_src be sz v = Some (enc_val be sz v @ rest)"
proof -
  have ff: "(0xff :: ut64) = mask 8" by (simp add: mask_eq_exp_minus_1)
  have m: "ucast (v AND 0xff) = (ucast v :: ut8)"
    unfolding ff by (auto intro!: bit_word_eqI simp: bit_simps)
  have w: "buf_write (replicate 12 (0 :: ut8)) 0 xs = Some (xs @ replicate (12 - length xs) 0)"
    if "length xs \<le> 12" for xs
    using that by (simp add: buf_write_def)
  show ?thesis
    using assms
    by (auto simp: set_value_src_def enc_val_def ordered_def write_le_eqs write_be_eqs
        r_write_ble8_eq w m)
qed

lemma copybits_whole:
  assumes "whole_size sz" and "length xs = nat (sz div 8)"
  shows "r_mem_copybits d p (xs @ rest) sz = buf_write d p xs"
  using assms by (auto simp: r_mem_copybits_def buf_read_def Option.bind_eq_Some_conv
      split: bind_split)

section \<open>Where a register lives\<close>

definition byte_start :: "reg_item \<Rightarrow> nat" where
  "byte_start it = nat (if ri_size it = 1 then ri_offset it div 8 else bits2bytes (ri_offset it))"

definition byte_len :: "reg_item \<Rightarrow> nat" where
  "byte_len it = (if ri_size it = 1 then 1 else nat (ri_size it div 8))"

definition item_ok :: "reg \<Rightarrow> reg_item \<Rightarrow> bool" where
  "item_ok r it \<longleftrightarrow> (ri_size it = 1 \<or> whole_size (ri_size it)) \<and> 0 \<le> ri_offset it \<and>
     (case regset_arena r (ri_type it) of None \<Rightarrow> False
      | Some (_, bs) \<Rightarrow> byte_start it + byte_len it \<le> length bs)"

definition trunc_to :: "reg_item \<Rightarrow> ut64 \<Rightarrow> ut64" where
  "trunc_to it v = (if ri_size it = 1 then (if v \<noteq> 0 then 1 else 0) else v AND mask (nat (ri_size it)))"

definition flag_bit :: "reg_item \<Rightarrow> nat" where
  "flag_bit it = nat (ri_offset it mod 8)"

text \<open>Two registers are independent when their arenas, their bytes, or (two flags) their bits differ.\<close>

definition item_indep :: "reg \<Rightarrow> reg_item \<Rightarrow> reg_item \<Rightarrow> bool" where
  "item_indep r i j \<longleftrightarrow>
     map_option fst (regset_arena r (ri_type i)) \<noteq> map_option fst (regset_arena r (ri_type j)) \<or>
     byte_start i + byte_len i \<le> byte_start j \<or> byte_start j + byte_len j \<le> byte_start i \<or>
     (ri_size i = 1 \<and> ri_size j = 1 \<and> byte_start i = byte_start j \<and> flag_bit i \<noteq> flag_bit j)"

lemma item_okE:
  assumes "item_ok r it"
  obtains a bs where "regset_arena r (ri_type it) = Some (a, bs)"
    "byte_start it + byte_len it \<le> length bs" "0 \<le> ri_offset it"
    "ri_size it = 1 \<or> whole_size (ri_size it)"
  using assms by (auto simp: item_ok_def split: option.splits)

lemma bits2bytes_ge0: "0 \<le> x \<Longrightarrow> 0 \<le> bits2bytes x"
  by (simp add: bits2bytes_nonneg)

definition set_bytes :: "reg_item \<Rightarrow> bool \<Rightarrow> ut8 list \<Rightarrow> ut64 \<Rightarrow> ut8 list" where
  "set_bytes it be bs v =
     (if ri_size it = 1
      then [if v \<noteq> 0 then set_bit (flag_bit it) (bs ! byte_start it)
            else unset_bit (flag_bit it) (bs ! byte_start it)]
      else enc_val be (ri_size it) v)"

definition get_bytes :: "reg_item \<Rightarrow> bool \<Rightarrow> ut8 list \<Rightarrow> ut64" where
  "get_bytes it be b =
     (if ri_size it = 1 then (if bit (hd b) (flag_bit it) then 1 else 0)
      else dec_val be (ri_size it) b)"

lemma set_bytes_length:
  "ri_size it = 1 \<or> whole_size (ri_size it) \<Longrightarrow> length (set_bytes it be bs v) = byte_len it"
  by (auto simp: set_bytes_def byte_len_def enc_val_length)

lemma flag_mask_word:
  fixes b :: ut8
  shows "(b AND (0xff XOR push_bit n 1)) OR push_bit n 1 = set_bit n b"
    and "(b AND (0xff XOR push_bit n 1)) OR 0 = unset_bit n b"
proof -
  have ff: "(0xff :: ut8) = - 1" by simp
  have x: "(0xff :: ut8) XOR y = NOT y" for y
    unfolding ff by simp
  have o: "(b AND NOT y) OR y = b OR y" for y :: ut8
    by (rule bit_word_eqI) (auto simp: bit_simps)
  show "(b AND (0xff XOR push_bit n 1)) OR push_bit n 1 = set_bit n b"
    by (simp only: x o set_bit_eq_or)
  show "(b AND (0xff XOR push_bit n 1)) OR 0 = unset_bit n b"
    by (simp only: x unset_bit_eq_and_not or.right_neutral)
qed

lemma get_value_whole:
  assumes arena: "regset_arena r (ri_type it) = Some (a, bs)" and w: "whole_size (ri_size it)"
    and fits: "byte_start it + byte_len it \<le> length bs" and nn: "0 \<le> ri_offset it"
  shows "r_reg_get_value r (Some it) =
    Some (dec_val (rg_big_endian r) (ri_size it) (take (byte_len it) (drop (byte_start it) bs)))"
proof -
  let ?p = "byte_start it" and ?be = "rg_big_endian r"
  have off: "bits2bytes (ri_offset it) = int ?p"
    using w bits2bytes_ge0 [OF nn] by (auto simp: byte_start_def)
  have rd: "buf_read bs ?p n = Some (take n (drop ?p bs))" if "?p + n \<le> length bs" for n
    using that by (simp add: buf_read_def)
  have o: "(dec \<circ> rev) = (\<lambda>b. dec (rev b))" for dec :: "ut8 list \<Rightarrow> 'v" by (simp add: comp_def)
  note defs = r_reg_get_value_def dec_val_def rd_at_def ordered_def byte_len_def arena off Let_def o
  from w consider "ri_size it = 8" | "ri_size it = 16" | "ri_size it = 32" | "ri_size it = 64" by blast
  then show ?thesis
  proof cases
    case 1
    then have "?p + 1 \<le> length bs" using fits by (simp add: byte_len_def)
    with 1 rd [of 1] show ?thesis by (simp add: defs r_read_ble8_eq)
  next
    case 2
    then have "?p + 2 \<le> length bs" using fits by (simp add: byte_len_def)
    with 2 rd [of 2] show ?thesis by (simp add: defs r_read_ble16_def read_16_eqs)
  next
    case 3
    then have "?p + 4 \<le> length bs" using fits by (simp add: byte_len_def)
    with 3 rd [of 4] show ?thesis by (simp add: defs r_read_ble32_def read_32_eqs)
  next
    case 4
    then have "?p + 8 \<le> length bs" using fits by (simp add: byte_len_def)
    with 4 rd [of 8] show ?thesis by (simp add: defs r_read_ble64_def read_64_eqs)
  qed
qed

lemma get_value_flag:
  assumes "regset_arena r (ri_type it) = Some (a, bs)" "ri_size it = 1"
    and "byte_start it + byte_len it \<le> length bs" "0 \<le> ri_offset it"
  shows "r_reg_get_value r (Some it) =
    Some (get_bytes it (rg_big_endian r) (take (byte_len it) (drop (byte_start it) bs)))"
  using assms
  by (auto simp: r_reg_get_value_def get_bytes_def byte_start_def byte_len_def flag_bit_def
      r_read_ble8_eq buf_read_def Let_def)

lemma get_value_eq:
  assumes "regset_arena r (ri_type it) = Some (a, bs)" "ri_size it = 1 \<or> whole_size (ri_size it)"
    and "byte_start it + byte_len it \<le> length bs" "0 \<le> ri_offset it"
  shows "r_reg_get_value r (Some it) =
    Some (get_bytes it (rg_big_endian r) (take (byte_len it) (drop (byte_start it) bs)))"
  using get_value_whole [OF assms(1)] get_value_flag [OF assms(1)] assms(2-)
  by (auto simp: get_bytes_def)

lemma set_value_eq:
  assumes "regset_arena r (ri_type it) = Some (a, bs)" "ri_size it = 1 \<or> whole_size (ri_size it)"
    and fits: "byte_start it + byte_len it \<le> length bs" and "0 \<le> ri_offset it"
  shows "r_reg_set_value r (Some it) v =
    map_option (\<lambda>b. (True, arena_set r a b))
      (buf_write bs (byte_start it) (set_bytes it (rg_big_endian r) bs v))"
proof (cases "ri_size it = 1")
  case True
  have "r_read_ble8 bs (byte_start it) = Some (bs ! byte_start it)"
    using fits True by (simp add: r_read_ble8_def byte_len_def)
  then show ?thesis
    using assms True flag_mask_word [of "bs ! byte_start it" "flag_bit it"]
    by (auto simp: r_reg_set_value_def set_bytes_def byte_start_def flag_bit_def r_write_ble8_eq
        Let_def map_option_case split: option.splits)
next
  case False
  then have w: "whole_size (ri_size it)" using assms(2) by simp
  obtain rest where src: "set_value_src (rg_big_endian r) (ri_size it) v
      = Some (enc_val (rg_big_endian r) (ri_size it) v @ rest)"
    using set_value_src_eq [OF w] by blast
  have cp: "r_mem_copybits bs p (enc_val (rg_big_endian r) (ri_size it) v @ rest) (ri_size it)
      = buf_write bs p (enc_val (rg_big_endian r) (ri_size it) v)" for p
    by (rule copybits_whole [OF w enc_val_length [OF w]])
  have b: "bits2bytes (ri_size it) = ri_size it div 8"
    using w by (auto simp: bits2bytes_nonneg)
  have room: "0 \<le> int (length bs) - bits2bytes (ri_offset it) - bits2bytes (ri_size it)"
    using fits False w bits2bytes_ge0 [of "ri_offset it"] assms(4)
    by (auto simp: byte_start_def byte_len_def b)
  have nn: "\<not> bits2bytes (ri_offset it) < 0" using bits2bytes_ge0 [OF assms(4)] by simp
  have mem: "ri_size it \<in> {8, 16, 32, 64, 80, 96}" using w by auto
  show ?thesis
    unfolding r_reg_set_value_def
    using False mem assms(1) src cp room nn
    by (simp add: set_bytes_def byte_start_def map_option_case split: option.splits)
qed

section \<open>Reading after writing\<close>

lemma arena_set_simps [simp]:
  "rg_regset (arena_set r a b) = rg_regset r" "rg_big_endian (arena_set r a b) = rg_big_endian r"
  "rg_name (arena_set r a b) = rg_name r"
  by (simp_all add: arena_set_def)

lemma arena_get_set:
  "a < length (rg_store r) \<Longrightarrow>
   arena_get (arena_set r a b) c = (if c = a then Some b else arena_get r c)"
  by (auto simp: arena_get_def arena_set_def)

lemma regset_arena_bound: "regset_arena r t = Some (a, bs) \<Longrightarrow> a < length (rg_store r)"
  by (auto simp: regset_arena_def arena_get_def Option.bind_eq_Some_conv split: if_splits)

lemma regset_arena_set:
  assumes "a < length (rg_store r)"
  shows "regset_arena (arena_set r a b) t =
    map_option (\<lambda>(c, bs). (c, if c = a then b else bs))
      (if map_option rs_arena (nth_opt (rg_regset r) t) = Some a \<and> arena_get r a = None
       then Some (a, b) else regset_arena r t)"
  using assms
  by (auto simp: regset_arena_def arena_get_set split: bind_splits)

lemma regset_arena_set_live:
  assumes "regset_arena r u = Some (a, bs)"
  shows "regset_arena (arena_set r a b) t =
    map_option (\<lambda>(c, x). (c, if c = a then b else x)) (regset_arena r t)"
proof -
  have "arena_get r a \<noteq> None"
    using assms by (auto simp: regset_arena_def Option.bind_eq_Some_conv)
  then show ?thesis
    by (auto simp: regset_arena_set [OF regset_arena_bound [OF assms]])
qed

lemma set_value_okE:
  assumes "item_ok r it"
  obtains a bs b where "regset_arena r (ri_type it) = Some (a, bs)"
    "buf_write bs (byte_start it) (set_bytes it (rg_big_endian r) bs v) = Some b"
    "r_reg_set_value r (Some it) v = Some (True, arena_set r a b)"
proof -
  from assms obtain a bs where *: "regset_arena r (ri_type it) = Some (a, bs)"
    "byte_start it + byte_len it \<le> length bs" "0 \<le> ri_offset it"
    "ri_size it = 1 \<or> whole_size (ri_size it)" by (rule item_okE)
  obtain b where "buf_write bs (byte_start it) (set_bytes it (rg_big_endian r) bs v) = Some b"
    using buf_write_defined [of "byte_start it" "set_bytes it (rg_big_endian r) bs v" bs]
      set_bytes_length [OF *(4)] *(2) by auto
  with * set_value_eq [OF *(1,4,2,3), of v] that show thesis by simp
qed

lemma get_bytes_set_bytes:
  assumes "ri_size it = 1 \<or> whole_size (ri_size it)"
  shows "get_bytes it be (set_bytes it be bs v) = trunc_to it v"
proof -
  have "flag_bit it < 8" by (simp add: flag_bit_def)
  then show ?thesis
    using assms by (auto simp: get_bytes_def set_bytes_def trunc_to_def dec_enc_val
        bit_set_bit_iff bit_unset_bit_iff)
qed

lemma item_ok_set:
  assumes "item_ok r i" "item_ok r j" "r_reg_set_value r (Some i) v = Some (ok, r')"
  shows "item_ok r' j"
proof -
  from assms(1) obtain a bs b where 1: "regset_arena r (ri_type i) = Some (a, bs)"
    "buf_write bs (byte_start i) (set_bytes i (rg_big_endian r) bs v) = Some b"
    "r_reg_set_value r (Some i) v = Some (True, arena_set r a b)"
    by (rule set_value_okE)
  from assms(2) obtain c cs where 2: "regset_arena r (ri_type j) = Some (c, cs)"
    "byte_start j + byte_len j \<le> length cs" "0 \<le> ri_offset j"
    "ri_size j = 1 \<or> whole_size (ri_size j)" by (rule item_okE)
  have "length b = length bs" using 1(2) by (rule buf_write_length)
  moreover have "c = a \<Longrightarrow> cs = bs"
    using 1(1) 2(1) by (auto simp: regset_arena_def Option.bind_eq_Some_conv)
  ultimately show ?thesis
    using assms(3) 1 2 by (auto simp: item_ok_def regset_arena_set_live [OF 1(1)])
qed

lemma item_indep_set:
  assumes "item_ok r i" "r_reg_set_value r (Some i) v = Some (ok, r')"
  shows "item_indep r' j k = item_indep r j k"
proof -
  from assms(1) obtain a bs b where 1: "regset_arena r (ri_type i) = Some (a, bs)"
    "r_reg_set_value r (Some i) v = Some (True, arena_set r a b)"
    by (rule set_value_okE)
  have "map_option fst (regset_arena r' t) = map_option fst (regset_arena r t)" for t
    using assms(2) 1(2) regset_arena_set_live [OF 1(1), of b t]
    by (auto simp: option.map_comp comp_def split_beta)
  then show ?thesis by (simp add: item_indep_def)
qed

lemma get_set_value_same:
  assumes "item_ok r it" "r_reg_set_value r (Some it) v = Some (ok, r')"
  shows "r_reg_get_value r' (Some it) = Some (trunc_to it v)"
proof -
  from assms(1) obtain a bs b where 1: "regset_arena r (ri_type it) = Some (a, bs)"
    "buf_write bs (byte_start it) (set_bytes it (rg_big_endian r) bs v) = Some b"
    "r_reg_set_value r (Some it) v = Some (True, arena_set r a b)"
    by (rule set_value_okE)
  then have r': "r' = arena_set r a b" using assms(2) by simp
  have "item_ok r' it" by (rule item_ok_set [OF assms(1,1,2)])
  then obtain a' b' where 2: "regset_arena r' (ri_type it) = Some (a', b')"
    "byte_start it + byte_len it \<le> length b'" "0 \<le> ri_offset it"
    "ri_size it = 1 \<or> whole_size (ri_size it)" by (rule item_okE)
  have "b' = b" using 2(1) 1(1) r' by (simp add: regset_arena_set_live [OF 1(1)])
  moreover have "take (byte_len it) (drop (byte_start it) b) = set_bytes it (rg_big_endian r) bs v"
    using buf_read_write_same [OF 1(2)] set_bytes_length [OF 2(4)]
    by (simp add: buf_read_def split: if_splits)
  ultimately show ?thesis
    using get_value_eq [OF 2(1,4,2,3)] r' by (simp add: get_bytes_set_bytes [OF 2(4)])
qed

lemma get_bytes_other_flag:
  assumes "ri_size i = 1" "ri_size j = 1" "byte_start i = byte_start j" "flag_bit i \<noteq> flag_bit j"
  shows "get_bytes j be (set_bytes i be bs v) = get_bytes j be [bs ! byte_start j]"
  using assms by (auto simp: get_bytes_def set_bytes_def bit_set_bit_iff bit_unset_bit_iff)

lemma get_bytes_other:
  assumes w: "buf_write bs (byte_start i) (set_bytes i be bs v) = Some b"
    and i: "ri_size i = 1 \<or> whole_size (ri_size i)"
    and fits: "byte_start j + byte_len j \<le> length bs"
    and sep: "byte_start i + byte_len i \<le> byte_start j \<or> byte_start j + byte_len j \<le> byte_start i \<or>
      (ri_size i = 1 \<and> ri_size j = 1 \<and> byte_start i = byte_start j \<and> flag_bit i \<noteq> flag_bit j)"
  shows "get_bytes j be (take (byte_len j) (drop (byte_start j) b)) =
    get_bytes j be (take (byte_len j) (drop (byte_start j) bs))"
proof (cases "ri_size i = 1 \<and> ri_size j = 1 \<and> byte_start i = byte_start j \<and> flag_bit i \<noteq> flag_bit j")
  case True
  then have n: "byte_len j = 1" "byte_len i = 1" by (simp_all add: byte_len_def)
  have "take (byte_len j) (drop (byte_start j) b) = set_bytes i be bs v"
    using buf_read_write_same [OF w] set_bytes_length [OF i] True n
    by (simp add: buf_read_def split: if_splits)
  moreover have "take (byte_len j) (drop (byte_start j) bs) = [bs ! byte_start j]"
    using fits n by (simp add: take_Suc hd_drop_conv_nth)
  ultimately show ?thesis using True by (simp add: get_bytes_other_flag)
next
  case False
  then have "buf_read b (byte_start j) (byte_len j) = buf_read bs (byte_start j) (byte_len j)"
    using sep set_bytes_length [OF i] by (intro buf_read_write_other [OF w]) auto
  then show ?thesis
    using fits buf_write_length [OF w] by (simp add: buf_read_def)
qed

lemma get_set_value_other:
  assumes "item_ok r i" "item_ok r j" "item_indep r i j" "r_reg_set_value r (Some i) v = Some (ok, r')"
  shows "r_reg_get_value r' (Some j) = r_reg_get_value r (Some j)"
proof -
  from assms(1) obtain a bs b where 1: "regset_arena r (ri_type i) = Some (a, bs)"
    "buf_write bs (byte_start i) (set_bytes i (rg_big_endian r) bs v) = Some b"
    "r_reg_set_value r (Some i) v = Some (True, arena_set r a b)"
    by (rule set_value_okE)
  then have r': "r' = arena_set r a b" using assms(4) by simp
  have isz: "ri_size i = 1 \<or> whole_size (ri_size i)" using assms(1) by (simp add: item_ok_def)
  from assms(2) obtain c cs where 2: "regset_arena r (ri_type j) = Some (c, cs)"
    "byte_start j + byte_len j \<le> length cs" "0 \<le> ri_offset j"
    "ri_size j = 1 \<or> whole_size (ri_size j)" by (rule item_okE)
  from item_ok_set [OF assms(1,2,4)] obtain c' cs' where 3:
    "regset_arena r' (ri_type j) = Some (c', cs')"
    "byte_start j + byte_len j \<le> length cs'" by (rule item_okE)
  have c': "c' = c" "cs' = (if c = a then b else cs)"
    using 3(1) 2(1) r' by (auto simp: regset_arena_set_live [OF 1(1)])
  have "get_bytes j (rg_big_endian r) (take (byte_len j) (drop (byte_start j) cs'))
      = get_bytes j (rg_big_endian r) (take (byte_len j) (drop (byte_start j) cs))"
  proof (cases "c = a")
    case True
    then have "cs = bs" using 1(1) 2(1) by (auto simp: regset_arena_def Option.bind_eq_Some_conv)
    then show ?thesis
      using get_bytes_other [OF 1(2) isz, of j] 2(2) assms(3) True 1(1) 2(1) c'
      by (auto simp: item_indep_def)
  qed (simp add: c')
  then show ?thesis
    using get_value_eq [OF 2(1,4,2,3)] get_value_eq [OF 3(1) 2(4) 3(2) 2(3)] r' by simp
qed

section \<open>The contract\<close>

locale register_file =
  fixes rget :: "'r \<Rightarrow> 'i \<Rightarrow> ut64 option"
    and rset :: "'r \<Rightarrow> 'i \<Rightarrow> ut64 \<Rightarrow> (bool \<times> 'r) option"
    and ok :: "'r \<Rightarrow> 'i \<Rightarrow> bool"
    and cut :: "'i \<Rightarrow> ut64 \<Rightarrow> ut64"
    and indep :: "'r \<Rightarrow> 'i \<Rightarrow> 'i \<Rightarrow> bool"
  assumes set_defined: "ok r i \<Longrightarrow> \<exists>r'. rset r i v = Some (True, r')"
    and get_defined: "ok r i \<Longrightarrow> \<exists>v. rget r i = Some v"
    and get_same: "ok r i \<Longrightarrow> rset r i v = Some (b, r') \<Longrightarrow> rget r' i = Some (cut i v)"
    and get_other: "ok r i \<Longrightarrow> ok r j \<Longrightarrow> indep r i j \<Longrightarrow> rset r i v = Some (b, r') \<Longrightarrow> rget r' j = rget r j"
    and ok_kept: "ok r i \<Longrightarrow> ok r j \<Longrightarrow> rset r i v = Some (b, r') \<Longrightarrow> ok r' j"
    and indep_kept: "ok r i \<Longrightarrow> rset r i v = Some (b, r') \<Longrightarrow> indep r' j k = indep r j k"
begin

text \<open>Writing several registers, one after the other.\<close>

primrec set_all :: "'r \<Rightarrow> ('i \<times> ut64) list \<Rightarrow> 'r option" where
  "set_all r [] = Some r"
| "set_all r (x # xs) = Option.bind (rset r (fst x) (snd x)) (\<lambda>(_, r'). set_all r' xs)"

definition all_ok :: "'r \<Rightarrow> ('i \<times> ut64) list \<Rightarrow> bool" where
  "all_ok r xs \<longleftrightarrow> (\<forall>x \<in> set xs. ok r (fst x))"

lemma all_ok_Cons: "all_ok r (x # xs) \<longleftrightarrow> ok r (fst x) \<and> all_ok r xs"
  by (simp add: all_ok_def)

lemma all_ok_kept: "ok r i \<Longrightarrow> all_ok r xs \<Longrightarrow> rset r i v = Some (b, r') \<Longrightarrow> all_ok r' xs"
  using ok_kept unfolding all_ok_def by blast

lemma set_all_defined: "all_ok r xs \<Longrightarrow> \<exists>r'. set_all r xs = Some r'"
proof (induction xs arbitrary: r)
  case (Cons x xs)
  then have ok: "ok r (fst x)" "all_ok r xs" by (simp_all add: all_ok_Cons)
  from set_defined [OF ok(1)] obtain r1 where 1: "rset r (fst x) (snd x) = Some (True, r1)" by blast
  with Cons.IH [OF all_ok_kept [OF ok 1]] show ?case by simp
qed simp

lemma set_all_frame:
  assumes "all_ok r xs" "ok r j" "\<forall>x \<in> set xs. indep r (fst x) j" "set_all r xs = Some r'"
  shows "rget r' j = rget r j \<and> ok r' j"
  using assms
proof (induction xs arbitrary: r)
  case (Cons x xs)
  then have ok: "ok r (fst x)" "all_ok r xs" by (simp_all add: all_ok_Cons)
  from Cons.prems(4) obtain b r1 where 1: "rset r (fst x) (snd x) = Some (b, r1)"
    and rest: "set_all r1 xs = Some r'" by (auto simp: Option.bind_eq_Some_conv)
  have "rget r1 j = rget r j" using get_other [OF ok(1) Cons.prems(2) _ 1] Cons.prems(3) by simp
  moreover have "rget r' j = rget r1 j \<and> ok r' j"
    using Cons.IH [OF all_ok_kept [OF ok 1] ok_kept [OF ok(1) Cons.prems(2) 1] _ rest]
      Cons.prems(3) indep_kept [OF ok(1) 1] by simp
  ultimately show ?case by simp
qed simp

lemma set_all_reads:
  assumes "all_ok r xs" "set_all r xs = Some r'"
    and "\<forall>k < length xs. \<forall>l < length xs. k \<noteq> l \<longrightarrow> indep r (fst (xs ! k)) (fst (xs ! l))"
  shows "\<forall>x \<in> set xs. rget r' (fst x) = Some (cut (fst x) (snd x))"
  using assms
proof (induction xs arbitrary: r)
  case (Cons x xs)
  then have ok: "ok r (fst x)" "all_ok r xs" by (simp_all add: all_ok_Cons)
  from Cons.prems(2) obtain b r1 where 1: "rset r (fst x) (snd x) = Some (b, r1)"
    and rest: "set_all r1 xs = Some r'" by (auto simp: Option.bind_eq_Some_conv)
  have sep: "indep r1 (fst (xs ! k)) (fst (xs ! l))" if "k < length xs" "l < length xs" "k \<noteq> l" for k l
    using Cons.prems(3) [rule_format, of "Suc k" "Suc l"] that indep_kept [OF ok(1) 1] by simp
  have hd: "indep r1 (fst y) (fst x)" if "y \<in> set xs" for y
  proof -
    from that obtain k where "k < length xs" "y = xs ! k" by (metis in_set_conv_nth)
    then show ?thesis
      using Cons.prems(3) [rule_format, of "Suc k" 0] indep_kept [OF ok(1) 1] by simp
  qed
  have "rget r' (fst x) = rget r1 (fst x)"
    using set_all_frame [OF all_ok_kept [OF ok 1] ok_kept [OF ok(1,1) 1] _ rest] hd by simp
  moreover have "\<forall>y \<in> set xs. rget r' (fst y) = Some (cut (fst y) (snd y))"
    using Cons.IH [OF all_ok_kept [OF ok 1] rest] sep by blast
  ultimately show ?case using get_same [OF ok(1) 1] by simp
qed simp

end

interpretation rf: register_file
  "\<lambda>r it. r_reg_get_value r (Some it)" "\<lambda>r it. r_reg_set_value r (Some it)" item_ok trunc_to item_indep
proof unfold_locales
  fix r i v
  assume "item_ok r i"
  then show "\<exists>r'. r_reg_set_value r (Some i) v = Some (True, r')" by (metis set_value_okE)
next
  fix r i
  assume "item_ok r i"
  then show "\<exists>v. r_reg_get_value r (Some i) = Some v" by (metis item_okE get_value_eq)
qed (fact get_set_value_same get_set_value_other item_ok_set item_indep_set)+

end
