(* ===== verification/R2_Reg_Arena.thy ===== *)
theory R2_Reg_Arena
  imports R2_Reg_Laws
begin

text \<open>
  The register file as a stack of saved states. \<open>reg_wf\<close> is the invariant that ties the pointers of
  \<^verbatim>\<open>RRegSet\<close> together: every set has a pool, its current arena is the last of the pool, all arenas of
  all pools are live and distinct. \<open>arena_view\<close> forgets the pointers: per register set, the list of
  saved contents. Every operation of \<^verbatim>\<open>arena.c\<close> keeps the invariant and acts on the view as the
  matching operation on lists.
\<close>

abbreviation pool :: "reg \<Rightarrow> nat \<Rightarrow> nat list" where
  "pool r i \<equiv> rs_pool (rg_regset r ! i)"

definition reg_wf :: "reg \<Rightarrow> bool" where
  "reg_wf r \<longleftrightarrow> length (rg_regset r) = 7 \<and> length (rg_name r) = 21 \<and>
     (\<forall>i < 7. pool r i \<noteq> [] \<and> rs_arena (rg_regset r ! i) = last (pool r i) \<and> distinct (pool r i)) \<and>
     (\<forall>i < 7. \<forall>a \<in> set (pool r i). arena_get r a \<noteq> None) \<and>
     (\<forall>i < 7. \<forall>j < 7. i \<noteq> j \<longrightarrow> set (pool r i) \<inter> set (pool r j) = {})"

abbreviation wf_be :: "bool \<Rightarrow> reg \<Rightarrow> bool" where
  "wf_be e r \<equiv> reg_wf r \<and> rg_big_endian r = e"

definition arena_view :: "reg \<Rightarrow> arena list list" where
  "arena_view r = map (\<lambda>rs. map (\<lambda>a. the (arena_get r a)) (rs_pool rs)) (rg_regset r)"

section \<open>Looping over the sets\<close>

lemma for_sets_append:
  "for_sets f (is @ js) r = Option.bind (for_sets f is r) (for_sets f js)"
  by (induction "is" arbitrary: r) (simp_all split: bind_splits)

lemma for_sets_sim:
  assumes step: "\<And>i r. I r \<Longrightarrow> i < n \<Longrightarrow> \<exists>r'. f i r = Some r' \<and> I r' \<and> view r' = (view r)[i := g (view r ! i)]"
    and len: "\<And>r. I r \<Longrightarrow> length (view r) = n"
    and "I r" "k \<le> n"
  shows "\<exists>r'. for_sets f [0..<k] r = Some r' \<and> I r' \<and> view r' = map g (take k (view r)) @ drop k (view r)"
  using \<open>k \<le> n\<close>
proof (induction k)
  case 0
  then show ?case using assms(3) by simp
next
  case (Suc k)
  then obtain r1 where r1: "for_sets f [0..<k] r = Some r1" "I r1"
    "view r1 = map g (take k (view r)) @ drop k (view r)" by auto
  from step [OF r1(2), of k] Suc.prems obtain r2 where r2: "f k r1 = Some r2" "I r2"
    "view r2 = (view r1)[k := g (view r1 ! k)]" by auto
  have n: "length (view r) = n" using len assms(3) by blast
  then have "drop k (view r) = view r ! k # drop (Suc k) (view r)"
    using Suc.prems by (simp add: Cons_nth_drop_Suc)
  then have "view r2 = map g (take (Suc k) (view r)) @ drop (Suc k) (view r)"
    using r2(3) r1(3) n Suc.prems by (simp add: nth_append list_update_append take_Suc_conv_app_nth)
  with r1 r2 show ?case by (simp add: for_sets_append)
qed

lemma for_sets_all:
  assumes "\<And>i r. I r \<Longrightarrow> i < 7 \<Longrightarrow> \<exists>r'. f i r = Some r' \<and> I r' \<and> view r' = (view r)[i := g (view r ! i)]"
    and "\<And>r. I r \<Longrightarrow> length (view r) = 7" and "I r"
  shows "\<exists>r'. for_sets f [0..<7] r = Some r' \<and> I r' \<and> view r' = map g (view r)"
  using for_sets_sim [of I 7 f view g r 7] assms by simp

section \<open>The invariant and single sets\<close>

lemma reg_wfD:
  assumes "reg_wf r"
  shows "length (rg_regset r) = 7" "length (rg_name r) = 21"
    "i < 7 \<Longrightarrow> pool r i \<noteq> []" "i < 7 \<Longrightarrow> rs_arena (rg_regset r ! i) = last (pool r i)"
    "i < 7 \<Longrightarrow> distinct (pool r i)"
    "i < 7 \<Longrightarrow> a \<in> set (pool r i) \<Longrightarrow> arena_get r a \<noteq> None"
    "i < 7 \<Longrightarrow> j < 7 \<Longrightarrow> i \<noteq> j \<Longrightarrow> set (pool r i) \<inter> set (pool r j) = {}"
  using assms unfolding reg_wf_def by auto

lemma length_arena_view: "reg_wf r \<Longrightarrow> length (arena_view r) = 7"
  by (simp add: arena_view_def reg_wfD)

lemma view_nth: "reg_wf r \<Longrightarrow> i < 7 \<Longrightarrow> arena_view r ! i = map (\<lambda>a. the (arena_get r a)) (pool r i)"
  by (simp add: arena_view_def reg_wfD)

lemma arena_get_bound: "arena_get r a \<noteq> None \<Longrightarrow> a < length (rg_store r)"
  by (auto simp: arena_get_def split: if_splits)

lemma regset_arena_wf:
  assumes "reg_wf r" "i < 7"
  shows "regset_arena r (int i) = Some (last (pool r i), last (arena_view r ! i))"
proof -
  have "last (pool r i) \<in> set (pool r i)" using reg_wfD(3) [OF assms(1)] assms(2) by simp
  then obtain bs where "arena_get r (last (pool r i)) = Some bs" using reg_wfD(6) [OF assms] by blast
  then show ?thesis
    using assms reg_wfD [OF assms(1)]
    by (simp add: regset_arena_def nth_opt_def view_nth last_map)
qed

text \<open>
  Changing the pool of one set and the store in one go: the shape of push, pop and of every
  operation that replaces contents.
\<close>

lemma reg_wf_update:
  assumes wf: "reg_wf r" and i: "i < 7"
    and set': "rg_regset r' = (rg_regset r)[i := rs']" and name': "rg_name r' = rg_name r"
    and pool': "rs_pool rs' \<noteq> []" "rs_arena rs' = last (rs_pool rs')" "distinct (rs_pool rs')"
    and live: "\<And>a. a \<in> set (rs_pool rs') \<Longrightarrow> arena_get r' a \<noteq> None"
    and fresh: "\<And>j. j < 7 \<Longrightarrow> j \<noteq> i \<Longrightarrow> set (rs_pool rs') \<inter> set (pool r j) = {}"
    and same: "\<And>j a. j < 7 \<Longrightarrow> j \<noteq> i \<Longrightarrow> a \<in> set (pool r j) \<Longrightarrow> arena_get r' a = arena_get r a"
  shows "reg_wf r' \<and>
    arena_view r' = (arena_view r)[i := map (\<lambda>a. the (arena_get r' a)) (rs_pool rs')]"
proof
  note D = reg_wfD [OF wf]
  have nth: "rg_regset r' ! j = (if j = i then rs' else rg_regset r ! j)" if "j < 7" for j
    using that i by (simp add: set' D(1) nth_list_update)
  show wf': "reg_wf r'"
    unfolding reg_wf_def
  proof (intro conjI allI impI ballI)
    show "length (rg_regset r') = 7" "length (rg_name r') = 21"
      by (simp_all add: set' name' D(1,2))
    fix j :: nat assume j: "j < 7"
    show "pool r' j \<noteq> []" "rs_arena (rg_regset r' ! j) = last (pool r' j)" "distinct (pool r' j)"
      using nth [OF j] pool' D(3-5) [OF j] by auto
    show "arena_get r' a \<noteq> None" if "a \<in> set (pool r' j)" for a
      using that nth [OF j] live D(6) [OF j, of a] same [OF j, of a] by (cases "j = i") auto
    show "set (pool r' j) \<inter> set (pool r' k) = {}" if "k < 7" "j \<noteq> k" for k
      using nth [OF j] nth [OF that(1)] fresh [OF j] fresh [OF that(1)] D(7) [OF j that] that(2)
      by (auto split: if_splits)
  qed
  show "arena_view r' = (arena_view r)[i := map (\<lambda>a. the (arena_get r' a)) (rs_pool rs')]"
  proof (rule nth_equalityI)
    show "length (arena_view r') = length ((arena_view r)[i := map (\<lambda>a. the (arena_get r' a)) (rs_pool rs')])"
      by (simp add: length_arena_view wf wf')
    fix j assume "j < length (arena_view r')"
    then have j: "j < 7" by (simp add: length_arena_view wf')
    have "map (\<lambda>a. the (arena_get r' a)) (pool r j) = map (\<lambda>a. the (arena_get r a)) (pool r j)" if "j \<noteq> i"
      using same j that by simp
    then show "arena_view r' ! j = (arena_view r)[i := map (\<lambda>a. the (arena_get r' a)) (rs_pool rs')] ! j"
      using j i nth [OF j] by (auto simp: view_nth wf wf' nth_list_update length_arena_view)
  qed
qed

text \<open>Replacing the contents of the current arena of a set.\<close>

lemma reg_wf_set_current:
  assumes wf: "reg_wf r" and i: "i < 7"
  defines "a \<equiv> last (pool r i)"
  shows "reg_wf (arena_set r a b) \<and>
    arena_view (arena_set r a b) = (arena_view r)[i := butlast (arena_view r ! i) @ [b]]"
proof -
  note D = reg_wfD [OF wf]
  have a: "a \<in> set (pool r i)" using D(3) [OF i] by (simp add: a_def)
  have bound: "a < length (rg_store r)" by (rule arena_get_bound [OF D(6) [OF i a]])
  have "map (\<lambda>x. the (arena_get (arena_set r a b) x)) (pool r i) = butlast (arena_view r ! i) @ [b]"
  proof -
    have "pool r i = butlast (pool r i) @ [a]" using D(3) [OF i] by (simp add: a_def)
    then have split: "pool r i = butlast (pool r i) @ [a]" "a \<notin> set (butlast (pool r i))"
      using D(5) [OF i] by (auto simp: a_def) (metis distinct_append disjoint_iff list.set_intros(1))
    have "map (\<lambda>x. the (arena_get (arena_set r a b) x)) (butlast (pool r i))
        = map (\<lambda>x. the (arena_get r x)) (butlast (pool r i))"
      using split(2) by (auto simp: arena_get_set [OF bound])
    moreover have "butlast (arena_view r ! i) = map (\<lambda>x. the (arena_get r x)) (butlast (pool r i))"
      by (simp add: view_nth wf i map_butlast)
    ultimately show ?thesis
      by (subst split(1)) (simp add: arena_get_set [OF bound])
  qed
  moreover have "reg_wf (arena_set r a b) \<and> arena_view (arena_set r a b) =
      (arena_view r)[i := map (\<lambda>x. the (arena_get (arena_set r a b) x)) (rs_pool (rg_regset r ! i))]"
  proof (rule reg_wf_update [OF wf i])
    show "rg_regset (arena_set r a b) = (rg_regset r)[i := rg_regset r ! i]" by simp
    show "arena_get (arena_set r a b) x = arena_get r x" if "j < 7" "j \<noteq> i" "x \<in> set (pool r j)" for j x
      using D(7) [OF that(1) i that(2)] that a by (auto simp: arena_get_set [OF bound])
    show "arena_get (arena_set r a b) x \<noteq> None" if "x \<in> set (rs_pool (rg_regset r ! i))" for x
      using D(6) [OF i that] by (simp add: arena_get_set [OF bound])
  qed (use D i in auto)
  ultimately show ?thesis by simp
qed

section \<open>Push and pop\<close>

text \<open>A copy of an arena without bytes gets one byte.\<close>

definition arena_dup :: "arena \<Rightarrow> arena" where
  "arena_dup bs = (if bs = [] then [0] else bs)"

lemma upd_regset_regset: "i < length (rg_regset r) \<Longrightarrow>
   rg_regset (upd_regset r i f) = (rg_regset r)[i := f (rg_regset r ! i)]"
  by (simp add: upd_regset_def)

lemma upd_regset_simps [simp]:
  "rg_store (upd_regset r i f) = rg_store r" "rg_name (upd_regset r i f) = rg_name r"
  "rg_big_endian (upd_regset r i f) = rg_big_endian r"
  "arena_get (upd_regset r i f) a = arena_get r a"
  by (simp_all add: upd_regset_def arena_get_def)

lemma push_set_ok:
  assumes wf_e: "wf_be e r" and i: "i < 7"
  shows "\<exists>r'. arena_push_set i r = Some r' \<and> wf_be e r' \<and>
    arena_view r' = (arena_view r)[i := arena_view r ! i @ [arena_dup (last (arena_view r ! i))]]"
proof -
  have wf: "reg_wf r" using wf_e by simp
  note D = reg_wfD [OF wf]
  let ?n = "length (rg_store r)" and ?bs = "last (arena_view r ! i)"
  define rs' where "rs' = (rg_regset r ! i)\<lparr>rs_pool := pool r i @ [?n], rs_arena := ?n\<rparr>"
  define r' where "r' = upd_regset (arena_set (snd (r_reg_arena_new r (int (length ?bs)))) ?n (arena_dup ?bs)) i
    (\<lambda>rs. rs\<lparr>rs_pool := rs_pool rs @ [?n], rs_arena := ?n\<rparr>)"
  have dup: "?bs @ replicate (max 1 (length ?bs) - length ?bs) 0 = arena_dup ?bs"
    by (cases "?bs") (simp_all add: arena_dup_def)
  have ok: "arena_push_set i r = Some r'"
    using regset_arena_wf [OF wf i] dup
    by (simp add: arena_push_set_def r'_def r_reg_arena_new_def)
  have be: "rg_big_endian r' = e" using wf_e by (simp add: r'_def r_reg_arena_new_def)
  have old: "arena_get r' a = arena_get r a" if "arena_get r a \<noteq> None" for a
    using arena_get_bound [OF that]
    by (auto simp: r'_def r_reg_arena_new_def arena_get_def arena_set_def nth_append)
  have new: "arena_get r' ?n = Some (arena_dup ?bs)"
    by (simp add: r'_def r_reg_arena_new_def arena_get_def arena_set_def)
  have lt: "a < ?n" if "j < 7" "a \<in> set (pool r j)" for j a
    by (rule arena_get_bound [OF D(6) [OF that]])
  have "reg_wf r' \<and> arena_view r' = (arena_view r)[i := map (\<lambda>a. the (arena_get r' a)) (rs_pool rs')]"
  proof (rule reg_wf_update [OF wf i])
    show "rg_regset r' = (rg_regset r)[i := rs']"
      using i by (simp add: r'_def rs'_def upd_regset_regset r_reg_arena_new_def arena_set_def D(1))
    show "rg_name r' = rg_name r" by (simp add: r'_def r_reg_arena_new_def)
    show "distinct (rs_pool rs')" using D(5) [OF i] lt [OF i] by (auto simp: rs'_def)
    show "arena_get r' a \<noteq> None" if "a \<in> set (rs_pool rs')" for a
      using that old [OF D(6) [OF i]] D(6) [OF i] new by (auto simp: rs'_def)
    show "set (rs_pool rs') \<inter> set (pool r j) = {}" if "j < 7" "j \<noteq> i" for j
      using D(7) [OF that(1) i that(2)] lt [OF that(1)] by (auto simp: rs'_def)
    show "arena_get r' a = arena_get r a" if "j < 7" "j \<noteq> i" "a \<in> set (pool r j)" for j a
      by (rule old [OF D(6) [OF that(1,3)]])
  qed (simp_all add: rs'_def)
  moreover have "map (\<lambda>a. the (arena_get r' a)) (rs_pool rs') = arena_view r ! i @ [arena_dup ?bs]"
    using old [OF D(6) [OF i]] new by (simp add: rs'_def view_nth wf i)
  ultimately show ?thesis using ok be by simp
qed

lemma push_ok:
  assumes "wf_be e r"
  shows "\<exists>n r'. r_reg_arena_push r = Some (n, r') \<and> wf_be e r' \<and>
    arena_view r' = map (\<lambda>st. st @ [arena_dup (last st)]) (arena_view r)"
proof -
  obtain r' where r': "for_sets arena_push_set [0..<7] r = Some r'" "wf_be e r'"
    "arena_view r' = map (\<lambda>st. st @ [arena_dup (last st)]) (arena_view r)"
    using for_sets_all [of "wf_be e", OF push_set_ok _ assms] length_arena_view by blast
  then show ?thesis
    using reg_wfD(1) [OF conjunct1 [OF r'(2)]] by (auto simp: r_reg_arena_push_def nth_opt_def)
qed

definition pop_view :: "arena list \<Rightarrow> arena list" where
  "pop_view st = (if length st < 2 then st else butlast st)"

lemma pop_set_ok:
  assumes wf_e: "wf_be e r" and i: "i < 7"
  shows "\<exists>r'. arena_pop_set i r = Some r' \<and> wf_be e r' \<and>
    arena_view r' = (arena_view r)[i := pop_view (arena_view r ! i)]"
proof (cases "length (pool r i) < 2")
  case True
  then have "pop_view (arena_view r ! i) = arena_view r ! i"
    using wf_e by (simp add: pop_view_def view_nth i)
  then show ?thesis
    using wf_e i True reg_wfD(1) [OF conjunct1 [OF wf_e]] by (simp add: arena_pop_set_def nth_opt_def)
next
  case False
  have wf: "reg_wf r" using wf_e by simp
  note D = reg_wfD [OF wf]
  let ?p = "butlast (pool r i)" and ?a = "last (pool r i)"
  define r' where "r' = upd_regset (r_reg_arena_free r ?a) i (\<lambda>rs. rs\<lparr>rs_pool := ?p, rs_arena := last ?p\<rparr>)"
  have ok: "arena_pop_set i r = Some r'"
    using i False by (simp add: arena_pop_set_def nth_opt_def D(1) r'_def Let_def)
  have a: "?a \<in> set (pool r i)" "?a \<notin> set ?p"
  proof -
    show "?a \<in> set (pool r i)" using D(3) [OF i] by simp
    have "distinct (?p @ [?a])" using D(3,5) [OF i] by simp
    then show "?a \<notin> set ?p" by simp
  qed
  have get: "arena_get r' x = arena_get r x" if "x \<noteq> ?a" for x
    using that by (simp add: r'_def r_reg_arena_free_def arena_get_def)
  have "reg_wf r' \<and> arena_view r' = (arena_view r)[i := map (\<lambda>x. the (arena_get r' x))
      (rs_pool ((rg_regset r ! i)\<lparr>rs_pool := ?p, rs_arena := last ?p\<rparr>))]"
  proof (rule reg_wf_update [OF wf i])
    show "rg_regset r' = (rg_regset r)[i := (rg_regset r ! i)\<lparr>rs_pool := ?p, rs_arena := last ?p\<rparr>]"
      using i by (simp add: r'_def upd_regset_regset r_reg_arena_free_def D(1))
    show "rg_name r' = rg_name r" by (simp add: r'_def r_reg_arena_free_def)
    show "rs_pool ((rg_regset r ! i)\<lparr>rs_pool := ?p, rs_arena := last ?p\<rparr>) \<noteq> []"
      using False by (cases "pool r i" rule: rev_cases) auto
    show "distinct (rs_pool ((rg_regset r ! i)\<lparr>rs_pool := ?p, rs_arena := last ?p\<rparr>))"
      using D(5) [OF i] by (simp add: distinct_butlast)
    show "arena_get r' x \<noteq> None"
      if "x \<in> set (rs_pool ((rg_regset r ! i)\<lparr>rs_pool := ?p, rs_arena := last ?p\<rparr>))" for x
      using that a(2) get [of x] D(6) [OF i in_set_butlastD, of x] by (cases "x = ?a") auto
    show "set (rs_pool ((rg_regset r ! i)\<lparr>rs_pool := ?p, rs_arena := last ?p\<rparr>)) \<inter> set (pool r j) = {}"
      if "j < 7" "j \<noteq> i" for j
      using D(7) [OF that(1) i that(2)] by (auto dest: in_set_butlastD)
    show "arena_get r' x = arena_get r x" if "j < 7" "j \<noteq> i" "x \<in> set (pool r j)" for j x
      using D(7) [OF that(1) i that(2)] that(3) a(1) by (intro get) auto
  qed simp
  moreover have "map (\<lambda>x. the (arena_get r' x)) ?p = pop_view (arena_view r ! i)"
  proof -
    have "map (\<lambda>x. the (arena_get r' x)) ?p = map (\<lambda>x. the (arena_get r x)) ?p"
      using get a(2) by (metis (no_types, lifting) map_cong)
    then show ?thesis
      using False by (simp add: pop_view_def view_nth wf i map_butlast)
  qed
  moreover have "rg_big_endian r' = e" using wf_e by (simp add: r'_def r_reg_arena_free_def)
  ultimately show ?thesis using ok by simp
qed

lemma pop_ok:
  assumes "wf_be e r"
  shows "\<exists>r'. r_reg_arena_pop r = Some r' \<and> wf_be e r' \<and> arena_view r' = map pop_view (arena_view r)"
  unfolding r_reg_arena_pop_def
  by (rule for_sets_all [of "wf_be e", OF pop_set_ok _ assms]) (simp_all add: length_arena_view)

section \<open>Changing contents\<close>

lemma zero_set_ok:
  assumes wf: "reg_wf r" and i: "i < 7"
  shows "\<exists>r'. arena_zero_set i r = Some r' \<and> reg_wf r' \<and> arena_view r' =
    (arena_view r)[i := butlast (arena_view r ! i) @ [map (\<lambda>_. 0) (last (arena_view r ! i))]]"
proof -
  let ?bs = "last (arena_view r ! i)"
  have ne: "arena_view r ! i \<noteq> []" using reg_wfD(3) [OF wf i] by (simp add: view_nth wf i)
  show ?thesis
  proof (cases "?bs = []")
    case True
    then have "butlast (arena_view r ! i) @ [map (\<lambda>_. 0) ?bs] = arena_view r ! i"
      using ne append_butlast_last_id by fastforce
    then show ?thesis
      using True regset_arena_wf [OF wf i] wf by (simp add: arena_zero_set_def)
  next
    case False
    then show ?thesis
      using regset_arena_wf [OF wf i] reg_wf_set_current [OF wf i, of "replicate (length ?bs) 0"]
      by (simp add: arena_zero_set_def map_replicate_const)
  qed
qed

lemma zero_ok:
  assumes "reg_wf r"
  shows "\<exists>r'. r_reg_arena_zero r = Some r' \<and> reg_wf r' \<and>
    arena_view r' = map (\<lambda>st. butlast st @ [map (\<lambda>_. 0) (last st)]) (arena_view r)"
  unfolding r_reg_arena_zero_def
  by (rule for_sets_all [of reg_wf, OF zero_set_ok length_arena_view assms])

lemma item_ok_type: "item_ok r it \<Longrightarrow> 0 \<le> ri_type it \<and> nat (ri_type it) < length (rg_regset r)"
  by (auto simp: item_ok_def regset_arena_def nth_opt_def split: option.splits if_splits)

text \<open>A register write only changes the top of the stacks, and keeps their shape.\<close>

lemma set_value_wf:
  assumes wf: "reg_wf r" and ok: "item_ok r it" and set': "r_reg_set_value r (Some it) v = Some (b, r')"
  shows "reg_wf r' \<and> map butlast (arena_view r') = map butlast (arena_view r) \<and>
    map length (arena_view r') = map length (arena_view r) \<and>
    rg_regset r' = rg_regset r \<and> rg_big_endian r' = rg_big_endian r"
proof -
  define i where "i = nat (ri_type it)"
  have t: "ri_type it = int i" and i: "i < 7"
    using item_ok_type [OF ok] reg_wfD(1) [OF wf] by (auto simp: i_def)
  from ok obtain a bs c where 1: "regset_arena r (ri_type it) = Some (a, bs)"
    "r_reg_set_value r (Some it) v = Some (True, arena_set r a c)"
    by (rule set_value_okE)
  then have r': "r' = arena_set r (last (pool r i)) c"
    using set' regset_arena_wf [OF wf i] t by simp
  have ne: "arena_view r ! i \<noteq> []" using reg_wfD(3) [OF wf i] by (simp add: view_nth wf i)
  have v: "reg_wf r'" "arena_view r' = (arena_view r)[i := butlast (arena_view r ! i) @ [c]]"
    using reg_wf_set_current [OF wf i, of c] by (simp_all add: r')
  have upd: "map f (arena_view r') = map f (arena_view r)"
    if "f (butlast (arena_view r ! i) @ [c]) = f (arena_view r ! i)" for f :: "arena list \<Rightarrow> 'z"
    using that i length_arena_view [OF wf] by (simp add: v(2) map_update list_update_same_conv)
  show ?thesis
    using v(1) upd [of butlast] upd [of length] ne by (simp add: r')
qed

lemma set_all_wf:
  assumes "reg_wf r" "rf.all_ok r ws" "rf.set_all r ws = Some r'"
  shows "reg_wf r' \<and> map butlast (arena_view r') = map butlast (arena_view r) \<and>
    map length (arena_view r') = map length (arena_view r) \<and> rg_big_endian r' = rg_big_endian r"
  using assms
proof (induction ws arbitrary: r)
  case (Cons w ws)
  then have ok: "item_ok r (fst w)" "rf.all_ok r ws" by (simp_all add: rf.all_ok_Cons)
  from Cons.prems(3) obtain b r1 where 1: "r_reg_set_value r (Some (fst w)) (snd w) = Some (b, r1)"
    and rest: "rf.set_all r1 ws = Some r'" by (auto simp: Option.bind_eq_Some_conv)
  show ?case
    using set_value_wf [OF Cons.prems(1) ok(1) 1] Cons.IH [OF _ rf.all_ok_kept [OF ok 1] rest] by simp
qed simp

text \<open>The value of a register depends on the view only.\<close>

lemma regset_arena_view:
  assumes "reg_wf r"
  shows "map_option snd (regset_arena r t) =
    (if 0 \<le> t \<and> t < 7 then Some (last (arena_view r ! nat t)) else None)"
proof (cases "0 \<le> t \<and> t < 7")
  case True
  then have "nat t < 7" by (simp add: nat_less_iff)
  with True show ?thesis using regset_arena_wf [OF assms, of "nat t"] by simp
next
  case False
  then have "nth_opt (rg_regset r) t = None" by (auto simp: nth_opt_def reg_wfD(1) [OF assms])
  with False show ?thesis by (auto simp: regset_arena_def)
qed

lemma get_value_view:
  assumes "reg_wf r" "reg_wf r'" "rg_big_endian r = rg_big_endian r'"
    and "map last (arena_view r) = map last (arena_view r')"
  shows "r_reg_get_value r item = r_reg_get_value r' item"
proof (cases item)
  case (Some it)
  have "last (arena_view r ! n) = last (arena_view r' ! n)" if "n < 7" for n
    using arg_cong [OF assms(4), of "\<lambda>xs. xs ! n"] that by (simp add: length_arena_view assms(1,2))
  then have "map_option snd (regset_arena r (ri_type it)) = map_option snd (regset_arena r' (ri_type it))"
    by (auto simp: regset_arena_view assms(1,2) nat_less_iff)
  then consider "regset_arena r (ri_type it) = None" "regset_arena r' (ri_type it) = None"
    | a a' bs where "regset_arena r (ri_type it) = Some (a, bs)" "regset_arena r' (ri_type it) = Some (a', bs)"
    by (cases "regset_arena r (ri_type it)"; cases "regset_arena r' (ri_type it)") auto
  then show ?thesis
    using Some assms(3) by cases (simp_all add: r_reg_get_value_def Let_def)
qed (simp add: r_reg_get_value_def)

section \<open>Fitting the arenas to the registers\<close>

lemma foldl_max_ge:
  fixes f :: "'a \<Rightarrow> int"
  shows "m \<le> foldl (\<lambda>m i. max (f i) m) m xs" "x \<in> set xs \<Longrightarrow> f x \<le> foldl (\<lambda>m i. max (f i) m) m xs"
proof -
  have 1: "m \<le> foldl (\<lambda>m i. max (f i) m) m xs" for m xs
    by (induction xs arbitrary: m) (simp_all, meson max.bounded_iff)
  show "m \<le> foldl (\<lambda>m i. max (f i) m) m xs" by (rule 1)
  show "x \<in> set xs \<Longrightarrow> f x \<le> foldl (\<lambda>m i. max (f i) m) m xs"
  proof (induction xs arbitrary: m)
    case (Cons y ys)
    then show ?case using 1 [of "max (f y) m" ys] by auto
  qed simp
qed

lemma set_extent_ge:
  "i \<in> set (rs_regs rs) \<Longrightarrow> bits2bytes (ri_offset i + ri_size i) \<le> set_extent rs"
  unfolding set_extent_def by (rule foldl_max_ge(2))

lemma fit_set_ok:
  assumes wf: "reg_wf r" and i: "i < 7"
  shows "\<exists>r'. fit_arena_set i r = Some r' \<and> reg_wf r' \<and> rg_regset r' = rg_regset r \<and> arena_view r' =
    (arena_view r)[i := butlast (arena_view r ! i) @ [replicate (nat (set_extent (rg_regset r ! i))) 0]]"
proof -
  have z: "(if n < 1 then [] else replicate (nat n) (0 :: ut8)) = replicate (nat n) 0" for n by simp
  show ?thesis
    using regset_arena_wf [OF wf i] reg_wf_set_current [OF wf i] reg_wfD(1,4) [OF wf] i
    by (simp add: fit_arena_set_def nth_opt_def z)
qed

definition fit_view :: "reg_set list \<Rightarrow> nat \<Rightarrow> arena list \<Rightarrow> arena list" where
  "fit_view sets i st = butlast st @ [replicate (nat (set_extent (sets ! i))) 0]"

lemma fit_prefix:
  assumes "reg_wf r" "k \<le> 7"
  shows "\<exists>r'. for_sets fit_arena_set [0..<k] r = Some r' \<and> reg_wf r' \<and> rg_regset r' = rg_regset r \<and>
    (\<forall>i < 7. arena_view r' ! i =
       (if i < k then fit_view (rg_regset r) i (arena_view r ! i) else arena_view r ! i))"
  using assms(2)
proof (induction k)
  case 0
  then show ?case using assms(1) by simp
next
  case (Suc k)
  then obtain r1 where r1: "for_sets fit_arena_set [0..<k] r = Some r1" "reg_wf r1"
    "rg_regset r1 = rg_regset r" "\<forall>i < 7. arena_view r1 ! i =
       (if i < k then fit_view (rg_regset r) i (arena_view r ! i) else arena_view r ! i)" by auto
  from fit_set_ok [OF r1(2), of k] Suc.prems obtain r2 where r2: "fit_arena_set k r1 = Some r2"
    "reg_wf r2" "rg_regset r2 = rg_regset r1" "arena_view r2 = (arena_view r1)[k :=
      butlast (arena_view r1 ! k) @ [replicate (nat (set_extent (rg_regset r1 ! k))) 0]]" by auto
  have "arena_view r2 ! i =
      (if i < Suc k then fit_view (rg_regset r) i (arena_view r ! i) else arena_view r ! i)"
    if "i < 7" for i
    using that r1(3,4) r2(4) Suc.prems length_arena_view [OF r1(2)]
    by (auto simp: nth_list_update fit_view_def less_Suc_eq)
  with r1 r2 show ?case by (auto simp: for_sets_append)
qed

lemma item_extent:
  assumes "0 \<le> ri_offset it" "ri_size it = 1 \<or> whole_size (ri_size it)"
  shows "int (byte_start it + byte_len it) = bits2bytes (ri_offset it + ri_size it)"
  using assms by (auto simp: byte_start_def byte_len_def bits2bytes_nonneg)

lemma fit_ok:
  assumes wf: "reg_wf r"
  shows "\<exists>r'. r_reg_fit_arena r = Some (True, r') \<and> reg_wf r' \<and> rg_regset r' = rg_regset r \<and>
    (\<forall>t < 7. \<forall>it \<in> set (rs_regs (rg_regset r ! t)). ri_type it = int t \<longrightarrow> 0 \<le> ri_offset it \<longrightarrow>
       ri_size it \<in> {1, 8, 16, 32, 64} \<longrightarrow> item_ok r' it)"
proof -
  from fit_prefix [OF wf, of 7] obtain r' where r': "for_sets fit_arena_set [0..<7] r = Some r'"
    "reg_wf r'" "rg_regset r' = rg_regset r"
    "\<forall>i < 7. arena_view r' ! i = fit_view (rg_regset r) i (arena_view r ! i)" by auto
  have "item_ok r' it" if t: "t < 7" and it: "it \<in> set (rs_regs (rg_regset r ! t))" "ri_type it = int t"
    "0 \<le> ri_offset it" "ri_size it \<in> {1, 8, 16, 32, 64}" for t it
  proof -
    have sz: "ri_size it = 1 \<or> whole_size (ri_size it)" using it(4) by auto
    have "int (byte_start it + byte_len it) \<le> set_extent (rg_regset r ! t)"
      using set_extent_ge [OF it(1)] item_extent [OF it(3) sz] by simp
    then show ?thesis
      using regset_arena_wf [OF r'(2) t] r'(4) t it sz by (simp add: item_ok_def fit_view_def)
  qed
  then show ?thesis using r' by (auto simp: r_reg_fit_arena_def)
qed

section \<open>A concrete register file\<close>

definition demo_item :: "string \<Rightarrow> int \<Rightarrow> int \<Rightarrow> reg_item" where
  "demo_item name sz off = \<lparr>ri_name = name, ri_type = R_REG_TYPE_GPR, ri_size = sz, ri_offset = off,
     ri_packed_size = 0, ri_is_float = False, ri_flags = None, ri_index = 0\<rparr>"

definition demo_items :: "reg_item list" where
  "demo_items = [demo_item ''rax'' 64 0, demo_item ''eax'' 32 0, demo_item ''al'' 8 0,
     demo_item ''rbx'' 64 64, demo_item ''rip'' 64 128, demo_item ''rsp'' 64 192,
     demo_item ''cf'' 1 256, demo_item ''zf'' 1 262]"

definition demo_reg :: reg where
  "demo_reg = snd (the (r_reg_fit_arena (upd_regset (the r_reg_new) 0 (\<lambda>rs. rs\<lparr>rs_regs := demo_items\<rparr>))))"

section \<open>Properties\<close>



text \<open>C34: writing any list of pairwise independent registers is defined; afterwards each of them reads
  as its own value cut to its width, and every register independent of all of them reads as before.\<close>
theorem reg_independent_writes:
  assumes "rf.all_ok r ws"
    and "\<forall>k < length ws. \<forall>l < length ws. k \<noteq> l \<longrightarrow> item_indep r (fst (ws ! k)) (fst (ws ! l))"
  shows "\<exists>r'. rf.set_all r ws = Some r' \<and>
    (\<forall>w \<in> set ws. r_reg_get_value r' (Some (fst w)) = Some (trunc_to (fst w) (snd w))) \<and>
    (\<forall>j. item_ok r j \<longrightarrow> (\<forall>w \<in> set ws. item_indep r (fst w) j) \<longrightarrow>
       r_reg_get_value r' (Some j) = r_reg_get_value r (Some j))"
proof -
  from rf.set_all_defined [OF assms(1)] obtain r' where r': "rf.set_all r ws = Some r'" by blast
  have "\<forall>w \<in> set ws. r_reg_get_value r' (Some (fst w)) = Some (trunc_to (fst w) (snd w))"
    by (rule rf.set_all_reads [OF assms(1) r' assms(2)])
  moreover have "r_reg_get_value r' (Some j) = r_reg_get_value r (Some j)"
    if "item_ok r j" "\<forall>w \<in> set ws. item_indep r (fst w) j" for j
    using rf.set_all_frame [OF assms(1) that r'] by blast
  ultimately show ?thesis using r' by blast
qed

definition demo_writes :: "(reg_item \<times> ut64) list" where
  "demo_writes = [(demo_item ''rax'' 64 0, 7), (demo_item ''cf'' 1 256, 5), (demo_item ''zf'' 1 262, 0)]"

theorem reg_independent_writes_witness:
  "\<exists>r'. rf.set_all demo_reg demo_writes = Some r' \<and>
    r_reg_get_value r' (Some (demo_item ''cf'' 1 256)) = Some 1"
proof -
  have "list_all (item_ok demo_reg \<circ> fst) demo_writes" by code_simp
  then have ok: "rf.all_ok demo_reg demo_writes" by (simp add: rf.all_ok_def list_all_iff)
  have "\<forall>k < length demo_writes. \<forall>l < length demo_writes. k \<noteq> l \<longrightarrow>
      item_indep demo_reg (fst (demo_writes ! k)) (fst (demo_writes ! l))" by code_simp
  from reg_independent_writes [OF ok this] show ?thesis
    by (auto simp: demo_writes_def demo_item_def trunc_to_def)
qed

text \<open>C19: saving the register file with \<open>r_reg_arena_push\<close>, writing any registers of the saved copy and
  dropping it with \<open>r_reg_arena_pop\<close> is always defined, and every register then reads as before.\<close>
theorem arena_push_pop_restores:
  assumes "reg_wf r" "\<forall>n r1. r_reg_arena_push r = Some (n, r1) \<longrightarrow> rf.all_ok r1 ws"
  shows "\<exists>n r1 r2 r3. r_reg_arena_push r = Some (n, r1) \<and> rf.set_all r1 ws = Some r2 \<and>
    r_reg_arena_pop r2 = Some r3 \<and> reg_wf r3 \<and> arena_view r3 = arena_view r \<and>
    (\<forall>item. r_reg_get_value r3 item = r_reg_get_value r item)"
proof -
  let ?e = "rg_big_endian r"
  from push_ok [of r ?e] assms(1) obtain n r1 where 1: "r_reg_arena_push r = Some (n, r1)"
    "wf_be ?e r1" "arena_view r1 = map (\<lambda>st. st @ [arena_dup (last st)]) (arena_view r)" by auto
  have ok: "rf.all_ok r1 ws" using assms(2) 1(1) by blast
  from rf.set_all_defined [OF ok] obtain r2 where 2: "rf.set_all r1 ws = Some r2" by blast
  have w: "wf_be ?e r2" "map butlast (arena_view r2) = map butlast (arena_view r1)"
    "map length (arena_view r2) = map length (arena_view r1)"
    using set_all_wf [OF _ ok 2] 1(2) by auto
  from pop_ok [OF w(1)] obtain r3 where 3: "r_reg_arena_pop r2 = Some r3" "wf_be ?e r3"
    "arena_view r3 = map pop_view (arena_view r2)" by blast
  have "map pop_view (arena_view r2) = map butlast (arena_view r2)"
  proof (rule nth_equalityI)
    fix i assume "i < length (map pop_view (arena_view r2))"
    then have i: "i < length (arena_view r2)" "i < length (arena_view r)" "i < 7"
      using w(1) assms(1) by (simp_all add: length_arena_view)
    have "length (arena_view r2 ! i) = length (arena_view r ! i) + 1"
      using arg_cong [OF w(3), of "\<lambda>xs. xs ! i"] i 1(3) by simp
    moreover have "arena_view r ! i \<noteq> []"
      using reg_wfD(3) [OF assms(1) i(3)] by (simp add: view_nth assms(1) i(3))
    ultimately show "map pop_view (arena_view r2) ! i = map butlast (arena_view r2) ! i"
      using i by (cases "arena_view r ! i") (simp_all add: pop_view_def)
  qed simp
  then have v: "arena_view r3 = arena_view r" using 3(3) w(2) 1(3) by (simp add: comp_def)
  then have "r_reg_get_value r3 item = r_reg_get_value r item" for item
    using 3(2) assms(1) by (intro get_value_view) auto
  then show ?thesis using 1 2 3 v by blast
qed

theorem arena_push_pop_restores_witness:
  "\<exists>n r1 r2 r3. r_reg_arena_push demo_reg = Some (n, r1) \<and> rf.set_all r1 demo_writes = Some r2 \<and>
    r_reg_arena_pop r2 = Some r3 \<and>
    r_reg_get_value r3 (Some (demo_item ''rax'' 64 0)) = r_reg_get_value demo_reg (Some (demo_item ''rax'' 64 0))"
proof -
  have wf: "reg_wf demo_reg" by code_simp
  have "case r_reg_arena_push demo_reg of None \<Rightarrow> False
      | Some (n, r1) \<Rightarrow> list_all (item_ok r1 \<circ> fst) demo_writes" by code_simp
  then have "\<forall>n r1. r_reg_arena_push demo_reg = Some (n, r1) \<longrightarrow> rf.all_ok r1 demo_writes"
    by (fastforce simp: rf.all_ok_def list_all_iff)
  from arena_push_pop_restores [OF wf this] show ?thesis by blast
qed

text \<open>C35: \<open>r_reg_fit_arena\<close> succeeds on a well-formed register file, keeps it well-formed with the same
  registers, and afterwards every register of its own set with a supported size is accessible.\<close>
theorem fit_arena_makes_accessible:
  assumes "reg_wf r"
  shows "\<exists>r'. r_reg_fit_arena r = Some (True, r') \<and> reg_wf r' \<and> rg_regset r' = rg_regset r \<and>
    (\<forall>t < 7. \<forall>it \<in> set (rs_regs (rg_regset r ! t)). ri_type it = int t \<longrightarrow> 0 \<le> ri_offset it \<longrightarrow>
       ri_size it \<in> {1, 8, 16, 32, 64} \<longrightarrow> item_ok r' it)"
  using assms by (rule fit_ok)

theorem fit_arena_makes_accessible_witness:
  "\<exists>r'. r_reg_fit_arena demo_reg = Some (True, r') \<and> item_ok r' (demo_item ''rsp'' 64 192)"
proof -
  have wf: "reg_wf demo_reg" by code_simp
  have m: "demo_item ''rsp'' 64 192 \<in> set (rs_regs (rg_regset demo_reg ! 0))" by code_simp
  from fit_arena_makes_accessible [OF wf] obtain r' where r': "r_reg_fit_arena demo_reg = Some (True, r')"
    "\<forall>t < 7. \<forall>it \<in> set (rs_regs (rg_regset demo_reg ! t)). ri_type it = int t \<longrightarrow> 0 \<le> ri_offset it \<longrightarrow>
       ri_size it \<in> {1, 8, 16, 32, 64} \<longrightarrow> item_ok r' it" by blast
  from r'(2) [rule_format, of 0, OF _ m] r'(1) show ?thesis by (simp add: demo_item_def)
qed

end
