(* ===== verification/R2_Esil_Sem.thy ===== *)
theory R2_Esil_Sem
  imports R2_Esil_Flags R2_Reg_Arena
begin

text \<open>
  What the operations compute on the machine as \<open>r_anal_esil_setup\<close> leaves it without statistics:
  numbers on the stack, registers of the register file. \<open>reg_operand\<close> says that a string names an
  accessible register.
\<close>

section \<open>Operands\<close>

abbreviation plain_cb :: "'io io_bind \<Rightarrow> (nat \<Rightarrow> ut8) \<Rightarrow> bool \<Rightarrow> 'io esil esil_cb" where
  "plain_cb iob g romem \<equiv> setup_cb iob g romem False False"

lemma plain_cb_simps [simp]:
  "cb_hook_flag_read (plain_cb iob g romem) = None" "cb_hook_command (plain_cb iob g romem) = None"
  "cb_hook_mem_read (plain_cb iob g romem) = None" "cb_hook_mem_write (plain_cb iob g romem) = None"
  "cb_hook_reg_read (plain_cb iob g romem) = None" "cb_hook_reg_write (plain_cb iob g romem) = None"
  "cb_reg_read (plain_cb iob g romem) = Some internal_esil_reg_read"
  "cb_reg_write (plain_cb iob g romem) = Some internal_esil_reg_write"
  "cb_mem_read (plain_cb iob g romem) = Some (internal_esil_mem_read iob)"
  "cb_mem_write (plain_cb iob g romem) = Some (internal_esil_mem_write iob)"
  "cb_garbage (plain_cb iob g romem) = g"
  by (simp_all add: setup_cb_def r_anal_esil_stats_def r_anal_esil_mem_ro_def esil_setup_cb_def
      no_callbacks_def)

lemma fmt_0x_shape: "fmt_0x n \<noteq> []" "\<not> internal_name (fmt_0x n)" "take 2 (fmt_0x n) = ''0x''"
  by (simp_all add: fmt_0x_def internal_name_def)

lemma parm_type_num [simp]: "r_anal_esil_get_parm_type s (fmt_0x n) = Some PARM_NUM"
  using fmt_0x_shape [of n] by (simp add: r_anal_esil_get_parm_type_def)

lemma get_parm_num [simp]: "r_anal_esil_get_parm cb (fmt_0x n) s = Some (Some n, s)"
  by (simp add: r_anal_esil_get_parm_def r_anal_esil_get_parm_size_def r_num_get_fmt_0x default_size_def)

lemma pop_append [simp]: "es_stack s = st @ [x] \<Longrightarrow> r_anal_esil_pop s = (Some x, s\<lparr>es_stack := st\<rparr>)"
  by (simp add: r_anal_esil_pop_def)

lemma pushed_num_room [simp]:
  "int (length (es_stack s)) < es_stacksize s \<Longrightarrow> pushed_num n s = s\<lparr>es_stack := es_stack s @ [fmt_0x n]\<rparr>"
  by (simp add: r_anal_esil_pushnum_def r_anal_esil_push_def fmt_0x_shape)

definition reg_operand :: "'io esil \<Rightarrow> string \<Rightarrow> reg_item \<Rightarrow> bool" where
  "reg_operand s x it \<longleftrightarrow> \<not> internal_name x \<and>
     (case es_anal s of None \<Rightarrow> False
      | Some an \<Rightarrow> r_reg_get (an_reg an) x (- 1) = Some it \<and> item_ok (an_reg an) it)"

definition reg_value :: "'io esil \<Rightarrow> reg_item \<Rightarrow> ut64 option" where
  "reg_value s it = (case es_anal s of None \<Rightarrow> None | Some an \<Rightarrow> r_reg_get_value (an_reg an) (Some it))"

lemma reg_operandE:
  assumes "reg_operand s x it"
  obtains an where "es_anal s = Some an" "\<not> internal_name x" "r_reg_get (an_reg an) x (- 1) = Some it"
    "item_ok (an_reg an) it"
  using assms by (auto simp: reg_operand_def split: option.splits)

lemma plain_reg_read:
  assumes "reg_operand s x it" "reg_value s it = Some v"
  shows "r_anal_esil_reg_read (plain_cb iob g romem) False x s = Some (Some (v, ri_size it), s)"
  using assms
  by (auto simp: reg_operand_def reg_value_def r_anal_esil_reg_read_def default_size_def sized_def
      internal_esil_reg_read_def split: option.splits)

lemma plain_reg_write:
  assumes "reg_operand s x it"
  shows "\<exists>r. r_anal_esil_reg_write (plain_cb iob g romem) x v s = Some (1, upd_reg s r) \<and>
    reg_value (upd_reg s r) it = Some (trunc_to it v) \<and> reg_operand (upd_reg s r) x it"
proof -
  from assms obtain an where an: "es_anal s = Some an" "\<not> internal_name x"
    "r_reg_get (an_reg an) x (- 1) = Some it" "item_ok (an_reg an) it" by (rule reg_operandE)
  from an(4) obtain a bs b where
    w: "r_reg_set_value (an_reg an) (Some it) v = Some (True, arena_set (an_reg an) a b)"
    by (rule set_value_okE)
  have "r_reg_get (arena_set (an_reg an) a b) x (- 1) = Some it"
    using an(3) by (simp add: r_reg_get_def)
  then show ?thesis
    using an w get_set_value_same [OF an(4) w] item_ok_set [OF an(4,4) w]
    by (auto simp: r_anal_esil_reg_write_def internal_esil_reg_write_def upd_reg_def reg_value_def
        reg_operand_def)
qed

lemma reg_operand_cong: "es_anal s' = es_anal s \<Longrightarrow> reg_operand s' x it = reg_operand s x it"
  "es_anal s' = es_anal s \<Longrightarrow> reg_value s' it = reg_value s it"
  "es_anal s' = es_anal s \<Longrightarrow> esil_internal_sizeof_reg s' x = esil_internal_sizeof_reg s x"
  by (simp_all add: reg_operand_def reg_value_def esil_internal_sizeof_reg_def)

lemma sizeof_operand: "reg_operand s x it \<Longrightarrow> esil_internal_sizeof_reg s x = of_int (ri_size it)"
  by (auto simp: reg_operand_def esil_internal_sizeof_reg_def split: option.splits)

section \<open>Assignments with an operator\<close>

text \<open>
  The state an operation of the form \<open>v,dst,OP=\<close> leaves: operands popped, result recorded as the
  last operation and written to the register.
\<close>

definition assigned :: "'io esil \<Rightarrow> string list \<Rightarrow> reg_item \<Rightarrow> ut64 \<Rightarrow> ut64 \<Rightarrow> 'io esil \<Rightarrow> bool" where
  "assigned s st it d res s' \<longleftrightarrow> es_stack s' = st \<and> es_old s' = d \<and> es_cur s' = res \<and>
     es_lastsz s' = of_int (ri_size it) \<and> reg_value s' it = Some (trunc_to it res) \<and> es_trap s' = es_trap s"

lemma write_assigned:
  assumes "reg_operand s dst it" "es_stack s = st"
  shows "\<exists>s'. Option.bind (set_last_unless_internal (fmt_0x v) d res dst s)
      (\<lambda>(_, s). write_ok (plain_cb iob g romem) dst res s) = Some (1, s') \<and> assigned s st it d res s'"
proof -
  let ?s = "set_last d res dst s"
  have "es_anal ?s = es_anal s" by (simp add: set_last_def)
  then have op: "reg_operand ?s dst it" using assms(1) reg_operand_cong(1) by blast
  from plain_reg_write [OF op, of iob g romem res] obtain r where
    w: "r_anal_esil_reg_write (plain_cb iob g romem) dst res ?s = Some (1, upd_reg ?s r)"
      "reg_value (upd_reg ?s r) it = Some (trunc_to it res)" by blast
  show ?thesis
    using w assms sizeof_operand [OF assms(1)]
    by (auto simp: set_last_unless_internal_def write_ok_def assigned_def upd_reg_def set_last_def)
qed

lemma if_reg_operand:
  assumes "reg_operand s dst it" "reg_value s it = Some d"
  shows "if_reg (plain_cb iob g romem) (Some dst) s k = k dst d s"
  using plain_reg_read [OF assms] by (simp add: if_reg_def)

lemma if_parm_num [simp]: "if_parm cb (Some (fmt_0x v)) s k = k (fmt_0x v) v s"
  by (simp add: if_parm_def)

text \<open>Operand order of the code: source first in the arithmetic group, destination first in the logical one.\<close>

lemma assign_ops:
  assumes "es_stack s = st @ [fmt_0x v, dst]" "reg_operand s dst it" "reg_value s it = Some d"
  shows "\<exists>s'. esil_addeq (plain_cb iob g romem) s = Some (1, s') \<and> assigned s st it d (d + v) s'"
    "\<exists>s'. esil_subeq (plain_cb iob g romem) s = Some (1, s') \<and> assigned s st it d (d - v) s'"
    "\<exists>s'. esil_muleq (plain_cb iob g romem) s = Some (1, s') \<and> assigned s st it d (d * v) s'"
    "\<exists>s'. esil_andeq (plain_cb iob g romem) s = Some (1, s') \<and> assigned s st it d (d AND v) s'"
    "\<exists>s'. esil_oreq (plain_cb iob g romem) s = Some (1, s') \<and> assigned s st it d (d OR v) s'"
    "\<exists>s'. esil_xoreq (plain_cb iob g romem) s = Some (1, s') \<and> assigned s st it d (d XOR v) s'"
    "v \<noteq> 0 \<Longrightarrow> \<exists>s'. esil_diveq (plain_cb iob g romem) s = Some (1, s') \<and> assigned s st it d (d div v) s'"
    "v \<noteq> 0 \<Longrightarrow> \<exists>s'. esil_modeq (plain_cb iob g romem) s = Some (1, s') \<and> assigned s st it d (d mod v) s'"
proof -
  let ?s = "s\<lparr>es_stack := st\<rparr>"
  have op: "reg_operand ?s dst it" "reg_value ?s it = Some d"
    using assms(2,3) by (simp_all add: reg_operand_def reg_value_def)
  have pop: "r_anal_esil_pop s = (Some dst, s\<lparr>es_stack := st @ [fmt_0x v]\<rparr>)"
    using assms(1) by (simp add: r_anal_esil_pop_def butlast_append)
  have tr: "assigned ?s st it d res s' = assigned s st it d res s'" for res s'
    by (simp add: assigned_def)
  note w = write_assigned [OF op(1), of st v d _ iob g romem, unfolded tr]
  note e = pop if_reg_operand [OF op] add.commute [of v d] mult.commute [of v d]
  show "\<exists>s'. esil_addeq (plain_cb iob g romem) s = Some (1, s') \<and> assigned s st it d (d + v) s'"
    using w by (simp add: esil_addeq_def e)
  show "\<exists>s'. esil_subeq (plain_cb iob g romem) s = Some (1, s') \<and> assigned s st it d (d - v) s'"
    using w by (simp add: esil_subeq_def e)
  show "\<exists>s'. esil_muleq (plain_cb iob g romem) s = Some (1, s') \<and> assigned s st it d (d * v) s'"
    using w by (simp add: esil_muleq_def e)
  show "\<exists>s'. esil_andeq (plain_cb iob g romem) s = Some (1, s') \<and> assigned s st it d (d AND v) s'"
    using w by (simp add: esil_andeq_def e)
  show "\<exists>s'. esil_oreq (plain_cb iob g romem) s = Some (1, s') \<and> assigned s st it d (d OR v) s'"
    using w by (simp add: esil_oreq_def e)
  show "\<exists>s'. esil_xoreq (plain_cb iob g romem) s = Some (1, s') \<and> assigned s st it d (d XOR v) s'"
    using w by (simp add: esil_xoreq_def e)
  show "\<exists>s'. esil_diveq (plain_cb iob g romem) s = Some (1, s') \<and> assigned s st it d (d div v) s'" if "v \<noteq> 0"
    using w that by (simp add: esil_diveq_def e)
  show "\<exists>s'. esil_modeq (plain_cb iob g romem) s = Some (1, s') \<and> assigned s st it d (d mod v) s'" if "v \<noteq> 0"
    using w that by (simp add: esil_modeq_def e)
qed

section \<open>A concrete machine\<close>

definition demo_iob :: "ut8 list io_bind" where
  "demo_iob = \<lparr>
     iob_read_at = (\<lambda>io a b n. Some (if unat a + nat n \<le> length io
       then ((n, take (nat n) (drop (unat a) io) @ drop (nat n) b), io) else ((0, b), io))),
     iob_write_at = (\<lambda>io a b n. Some (if unat a + nat n \<le> length io
       then (n, take (unat a) io @ take (nat n) b @ drop (unat a + nat n) io) else (0, io)))\<rparr>"

definition demo_anal :: "ut8 list anal" where
  "demo_anal = \<lparr>an_reg = demo_reg, an_bits = 64, an_big_endian = False, an_esil_goto_limit = 64,
     an_io = Some (replicate 16 0)\<rparr>"

definition demo_new :: "ut8 list esil" where
  "demo_new = the (r_anal_esil_new 16 0)"

definition demo_state :: "ut8 list esil" where
  "demo_state = demo_new\<lparr>es_anal := Some demo_anal, es_parse_goto_count := 64\<rparr>"

definition demo_cb :: "ut8 list esil esil_cb" where
  "demo_cb = plain_cb demo_iob (\<lambda>_. 0) False"

definition demo_ops :: "ut8 list esil ops" where
  "demo_ops = r_anal_esil_setup_ops []"

lemma demo_setup:
  "r_anal_esil_setup demo_iob None (no_callbacks (\<lambda>_. 0)) [] demo_anal False False False demo_new =
   (Some (1, demo_state), demo_cb, demo_ops)"
  by (simp add: r_anal_esil_setup_def Let_def demo_state_def demo_cb_def demo_ops_def setup_cb_def
      r_anal_esil_stats_def demo_anal_def demo_new_def r_anal_esil_new_def)

definition demo_with :: "string list \<Rightarrow> ut8 list esil" where
  "demo_with st = demo_state\<lparr>es_stack := st\<rparr>"

abbreviation rax :: reg_item where "rax \<equiv> demo_item ''rax'' 64 0"
abbreviation al :: reg_item where "al \<equiv> demo_item ''al'' 8 0"

lemma demo_operand: "reg_operand (demo_with st) ''al'' al" "reg_value (demo_with st) al = Some 0"
  "reg_operand (demo_with st) ''rax'' rax" "reg_value (demo_with st) rax = Some 0"
proof -
  have "reg_operand demo_state ''al'' al" "reg_value demo_state al = Some 0"
    "reg_operand demo_state ''rax'' rax" "reg_value demo_state rax = Some 0" by code_simp+
  then show "reg_operand (demo_with st) ''al'' al" "reg_value (demo_with st) al = Some 0"
    "reg_operand (demo_with st) ''rax'' rax" "reg_value (demo_with st) rax = Some 0"
    by (simp_all add: demo_with_def reg_operand_def reg_value_def)
qed

section \<open>Properties\<close>

lemma size_unat: "whole_size n \<Longrightarrow> unat (of_int n :: ut8) = nat n \<and> 2 \<le> nat n \<and> nat n \<le> 64"
  by (elim disjE) simp_all

text \<open>C8: an arithmetic or logical assignment \<open>v,reg,OP=\<close> pops its operands, stores the result of the
  64-bit operation cut to the width of the register, and records the old value, the full result and
  the width for the flags.\<close>
theorem esil_assign_ops:
  assumes "es_stack s = st @ [fmt_0x v, dst]" "reg_operand s dst it" "reg_value s it = Some d"
    and "(f, op) \<in> {(esil_addeq, (+)), (esil_subeq, (-)), (esil_muleq, (*)), (esil_andeq, (AND)),
      (esil_oreq, (OR)), (esil_xoreq, (XOR))}"
  shows "\<exists>s'. f (plain_cb iob g romem) s = Some (1, s') \<and> es_stack s' = st \<and>
    reg_value s' it = Some (trunc_to it (op d v)) \<and>
    es_old s' = d \<and> es_cur s' = op d v \<and> es_lastsz s' = of_int (ri_size it)"
  using assms(4) assign_ops(1-6) [OF assms(1-3), of iob g romem] unfolding assigned_def by auto

theorem esil_assign_ops_witness:
  "\<exists>s'. esil_addeq demo_cb (demo_with [fmt_0x 0x1ff, ''al'']) = Some (1, s') \<and>
    reg_value s' al = Some 0xff"
proof -
  have t: "trunc_to al (0 + 0x1ff) = 0xff" by code_simp
  from esil_assign_ops [of "demo_with [fmt_0x 0x1ff, ''al'']" "[]" "0x1ff" "''al''" al 0 esil_addeq "(+)"
      demo_iob "\<lambda>_. 0" False] show ?thesis
    using demo_operand(1,2) t by (auto simp: demo_cb_def demo_with_def)
qed

text \<open>C15: after \<open>v,reg,+=\<close> on a register of width \<open>n\<close> the internal flags are those of an \<open>n\<close>-bit
  addition: \<open>$c\<close> at bit \<open>n - 1\<close> is the carry out, \<open>$o\<close> the signed overflow, \<open>$z\<close>, \<open>$s\<close> and \<open>$p\<close> the
  zero, sign and even-parity flags of the result.\<close>
theorem addeq_flags:
  assumes "es_stack s = st @ [fmt_0x v, dst]" "reg_operand s dst it" "reg_value s it = Some d"
    and sz: "whole_size (ri_size it)"
  defines "n \<equiv> nat (ri_size it)"
  shows "\<exists>s'. esil_addeq (plain_cb iob g romem) s = Some (1, s') \<and>
    esil_internal_carry_check s' (of_int (ri_size it) - 1) = Some (2 ^ n \<le> low n d + low n v) \<and>
    esil_internal_overflow_check s' =
      Some (sval n d + sval n v < - (2 ^ (n - 1)) \<or> 2 ^ (n - 1) \<le> sval n d + sval n v) \<and>
    esil_internal_value ''$z'' s' = Some (Some (bool64 (low n (d + v) = 0))) \<and>
    esil_internal_sign_check s' = Some (bit (d + v) (n - 1)) \<and>
    esil_internal_parity_check s' = even (card {i. i < 8 \<and> bit (d + v) i})"
proof -
  from assign_ops(1) [OF assms(1-3), of iob g romem] obtain s' where
    run: "esil_addeq (plain_cb iob g romem) s = Some (1, s')" and as: "assigned s st it d (d + v) s'"
    by blast
  have st: "es_old s' = d" "es_cur s' = d + v" "unat (es_lastsz s') = n" "2 \<le> n" "n \<le> 64"
    using as size_unat [OF sz] by (simp_all add: assigned_def n_def)
  have one: "(1 :: ut8) \<le> es_lastsz s'" using st by (simp add: word_le_nat_alt)
  have "unat (es_lastsz s' - 1) = n - 1" using one st by (simp add: unat_sub)
  moreover have "Suc (n - 1) = n" "n - 1 < 64" using st by auto
  ultimately have c: "esil_internal_carry_check s' (es_lastsz s' - 1) = Some (2 ^ n \<le> low n d + low n v)"
    using carry_after_add [of "es_lastsz s' - 1" s' v] st by simp
  show ?thesis
    using run c overflow_after_add [of s' v] zero_eq [of s'] sign_eq [of s'] parity_eq [of s'] st as
    by (intro exI [of _ s']) (simp add: assigned_def)
qed

theorem addeq_flags_witness:
  "\<exists>s'. esil_addeq demo_cb (demo_with [fmt_0x 0x1ff, ''al'']) = Some (1, s') \<and>
    esil_internal_value ''$z'' s' = Some (Some 0)"
proof -
  have n: "nat (ri_size al) = 8" "whole_size (ri_size al)" "low 8 (0 + 0x1ff) \<noteq> 0" by code_simp+
  have "es_stack (demo_with [fmt_0x 0x1ff, ''al'']) = [] @ [fmt_0x 0x1ff, ''al'']"
    by (simp add: demo_with_def)
  from addeq_flags [OF this demo_operand(1,2) n(2), of demo_iob "\<lambda>_. 0" False] show ?thesis
    using n by (auto simp: demo_cb_def)
qed

lemma low_diff_zero:
  assumes "n \<le> 64"
  shows "low n (d - v) = 0 \<longleftrightarrow> low n d = low n v"
proof -
  have "low n d = (low n (d - v) + low n v) mod 2 ^ n"
    using low_add [OF assms, of "d - v" v] by simp
  then show ?thesis
    using low_less [of n "d - v"] low_less [of n v] low_less [of n d]
    by (metis add.commute add_cancel_left_right mod_add_less_iff mod_less not_less nat_less_le le_add1
        add_diff_cancel_right' le_mod_geq less_diff_conv2)
qed

text \<open>C32: after \<open>v,reg,-=\<close> on a register of width \<open>n\<close>, \<open>$b\<close> at \<open>n\<close> is the borrow of the \<open>n\<close>-bit
  subtraction, and \<open>$z\<close> is set exactly when the two operands agree in their low \<open>n\<close> bits.\<close>
theorem subeq_flags:
  assumes "es_stack s = st @ [fmt_0x v, dst]" "reg_operand s dst it" "reg_value s it = Some d"
    and sz: "whole_size (ri_size it)"
  defines "n \<equiv> nat (ri_size it)"
  shows "\<exists>s'. esil_subeq (plain_cb iob g romem) s = Some (1, s') \<and>
    esil_internal_borrow_check s' (of_nat n) = Some (low n d < low n v) \<and>
    esil_internal_value ''$z'' s' = Some (Some (bool64 (low n d = low n v)))"
proof -
  from assign_ops(2) [OF assms(1-3), of iob g romem] obtain s' where
    run: "esil_subeq (plain_cb iob g romem) s = Some (1, s')" and as: "assigned s st it d (d - v) s'"
    by blast
  have st: "es_old s' = d" "es_cur s' = d - v" "unat (es_lastsz s') = n" "2 \<le> n" "n \<le> 64"
    using as size_unat [OF sz] by (simp_all add: assigned_def n_def)
  show ?thesis
    using run borrow_after_sub [of n s' v] zero_eq [of s'] st low_diff_zero [OF st(5), of d v]
    by (intro exI [of _ s']) simp
qed

theorem subeq_flags_witness:
  "\<exists>s'. esil_subeq demo_cb (demo_with [fmt_0x 1, ''al'']) = Some (1, s') \<and>
    esil_internal_borrow_check s' 8 = Some True"
proof -
  have n: "nat (ri_size al) = 8" "whole_size (ri_size al)" "low 8 0 < low 8 1" by code_simp+
  have "es_stack (demo_with [fmt_0x 1, ''al'']) = [] @ [fmt_0x 1, ''al'']"
    by (simp add: demo_with_def)
  from subeq_flags [OF this demo_operand(1,2) n(2), of demo_iob "\<lambda>_. 0" False] show ?thesis
    using n by (auto simp: demo_cb_def)
qed

end
