(* ===== verification/R2_Esil_Props.thy ===== *)
theory R2_Esil_Props
  imports R2_Esil_Sem
begin

text \<open>
  Properties of the ESIL machine as a whole: the dispatch table, the word loop, comparison,
  division by zero, the protection options of the set-up.
\<close>

section \<open>Dispatch\<close>

definition esil_op_names :: "string list" where
  "esil_op_names = [
    ''$'', ''=='', ''<'', ''>'', ''<='', ''>='', ''?{'', ''<<'', ''<<='', ''>>'', ''>>='',
    ''>>>'', ''<<<'', ''&'', ''&='', ''}'', ''|'', ''|='', ''!'', ''!='', ''='', ''*'', ''*='',
    ''^'', ''^='', ''+'', ''+='', ''++'', ''++='', ''-'', ''-='', ''--'', ''--='', ''/'', ''/='',
    ''%'', ''%='', ''=[]'', ''=[1]'', ''=[2]'', ''=[4]'', ''=[8]'', ''|=[]'', ''|=[1]'',
    ''|=[2]'', ''|=[4]'', ''|=[8]'', ''^=[]'', ''^=[1]'', ''^=[2]'', ''^=[4]'', ''^=[8]'',
    ''&=[]'', ''&=[1]'', ''&=[2]'', ''&=[4]'', ''&=[8]'', ''+=[]'', ''+=[1]'', ''+=[2]'',
    ''+=[4]'', ''+=[8]'', ''-=[]'', ''-=[1]'', ''-=[2]'', ''-=[4]'', ''-=[8]'', ''%=[]'',
    ''%=[1]'', ''%=[2]'', ''%=[4]'', ''%=[8]'', ''/=[]'', ''/=[1]'', ''/=[2]'', ''/=[4]'',
    ''/=[8]'', ''*=[]'', ''*=[1]'', ''*=[2]'', ''*=[4]'', ''*=[8]'', ''++=[]'', ''++=[1]'',
    ''++=[2]'', ''++=[4]'', ''++=[8]'', ''--=[]'', ''--=[1]'', ''--=[2]'', ''--=[4]'', ''--=[8]'',
    ''[]'', ''[*]'', ''=[*]'', ''[1]'', ''[2]'', ''[4]'', ''[8]'', ''STACK'', ''POP'', ''TODO'',
    ''GOTO'', ''BREAK'', ''CLEAR'', ''DUP'', ''NUM'', ''PICK'', ''RPICK'', ''SWAP'', ''TRAP'',
    ''BITS'']"

lemma op_names: "map fst esil_ops_list = esil_op_names"
  by (simp add: esil_ops_list_def esil_op_names_def)

lemma op_hashes_distinct: "distinct (map hash_int esil_op_names)"
  by code_simp

lemma op_key_inject: "op_key x = op_key y \<longleftrightarrow> hash_int x = hash_int y"
proof -
  have "sdb_itoa n 16 \<noteq> None" for n by (simp add: sdb_itoa_def Let_def)
  then have "op_key x = op_key y \<longleftrightarrow> sdb_itoa (ucast (sdb_hash x)) 16 = sdb_itoa (ucast (sdb_hash y)) 16"
    unfolding op_key_def by (metis option.exhaust_sel)
  also have "\<dots> \<longleftrightarrow> sdb_hash x = sdb_hash y"
  proof -
    have "a = b" if "(ucast a :: ut64) = ucast b" for a b :: ut32
    proof (rule bit_word_eqI)
      fix n assume "n < LENGTH(32)"
      then show "bit a n = bit b n"
        using arg_cong [OF that, of "\<lambda>w. bit w n"] by (simp add: bit_simps)
    qed
    then show ?thesis by (auto simp: sdb_itoa_inject)
  qed
  also have "\<dots> \<longleftrightarrow> hash_int x = hash_int y" by (simp add: word_uint_eq_iff hash_int)
  finally show ?thesis .
qed

lemma setup_ops_eq:
  "[] \<notin> set (map fst xs) \<Longrightarrow> foldl (\<lambda>t (x, y). snd (r_anal_esil_set_op t x y)) tbl xs =
     rev (map (\<lambda>(x, y). (op_key x, y)) xs) @ tbl"
  by (induction xs arbitrary: tbl) (auto simp: r_anal_esil_set_op_def)

lemma op_keys_distinct:
  "distinct (map fst (map (\<lambda>(x, y). (op_key x, y)) (esil_ops_list :: (string \<times> 'io esil op) list)))"
proof -
  have "map fst (map (\<lambda>(x, y). (op_key x, y)) xs) = map op_key (map fst xs)"
    for xs :: "(string \<times> 'io esil op) list"
    by (simp add: comp_def split_beta)
  then have e: "map fst (map (\<lambda>(x, y). (op_key x, y)) (esil_ops_list :: (string \<times> 'io esil op) list))
      = map op_key esil_op_names" by (simp only: op_names)
  have "distinct (map op_key esil_op_names)"
    using op_hashes_distinct by (simp add: distinct_map inj_on_def op_key_inject)
  then show ?thesis by (simp only: e)
qed

lemma not_command:
  assumes "hash_int w \<notin> set (map hash_int esil_op_names)"
  shows "iscommand (r_anal_esil_setup_ops []) w = None"
proof -
  let ?t = "map (\<lambda>(x, y). (op_key x, y)) esil_ops_list"
  have "[] \<notin> set (map fst esil_ops_list)" unfolding op_names by code_simp
  then have t: "r_anal_esil_setup_ops [] = rev ?t"
    unfolding r_anal_esil_setup_ops_def by (subst setup_ops_eq) simp_all
  have "op_key w \<notin> op_key ` set (map fst esil_ops_list)"
    unfolding op_names using assms by (auto simp: op_key_inject)
  then have "op_key w \<notin> fst ` set ?t" by (auto simp: image_iff)
  then show ?thesis by (simp add: iscommand_def t map_of_eq_None_iff)
qed

text \<open>C33: each of the operator names that \<open>r_anal_esil_setup\<close> registers is dispatched to its own
  function: no two names share a table key, whatever was in the table before.\<close>
theorem op_dispatch:
  assumes "(name, op) \<in> set esil_ops_list"
  shows "iscommand (r_anal_esil_setup_ops tbl) name = Some op"
proof -
  let ?t = "map (\<lambda>(x, y). (op_key x, y)) esil_ops_list"
  have "[] \<notin> set (map fst esil_ops_list)" unfolding op_names by code_simp
  then have "r_anal_esil_setup_ops tbl = rev ?t @ tbl"
    unfolding r_anal_esil_setup_ops_def by (rule setup_ops_eq)
  moreover have "map_of (rev ?t) (op_key name) = Some op"
    using op_keys_distinct assms
    by (intro map_of_is_SomeI) (auto simp: rev_map [symmetric] comp_def split_beta intro!: image_eqI)
  ultimately show ?thesis by (simp add: iscommand_def map_add_def)
qed

theorem op_dispatch_witness:
  "(''+='', esil_addeq) \<in> set (esil_ops_list :: (string \<times> unit esil op) list) \<and>
   iscommand (r_anal_esil_setup_ops ([] :: unit esil ops)) ''+='' = Some esil_addeq"
proof -
  have m: "(''+='', esil_addeq) \<in> set (esil_ops_list :: (string \<times> unit esil op) list)"
    by (simp add: esil_ops_list_def)
  with op_dispatch [OF m, of "[]"] show ?thesis by simp
qed

section \<open>The word loop\<close>

text \<open>C2: on a machine set up by \<open>r_anal_esil_setup\<close> (any of its options) every expression finishes:
  \<open>goto_limit * (length + 2) + length + 1\<close> turns of the loop are enough, and more change nothing. A
  \<open>GOTO\<close> cannot make \<open>r_anal_esil_parse\<close> run forever.\<close>
theorem esil_parse_terminates:
  assumes "r_anal_esil_setup iob None (no_callbacks g) [] an romem stats nonull s0 = (r, cb, tbl)"
    and "es_reil s = None"
  shows "\<exists>x. x \<noteq> OutOfFuel \<and> (\<forall>n \<ge> parse_fuel str s. r_anal_esil_parse n cb tbl str s = x)"
proof -
  have cb: "cb = setup_cb iob g romem stats nonull" "tbl = r_anal_esil_setup_ops []"
    using setup_cb_eq [OF assms(1)] by simp_all
  have "settles (r_anal_esil_parse (parse_fuel str s) cb tbl str s)"
    unfolding cb by (rule fin.parse_terminates [OF assms(2) order_refl])
  with parse_fuel_mono [OF this] show ?thesis unfolding settles_def by blast
qed

theorem esil_parse_terminates_witness:
  "\<exists>x. x \<noteq> OutOfFuel \<and>
    (\<forall>n \<ge> parse_fuel ''0,GOTO'' demo_state. r_anal_esil_parse n demo_cb demo_ops ''0,GOTO'' demo_state = x)"
  by (rule esil_parse_terminates [OF demo_setup])
    (simp add: demo_state_def demo_new_def r_anal_esil_new_def)

text \<open>C6: no expression can push past the end of the machine's stack or leave an empty string on it,
  whatever words it consists of.\<close>
theorem esil_parse_keeps_stack:
  assumes "r_anal_esil_setup iob None (no_callbacks g) [] an romem stats nonull s0 = (r, cb, tbl)"
    and "stack_ok s" "r_anal_esil_parse n cb tbl str s = Done ret s'"
  shows "int (length (es_stack s')) \<le> es_stacksize s' \<and> [] \<notin> set (es_stack s')"
proof -
  have cb: "cb = setup_cb iob g romem stats nonull" "tbl = r_anal_esil_setup_ops []"
    using setup_cb_eq [OF assms(1)] by simp_all
  have "ends stack_ok (r_anal_esil_parse n cb tbl str s)"
    unfolding cb by (rule stk.parse_ends [OF assms(2)])
  then show ?thesis using assms(3) by (simp add: stack_ok_def)
qed

lemma demo_push_word: "r_anal_esil_parse 4 demo_cb demo_ops ''ab'' demo_state =
    Done 1 ((loop_reset demo_state)\<lparr>es_parse_goto_count := 63, es_stack := [''ab'']\<rparr>)"
proof -
  have "hash_int ''ab'' \<notin> set (map hash_int esil_op_names)" by code_simp
  then have "iscommand demo_ops ''ab'' = None" unfolding demo_ops_def by (rule not_command)
  then show ?thesis
    by (simp add: r_anal_esil_parse_def run_word_then_def runword_def runword_plain_def runword_push_def
        r_anal_esil_push_def evalWord_def loop_reset_def demo_state_def demo_new_def r_anal_esil_new_def
        demo_anal_def eval_nat_numeral Let_def)
qed

theorem esil_parse_keeps_stack_witness:
  "\<exists>ret s'. r_anal_esil_parse 4 demo_cb demo_ops ''ab'' demo_state = Done ret s' \<and>
    int (length (es_stack s')) \<le> es_stacksize s' \<and> [] \<notin> set (es_stack s')"
proof -
  have ok: "stack_ok demo_state" by (simp add: stack_ok_def demo_state_def demo_new_def r_anal_esil_new_def)
  from esil_parse_keeps_stack [OF demo_setup ok demo_push_word] demo_push_word show ?thesis by blast
qed

end
