(* ===== verification/R2_Esil_Words.thy ===== *)
theory R2_Esil_Words
  imports R2_Esil_Props
begin

text \<open>
  A specification of the word loop. \<open>exec_words\<close> is the interpreter one would write down: a list of
  words, a program counter, one word per step. On an expression that is a comma-separated list of
  ordinary words \<open>r_anal_esil_parse\<close>, with its character buffer, its early returns and its scan for
  the target of \<open>GOTO\<close>, computes exactly that.
\<close>

fun exec_words :: "nat \<Rightarrow> 'io esil esil_cb \<Rightarrow> 'io esil ops \<Rightarrow> string list \<Rightarrow> nat \<Rightarrow> 'io esil \<Rightarrow> 'io esil outcome" where
  "exec_words 0 cb tbl ws pc s = OutOfFuel"
| "exec_words (Suc n) cb tbl ws pc s =
     (if pc \<ge> length ws then Done 1 s
      else case runword (\<lambda>_ _. Undefined) cb tbl (ws ! pc) s of
        Done r s \<Rightarrow>
          if r = 0 then Done 0 s
          else if es_parse_goto s \<noteq> - 1 then
            (if 0 \<le> es_parse_goto s \<and> es_parse_goto s < int (length ws)
             then exec_words n cb tbl ws (nat (es_parse_goto s)) (s\<lparr>es_parse_goto := - 1\<rparr>)
             else Done 0 s)
          else if es_parse_stop s \<noteq> 0 then Done 0 s
          else exec_words n cb tbl ws (Suc pc) s
      | x \<Rightarrow> x)"

fun join_words :: "string list \<Rightarrow> string" where
  "join_words [] = []"
| "join_words [w] = w"
| "join_words (w # ws) = w @ CHR '','' # join_words ws"

definition plain_char :: "char \<Rightarrow> bool" where
  "plain_char c \<longleftrightarrow> c \<noteq> CHR '','' \<and> c \<noteq> CHR '';'' \<and> c \<noteq> CHR 0x00"

definition plain_word :: "string \<Rightarrow> bool" where
  "plain_word w \<longleftrightarrow> w \<noteq> [] \<and> length w \<le> 62 \<and> list_all plain_char w"

section \<open>Finding the target of a jump\<close>

definition rest_words :: "string list \<Rightarrow> string" where
  "rest_words ws = (if ws = [] then [] else CHR '','' # join_words ws)"

lemma join_Cons: "join_words (w # ws) = w @ rest_words ws"
  by (cases ws) (simp_all add: rest_words_def)

lemma plain_word_hd: "plain_word w \<Longrightarrow> w \<noteq> [] \<and> plain_char (hd w)"
  by (cases w) (simp_all add: plain_word_def)

lemma goto_scan_hit: "x \<noteq> [] \<Longrightarrow> goto_scan o' x c c = Some o'"
  by (cases x) simp_all

lemma goto_scan_word:
  "list_all plain_char w \<Longrightarrow> w \<noteq> [] \<Longrightarrow> c \<noteq> n \<Longrightarrow>
   goto_scan o' (w @ rest_words ws) c n =
     (if ws = [] then None else goto_scan (join_words ws) (rest_words ws) (c + 1) n)"
proof (induction w)
  case (Cons a w)
  show ?case
  proof (cases w)
    case Nil
    then show ?thesis using Cons.prems by (simp add: rest_words_def)
  next
    case (Cons b v)
    with Cons.prems have "b \<noteq> CHR '',''" by (simp add: plain_char_def)
    then show ?thesis using Cons.IH Cons.prems \<open>w = b # v\<close> by simp
  qed
qed simp

lemma goto_scan_join:
  assumes "\<forall>w \<in> set ws. plain_word w" "ws \<noteq> []"
  shows "goto_scan (join_words ws) (join_words ws) c n =
    (if c \<le> n \<and> n < c + int (length ws) then Some (join_words (drop (nat (n - c)) ws)) else None)"
  using assms
proof (induction ws arbitrary: c)
  case (Cons w ws)
  have w: "list_all plain_char w" "w \<noteq> []" using Cons.prems(1) by (simp_all add: plain_word_def)
  have ne: "join_words (w # ws) \<noteq> []" using w by (simp add: join_Cons)
  show ?case
  proof (cases "c = n")
    case True
    then show ?thesis using goto_scan_hit [OF ne] by simp
  next
    case False
    show ?thesis
    proof (cases "ws = []")
      case True
      then show ?thesis using goto_scan_word [OF w False, of "join_words (w # ws)" ws] False
        by (simp add: join_Cons rest_words_def)
    next
      case nonempty: False
      have comma: "goto_scan (join_words ws) (rest_words ws) (c + 1) n =
          goto_scan (join_words ws) (join_words ws) (c + 1) n"
      proof -
        obtain v vs where ws: "ws = v # vs" using nonempty by (cases ws) auto
        have v: "v \<noteq> []" "plain_char (hd v)" using Cons.prems(1) plain_word_hd by (auto simp: ws)
        then have "join_words ws \<noteq> []" "first_chr (join_words ws) \<noteq> CHR '',''"
          by (cases v; simp add: ws join_Cons plain_char_def)+
        then show ?thesis
          using goto_scan_hit [of "join_words ws" "join_words ws" n] nonempty
          by (simp add: rest_words_def)
      qed
      have d: "drop (nat (n - c)) (w # ws) = drop (nat (n - (c + 1))) ws" if "c < n"
      proof -
        have "nat (n - c) = Suc (nat (n - (c + 1)))" using that by simp
        then show ?thesis by simp
      qed
      show ?thesis
        using goto_scan_word [OF w False, of "join_words (w # ws)" ws] comma nonempty
          Cons.IH [of "c + 1"] Cons.prems False d by (auto simp: join_Cons)
    qed
  qed
qed simp

lemma gotoWord_join:
  "\<forall>w \<in> set ws. plain_word w \<Longrightarrow> ws \<noteq> [] \<Longrightarrow> gotoWord (join_words ws) n =
     (if 0 \<le> n \<and> n < int (length ws) then Some (join_words (drop (nat n) ws)) else None)"
  by (simp add: gotoWord_def goto_scan_join)

lemma length_join_drop: "length (join_words (drop j ws)) \<le> length (join_words ws)"
proof (induction ws arbitrary: j)
  case (Cons w ws)
  have "length (join_words ws) \<le> length (rest_words ws)" by (cases ws) (simp_all add: rest_words_def)
  then show ?case using Cons.IH [of "j - 1"] by (cases j) (auto simp: join_Cons)
qed simp

section \<open>Reading words\<close>

lemma parse_loop_chars:
  "list_all plain_char v \<Longrightarrow> length (u @ v) \<le> 62 \<Longrightarrow>
   parse_loop (n + length v) cb tbl ostr (v @ str) u s = parse_loop n cb tbl ostr str (u @ v) s"
proof (induction v arbitrary: u)
  case (Cons c v)
  then have "c \<noteq> CHR '';''" "c \<noteq> CHR '',''" by (simp_all add: plain_char_def)
  then show ?case using Cons.IH [of "u @ [c]"] Cons.prems by simp
qed simp

definition word_step ::
  "'io esil esil_cb \<Rightarrow> 'io esil ops \<Rightarrow> string list \<Rightarrow> string \<Rightarrow> (nat \<Rightarrow> 'io esil \<Rightarrow> 'io esil outcome) \<Rightarrow>
   ('io esil \<Rightarrow> 'io esil outcome) \<Rightarrow> 'io esil \<Rightarrow> 'io esil outcome" where
  "word_step cb tbl ws w jump k s =
     (case runword (\<lambda>_ _. Undefined) cb tbl w s of
        Done r s \<Rightarrow>
          if r = 0 then Done 0 s
          else if es_parse_goto s \<noteq> - 1 then
            (if 0 \<le> es_parse_goto s \<and> es_parse_goto s < int (length ws)
             then jump (nat (es_parse_goto s)) (s\<lparr>es_parse_goto := - 1\<rparr>)
             else Done 0 s)
          else if es_parse_stop s \<noteq> 0 then Done 0 s
          else k s
      | x \<Rightarrow> x)"

lemma exec_words_step:
  "pc < length ws \<Longrightarrow> exec_words (Suc n) cb tbl ws pc s =
     word_step cb tbl ws (ws ! pc) (exec_words n cb tbl ws) (exec_words n cb tbl ws (Suc pc)) s"
  by (simp add: word_step_def cong: outcome.case_cong)

lemma runword_no_reil: "es_reil s = None \<Longrightarrow> runword p cb tbl w s = runword q cb tbl w s"
  by (simp add: runword_def Let_def)

context terminating
begin

lemma run_word_then_step:
  assumes "steady c s" "\<forall>w \<in> set ws. plain_word w" "ws \<noteq> []"
    and "str = [] \<or> chr_at str 1 \<noteq> CHR '',''"
  shows "run_word_then p cb tbl (join_words ws) str w f g h s =
    word_step cb tbl ws w (\<lambda>i. g (join_words (drop i ws))) h s"
proof (cases "runword p cb tbl w s")
  case (Done r s')
  have q: "runword (\<lambda>_ _. Undefined) cb tbl w s = Done r s'"
    using Done runword_no_reil assms(1) by (metis steady_def)
  show ?thesis
  proof (cases "r = 0")
    case False
    have "es_repeat s' = 0" using runword_steady(2) [OF assms(1) Done False] by (simp add: steady_def)
    then show ?thesis
      using Done q False assms(4)
      by (auto simp: run_word_then_def word_step_def evalWord_def gotoWord_join [OF assms(2,3)])
  qed (simp add: Done q run_word_then_def word_step_def)
next
  case Undefined
  moreover have "runword (\<lambda>_ _. Undefined) cb tbl w s = Undefined"
    using Undefined runword_no_reil assms(1) by (metis steady_def)
  ultimately show ?thesis by (simp add: run_word_then_def word_step_def)
next
  case OutOfFuel
  then show ?thesis using runword_steady(1) [OF assms(1), of p w] by simp
qed

lemma word_step_cong:
  assumes "steady c s"
    and "\<And>i s. steady (c - 1) s \<Longrightarrow> 1 \<le> c - 1 \<Longrightarrow> i < length ws \<Longrightarrow> f i s = f' i s"
    and "\<And>s. steady (c - 1) s \<Longrightarrow> 1 \<le> c - 1 \<Longrightarrow> k s = k' s"
  shows "word_step cb tbl ws w f k s = word_step cb tbl ws w f' k' s"
proof (cases "runword (\<lambda>_ _. Undefined) cb tbl w s")
  case (Done r s')
  show ?thesis
  proof (cases "r = 0")
    case False
    have st: "steady (c - 1) s'" "1 \<le> c - 1" using runword_steady(2) [OF assms(1) Done False] by simp_all
    then have "steady (c - 1) (s'\<lparr>es_parse_goto := - 1\<rparr>)" by (simp add: steady_def)
    then show ?thesis
      using Done assms(2,3) st by (auto simp: word_step_def nat_less_iff)
  qed (simp add: Done word_step_def)
qed (simp_all add: word_step_def)

text \<open>
  The position inside the string: \<open>u\<close> is the part of word \<open>i\<close> already in the buffer, \<open>v\<close> the part
  still to read.
\<close>

lemma parse_loop_word:
  assumes "steady c s" and ws: "\<forall>w \<in> set ws. plain_word w" and i: "i < length ws" "ws ! i = u @ v"
  shows "parse_loop (Suc m + length v) cb tbl (join_words ws) (v @ rest_words (drop (Suc i) ws)) u s =
    word_step cb tbl ws (ws ! i) (\<lambda>j. parse_loop m cb tbl (join_words ws) (join_words (drop j ws)) [])
      (if Suc i = length ws then Done 1
       else parse_loop m cb tbl (join_words ws) (tl (ws ! Suc i) @ rest_words (drop (Suc (Suc i)) ws))
              [hd (ws ! Suc i)]) s"
proof -
  let ?rest = "rest_words (drop (Suc i) ws)"
  have w: "plain_word (ws ! i)" using ws nth_mem [OF i(1)] by blast
  have chars: "list_all plain_char v" "length (u @ v) \<le> 62"
    using w i by (auto simp: plain_word_def)
  have word: "first_chr (ws ! i) \<noteq> CHR 0x00"
    using plain_word_hd [OF w] by (cases "ws ! i") (simp_all add: plain_char_def)
  have ne: "ws \<noteq> []" using i by auto
  have read: "parse_loop (Suc m + length v) cb tbl (join_words ws) (v @ ?rest) u s =
      parse_loop (Suc m) cb tbl (join_words ws) ?rest (ws ! i) s"
    unfolding i(2) by (rule parse_loop_chars [OF chars])
  show ?thesis
  proof (cases "Suc i = length ws")
    case True
    then show ?thesis
      unfolding read using word by (simp add: rest_words_def Let_def run_word_then_step [OF assms(1) ws ne])
  next
    case False
    with i have next_word: "drop (Suc i) ws = ws ! Suc i # drop (Suc (Suc i)) ws"
      by (simp add: Cons_nth_drop_Suc)
    have "plain_word (ws ! Suc i)" using ws i False by simp
    then obtain a z where az: "ws ! Suc i = a # z" "a \<noteq> CHR '',''"
      by (auto simp: plain_word_def plain_char_def neq_Nil_conv)
    have rest: "?rest = CHR '','' # a # z @ rest_words (drop (Suc (Suc i)) ws)"
      by (simp add: next_word join_Cons az rest_words_def [of "_ # _"])
    note step = run_word_then_step [OF assms(1) ws ne, of ?rest]
    show ?thesis
      unfolding read using word step az w False
      by (simp add: rest Let_def plain_word_def)
  qed
qed

lemma parse_loop_exec:
  assumes ws: "\<forall>w \<in> set ws. plain_word w"
  shows "steady c s \<Longrightarrow> i < length ws \<Longrightarrow> ws ! i = u @ v \<Longrightarrow>
    nat c * (length (join_words ws) + 2) + length (v @ rest_words (drop (Suc i) ws)) + 1 \<le> m \<Longrightarrow>
    nat c + 1 \<le> n \<Longrightarrow>
    parse_loop m cb tbl (join_words ws) (v @ rest_words (drop (Suc i) ws)) u s = exec_words n cb tbl ws i s"
proof (induction n arbitrary: c s i u v m)
  case (Suc n)
  let ?L = "length (join_words ws)"
  let ?rest = "\<lambda>i. rest_words (drop (Suc i) ws)"
  define k where "k = m - 1 - length v"
  have m: "m = Suc k + length v" and k: "nat c * (?L + 2) + length (?rest i) \<le> k"
    using Suc.prems(4) by (simp_all add: k_def)
  have left: "nat c \<le> n" using Suc.prems(5) by simp
  have less: "nat (c - 1) + 1 \<le> n" if "1 \<le> c - 1" using left that by linarith
  have target: "parse_loop k cb tbl (join_words ws) (join_words (drop j ws)) [] s' = exec_words n cb tbl ws j s'"
    if "steady (c - 1) s'" "1 \<le> c - 1" "j < length ws" for j s'
  proof -
    have d: "join_words (drop j ws) = ws ! j @ ?rest j"
      using that(3) by (metis Cons_nth_drop_Suc join_Cons)
    have "length (ws ! j @ ?rest j) \<le> ?L" using that(3) length_join_drop [of j ws] by (simp add: d)
    then show ?thesis
      using that less k count_step [OF that(2), of ?L] unfolding d by (intro Suc.IH) auto
  qed
  have follow: "(if Suc i = length ws then Done 1
      else parse_loop k cb tbl (join_words ws) (tl (ws ! Suc i) @ ?rest (Suc i)) [hd (ws ! Suc i)]) s' =
      exec_words n cb tbl ws (Suc i) s'" if "steady (c - 1) s'" "1 \<le> c - 1" for s'
  proof (cases "Suc i = length ws")
    case True
    have "0 < n" using left that(2) by linarith
    then show ?thesis using True by (cases n) simp_all
  next
    case False
    then have i: "Suc i < length ws" using Suc.prems(2) by simp
    then have w: "ws ! Suc i = [hd (ws ! Suc i)] @ tl (ws ! Suc i)" using ws by (auto simp: plain_word_def)
    have "?rest i = CHR '','' # join_words (drop (Suc i) ws)" using i by (simp add: rest_words_def)
    also have "join_words (drop (Suc i) ws) = ws ! Suc i @ ?rest (Suc i)"
      using i by (metis Cons_nth_drop_Suc join_Cons)
    finally have "length (tl (ws ! Suc i) @ ?rest (Suc i)) < length (?rest i)" by simp
    then show ?thesis
      using False that less k count_step [OF that(2), of ?L]
      by (simp del: parse_loop.simps exec_words.simps) (intro Suc.IH i w; simp)
  qed
  show ?case
    unfolding m parse_loop_word [OF Suc.prems(1) ws Suc.prems(2,3)] exec_words_step [OF Suc.prems(2)]
    by (rule word_step_cong [OF Suc.prems(1) target follow])
qed simp

end

section \<open>The parser refines the word machine\<close>

text \<open>C1: on an expression made of ordinary words (each of 1 to 62 characters, with no comma or semicolon),
  \<open>r_anal_esil_parse\<close> behaves exactly like \<open>exec_words\<close>, the machine that keeps the words in a list
  and a program counter into it: same result, same final state, jumps with \<open>GOTO\<close> included.\<close>
theorem esil_parse_refines_words:
  assumes "r_anal_esil_setup iob None (no_callbacks g) [] an romem stats nonull s0 = (r, cb, tbl)"
    and "es_reil s = None" "ws \<noteq> []" "\<forall>w \<in> set ws. plain_word w"
    and "parse_fuel (join_words ws) s \<le> n"
  shows "r_anal_esil_parse n cb tbl (join_words ws) s =
    exec_words (nat (goto_limit s) + 1) cb tbl ws 0 (loop_reset (s\<lparr>es_trap := 0\<rparr>))"
proof -
  have cb: "cb = setup_cb iob g romem stats nonull" "tbl = r_anal_esil_setup_ops []"
    using setup_cb_eq [OF assms(1)] by simp_all
  have st: "steady (goto_limit s) (loop_reset (s\<lparr>es_trap := 0\<rparr>))"
    using assms(2) by (simp add: steady_def loop_reset_def goto_limit_def)
  obtain w vs where ws: "ws = w # vs" using assms(3) by (cases ws) auto
  have ne: "join_words ws \<noteq> []" using assms(4) by (auto simp: ws join_Cons plain_word_def)
  have join: "w @ rest_words (drop (Suc 0) ws) = join_words ws" by (simp add: ws join_Cons)
  have "parse_loop n cb tbl (join_words ws) (join_words ws) [] (loop_reset (s\<lparr>es_trap := 0\<rparr>)) =
      exec_words (nat (goto_limit s) + 1) cb tbl ws 0 (loop_reset (s\<lparr>es_trap := 0\<rparr>))"
    using fin.parse_loop_exec [OF assms(4) st, of 0 "[]" w n "nat (goto_limit s) + 1"] assms(5)
    unfolding cb join by (simp add: parse_fuel_def ws del: parse_loop.simps exec_words.simps)
  then show ?thesis using ne by (simp add: r_anal_esil_parse_def)
qed

theorem esil_parse_refines_words_witness:
  "r_anal_esil_parse 1000000 demo_cb demo_ops ''3,GOTO,POP,7'' demo_state =
    exec_words 65 demo_cb demo_ops [''3'', ''GOTO'', ''POP'', ''7''] 0 (loop_reset (demo_state\<lparr>es_trap := 0\<rparr>))"
proof -
  have reil: "es_reil demo_state = None" and lim: "goto_limit demo_state = 64"
    by (simp_all add: demo_state_def demo_new_def r_anal_esil_new_def goto_limit_def demo_anal_def)
  have "parse_fuel (join_words [''3'', ''GOTO'', ''POP'', ''7'']) demo_state \<le> 1000000"
    by (simp add: parse_fuel_def lim)
  from esil_parse_refines_words [OF demo_setup reil _ _ this] show ?thesis
    by (simp add: lim plain_word_def plain_char_def del: parse_loop.simps exec_words.simps)
qed

end
