(* ===== verification/R2_IO_Map.thy ===== *)
theory R2_IO_Map
  imports R2_Prelude
begin

text \<open>
  The maps of the IO layer (\<^verbatim>\<open>libr/io/map.c\<close>). \<open>io->maps\<close> is a list of \<open>RIOMap\<close> records, searched
  from its head; the functions that only read it take the list, those that change it return the new
  list. Addresses are \<open>ut64\<close> and every sum wraps as in the code.
  \<open>r_io_map_select\<close>, which also moves the file position, is with the descriptors in \<open>R2_IO\<close>.
\<close>

record io_map =
  mp_fd :: int
  mp_flags :: int
  mp_delta :: ut64
  mp_from :: ut64
  mp_to :: ut64

section \<open>Creation and deletion\<close>

definition r_io_map_count :: "io_map list \<Rightarrow> int" where
  "r_io_map_count maps = int (length maps)"

definition r_io_map_new ::
  "io_map list \<Rightarrow> int \<Rightarrow> int \<Rightarrow> ut64 \<Rightarrow> ut64 \<Rightarrow> ut64 \<Rightarrow> io_map option \<times> io_map list" where
  "r_io_map_new maps fd flags delta addr sz =
     (if UT64_MAX - sz < addr then (None, maps)
      else let m = \<lparr>mp_fd = fd, mp_flags = flags, mp_delta = delta, mp_from = addr, mp_to = addr + sz\<rparr>
           in (Some m, maps @ [m]))"

definition r_io_map_add ::
  "io_map list \<Rightarrow> int \<Rightarrow> int \<Rightarrow> ut64 \<Rightarrow> ut64 \<Rightarrow> ut64 \<Rightarrow> io_map option \<times> io_map list" where
  "r_io_map_add maps fd flags delta addr sz =
     (let end_addr = addr + sz in
      if list_ex (\<lambda>m. mp_fd m = fd \<and> (mp_from m \<le> addr \<and> addr < mp_to m \<or>
           mp_from m \<le> end_addr \<and> end_addr < mp_to m)) maps
      then (None, maps)
      else r_io_map_new maps fd flags delta addr sz)"

text \<open>
  Only the first map is looked at: every turn of the loop ends in \<open>return\<close> or \<open>break\<close>. The recursion
  of the code has fuel; \<open>load_align = 0\<close> divides by zero.
\<close>

fun r_io_map_add_next_available ::
  "nat \<Rightarrow> io_map list \<Rightarrow> int \<Rightarrow> int \<Rightarrow> ut64 \<Rightarrow> ut64 \<Rightarrow> ut64 \<Rightarrow> ut64 \<Rightarrow>
   (io_map option \<times> io_map list) option" where
  "r_io_map_add_next_available 0 maps fd flags delta addr sz load_align = None"
| "r_io_map_add_next_available (Suc n) maps fd flags delta addr sz load_align = (case maps of
     [] \<Rightarrow> Some (r_io_map_new maps fd flags delta addr sz)
   | m # _ \<Rightarrow>
       if load_align = 0 then None
       else let end_addr = addr + sz;
                after = mp_to m + (load_align - mp_to m mod load_align);
                next_addr = max addr after
            in if mp_fd m = fd \<and> (mp_from m \<le> next_addr \<and> next_addr < mp_to m \<or>
                    mp_from m \<le> end_addr \<and> end_addr < mp_to m)
               then r_io_map_add_next_available n maps fd flags delta after sz load_align
               else Some (r_io_map_new maps fd flags delta next_addr sz))"

definition r_io_map_del :: "io_map list \<Rightarrow> int \<Rightarrow> bool \<times> io_map list" where
  "r_io_map_del maps fd =
     (list_ex (\<lambda>m. fd = - 1 \<or> mp_fd m = fd) maps,
      filter (\<lambda>m. \<not> (fd = - 1 \<or> mp_fd m = fd)) maps)"

text \<open>Unlinking the first element that satisfies a condition.\<close>

fun delete_first :: "('a \<Rightarrow> bool) \<Rightarrow> 'a list \<Rightarrow> bool \<times> 'a list" where
  "delete_first P [] = (False, [])"
| "delete_first P (x # xs) =
     (if P x then (True, xs) else let (r, ys) = delete_first P xs in (r, x # ys))"

text \<open>Changing the first element that satisfies a condition in place.\<close>

fun update_first :: "('a \<Rightarrow> bool) \<Rightarrow> ('a \<Rightarrow> 'a) \<Rightarrow> 'a list \<Rightarrow> 'a list" where
  "update_first P f [] = []"
| "update_first P f (x # xs) = (if P x then f x # xs else x # update_first P f xs)"

definition r_io_map_del_at :: "io_map list \<Rightarrow> ut64 \<Rightarrow> bool \<times> io_map list" where
  "r_io_map_del_at maps addr = delete_first (\<lambda>m. mp_from m \<le> addr \<and> addr < mp_to m) maps"

section \<open>Updates after a write or a truncation\<close>

definition r_io_map_resolve :: "io_map list \<Rightarrow> int \<Rightarrow> io_map option" where
  "r_io_map_resolve maps fd = find (\<lambda>m. mp_fd m = fd) maps"

definition r_io_map_write_update :: "io_map list \<Rightarrow> int \<Rightarrow> ut64 \<Rightarrow> ut64 \<Rightarrow> bool \<times> io_map list" where
  "r_io_map_write_update maps fd addr len =
     (case find (\<lambda>m. mp_fd m = fd) maps of
        None \<Rightarrow> (False, maps)
      | Some m \<Rightarrow>
          if mp_to m < addr + len
          then (True, update_first (\<lambda>m. mp_fd m = fd) (\<lambda>m. m\<lparr>mp_to := addr + len\<rparr>) maps)
          else (False, maps))"

definition r_io_map_truncate_update :: "io_map list \<Rightarrow> int \<Rightarrow> ut64 \<Rightarrow> bool \<times> io_map list" where
  "r_io_map_truncate_update maps fd sz =
     (case find (\<lambda>m. mp_fd m = fd) maps of
        None \<Rightarrow> (False, maps)
      | Some _ \<Rightarrow>
          (True, update_first (\<lambda>m. mp_fd m = fd) (\<lambda>m. m\<lparr>mp_to := mp_from m + sz\<rparr>) maps))"

section \<open>Lookup\<close>

definition r_io_map_get :: "io_map list \<Rightarrow> ut64 \<Rightarrow> io_map option" where
  "r_io_map_get maps addr =
     find (\<lambda>m. mp_from m = mp_to m \<and> addr \<ge> mp_from m \<or>
                 addr \<ge> mp_from m \<and> addr < mp_to m) maps"

definition r_io_map_exists_for_offset :: "io_map list \<Rightarrow> ut64 \<Rightarrow> bool" where
  "r_io_map_exists_for_offset maps off = list_ex (\<lambda>im. mp_from im \<le> off \<and> off < mp_to im) maps"

definition r_io_map_next :: "io_map list \<Rightarrow> ut64 \<Rightarrow> ut64" where
  "r_io_map_next maps addr =
     foldl (\<lambda>nxt m. if mp_from m > addr \<and> (nxt = 0 \<or> mp_from m < nxt) then mp_from m else nxt)
       UT64_MAX maps"

text \<open>The three tests of the range queries; a map that passes several is listed several times.\<close>

definition touches_start :: "ut64 \<Rightarrow> io_map \<Rightarrow> bool" where
  "touches_start addr m \<longleftrightarrow> mp_from m \<le> addr \<and> addr < mp_to m"

definition touches_end :: "ut64 \<Rightarrow> io_map \<Rightarrow> bool" where
  "touches_end endaddr m \<longleftrightarrow> mp_from m < endaddr \<and> endaddr < mp_to m"

definition inside_range :: "ut64 \<Rightarrow> ut64 \<Rightarrow> io_map \<Rightarrow> bool" where
  "inside_range addr endaddr m \<longleftrightarrow> addr \<le> mp_from m \<and> mp_to m \<le> endaddr"

definition r_io_map_get_maps_in_range :: "io_map list \<Rightarrow> ut64 \<Rightarrow> ut64 \<Rightarrow> io_map list" where
  "r_io_map_get_maps_in_range maps addr endaddr =
     foldl (\<lambda>acc m.
       let acc = (if touches_start addr m then acc @ [m] else acc);
           acc = (if touches_end endaddr m then acc @ [m] else acc)
       in if inside_range addr endaddr m then acc @ [m] else acc) [] maps"

definition r_io_map_get_maps_in_range_prepend :: "io_map list \<Rightarrow> ut64 \<Rightarrow> ut64 \<Rightarrow> io_map list" where
  "r_io_map_get_maps_in_range_prepend maps addr endaddr =
     foldl (\<lambda>acc m.
       let acc = (if touches_start addr m then acc @ [m] else acc);
           acc = (if touches_end endaddr m then m # acc else acc)
       in if inside_range addr endaddr m then m # acc else acc) [] maps"

definition r_io_map_resolve_from_list :: "io_map list \<Rightarrow> int \<Rightarrow> io_map option" where
  "r_io_map_resolve_from_list maps fd = find (\<lambda>m. mp_fd m = fd) maps"

definition r_io_map_resolve_in_range :: "io_map list \<Rightarrow> ut64 \<Rightarrow> ut64 \<Rightarrow> int \<Rightarrow> io_map option" where
  "r_io_map_resolve_in_range maps addr endaddr fd =
     r_io_map_resolve_from_list (r_io_map_get_maps_in_range_prepend maps addr endaddr) fd"

definition r_io_map_get_first_map_in_range :: "io_map list \<Rightarrow> ut64 \<Rightarrow> ut64 \<Rightarrow> io_map option" where
  "r_io_map_get_first_map_in_range maps addr endaddr =
     find (\<lambda>m. touches_start addr m \<or> touches_end endaddr m \<or> inside_range addr endaddr m) maps"

text \<open>The comparison used to sort the maps: 1 or 0, never negative.\<close>

definition r_io_map_sort :: "io_map \<Rightarrow> io_map \<Rightarrow> int" where
  "r_io_map_sort a b =
     (if mp_from a = mp_from b
      then (if mp_to a - mp_from a < mp_to b - mp_from b then 1 else 0)
      else if mp_from a < mp_from b then 1 else 0)"

definition r_io_map_overlaps :: "io_map list \<Rightarrow> nat \<Rightarrow> bool option" where
  "r_io_map_overlaps maps k =
     (if k < length maps
      then Some (list_ex (\<lambda>i. i \<noteq> k \<and> mp_from (maps ! i) \<le> mp_from (maps ! k) \<and>
             mp_from (maps ! k) < mp_to (maps ! i)) [0..<length maps])
      else None)"


section \<open>Well-formed maps\<close>

text \<open>No map wraps around the address space.\<close>

definition map_ok :: "io_map \<Rightarrow> bool" where
  "map_ok m \<longleftrightarrow> mp_from m \<le> mp_to m"

definition maps_ok :: "io_map list \<Rightarrow> bool" where
  "maps_ok maps \<longleftrightarrow> list_all map_ok maps"

lemma delete_first_set: "set (snd (delete_first P xs)) \<subseteq> set xs"
  by (induction xs) (auto simp: Let_def split: prod.splits)

lemma update_first_all: "list_all Q xs \<Longrightarrow> (\<And>x. P x \<Longrightarrow> Q x \<Longrightarrow> Q (f x)) \<Longrightarrow> list_all Q (update_first P f xs)"
  by (induction xs) auto

lemma update_first_map: "(\<And>x. g (f x) = g x) \<Longrightarrow> map g (update_first P f xs) = map g xs"
  by (induction xs) auto

lemma update_first_find:
  "find P xs = Some y \<Longrightarrow> list_all Q xs \<Longrightarrow> (P y \<Longrightarrow> Q y \<Longrightarrow> Q (f y)) \<Longrightarrow> list_all Q (update_first P f xs)"
  by (induction xs) (auto split: if_splits)

lemma maps_ok_sub: "maps_ok maps \<Longrightarrow> set ms \<subseteq> set maps \<Longrightarrow> maps_ok ms"
  by (auto simp: maps_ok_def list_all_iff)

lemma no_wrap: "\<not> UT64_MAX - sz < addr \<longleftrightarrow> unat addr + unat sz < 2 ^ 64" for addr sz :: ut64
proof -
  have "uint (UT64_MAX - sz) = 2 ^ 64 - 1 - uint sz"
  proof -
    have r: "0 \<le> uint sz" "uint sz < 2 ^ 64" using uint_lt2p [of sz] by simp_all
    have "uint (UT64_MAX - sz) = (2 ^ 64 - 1 - uint sz) mod 2 ^ 64"
      by (simp add: uint_word_ariths zmod_minus1 mod_simps)
    also have "\<dots> = 2 ^ 64 - 1 - uint sz" using r by (intro mod_pos_pos_trivial) linarith+
    finally show ?thesis .
  qed
  then have "\<not> UT64_MAX - sz < addr \<longleftrightarrow> uint addr + uint sz < 2 ^ 64"
    by (auto simp: word_less_def)
  then show ?thesis
    by (simp flip: of_nat_less_iff [where 'a = int])
qed

lemma end_no_wrap: "unat addr + unat sz < 2 ^ 64 \<Longrightarrow> unat (addr + sz) = unat addr + unat sz" for addr sz :: ut64
  using unat_add_lem [of addr sz] by simp

lemma map_new_ok: "maps_ok maps \<Longrightarrow> maps_ok (snd (r_io_map_new maps fd fl d a sz))"
  by (auto simp: r_io_map_new_def maps_ok_def map_ok_def Let_def no_wrap word_le_nat_alt end_no_wrap)

lemma map_add_ok: "maps_ok maps \<Longrightarrow> maps_ok (snd (r_io_map_add maps fd fl d a sz))"
  by (auto simp: r_io_map_add_def Let_def map_new_ok)

lemma map_next_available_ok:
  "maps_ok maps \<Longrightarrow> r_io_map_add_next_available n maps fd fl d a sz al = Some (r, ms) \<Longrightarrow> maps_ok ms"
proof (induction n arbitrary: a)
  case (Suc n)
  have new: "maps_ok ms" if "r_io_map_new maps fd fl d x sz = (r, ms)" for x
    using map_new_ok [OF Suc.prems(1), of fd fl d x sz] that by simp
  show ?case
    using Suc.prems(2) new Suc.IH [OF Suc.prems(1)]
    by (auto simp: Let_def split: list.splits if_splits)
qed simp

lemma map_write_update_ok: "maps_ok maps \<Longrightarrow> maps_ok (snd (r_io_map_write_update maps fd a len))"
  unfolding r_io_map_write_update_def maps_ok_def
  by (auto simp: map_ok_def split: option.split intro!: update_first_find)

section \<open>Runs of the map operations\<close>

text \<open>
  One step of a client: any of the operations that change \<open>io->maps\<close>. The size given to
  \<open>r_io_map_truncate_update\<close> is added to the start of the map without a check, so its callers must
  not pass one that wraps.
\<close>

inductive map_step :: "io_map list \<Rightarrow> io_map list \<Rightarrow> bool" where
  step_new: "map_step maps (snd (r_io_map_new maps fd fl d a sz))"
| step_add: "map_step maps (snd (r_io_map_add maps fd fl d a sz))"
| step_next: "r_io_map_add_next_available n maps fd fl d a sz al = Some (r, ms) \<Longrightarrow> map_step maps ms"
| step_del: "map_step maps (snd (r_io_map_del maps fd))"
| step_del_at: "map_step maps (snd (r_io_map_del_at maps a))"
| step_write: "map_step maps (snd (r_io_map_write_update maps fd a len))"
| step_truncate: "\<forall>m. r_io_map_resolve maps fd = Some m \<longrightarrow> unat (mp_from m) + unat sz < 2 ^ 64 \<Longrightarrow>
    map_step maps (snd (r_io_map_truncate_update maps fd sz))"

lemma map_step_ok: "map_step maps ms \<Longrightarrow> maps_ok maps \<Longrightarrow> maps_ok ms"
proof (induction rule: map_step.induct)
  case (step_truncate maps fd sz)
  then show ?case
    unfolding r_io_map_truncate_update_def maps_ok_def r_io_map_resolve_def
    by (auto simp: map_ok_def word_le_nat_alt end_no_wrap split: option.split intro!: update_first_find)
qed (auto simp: map_new_ok map_add_ok map_write_update_ok r_io_map_del_def r_io_map_del_at_def
    dest: map_next_available_ok intro: maps_ok_sub [OF _ delete_first_set] elim: maps_ok_sub)


definition demo_map :: io_map where
  "demo_map = \<lparr>mp_fd = 3, mp_flags = 7, mp_delta = 0, mp_from = 0x1000, mp_to = 0x2000\<rparr>"


section \<open>Lookup\<close>

lemma map_next_fold:
  "nxt \<noteq> 0 \<Longrightarrow>
   foldl (\<lambda>nxt m. if mp_from m > addr \<and> (nxt = 0 \<or> mp_from m < nxt) then mp_from m else nxt) nxt maps =
   Min (insert nxt {mp_from m | m. m \<in> set maps \<and> mp_from m > addr})"
proof (induction maps arbitrary: nxt)
  case (Cons x xs)
  let ?F = "{mp_from m | m. m \<in> set xs \<and> mp_from m > addr}"
  have fin: "finite ?F" by simp
  show ?case
  proof (cases "mp_from x > addr")
    case True
    then have eq: "{mp_from m | m. m \<in> set (x # xs) \<and> mp_from m > addr} = insert (mp_from x) ?F" by auto
    have pos: "mp_from x \<noteq> 0" using True word_zero_le [of addr] by auto
    have two: "Min (insert a (insert b A)) = Min (insert (min a b) A)" if "finite A" for a b :: ut64 and A
      using that by (cases "A = {}") (simp_all add: min.assoc)
    have "Min (insert nxt (insert (mp_from x) ?F)) = Min (insert (min nxt (mp_from x)) ?F)"
      by (rule two [OF fin])
    then show ?thesis
      using True Cons.IH [of "mp_from x"] Cons.IH [of nxt] Cons.prems pos unfolding eq
      by (auto simp: min_def)
  next
    case False
    then have "{mp_from m | m. m \<in> set (x # xs) \<and> mp_from m > addr} = ?F" by auto
    then show ?thesis using False Cons by simp
  qed
qed simp

text \<open>\<open>r_io_map_next\<close> finds the lowest start of a map above an address, and gives \<open>UT64_MAX\<close> when
  there is none.\<close>
theorem map_next_is_least:
  "r_io_map_next maps addr = Min (insert UT64_MAX {mp_from m | m. m \<in> set maps \<and> mp_from m > addr})"
  unfolding r_io_map_next_def by (rule map_next_fold) simp

section \<open>Placement of new maps\<close>

text \<open>A map accepted by \<open>r_io_map_add\<close> is exactly the requested range, and every older map of the same
  descriptor is disjoint from it or lies entirely inside it (the two tests of the code look at the
  end points only, so an enclosing range is accepted).\<close>
theorem map_add_apart:
  assumes "r_io_map_add maps fd fl d addr sz = (Some m, ms)"
  shows "ms = maps @ [m] \<and> mp_fd m = fd \<and> mp_from m = addr \<and> unat (mp_to m) = unat addr + unat sz \<and>
    (\<forall>m' \<in> set maps. mp_fd m' = fd \<longrightarrow>
       {mp_from m' ..< mp_to m'} \<inter> {mp_from m ..< mp_to m} = {} \<or>
       {mp_from m' ..< mp_to m'} \<subseteq> {mp_from m ..< mp_to m})"
proof -
  have new: "r_io_map_new maps fd fl d addr sz = (Some m, ms)"
    and free: "\<forall>m' \<in> set maps. mp_fd m' = fd \<longrightarrow> \<not> (mp_from m' \<le> addr \<and> addr < mp_to m') \<and>
      \<not> (mp_from m' \<le> addr + sz \<and> addr + sz < mp_to m')"
    using assms by (auto simp: r_io_map_add_def Let_def list_ex_iff split: if_splits)
  from new have m: "ms = maps @ [m]" "mp_fd m = fd" "mp_from m = addr" "mp_to m = addr + sz"
    and "\<not> UT64_MAX - sz < addr"
    by (auto simp: r_io_map_new_def Let_def split: if_splits)
  then have "unat (addr + sz) = unat addr + unat sz" by (simp add: no_wrap end_no_wrap)
  moreover have "{mp_from m' ..< mp_to m'} \<inter> {addr ..< addr + sz} = {} \<or>
       {mp_from m' ..< mp_to m'} \<subseteq> {addr ..< addr + sz}" if "m' \<in> set maps" "mp_fd m' = fd" for m'
  proof -
    have "\<not> (mp_from m' \<le> addr \<and> addr < mp_to m')" "\<not> (mp_from m' \<le> addr + sz \<and> addr + sz < mp_to m')"
      using free that by auto
    then show ?thesis by (auto simp: not_le not_less)
  qed
  ultimately show ?thesis using m by simp
qed

theorem map_add_apart_witness:
  "\<exists>m ms. r_io_map_add [demo_map] 3 7 0 0x3000 0x100 = (Some m, ms) \<and>
    ms = [demo_map, m] \<and> unat (mp_to m) = 0x3100"
proof -
  have "fst (r_io_map_add [demo_map] 3 7 0 0x3000 0x100) \<noteq> None" by code_simp
  then obtain m ms where r: "r_io_map_add [demo_map] 3 7 0 0x3000 0x100 = (Some m, ms)"
    by (metis prod.collapse option.exhaust_sel)
  from map_add_apart [OF r] r show ?thesis by auto
qed

lemma after_above:
  fixes to al :: ut64
  assumes "al \<noteq> 0" "unat to + unat al < 2 ^ 64"
  shows "to < to + (al - to mod al)" "unat (to + (al - to mod al)) \<le> unat to + unat al"
proof -
  have pos: "0 < unat al" using assms(1) by (simp add: unat_gt_0)
  have m: "unat (to mod al) < unat al" using pos by (simp add: unat_mod)
  then have d: "unat (al - to mod al) = unat al - unat (to mod al)"
    by (intro unat_sub) (simp add: word_le_nat_alt)
  then have "unat to + unat (al - to mod al) < 2 ^ 64" using assms(2) by linarith
  then have "unat (to + (al - to mod al)) = unat to + (unat al - unat (to mod al))"
    using end_no_wrap d by simp
  then show "to < to + (al - to mod al)" "unat (to + (al - to mod al)) \<le> unat to + unat al"
    using m by (simp_all add: word_less_nat_alt)
qed



end
