(* ===== verification/R2_IO_Section.thy ===== *)
theory R2_IO_Section
  imports R2_IO_Map
begin

text \<open>
  The sections of the IO layer (\<^verbatim>\<open>libr/io/section.c\<close>): named ranges that relate virtual addresses to
  offsets in the file. \<open>io->sections\<close> and \<open>io->next_section_id\<close> form the record \<open>io_sections\<close>. The
  listing functions and the cache pointer \<open>io->section\<close>, which nothing reads, are left out.
\<close>

record io_section =
  sc_name :: string
  sc_offset :: ut64
  sc_vaddr :: ut64
  sc_size :: ut64
  sc_vsize :: ut64
  sc_rwx :: "32 word"
  sc_id :: int
  sc_arch :: int
  sc_bits :: int
  sc_bin_id :: ut32
  sc_fd :: int

record io_sections =
  ss_sections :: "io_section list"
  ss_next_id :: int

abbreviation (input) R_IO_EXEC :: "32 word" where "R_IO_EXEC \<equiv> 1"
abbreviation (input) R_IO_WRITE :: "32 word" where "R_IO_WRITE \<equiv> 2"
abbreviation (input) R_IO_READ :: "32 word" where "R_IO_READ \<equiv> 4"
abbreviation (input) R_IO_MAP :: "32 word" where "R_IO_MAP \<equiv> 16"

definition r_io_section_init :: io_sections where
  "r_io_section_init = \<lparr>ss_sections = [], ss_next_id = 0\<rparr>"

section \<open>Adding and removing\<close>

definition r_io_section_get_name :: "io_sections \<Rightarrow> string option \<Rightarrow> io_section option" where
  "r_io_section_get_name io name = (case name of
     None \<Rightarrow> None
   | Some nm \<Rightarrow> find (\<lambda>s. sc_name s = nm) (ss_sections io))"

definition matching :: "ut64 \<Rightarrow> ut64 \<Rightarrow> ut64 \<Rightarrow> ut64 \<Rightarrow> io_section \<Rightarrow> bool" where
  "matching paddr vaddr sz vsz s \<longleftrightarrow>
     sc_offset s = paddr \<and> sc_vaddr s = vaddr \<and> sc_size s = sz \<and> sc_vsize s = vsz"

definition rename_section :: "32 word \<Rightarrow> string option \<Rightarrow> io_section \<Rightarrow> io_section" where
  "rename_section rwx name s =
     s\<lparr>sc_rwx := rwx, sc_name := (case name of None \<Rightarrow> sc_name s | Some nm \<Rightarrow> nm)\<rparr>"

definition findMatching ::
  "io_sections \<Rightarrow> ut64 \<Rightarrow> ut64 \<Rightarrow> ut64 \<Rightarrow> ut64 \<Rightarrow> 32 word \<Rightarrow> string option \<Rightarrow> (io_section \<times> io_sections) option" where
  "findMatching io paddr vaddr sz vsz rwx name =
     (case find (matching paddr vaddr sz vsz) (ss_sections io) of
        None \<Rightarrow> None
      | Some s \<Rightarrow> Some (rename_section rwx name s,
          io\<lparr>ss_sections := update_first (matching paddr vaddr sz vsz) (rename_section rwx name)
                (ss_sections io)\<rparr>))"

definition fill_section ::
  "ut64 \<Rightarrow> ut64 \<Rightarrow> ut64 \<Rightarrow> ut64 \<Rightarrow> 32 word \<Rightarrow> ut32 \<Rightarrow> int \<Rightarrow> io_section \<Rightarrow> io_section" where
  "fill_section offset vaddr sz vsz rwx bin_id fd s =
     s\<lparr>sc_offset := offset, sc_vaddr := vaddr, sc_size := sz, sc_vsize := vsz, sc_rwx := rwx,
       sc_arch := 0, sc_bits := 0, sc_bin_id := bin_id, sc_fd := fd\<rparr>"

definition blank_section :: "int \<Rightarrow> string \<Rightarrow> io_section" where
  "blank_section id0 name = \<lparr>sc_name = name, sc_offset = 0, sc_vaddr = 0, sc_size = 0, sc_vsize = 0,
     sc_rwx = 0, sc_id = id0, sc_arch = 0, sc_bits = 0, sc_bin_id = 0, sc_fd = 0\<rparr>"

definition r_io_section_add ::
  "io_sections \<Rightarrow> ut64 \<Rightarrow> ut64 \<Rightarrow> ut64 \<Rightarrow> ut64 \<Rightarrow> 32 word \<Rightarrow> string option \<Rightarrow> ut32 \<Rightarrow> int \<Rightarrow>
   io_section option \<times> io_sections" where
  "r_io_section_add io offset vaddr sz vsz rwx name bin_id fd =
     (if sz = 0 \<or> sz = UT64_MAX \<or> sz = ucast UT32_MAX then (None, io)
      else case findMatching io offset vaddr sz vsz rwx name of
        Some (s, io) \<Rightarrow> (Some s, io)
      | None \<Rightarrow>
        let fill = fill_section offset vaddr sz vsz rwx bin_id fd in
        (case r_io_section_get_name io name of
           Some s \<Rightarrow> (Some (fill s), io\<lparr>ss_sections :=
               update_first (\<lambda>s. Some (sc_name s) = name) fill (ss_sections io)\<rparr>)
         | None \<Rightarrow>
             let s = fill (blank_section (ss_next_id io) (case name of None \<Rightarrow> [] | Some nm \<Rightarrow> nm))
             in (Some s, \<lparr>ss_sections = ss_sections io @ [s], ss_next_id = ss_next_id io + 1\<rparr>)))"

definition r_io_section_get_i :: "io_sections \<Rightarrow> int \<Rightarrow> io_section option" where
  "r_io_section_get_i io idx = find (\<lambda>s. sc_id s = idx) (ss_sections io)"

definition r_io_section_rm :: "io_sections \<Rightarrow> int \<Rightarrow> bool \<times> io_sections" where
  "r_io_section_rm io idx =
     (let (r, ss) = delete_first (\<lambda>s. sc_id s = idx) (ss_sections io)
      in (r, io\<lparr>ss_sections := ss\<rparr>))"

definition r_io_section_rm_all :: "io_sections \<Rightarrow> int \<Rightarrow> io_sections" where
  "r_io_section_rm_all io fd =
     io\<lparr>ss_sections := filter (\<lambda>s. \<not> (sc_fd s = fd \<or> fd = - 1)) (ss_sections io)\<rparr>"

definition r_io_section_clear :: "io_sections \<Rightarrow> io_sections" where
  "r_io_section_clear io = io\<lparr>ss_sections := []\<rparr>"

section \<open>Lookup by address\<close>

definition in_vrange :: "ut64 \<Rightarrow> io_section \<Rightarrow> bool" where
  "in_vrange vaddr s \<longleftrightarrow> vaddr \<ge> sc_vaddr s \<and> vaddr < sc_vaddr s + sc_vsize s"

definition in_mrange :: "ut64 \<Rightarrow> io_section \<Rightarrow> bool" where
  "in_mrange maddr s \<longleftrightarrow> maddr \<ge> sc_offset s \<and> maddr < sc_offset s + sc_size s"

definition mapped :: "io_section \<Rightarrow> bool" where
  "mapped s \<longleftrightarrow> sc_rwx s AND R_IO_MAP \<noteq> 0"

definition r_io_section_vget :: "io_sections \<Rightarrow> ut64 \<Rightarrow> io_section option" where
  "r_io_section_vget io vaddr = find (in_vrange vaddr) (ss_sections io)"

definition r_io_section_mget_in :: "io_sections \<Rightarrow> ut64 \<Rightarrow> io_section option" where
  "r_io_section_mget_in io maddr = find (in_mrange maddr) (ss_sections io)"

definition r_io_section_mget_prev :: "io_sections \<Rightarrow> ut64 \<Rightarrow> io_section option" where
  "r_io_section_mget_prev io maddr = find (in_mrange maddr) (rev (ss_sections io))"

definition r_io_section_get_offset :: "io_sections \<Rightarrow> ut64 \<Rightarrow> ut64" where
  "r_io_section_get_offset io maddr =
     (case r_io_section_mget_in io maddr of Some s \<Rightarrow> sc_offset s | None \<Rightarrow> UT64_MAX)"

definition r_io_section_get_vaddr :: "io_sections \<Rightarrow> ut64 \<Rightarrow> ut64" where
  "r_io_section_get_vaddr io maddr =
     (case r_io_section_mget_in io maddr of Some s \<Rightarrow> sc_vaddr s | None \<Rightarrow> UT64_MAX)"

definition r_io_section_get_rwx :: "io_sections \<Rightarrow> ut64 \<Rightarrow> 32 word" where
  "r_io_section_get_rwx io offset = (case r_io_section_mget_in io offset of
     Some s \<Rightarrow> sc_rwx s | None \<Rightarrow> R_IO_READ OR R_IO_WRITE OR R_IO_EXEC)"

definition r_io_section_vaddr_to_maddr :: "io_sections \<Rightarrow> ut64 \<Rightarrow> ut64" where
  "r_io_section_vaddr_to_maddr io vaddr =
     (case find (\<lambda>s. mapped s \<and> in_vrange vaddr s) (ss_sections io) of
        Some s \<Rightarrow> vaddr - sc_vaddr s + sc_offset s
      | None \<Rightarrow> UT64_MAX)"

definition r_io_section_vaddr_to_maddr_try :: "io_sections \<Rightarrow> ut64 \<Rightarrow> ut64" where
  "r_io_section_vaddr_to_maddr_try io vaddr =
     (let res = r_io_section_vaddr_to_maddr io vaddr in if res = UT64_MAX then vaddr else res)"

definition r_io_section_maddr_to_vaddr :: "io_sections \<Rightarrow> ut64 \<Rightarrow> ut64" where
  "r_io_section_maddr_to_vaddr io offset = (case r_io_section_mget_prev io offset of
     Some s \<Rightarrow> sc_vaddr s + offset - sc_offset s | None \<Rightarrow> UT64_MAX)"

text \<open>The result is that of \<open>rwx & hasperm\<close>, or 1.\<close>

definition r_io_section_exists_for_paddr :: "io_sections \<Rightarrow> ut64 \<Rightarrow> 32 word \<Rightarrow> 32 word" where
  "r_io_section_exists_for_paddr io paddr hasperm = (case r_io_section_mget_in io paddr of
     Some s \<Rightarrow> if hasperm \<noteq> 0 then sc_rwx s AND hasperm else 1 | None \<Rightarrow> 0)"

definition r_io_section_exists_for_vaddr :: "io_sections \<Rightarrow> ut64 \<Rightarrow> 32 word \<Rightarrow> 32 word" where
  "r_io_section_exists_for_vaddr io vaddr hasperm = (case r_io_section_vget io vaddr of
     Some s \<Rightarrow> if hasperm \<noteq> 0 then sc_rwx s AND hasperm else 1 | None \<Rightarrow> 0)"

definition r_io_section_next :: "io_sections \<Rightarrow> ut64 \<Rightarrow> ut64" where
  "r_io_section_next io o' =
     foldl (\<lambda>newsec s.
       let newsec = (if sc_vaddr s > o' \<and> sc_vaddr s < newsec then sc_vaddr s else newsec);
           addr = sc_vaddr s + sc_vsize s
       in if addr > o' \<and> addr < newsec then sc_vaddr s else newsec) UT64_MAX (ss_sections io)"

text \<open>\<open>k\<close> is the position of the section whose pointer the caller passes.\<close>

fun overlaps_scan :: "io_section \<Rightarrow> nat \<Rightarrow> nat \<Rightarrow> int \<Rightarrow> io_section list \<Rightarrow> int" where
  "overlaps_scan s k j i [] = - 1"
| "overlaps_scan s k j i (s2 # ss) =
     (if \<not> mapped s then overlaps_scan s k (Suc j) i ss
      else if j \<noteq> k \<and> (if sc_offset s \<ge> sc_offset s2 then sc_offset s2 + sc_size s2 < sc_offset s
                       else sc_offset s + sc_size s < sc_offset s2)
      then i
      else overlaps_scan s k (Suc j) (i + 1) ss)"

definition r_io_section_overlaps :: "io_sections \<Rightarrow> nat \<Rightarrow> int option" where
  "r_io_section_overlaps io k =
     (if k < length (ss_sections io)
      then Some (overlaps_scan (ss_sections io ! k) k 0 0 (ss_sections io)) else None)"

section \<open>Range queries\<close>

definition range_hits :: "ut64 \<Rightarrow> ut64 \<Rightarrow> ut64 \<Rightarrow> ut64 \<Rightarrow> 'a \<Rightarrow> 'a list" where
  "range_hits sec_from sec_to addr endaddr x =
     (if sec_from \<le> addr \<and> addr < sec_to then [x] else []) @
     (if sec_from < endaddr \<and> endaddr < sec_to then [x] else []) @
     (if addr \<le> sec_from \<and> sec_to \<le> endaddr then [x] else [])"

definition r_io_section_get_in_paddr_range :: "io_sections \<Rightarrow> ut64 \<Rightarrow> ut64 \<Rightarrow> io_section list" where
  "r_io_section_get_in_paddr_range io addr endaddr =
     concat (map (\<lambda>s. if mapped s
       then range_hits (sc_offset s) (sc_offset s + sc_size s) addr endaddr s else []) (ss_sections io))"

definition r_io_section_get_in_vaddr_range :: "io_sections \<Rightarrow> ut64 \<Rightarrow> ut64 \<Rightarrow> io_section list" where
  "r_io_section_get_in_vaddr_range io addr endaddr =
     concat (map (\<lambda>s. if mapped s
       then range_hits (sc_vaddr s) (sc_vaddr s + sc_vsize s) addr endaddr s else []) (ss_sections io))"

text \<open>
  The loops of the two functions below leave the loop variable on the last element when that one is
  skipped by \<open>continue\<close>: a last section without the map bit is returned although it was not tested.
\<close>

fun first_in_range :: "(io_section \<Rightarrow> bool) \<Rightarrow> io_section option \<Rightarrow> io_section list \<Rightarrow> io_section option" where
  "first_in_range P s0 [] = s0"
| "first_in_range P s0 (s # ss) =
     (if \<not> mapped s then first_in_range P (Some s) ss
      else if P s then Some s
      else first_in_range P None ss)"

definition r_io_section_get_first_in_paddr_range :: "io_sections \<Rightarrow> ut64 \<Rightarrow> ut64 \<Rightarrow> io_section option" where
  "r_io_section_get_first_in_paddr_range io addr endaddr =
     first_in_range (\<lambda>s. range_hits (sc_offset s) (sc_offset s + sc_size s) addr endaddr () \<noteq> [])
       None (ss_sections io)"

definition r_io_section_get_first_in_vaddr_range :: "io_sections \<Rightarrow> ut64 \<Rightarrow> ut64 \<Rightarrow> io_section option" where
  "r_io_section_get_first_in_vaddr_range io addr endaddr =
     first_in_range (\<lambda>s. range_hits (sc_vaddr s) (sc_vaddr s + sc_vsize s) addr endaddr () \<noteq> [])
       None (ss_sections io)"

section \<open>Architecture of a section\<close>

text \<open>\<open>r_sys_arch_id\<close>, \<open>r_sys_arch_str\<close> are given by the caller as the number and the name.\<close>

definition set_archbits :: "int option \<Rightarrow> int \<Rightarrow> io_section \<Rightarrow> io_section" where
  "set_archbits arch bits s = (case arch of
     Some a \<Rightarrow> s\<lparr>sc_arch := a, sc_bits := bits\<rparr> | None \<Rightarrow> s\<lparr>sc_arch := 0, sc_bits := 0\<rparr>)"

definition r_io_section_set_archbits :: "io_sections \<Rightarrow> ut64 \<Rightarrow> int option \<Rightarrow> int \<Rightarrow> bool \<times> io_sections" where
  "r_io_section_set_archbits io addr arch bits = (case r_io_section_vget io addr of
     None \<Rightarrow> (False, io)
   | Some _ \<Rightarrow> (True, io\<lparr>ss_sections := update_first (in_vrange addr) (set_archbits arch bits)
                   (ss_sections io)\<rparr>))"

definition r_io_section_get_archbits :: "io_sections \<Rightarrow> ut64 \<Rightarrow> (int \<times> int) option" where
  "r_io_section_get_archbits io addr = (case r_io_section_vget io addr of
     None \<Rightarrow> None
   | Some s \<Rightarrow> if sc_bits s = 0 \<or> sc_arch s = 0 then None else Some (sc_arch s, sc_bits s))"

definition bin_hit :: "ut64 \<Rightarrow> ut32 \<Rightarrow> io_section \<Rightarrow> bool" where
  "bin_hit vaddr bin_id s \<longleftrightarrow> mapped s \<and> sc_bin_id s = bin_id \<and> in_vrange vaddr s"

definition r_io_section_getv_bin_id :: "io_sections \<Rightarrow> ut64 \<Rightarrow> ut32 \<Rightarrow> io_section option" where
  "r_io_section_getv_bin_id io vaddr bin_id = find (bin_hit vaddr bin_id) (ss_sections io)"

definition r_io_section_set_archbits_bin_id ::
  "io_sections \<Rightarrow> ut64 \<Rightarrow> int option \<Rightarrow> int \<Rightarrow> ut32 \<Rightarrow> bool \<times> io_sections" where
  "r_io_section_set_archbits_bin_id io addr arch bits bin_id = (case r_io_section_getv_bin_id io addr bin_id of
     None \<Rightarrow> (False, io)
   | Some _ \<Rightarrow> (True, io\<lparr>ss_sections := update_first (bin_hit addr bin_id) (set_archbits arch bits)
                   (ss_sections io)\<rparr>))"

section \<open>Section identifiers\<close>

definition sections_ok :: "io_sections \<Rightarrow> bool" where
  "sections_ok io \<longleftrightarrow> distinct (map sc_id (ss_sections io)) \<and>
     list_all (\<lambda>s. 0 \<le> sc_id s \<and> sc_id s < ss_next_id io \<and> sc_size s \<noteq> 0) (ss_sections io) \<and>
     0 \<le> ss_next_id io"

lemma delete_first_distinct:
  "distinct (map f xs) \<Longrightarrow> distinct (map f (snd (delete_first P xs)))"
proof (induction xs)
  case (Cons x xs)
  then show ?case using delete_first_set [of P xs] by (auto simp: Let_def split: prod.splits)
qed simp

lemma sections_ok_update:
  "sections_ok io \<Longrightarrow> (\<And>s. sc_id (f s) = sc_id s) \<Longrightarrow> (\<And>s. sc_size s \<noteq> 0 \<Longrightarrow> sc_size (f s) \<noteq> 0) \<Longrightarrow>
   sections_ok (io\<lparr>ss_sections := update_first P f (ss_sections io)\<rparr>)"
  by (auto simp: sections_ok_def update_first_map intro!: update_first_all)

lemma sections_ok_sub:
  "sections_ok io \<Longrightarrow> distinct (map sc_id ss) \<Longrightarrow> set ss \<subseteq> set (ss_sections io) \<Longrightarrow>
   sections_ok (io\<lparr>ss_sections := ss\<rparr>)"
  by (auto simp: sections_ok_def list_all_iff)

lemma rename_simps [simp]:
  "sc_id (rename_section rwx name s) = sc_id s" "sc_size (rename_section rwx name s) = sc_size s"
  "sc_id (fill_section o' v sz vsz rwx b fd s) = sc_id s" "sc_size (fill_section o' v sz vsz rwx b fd s) = sz"
  "sc_id (set_archbits a n s) = sc_id s" "sc_size (set_archbits a n s) = sc_size s"
  by (simp_all add: rename_section_def fill_section_def set_archbits_def split: option.split)

lemma section_add_ok:
  assumes "sections_ok io"
  shows "sections_ok (snd (r_io_section_add io o' v sz vsz rwx name b fd))"
proof -
  have "sections_ok \<lparr>ss_sections = ss_sections io @ [fill_section o' v sz vsz rwx b fd (blank_section (ss_next_id io) nm)],
      ss_next_id = ss_next_id io + 1\<rparr>" if "sz \<noteq> 0" for nm
    using assms that by (auto simp: sections_ok_def list_all_iff blank_section_def)
  then show ?thesis
    using assms unfolding r_io_section_add_def findMatching_def
    by (auto simp: Let_def split: option.split intro!: sections_ok_update)
qed

text \<open>A step of a client of the sections: any operation that changes them.\<close>

inductive section_step :: "io_sections \<Rightarrow> io_sections \<Rightarrow> bool" where
  "section_step io (snd (r_io_section_add io o' v sz vsz rwx name b fd))"
| "section_step io (snd (r_io_section_rm io i))"
| "section_step io (r_io_section_rm_all io fd)"
| "section_step io (r_io_section_clear io)"
| "section_step io (snd (r_io_section_set_archbits io a arch n))"
| "section_step io (snd (r_io_section_set_archbits_bin_id io a arch n b))"

lemma section_step_ok: "section_step io io' \<Longrightarrow> sections_ok io \<Longrightarrow> sections_ok io'"
proof (induction rule: section_step.induct)
  case (2 io i)
  then show ?case
    using delete_first_set [of "\<lambda>s. sc_id s = i" "ss_sections io"]
      delete_first_distinct [of sc_id "ss_sections io" "\<lambda>s. sc_id s = i"]
    by (auto simp: r_io_section_rm_def Let_def split_beta sections_ok_def list_all_iff)
next
  case (3 io fd)
  then show ?case
    unfolding r_io_section_rm_all_def by (auto simp: sections_ok_def distinct_map_filter list_all_iff)
qed (auto simp: section_add_ok r_io_section_clear_def r_io_section_set_archbits_def
    r_io_section_set_archbits_bin_id_def sections_ok_sub split: option.split intro!: sections_ok_update)

lemma find_distinct:
  "distinct (map f xs) \<Longrightarrow> x \<in> set xs \<Longrightarrow> find (\<lambda>y. f y = f x) xs = Some x"
  by (induction xs) auto


definition demo_sections :: io_sections where
  "demo_sections = snd (r_io_section_add (snd (r_io_section_add r_io_section_init
     0x400 0x1000 0x200 0x300 0x15 (Some ''.text'') 1 3)) 0x800 0x2000 0x100 0x100 0x16 (Some ''.data'') 1 3)"


section \<open>Address translation\<close>

text \<open>A section whose ranges do not wrap, backed by the file over its whole virtual size.\<close>

definition section_backed :: "io_section \<Rightarrow> bool" where
  "section_backed s \<longleftrightarrow> unat (sc_vaddr s) + unat (sc_vsize s) < 2 ^ 64 \<and>
     unat (sc_offset s) + unat (sc_size s) < 2 ^ 64"

definition file_disjoint :: "io_sections \<Rightarrow> bool" where
  "file_disjoint io \<longleftrightarrow> (\<forall>a. card {s \<in> set (ss_sections io). in_mrange a s} \<le> 1)"

lemma in_range_unat:
  fixes a base sz :: ut64
  assumes "unat base + unat sz < 2 ^ 64"
  shows "base \<le> a \<and> a < base + sz \<longleftrightarrow> unat base \<le> unat a \<and> unat a < unat base + unat sz"
  using end_no_wrap [OF assms] by (simp add: word_le_nat_alt word_less_nat_alt)

lemma find_SomeD: "find P xs = Some x \<Longrightarrow> x \<in> set xs \<and> P x"
  by (induction xs) (auto split: if_splits)

lemma find_rev_unique:
  assumes "card {s \<in> set xs. P s} \<le> 1" "x \<in> set xs" "P x"
  shows "find P (rev xs) = Some x"
proof -
  have "find P (rev xs) \<noteq> None" using assms(2,3) by (auto simp: find_None_iff)
  then obtain y where y: "find P (rev xs) = Some y" by auto
  then have "y \<in> set xs" "P y" using find_SomeD [OF y] by simp_all
  moreover have "\<forall>a \<in> {s \<in> set xs. P s}. \<forall>b \<in> {s \<in> set xs. P s}. a = b"
    using assms(1) card_le_Suc0_iff_eq [of "{s \<in> set xs. P s}"] by simp
  ultimately have "y = x" using assms(2,3) by blast
  then show ?thesis using y by simp
qed


lemma demo_sections_eq: "ss_sections demo_sections =
   [\<lparr>sc_name = ''.text'', sc_offset = 0x400, sc_vaddr = 0x1000, sc_size = 0x200, sc_vsize = 0x300,
      sc_rwx = 0x15, sc_id = 0, sc_arch = 0, sc_bits = 0, sc_bin_id = 1, sc_fd = 3\<rparr>,
    \<lparr>sc_name = ''.data'', sc_offset = 0x800, sc_vaddr = 0x2000, sc_size = 0x100, sc_vsize = 0x100,
      sc_rwx = 0x16, sc_id = 1, sc_arch = 0, sc_bits = 0, sc_bin_id = 1, sc_fd = 3\<rparr>]"
  by code_simp


end
