(* ===== verification/R2_IO_Undo.thy ===== *)
theory R2_IO_Undo
  imports R2_IO_Section
begin

text \<open>
  The history of seeks (\<^verbatim>\<open>libr/io/undo.c\<close>): a ring of \<open>R_IO_UNDOS\<close> entries with a position and the
  numbers of entries that can be undone and redone. The specification is a history with a past, a
  present and a future, each a list; the ring refines it. Writing outside the array has no result.
\<close>

abbreviation (input) R_IO_UNDOS :: int where "R_IO_UNDOS \<equiv> 64"

type_synonym io_undos = "ut64 \<times> int"

record io_undo =
  un_s_enable :: int
  un_w_enable :: int
  un_w_init :: int
  un_idx :: int
  un_undos :: int
  un_redos :: int
  un_seek :: "io_undos list"

section \<open>Operations\<close>

definition r_io_sundo_reset :: "io_undo \<Rightarrow> io_undo" where
  "r_io_sundo_reset u = u\<lparr>un_idx := 0, un_undos := 0, un_redos := 0\<rparr>"

definition r_io_undo_init :: "io_undo \<Rightarrow> io_undo" where
  "r_io_undo_init u = (r_io_sundo_reset u)\<lparr>un_w_init := 0, un_w_enable := 0\<rparr>"

definition r_io_undo_enable :: "io_undo \<Rightarrow> int \<Rightarrow> int \<Rightarrow> io_undo" where
  "r_io_undo_enable u s w = u\<lparr>un_s_enable := s, un_w_enable := w\<rparr>"

definition seek_set :: "io_undo \<Rightarrow> int \<Rightarrow> io_undos \<Rightarrow> io_undo option" where
  "seek_set u i x =
     (if 0 \<le> i \<and> i < int (length (un_seek u))
      then Some (u\<lparr>un_seek := (un_seek u)[nat i := x]\<rparr>) else None)"

text \<open>The entry gone to, if any; \<open>io->off\<close> becomes its translated offset (\<open>undo_off\<close>).\<close>

definition r_io_sundo :: "ut64 \<Rightarrow> io_undo \<Rightarrow> (io_undos option \<times> io_undo) option" where
  "r_io_sundo offset u =
     (if un_s_enable u = 0 \<or> un_undos u = 0 then Some (None, u)
      else do {
        u \<leftarrow> (if un_redos u = 0 then seek_set u (un_idx u) (offset, 0) else Some u);
        (let u = u\<lparr>un_idx := c_mod (un_idx u - 1 + R_IO_UNDOS) R_IO_UNDOS,
                   un_undos := un_undos u - 1, un_redos := un_redos u + 1\<rparr>
         in do { x \<leftarrow> nth_opt (un_seek u) (un_idx u); Some (Some x, u) }) })"

definition r_io_sundo_redo :: "io_undo \<Rightarrow> (io_undos option \<times> io_undo) option" where
  "r_io_sundo_redo u =
     (if un_s_enable u = 0 \<or> un_redos u = 0 then Some (None, u)
      else let u = u\<lparr>un_idx := c_mod (un_idx u + 1) R_IO_UNDOS,
                     un_undos := un_undos u + 1, un_redos := un_redos u - 1\<rparr>
           in do { x \<leftarrow> nth_opt (un_seek u) (un_idx u); Some (Some x, u) })"

definition undo_off :: "io_sections \<Rightarrow> ut64 \<Rightarrow> io_undos option \<Rightarrow> ut64" where
  "undo_off secs off r = (case r of
     None \<Rightarrow> off | Some (o', _) \<Rightarrow> r_io_section_vaddr_to_maddr_try secs o')"

definition r_io_sundo_push :: "ut64 \<Rightarrow> int \<Rightarrow> io_undo \<Rightarrow> io_undo option" where
  "r_io_sundo_push off cursor u =
     (if un_s_enable u = 0 then Some u
      else do {
        dup \<leftarrow> (if un_idx u > 0
               then do { x \<leftarrow> nth_opt (un_seek u) (un_idx u - 1); Some (x = (off, cursor)) }
               else Some False);
        (if dup then Some u
         else do {
           u \<leftarrow> seek_set u (un_idx u) (off, cursor);
           Some (u\<lparr>un_idx := c_mod (un_idx u + 1) R_IO_UNDOS,
                   un_undos := (if un_undos u < R_IO_UNDOS - 1 then un_undos u + 1 else un_undos u),
                   un_redos := 0\<rparr>) }) })"

section \<open>The ring as a history\<close>

definition ring_ok :: "io_undo \<Rightarrow> bool" where
  "ring_ok u \<longleftrightarrow> length (un_seek u) = 64 \<and> 0 \<le> un_idx u \<and> un_idx u < 64 \<and>
     0 \<le> un_undos u \<and> 0 \<le> un_redos u \<and> un_undos u + un_redos u \<le> 63"

definition slot :: "io_undo \<Rightarrow> int \<Rightarrow> io_undos" where
  "slot u i = un_seek u ! nat (i mod 64)"

definition past :: "io_undo \<Rightarrow> io_undos list" where
  "past u = map (\<lambda>k. slot u (un_idx u - 1 - int k)) [0..<nat (un_undos u)]"

definition future :: "io_undo \<Rightarrow> io_undos list" where
  "future u = map (\<lambda>k. slot u (un_idx u + 1 + int k)) [0..<nat (un_redos u)]"

definition recorded :: "io_undo \<Rightarrow> io_undos \<Rightarrow> bool" where
  "recorded u x \<longleftrightarrow> un_idx u > 0 \<and> slot u (un_idx u - 1) = x"

lemma slot_nth: "0 \<le> i \<Longrightarrow> i < 64 \<Longrightarrow> slot u i = un_seek u ! nat i"
  by (simp add: slot_def)

lemma slot_upd [simp]:
  "slot (u\<lparr>un_idx := a\<rparr>) i = slot u i" "slot (u\<lparr>un_undos := a\<rparr>) i = slot u i"
  "slot (u\<lparr>un_redos := a\<rparr>) i = slot u i"
  by (simp_all add: slot_def)

lemma slot_mod:
  "slot u (i mod 64) = slot u i" "slot u (i mod 64 + d) = slot u (i + d)"
  "slot u (i mod 64 - d) = slot u (i - d)" "slot u (i mod 64 + d + e) = slot u (i + d + e)"
  "slot u (i mod 64 - d - e) = slot u (i - d - e)"
proof -
  have "(i mod 64 + d + e) mod 64 = (i + d + e) mod 64" using mod_add_left_eq [of i 64 "d + e"] by (simp add: add.assoc)
  moreover have "(i mod 64 - d - e) mod 64 = (i - d - e) mod 64"
    using mod_diff_left_eq [of i 64 "d + e"] by (simp add: diff_diff_eq)
  ultimately show "slot u (i mod 64) = slot u i" "slot u (i mod 64 + d) = slot u (i + d)"
    "slot u (i mod 64 - d) = slot u (i - d)" "slot u (i mod 64 + d + e) = slot u (i + d + e)"
    "slot u (i mod 64 - d - e) = slot u (i - d - e)"
    by (simp_all add: slot_def mod_simps)
qed

lemma slot_set:
  assumes "length (un_seek u) = 64"
  shows "slot (u\<lparr>un_seek := (un_seek u)[nat (j mod 64) := x]\<rparr>) i = (if (i - j) mod 64 = 0 then x else slot u i)"
proof -
  have "nat (i mod 64) = nat (j mod 64) \<longleftrightarrow> (i - j) mod 64 = 0"
    by (simp add: eq_nat_nat_iff mod_eq_dvd_iff mod_eq_0_iff_dvd)
  then show ?thesis using assms by (auto simp: slot_def nth_list_update)
qed

lemma ring_seek_set:
  "ring_ok u \<Longrightarrow> seek_set u (un_idx u) x = Some (u\<lparr>un_seek := (un_seek u)[nat (un_idx u mod 64) := x]\<rparr>)"
  by (simp add: seek_set_def ring_ok_def)

lemma far_slot: "0 < d \<Longrightarrow> d < 64 \<Longrightarrow> (d :: int) mod 64 \<noteq> 0" "0 < d \<Longrightarrow> d < 64 \<Longrightarrow> (- d) mod 64 \<noteq> 0"
  by (auto simp: zmod_zminus1_not_zero dest: zmod_zminus1_not_zero)

lemma map_int_upt_Cons:
  "0 < n \<Longrightarrow> map f [0..<nat n] = f 0 # map (\<lambda>k. f (Suc k)) [0..<nat (n - 1)]" for n :: int
proof -
  assume "0 < n"
  then have "nat n = Suc (nat (n - 1))" by simp
  then show ?thesis by (simp add: upt_conv_Cons map_Suc_upt [symmetric] comp_def del: upt_Suc)
qed

lemma past_Cons:
  "0 < un_undos u \<Longrightarrow>
   past u = slot u (un_idx u - 1) # map (\<lambda>k. slot u (un_idx u - 2 - int k)) [0..<nat (un_undos u - 1)]"
  by (simp add: past_def map_int_upt_Cons algebra_simps)

lemma future_Cons:
  "0 < un_redos u \<Longrightarrow>
   future u = slot u (un_idx u + 1) # map (\<lambda>k. slot u (un_idx u + 2 + int k)) [0..<nat (un_redos u - 1)]"
  by (simp add: future_def map_int_upt_Cons algebra_simps)

lemma past_empty: "ring_ok u \<Longrightarrow> past u = [] \<longleftrightarrow> un_undos u = 0"
  by (auto simp: past_def ring_ok_def)

lemma future_empty: "ring_ok u \<Longrightarrow> future u = [] \<longleftrightarrow> un_redos u = 0"
  by (auto simp: future_def ring_ok_def)

text \<open>Undo: the latest entry of the past is returned; what was current goes to the future.\<close>

definition step_back :: "io_undo \<Rightarrow> io_undo" where
  "step_back u = u\<lparr>un_idx := (un_idx u - 1) mod 64, un_undos := un_undos u - 1, un_redos := un_redos u + 1\<rparr>"

lemma step_back_history:
  assumes "ring_ok u" "0 < un_undos u"
  shows "ring_ok (step_back u)" "past u = slot u (un_idx u - 1) # past (step_back u)"
    "future (step_back u) = slot u (un_idx u) # future u"
    "slot (step_back u) (un_idx (step_back u)) = slot u (un_idx u - 1)"
proof -
  show "ring_ok (step_back u)" using assms by (simp add: ring_ok_def step_back_def)
  show "past u = slot u (un_idx u - 1) # past (step_back u)"
    unfolding past_Cons [OF assms(2)] by (simp add: past_def step_back_def slot_mod algebra_simps)
  have pos: "0 < un_redos (step_back u)" using assms(1) by (simp add: ring_ok_def step_back_def)
  show "future (step_back u) = slot u (un_idx u) # future u"
    unfolding future_Cons [OF pos] by (simp add: future_def step_back_def slot_mod) (simp add: add.commute)
  show "slot (step_back u) (un_idx (step_back u)) = slot u (un_idx u - 1)" by (simp add: step_back_def slot_def)
qed

lemma sundo_eq:
  assumes "ring_ok u" "un_s_enable u \<noteq> 0" "0 < un_undos u"
  shows "r_io_sundo offset u =
    (let u1 = (if un_redos u = 0 then u\<lparr>un_seek := (un_seek u)[nat (un_idx u mod 64) := (offset, 0)]\<rparr> else u)
     in Some (Some (slot u1 (un_idx u - 1)), step_back u1))"
proof -
  have m: "c_mod (un_idx u - 1 + 64) 64 = (un_idx u - 1) mod 64"
    using assms(1) mod_add_self2 [of "un_idx u - 1" 64] by (simp add: ring_ok_def)
  have len: "length (un_seek u) = 64" using assms(1) by (simp add: ring_ok_def)
  show ?thesis
    using assms len m by (simp add: r_io_sundo_def ring_seek_set Let_def step_back_def nth_opt_def slot_def)
qed

lemma set_current:
  fixes x :: io_undos
  assumes "ring_ok u" "0 < un_undos u"
  defines "u1 \<equiv> u\<lparr>un_seek := (un_seek u)[nat (un_idx u mod 64) := x]\<rparr>"
  shows "ring_ok u1" "past u1 = past u" "future u1 = future u" "slot u1 (un_idx u) = x"
    "slot u1 (un_idx u - 1) = slot u (un_idx u - 1)" "un_undos u1 = un_undos u" "un_idx u1 = un_idx u"
proof -
  have len: "length (un_seek u) = 64" using assms(1) by (simp add: ring_ok_def)
  note s = slot_set [OF len, of "un_idx u" x]
  show "ring_ok u1" "un_undos u1 = un_undos u" "un_idx u1 = un_idx u" using assms(1) by (simp_all add: ring_ok_def u1_def)
  show "slot u1 (un_idx u) = x" "slot u1 (un_idx u - 1) = slot u (un_idx u - 1)" by (simp_all add: u1_def s)
  have "(- 1 - int k) mod 64 \<noteq> 0" if "k < nat (un_undos u)" for k
  proof -
    have "int k < 63" using that assms(1) by (auto simp: ring_ok_def)
    then show ?thesis using far_slot(2) [of "1 + int k"] by simp
  qed
  then show "past u1 = past u" by (auto simp: past_def u1_def s)
  have "(1 + int k) mod 64 \<noteq> 0" if "k < nat (un_redos u)" for k
  proof -
    have "int k < 63" using that assms(1) by (auto simp: ring_ok_def)
    then show ?thesis using far_slot(1) [of "1 + int k"] by simp
  qed
  then show "future u1 = future u" by (auto simp: future_def u1_def s)
qed

lemma sundo_refines:
  assumes "ring_ok u" "un_s_enable u \<noteq> 0" "past u = x # xs"
  shows "\<exists>u'. r_io_sundo offset u = Some (Some x, u') \<and> ring_ok u' \<and> un_s_enable u' \<noteq> 0 \<and> past u' = xs \<and>
    future u' = (if future u = [] then (offset, 0) else slot u (un_idx u)) # future u \<and>
    slot u' (un_idx u') = x"
proof -
  have pos: "0 < un_undos u" using assms past_empty [OF assms(1)] by (auto simp: ring_ok_def)
  have x: "x = slot u (un_idx u - 1)" using assms(3) past_Cons [OF pos] by simp
  define u1 where "u1 = (if un_redos u = 0
    then u\<lparr>un_seek := (un_seek u)[nat (un_idx u mod 64) := (offset, 0)]\<rparr> else u)"
  have u1: "ring_ok u1" "past u1 = past u" "future u1 = future u" "un_undos u1 = un_undos u" "un_idx u1 = un_idx u"
    "slot u1 (un_idx u - 1) = x" "slot u1 (un_idx u) = (if future u = [] then (offset, 0) else slot u (un_idx u))"
    "un_s_enable u1 \<noteq> 0"
    using set_current [OF assms(1) pos, of "(offset, 0)"] assms(1,2) x future_empty [OF assms(1)]
    by (auto simp: u1_def)
  have pos1: "0 < un_undos u1" using pos u1 by simp
  have "r_io_sundo offset u = Some (Some x, step_back u1)"
    using sundo_eq [OF assms(1,2) pos, of offset] u1(6) by (simp add: u1_def Let_def)
  moreover have "un_s_enable (step_back u1) \<noteq> 0" using u1(8) by (simp add: step_back_def)
  ultimately show ?thesis using step_back_history [OF u1(1) pos1] u1 assms(3) by auto
qed

lemma redo_refines:
  assumes "ring_ok u" "un_s_enable u \<noteq> 0" "future u = y # ys"
  shows "\<exists>u'. r_io_sundo_redo u = Some (Some y, u') \<and> ring_ok u' \<and> un_s_enable u' \<noteq> 0 \<and>
    past u' = slot u (un_idx u) # past u \<and> future u' = ys \<and> slot u' (un_idx u') = y"
proof -
  have pos: "0 < un_redos u" using assms future_empty [OF assms(1)] by (auto simp: ring_ok_def)
  define u' where "u' = u\<lparr>un_idx := (un_idx u + 1) mod 64, un_undos := un_undos u + 1, un_redos := un_redos u - 1\<rparr>"
  have y: "y = slot u (un_idx u + 1)" using assms(3) future_Cons [OF pos] by simp
  have ok: "ring_ok u'" using assms(1) pos by (simp add: ring_ok_def u'_def)
  have m: "c_mod (un_idx u + 1) 64 = (un_idx u + 1) mod 64" using assms(1) by (simp add: ring_ok_def)
  have run: "r_io_sundo_redo u = Some (Some y, u')"
    using assms(1,2) pos m by (simp add: r_io_sundo_redo_def u'_def y nth_opt_def slot_def ring_ok_def)
  have pos': "0 < un_undos u'" using assms(1) by (simp add: u'_def ring_ok_def)
  have "past u' = slot u (un_idx u) # past u"
    unfolding past_Cons [OF pos'] by (simp add: past_def u'_def slot_mod)
  moreover have "future u' = ys"
    using assms(3) unfolding future_Cons [OF pos] by (simp add: future_def u'_def slot_mod) (simp add: add.commute)
  moreover have "slot u' (un_idx u') = y" by (simp add: u'_def y slot_def)
  ultimately show ?thesis using run ok assms(2) by (auto simp: u'_def)
qed

lemma push_refines:
  assumes "ring_ok u" "un_s_enable u \<noteq> 0"
  shows "\<exists>u'. r_io_sundo_push off cursor u = Some u' \<and> ring_ok u' \<and> un_s_enable u' \<noteq> 0 \<and>
    (if recorded u (off, cursor) then u' = u
     else past u' = take 63 ((off, cursor) # past u) \<and> future u' = [] \<and>
       un_idx u' = (un_idx u + 1) mod 64 \<and> un_undos u' = min 63 (un_undos u + 1))"
proof -
  have r: "length (un_seek u) = 64" "0 \<le> un_idx u" "un_idx u < 64" "0 \<le> un_undos u" "un_undos u \<le> 63"
    using assms(1) by (auto simp: ring_ok_def)
  define u1 where "u1 = u\<lparr>un_seek := (un_seek u)[nat (un_idx u mod 64) := (off, cursor)]\<rparr>"
  define n where "n = (if un_undos u < 63 then un_undos u + 1 else un_undos u)"
  define u' where "u' = u1\<lparr>un_idx := (un_idx u + 1) mod 64, un_undos := n, un_redos := 0\<rparr>"
  have n: "0 < n" "n \<le> 63" "nat (n - 1) = min (nat (un_undos u)) 62" using r by (auto simp: n_def)
  have m: "c_mod (un_idx u + 1) 64 = (un_idx u + 1) mod 64" using r by simp
  have run: "r_io_sundo_push off cursor u = Some (if recorded u (off, cursor) then u else u')"
    using assms r m ring_seek_set [OF assms(1), of "(off, cursor)"]
    by (auto simp: r_io_sundo_push_def recorded_def u'_def u1_def n_def nth_opt_def slot_nth)
  have s: "slot u1 i = (if (i - un_idx u) mod 64 = 0 then (off, cursor) else slot u i)" for i
    unfolding u1_def by (rule slot_set [OF r(1)])
  have far: "(- 1 - int k) mod 64 \<noteq> 0" if "k < nat (n - 1)" for k
    using that n far_slot(2) [of "1 + int k"] by simp
  have pos: "0 < un_undos u'" using n by (simp add: u'_def)
  have "past u' = (off, cursor) # map (\<lambda>k. slot u (un_idx u - 1 - int k)) [0..<nat (n - 1)]"
  proof -
    have "slot u' (un_idx u' - 1) = (off, cursor)" using s [of "un_idx u"] by (simp add: u'_def slot_mod)
    moreover have "slot u' (un_idx u' - 2 - int k) = slot u1 (un_idx u - 1 - int k)" for k
      by (simp add: u'_def slot_mod)
    ultimately show ?thesis unfolding past_Cons [OF pos] using far by (simp add: u'_def s)
  qed
  also have "\<dots> = take 63 ((off, cursor) # past u)"
    by (cases "nat (un_undos u) \<le> 62") (simp_all add: past_def take_map n(3))
  finally have "past u' = take 63 ((off, cursor) # past u)" .
  moreover have "future u' = []" by (simp add: future_def u'_def)
  moreover have "ring_ok u'" using r n by (simp add: ring_ok_def u'_def u1_def)
  moreover have "un_idx u' = (un_idx u + 1) mod 64" "un_undos u' = min 63 (un_undos u + 1)"
    using r by (auto simp: u'_def n_def)
  moreover have "un_s_enable u' \<noteq> 0" using assms(2) by (simp add: u'_def u1_def)
  ultimately show ?thesis using run assms by auto
qed

section \<open>What a history promises\<close>

text \<open>
  The contract between the seek history and its users: \<open>past\<close> and \<open>future\<close> are the entries in the
  order they will be visited, \<open>here\<close> is the current one.
\<close>

locale seek_history =
  fixes ok :: "'u \<Rightarrow> bool" and past future :: "'u \<Rightarrow> 'e list" and here :: "'u \<Rightarrow> 'e"
    and undo :: "'o \<Rightarrow> 'u \<Rightarrow> ('e option \<times> 'u) option" and redo :: "'u \<Rightarrow> ('e option \<times> 'u) option"
    and entry :: "'o \<Rightarrow> 'e"
  assumes undo: "ok u \<Longrightarrow> past u = x # xs \<Longrightarrow> \<exists>u'. undo o' u = Some (Some x, u') \<and> ok u' \<and> past u' = xs \<and>
      future u' = (if future u = [] then entry o' else here u) # future u \<and> here u' = x"
    and redo: "ok u \<Longrightarrow> future u = y # ys \<Longrightarrow> \<exists>u'. redo u = Some (Some y, u') \<and> ok u' \<and>
      past u' = here u # past u \<and> future u' = ys \<and> here u' = y"
begin

fun undo_n :: "nat \<Rightarrow> 'o \<Rightarrow> 'u \<Rightarrow> ('e option list \<times> 'u) option" where
  "undo_n 0 o' u = Some ([], u)"
| "undo_n (Suc n) o' u = do { (x, u) \<leftarrow> undo o' u; (xs, u) \<leftarrow> undo_n n o' u; Some (x # xs, u) }"

lemma undo_n_past:
  "ok u \<Longrightarrow> n \<le> length (past u) \<Longrightarrow>
   \<exists>u'. undo_n n o' u = Some (map Some (take n (past u)), u') \<and> ok u' \<and> past u' = drop n (past u)"
proof (induction n arbitrary: u)
  case (Suc n)
  then obtain x xs where p: "past u = x # xs" by (cases "past u") auto
  from undo [OF Suc.prems(1) p, of o'] obtain u1 where
    u1: "undo o' u = Some (Some x, u1)" "ok u1" "past u1 = xs" by blast
  from Suc.IH [OF u1(2)] show ?case using u1 p Suc.prems by auto
qed simp

lemma undo_then_redo:
  assumes "ok u" "past u = x # xs"
  shows "\<exists>u1 u2. undo o' u = Some (Some x, u1) \<and>
    redo u1 = Some (Some (if future u = [] then entry o' else here u), u2) \<and>
    ok u2 \<and> past u2 = past u \<and> future u2 = future u"
proof -
  from undo [OF assms, of o'] obtain u1 where u1: "undo o' u = Some (Some x, u1)" "ok u1" "past u1 = xs"
    "future u1 = (if future u = [] then entry o' else here u) # future u" "here u1 = x" by blast
  from redo [OF u1(2,4)] show ?thesis using u1 assms(2) by auto
qed

end

definition enabled_ring :: "io_undo \<Rightarrow> bool" where
  "enabled_ring u \<longleftrightarrow> ring_ok u \<and> un_s_enable u \<noteq> 0"

interpretation ring: seek_history enabled_ring past future "\<lambda>u. slot u (un_idx u)" r_io_sundo
  r_io_sundo_redo "\<lambda>offset. (offset, 0)"
  using sundo_refines redo_refines by unfold_locales (auto simp: enabled_ring_def)

fun push_all :: "io_undos list \<Rightarrow> io_undo \<Rightarrow> io_undo option" where
  "push_all [] u = Some u"
| "push_all ((off, cursor) # xs) u = do { u \<leftarrow> r_io_sundo_push off cursor u; push_all xs u }"

fun undo_times :: "nat \<Rightarrow> ut64 \<Rightarrow> io_undo \<Rightarrow> (io_undos option list \<times> io_undo) option" where
  "undo_times 0 o' u = Some ([], u)"
| "undo_times (Suc n) o' u = do { (x, u) \<leftarrow> r_io_sundo o' u; (xs, u) \<leftarrow> undo_times n o' u; Some (x # xs, u) }"

lemma undo_times_eq: "undo_times n o' u = ring.undo_n n o' u"
  by (induction n arbitrary: u) (simp_all add: split_beta cong: option.case_cong)

text \<open>While the ring has not wrapped, an entry counts as recorded exactly when it is the latest one.\<close>

lemma recorded_latest:
  "ring_ok u \<Longrightarrow> un_idx u = un_undos u \<Longrightarrow> recorded u x \<longleftrightarrow> past u \<noteq> [] \<and> hd (past u) = x"
  using past_empty [of u] past_Cons [of u] by (auto simp: recorded_def ring_ok_def)

lemma push_all_past:
  assumes "enabled_ring u" "un_idx u = un_undos u" "distinct_adj (rev (past u) @ xs)"
    "length (past u) + length xs \<le> 63"
  shows "\<exists>u'. push_all xs u = Some u' \<and> enabled_ring u' \<and> past u' = rev xs @ past u"
  using assms
proof (induction xs arbitrary: u)
  case (Cons x xs)
  obtain off cursor where x: "x = (off, cursor)" by force
  have ok: "ring_ok u" "un_s_enable u \<noteq> 0" using Cons.prems(1) by (simp_all add: enabled_ring_def)
  have "\<not> recorded u x"
    using recorded_latest [OF ok(1) Cons.prems(2), of x] Cons.prems(3)
    by (cases "past u") (auto simp: distinct_adj_append_iff)
  with push_refines [OF ok, of off cursor] obtain u1 where u1:
    "r_io_sundo_push off cursor u = Some u1" "enabled_ring u1" "past u1 = take 63 (x # past u)"
    "un_idx u1 = (un_idx u + 1) mod 64" "un_undos u1 = min 63 (un_undos u + 1)"
    by (auto simp: x enabled_ring_def)
  have len: "length (past u) = nat (un_undos u)" by (simp add: past_def)
  have "past u1 = x # past u" using u1(3) Cons.prems(4) by simp
  moreover have "un_idx u1 = un_undos u1" using u1(4,5) len Cons.prems(2,4) ok(1) by (simp add: ring_ok_def)
  ultimately show ?case using Cons.IH [OF u1(2)] Cons.prems(3,4) u1(1) by (simp add: x)
qed simp

section \<open>Properties\<close>


definition demo_ring :: io_undo where
  "demo_ring = \<lparr>un_s_enable = 1, un_w_enable = 0, un_w_init = 0, un_idx = 0, un_undos = 0, un_redos = 0,
     un_seek = replicate 64 (0, 0)\<rparr>"

lemma demo_ring_ok: "ring_ok demo_ring" "un_s_enable demo_ring \<noteq> 0"
  by (simp_all add: demo_ring_def ring_ok_def)


text \<open>Redo takes back an undo: it returns to the position the undo was made at, and past and future
  are what they were.\<close>
theorem seek_undo_redo:
  assumes "ring_ok u" "un_s_enable u \<noteq> 0" "past u \<noteq> []"
  shows "\<exists>x u1 u2. r_io_sundo offset u = Some (Some x, u1) \<and> x = hd (past u) \<and>
    r_io_sundo_redo u1 = Some (Some (if future u = [] then (offset, 0) else slot u (un_idx u)), u2) \<and>
    past u2 = past u \<and> future u2 = future u"
proof -
  obtain x xs where p: "past u = x # xs" using assms(3) by (cases "past u") auto
  have "enabled_ring u" using assms by (simp add: enabled_ring_def)
  from ring.undo_then_redo [OF this p, of offset] show ?thesis unfolding p by (metis list.sel(1))
qed

theorem seek_undo_redo_witness:
  "\<exists>u x u1 u2. r_io_sundo_push 0x1000 0 demo_ring = Some u \<and> r_io_sundo 0x2000 u = Some (Some x, u1) \<and>
    r_io_sundo_redo u1 = Some (Some (0x2000, 0), u2) \<and> past u2 = past u"
proof -
  have "\<not> recorded demo_ring (0x1000, 0)" by (simp add: recorded_def demo_ring_def)
  with push_refines [OF demo_ring_ok, of "0x1000" 0] obtain u where u: "r_io_sundo_push 0x1000 0 demo_ring = Some u"
    "ring_ok u" "un_s_enable u \<noteq> 0" "past u \<noteq> []" "future u = []" by auto
  from seek_undo_redo [OF u(2-4), of "0x2000"] u show ?thesis by auto
qed

text \<open>No operation of the seek history reads or writes outside its 64 entries, in whatever order they are
  called: each is defined on a well-formed ring and leaves one.\<close>
theorem seek_history_safe:
  assumes "ring_ok u"
  shows "(\<exists>r u'. r_io_sundo offset u = Some (r, u') \<and> ring_ok u') \<and>
    (\<exists>r u'. r_io_sundo_redo u = Some (r, u') \<and> ring_ok u') \<and>
    (\<exists>u'. r_io_sundo_push off cursor u = Some u' \<and> ring_ok u') \<and> ring_ok (r_io_sundo_reset u)"
proof (cases "un_s_enable u = 0")
  case True
  then show ?thesis using assms
    by (simp add: r_io_sundo_def r_io_sundo_redo_def r_io_sundo_push_def r_io_sundo_reset_def ring_ok_def)
next
  case False
  have "\<exists>r u'. r_io_sundo offset u = Some (r, u') \<and> ring_ok u'"
  proof (cases "past u")
    case Nil
    then show ?thesis using assms past_empty [OF assms] by (simp add: r_io_sundo_def)
  next
    case (Cons x xs)
    then show ?thesis using sundo_refines [OF assms False] by metis
  qed
  moreover have "\<exists>r u'. r_io_sundo_redo u = Some (r, u') \<and> ring_ok u'"
  proof (cases "future u")
    case Nil
    then show ?thesis using assms future_empty [OF assms] by (simp add: r_io_sundo_redo_def)
  next
    case (Cons x xs)
    then show ?thesis using redo_refines [OF assms False] by metis
  qed
  moreover have "\<exists>u'. r_io_sundo_push off cursor u = Some u' \<and> ring_ok u'"
    using push_refines [OF assms False] by metis
  moreover have "ring_ok (r_io_sundo_reset u)" using assms by (simp add: r_io_sundo_reset_def ring_ok_def)
  ultimately show ?thesis by blast
qed

theorem seek_history_safe_witness:
  "ring_ok demo_ring \<and> (\<exists>u'. r_io_sundo_push 0x1000 0 demo_ring = Some u' \<and> ring_ok u')"
  using demo_ring_ok(1) seek_history_safe [OF demo_ring_ok(1), of _ "0x1000" 0] by blast

end
