(* ===== verification/R2_IO.thy ===== *)
theory R2_IO
  imports R2_IO_Undo
begin

text \<open>
  The state of the IO layer and its lower half (\<^verbatim>\<open>libr/io/io.c\<close>, \<^verbatim>\<open>desc.c\<close>, \<^verbatim>\<open>cache.c\<close>,
  \<open>r_io_map_select\<close> of \<^verbatim>\<open>map.c\<close>, and the block cache of \<^verbatim>\<open>libr/util/cache.c\<close>).

  \<^item> \<open>rio\<close> is \<open>RIO\<close>. Descriptors are shared (\<open>io->desc\<close> points to one of \<open>io->files\<close>), so they live in a
    store and pointers are positions in it.
  \<^item> \<open>'d\<close> is the type of \<open>desc->data\<close>, and a plugin is the record of its callbacks over it. \<open>pl_read\<close> and
    \<open>pl_lseek\<close> stand for the callback or, when a plugin has none, for \<open>read\<close> and \<open>lseek\<close> on the file of the
    descriptor. A callback gets the data of the descriptor and no access to the rest of the state.
  \<^item> The case \<open>io->plugin == NULL\<close> with a descriptor in use, in which the code calls POSIX functions
    on the number of the descriptor, has no result here (\<open>None\<close>), like undefined behaviour.
  \<^item> Block devices, for which \<open>r_io_size\<close> asks the operating system, are left out.
  \<^item> The variable \<open>readcache\<close> of the file is never set, so the code it guards is left out.
  \<^item> \<open>io_garbage\<close> gives the contents of memory fresh from \<open>malloc\<close>, which never fails.
\<close>

section \<open>Data\<close>

record 'd io_plugin =
  pl_name :: string
  pl_listener :: "('d \<Rightarrow> bool) option"
  pl_read :: "'d \<Rightarrow> ut8 list \<Rightarrow> int \<Rightarrow> ((int \<times> ut8 list) \<times> 'd) option"
  pl_write :: "('d \<Rightarrow> ut8 list \<Rightarrow> int \<Rightarrow> (int \<times> 'd) option) option"
  pl_lseek :: "'d \<Rightarrow> ut64 \<Rightarrow> int \<Rightarrow> ut64 \<times> 'd"
  pl_resize :: "('d \<Rightarrow> ut64 \<Rightarrow> (bool \<times> 'd) option) option"
  pl_extend :: "('d \<Rightarrow> ut64 \<Rightarrow> (int \<times> 'd) option) option"
  pl_close :: "('d \<Rightarrow> int \<times> 'd) option"

record 'd io_desc =
  ds_fd :: int
  ds_flags :: int
  ds_plugin :: "'d io_plugin"
  ds_data :: 'd

record io_cache =
  ch_from :: ut64
  ch_to :: ut64
  ch_size :: int
  ch_data :: "ut8 list"
  ch_odata :: "ut8 list"
  ch_written :: bool

record io_undo_w =
  uw_set :: bool
  uw_off :: ut64
  uw_o :: "ut8 list"
  uw_n :: "ut8 list"
  uw_len :: int

text \<open>\<open>RCache\<close>: one block of bytes at an address.\<close>

record rcache =
  rc_base :: ut64
  rc_buf :: "ut8 list option"
  rc_len :: ut64

record 'd rio =
  io_desc :: "nat option"
  io_enforce_rwx :: "32 word"
  io_cached :: int
  io_cached_read :: int
  io_off :: ut64
  io_debug :: bool
  io_raised :: int
  io_va :: bool
  io_raw :: bool
  io_vio :: bool
  io_sectonly :: bool
  io_write_mask_fd :: int
  io_write_mask_buf :: "ut8 list"
  io_plugin :: "'d io_plugin option"
  io_undo :: io_undo
  io_w_list :: "io_undo_w list"
  io_secs :: io_sections
  io_maps :: "io_map list"
  io_store :: "'d io_desc list"
  io_files :: "nat list"
  io_cache :: "io_cache list"
  io_buffer :: rcache
  io_buffer_enabled :: bool
  io_ff :: bool
  io_Oxff :: ut8
  io_autofd :: bool
  io_garbage :: "nat \<Rightarrow> ut8"

text \<open>Integers of type \<open>int\<close>: a sum outside 32 bits is undefined.\<close>

definition c_add :: "int \<Rightarrow> int \<Rightarrow> int option" where
  "c_add a b = (if - (2 ^ 31) \<le> a + b \<and> a + b < 2 ^ 31 then Some (a + b) else None)"

text \<open>\<open>memset\<close> and an operation on \<open>buf + off\<close>.\<close>

definition mem_fill :: "ut8 list \<Rightarrow> int \<Rightarrow> int \<Rightarrow> ut8 \<Rightarrow> ut8 list option" where
  "mem_fill buf off n v =
     (if 0 \<le> off \<and> 0 \<le> n then buf_write buf (nat off) (replicate (nat n) v) else None)"

definition at_offset :: "ut8 list \<Rightarrow> int \<Rightarrow> (ut8 list \<Rightarrow> (('a \<times> ut8 list) \<times> 's) option) \<Rightarrow>
    (('a \<times> ut8 list) \<times> 's) option" where
  "at_offset buf off f =
     (if 0 \<le> off \<and> off \<le> int (length buf)
      then do { ((r, b), s) \<leftarrow> f (drop (nat off) buf); Some ((r, take (nat off) buf @ b), s) }
      else None)"

section \<open>The block cache\<close>

definition r_cache_new :: rcache where
  "r_cache_new = \<lparr>rc_base = 0, rc_buf = None, rc_len = 0\<rparr>"

text \<open>The position in the block, and what is stored through \<open>len\<close>, if anything.\<close>

definition r_cache_get :: "rcache \<Rightarrow> ut64 \<Rightarrow> int option \<times> int option" where
  "r_cache_get c addr = (case rc_buf c of
     None \<Rightarrow> (None, None)
   | Some _ \<Rightarrow>
       if addr < rc_base c \<or> addr > rc_base c + rc_len c
       then (None, Some (c_int (rc_base c - addr)))
       else (Some (uint (addr - rc_base c)), Some (c_int (rc_len c - (addr - rc_base c)))))"

definition r_cache_set :: "(nat \<Rightarrow> ut8) \<Rightarrow> rcache \<Rightarrow> ut64 \<Rightarrow> ut8 list \<Rightarrow> int \<Rightarrow> (int \<times> rcache) option" where
  "r_cache_set garbage c addr buf len = do {
     src \<leftarrow> (if 0 \<le> len then buf_read buf 0 (nat len) else None);
     (case rc_buf c of
        None \<Rightarrow> Some (len, \<lparr>rc_base = addr, rc_buf = Some src, rc_len = of_int len\<rparr>)
      | Some old \<Rightarrow>
          if addr < rc_base c then
            (let baselen = c_int (rc_base c - addr);
                 newlen = c_int (of_int baselen + (if of_int len > rc_len c then of_int len else rc_base c))
             in if baselen < 0 \<or> newlen < 0 then None
                else do {
                  prev \<leftarrow> buf_read old 0 (unat (rc_len c));
                  b \<leftarrow> buf_write (replicate (nat newlen) 0xff) (nat baselen) prev;
                  b \<leftarrow> buf_write b 0 src;
                  Some (newlen, \<lparr>rc_base = addr, rc_buf = Some b, rc_len = of_int newlen\<rparr>) })
          else if addr + of_int len > rc_base c + rc_len c then
            (let baselen = c_int (addr - rc_base c) in do {
               newlen \<leftarrow> c_add baselen len;
               (if baselen < 0 \<or> newlen < 0 then None
                else do {
                  b \<leftarrow> buf_write (take (nat newlen) old @ map garbage [length old..<nat newlen]) (nat baselen) src;
                  Some (newlen, c\<lparr>rc_buf := Some b, rc_len := of_int newlen\<rparr>) }) })
          else do {
            b \<leftarrow> buf_write old 0 src;
            Some (c_int (rc_len c), c\<lparr>rc_buf := Some b\<rparr>) }) }"

definition r_cache_flush :: "rcache \<Rightarrow> rcache" where
  "r_cache_flush c = \<lparr>rc_base = 0, rc_buf = None, rc_len = 0\<rparr>"

section \<open>Descriptors\<close>

definition desc_at :: "'d rio \<Rightarrow> nat \<Rightarrow> 'd io_desc option" where
  "desc_at io k = (if k < length (io_store io) then Some (io_store io ! k) else None)"

definition cur_desc :: "'d rio \<Rightarrow> (nat \<times> 'd io_desc) option" where
  "cur_desc io = do { k \<leftarrow> io_desc io; d \<leftarrow> desc_at io k; Some (k, d) }"

definition set_data :: "'d rio \<Rightarrow> nat \<Rightarrow> 'd \<Rightarrow> 'd rio" where
  "set_data io k d = io\<lparr>io_store := (io_store io)[k := (io_store io ! k)\<lparr>ds_data := d\<rparr>]\<rparr>"

definition r_io_desc_get :: "'d rio \<Rightarrow> int \<Rightarrow> nat option" where
  "r_io_desc_get io fd =
     (if fd < 0 then None
      else find (\<lambda>k. map_option ds_fd (desc_at io k) = Some fd) (io_files io))"

definition r_io_desc_add :: "'d rio \<Rightarrow> 'd io_desc \<Rightarrow> (int \<times> nat) \<times> 'd rio" where
  "r_io_desc_add io d =
     (let k = length (io_store io); io' = io\<lparr>io_store := io_store io @ [d]\<rparr> in
      case r_io_desc_get io (ds_fd d) of
        None \<Rightarrow> ((0, k), io'\<lparr>io_files := io_files io @ [k]\<rparr>)
      | Some _ \<Rightarrow> ((1, k), io'))"

definition r_io_raise :: "'d rio \<Rightarrow> int \<Rightarrow> 'd rio" where
  "r_io_raise io fd = io\<lparr>io_raised := fd\<rparr>"

definition r_io_use_desc :: "'d rio \<Rightarrow> nat option \<Rightarrow> bool \<times> 'd rio" where
  "r_io_use_desc io d = (case d of
     None \<Rightarrow> (False, io)
   | Some k \<Rightarrow> (True, io\<lparr>io_desc := Some k, io_plugin := map_option ds_plugin (desc_at io k)\<rparr>))"

definition r_io_use_fd :: "'d rio \<Rightarrow> int \<Rightarrow> nat option \<times> 'd rio" where
  "r_io_use_fd io fd = (case r_io_desc_get io fd of
     None \<Rightarrow> (None, io)
   | Some k \<Rightarrow> (Some k, io\<lparr>io_desc := Some k, io_plugin := map_option ds_plugin (desc_at io k)\<rparr>))"

definition r_io_is_listener :: "'d rio \<Rightarrow> bool" where
  "r_io_is_listener io = (case (io_plugin io, cur_desc io) of
     (Some pl, Some (_, d)) \<Rightarrow> (case pl_listener pl of Some f \<Rightarrow> f (ds_data d) | None \<Rightarrow> False)
   | _ \<Rightarrow> False)"

section \<open>Seeking\<close>

abbreviation (input) R_IO_SEEK_SET :: int where "R_IO_SEEK_SET \<equiv> 0"
abbreviation (input) R_IO_SEEK_CUR :: int where "R_IO_SEEK_CUR \<equiv> 1"
abbreviation (input) R_IO_SEEK_END :: int where "R_IO_SEEK_END \<equiv> 2"

definition seek_target :: "'d rio \<Rightarrow> ut64 \<Rightarrow> ut64" where
  "seek_target io offset =
     (if (\<not> io_debug io \<or> \<not> io_raw io) \<and> io_va io \<and> ss_sections (io_secs io) \<noteq> []
      then let o' = r_io_section_vaddr_to_maddr_try (io_secs io) offset
           in if o' \<noteq> UT64_MAX then o' else offset
      else offset)"

definition r_io_seek :: "'d rio \<Rightarrow> ut64 \<Rightarrow> int \<Rightarrow> (ut64 \<times> 'd rio) option" where
  "r_io_seek io offset whence =
     (if io_buffer_enabled io then Some (offset, io\<lparr>io_off := offset\<rparr>)
      else let offset = seek_target io offset in
        if offset = UT64_MAX \<or> io_desc io = None then Some (UT64_MAX, io)
        else do {
          (k, d) \<leftarrow> cur_desc io;
          pl \<leftarrow> io_plugin io;
          (let (ret, data) = pl_lseek pl (ds_data d) offset whence; io = set_data io k data
           in Some (ret, if whence = R_IO_SEEK_SET then io\<lparr>io_off := offset\<rparr> else io)) })"

text \<open>
  The loop of \<open>r_io_map_select\<close>: \<open>fd\<close> is a \<open>ut64\<close> there, which matters for the comparison with
  \<open>io->raised\<close>. The maps searched are those at the start; switching descriptors does not change them.
\<close>

fun select_loop ::
  "ut64 \<Rightarrow> io_map list \<Rightarrow> 'd rio \<Rightarrow> ut64 \<Rightarrow> ut64 \<Rightarrow> ut64 \<Rightarrow> bool \<Rightarrow> ('d rio \<times> ut64 \<times> ut64 \<times> bool)" where
  "select_loop off [] io prevfrom paddr fd found = (io, paddr, fd, found)"
| "select_loop off (im # maps) io prevfrom paddr fd found =
     (let above = off \<ge> mp_from im;
          io = (if above \<and> (prevfrom = 0 \<or> mp_from im < prevfrom) then snd (r_io_use_fd io (mp_fd im)) else io);
          prevfrom = (if above then mp_from im else prevfrom)
      in if above \<and> off < mp_to im
         then let paddr = off - mp_from im + mp_delta im; fd = of_int (mp_fd im)
              in if fd = of_int (io_raised io) then (io, paddr, fd, True)
                 else select_loop off maps io prevfrom paddr fd True
         else select_loop off maps io prevfrom paddr fd found)"

definition r_io_map_select :: "'d rio \<Rightarrow> ut64 \<Rightarrow> (ut64 \<times> 'd rio) option" where
  "r_io_map_select io off =
     (let (io, paddr, fd, found) = select_loop off (io_maps io) io 0 off UT64_MAX False in
      if \<not> found then do {
        (_, io) \<leftarrow> r_io_seek (snd (r_io_use_fd io (c_int fd))) UT64_MAX R_IO_SEEK_SET;
        Some (paddr, io) }
      else if fd = UT64_MAX then do {
        (_, io) \<leftarrow> r_io_seek io off R_IO_SEEK_SET;
        Some (off, io) }
      else do {
        (_, io) \<leftarrow> r_io_seek (snd (r_io_use_fd io (c_int fd))) (if io_debug io then off else paddr) R_IO_SEEK_SET;
        Some (paddr, snd (r_io_use_fd io (c_int fd))) })"

fun select_fd_loop :: "ut64 \<Rightarrow> int \<Rightarrow> io_map list \<Rightarrow> ut64 \<Rightarrow> bool \<Rightarrow> ut64 \<times> bool" where
  "select_fd_loop off fd [] paddr found = (paddr, found)"
| "select_fd_loop off fd (im # maps) paddr found =
     (if mp_fd im = fd \<and> off \<ge> mp_from im \<and> off < mp_to im
      then select_fd_loop off fd maps (off - mp_from im + mp_delta im) True
      else select_fd_loop off fd maps paddr found)"

definition r_io_map_select_current_fd :: "'d rio \<Rightarrow> ut64 \<Rightarrow> int \<Rightarrow> (ut64 \<times> 'd rio) option" where
  "r_io_map_select_current_fd io off fd =
     (let (paddr, found) = select_fd_loop off fd (io_maps io) off False in
      if \<not> found then do { (_, io) \<leftarrow> r_io_seek io UT64_MAX R_IO_SEEK_SET; Some (paddr, io) }
      else if fd = - 1 then do { (_, io) \<leftarrow> r_io_seek io off R_IO_SEEK_SET; Some (off, io) }
      else do {
        (_, io) \<leftarrow> r_io_seek io (if io_debug io then off else paddr) R_IO_SEEK_SET;
        Some (paddr, io) })"

definition r_io_size :: "'d rio \<Rightarrow> (ut64 \<times> 'd rio) option" where
  "r_io_size io =
     (if r_io_is_listener io then Some (UT64_MAX, io)
      else do {
        (here, io') \<leftarrow> r_io_seek (io\<lparr>io_va := False\<rparr>) 0 R_IO_SEEK_CUR;
        (sz, io') \<leftarrow> r_io_seek io' 0 R_IO_SEEK_END;
        (_, io') \<leftarrow> r_io_seek io' here R_IO_SEEK_SET;
        Some (sz, io'\<lparr>io_va := io_va io\<rparr>) })"

definition r_io_read_internal ::
  "'d rio \<Rightarrow> ut8 list \<Rightarrow> int \<Rightarrow> ((int \<times> ut8 list) \<times> 'd rio) option" where
  "r_io_read_internal io buf len = (case io_desc io of
     None \<Rightarrow> Some ((0, buf), io)
   | Some _ \<Rightarrow> do {
       (k, d) \<leftarrow> cur_desc io;
       ((ret, buf), data) \<leftarrow> pl_read (ds_plugin d) (ds_data d) buf len;
       Some ((ret, buf), set_data io k data) })"

section \<open>The cache of writes\<close>

definition r_io_cache_init :: "'d rio \<Rightarrow> 'd rio" where
  "r_io_cache_init io = io\<lparr>io_cache := [], io_cached := 0, io_cached_read := 0\<rparr>"

definition r_io_cache_enable :: "'d rio \<Rightarrow> bool \<Rightarrow> bool \<Rightarrow> 'd rio" where
  "r_io_cache_enable io rd wr =
     io\<lparr>io_cached := (if rd \<or> wr then 1 else 0), io_cached_read := (if rd then 1 else 0)\<rparr>"

definition r_io_cache_reset :: "'d rio \<Rightarrow> int \<Rightarrow> 'd rio" where
  "r_io_cache_reset io set' = io\<lparr>io_cached := set', io_cache := []\<rparr>"

definition r_io_cache_write :: "'d rio \<Rightarrow> ut64 \<Rightarrow> ut8 list \<Rightarrow> int \<Rightarrow> (int \<times> 'd rio) option" where
  "r_io_cache_write io addr buf len =
     (if io_cached io = 2 \<or> len < 0 then Some (0, io)
      else do {
        (r, io') \<leftarrow> r_io_seek io addr R_IO_SEEK_SET;
        ((_, odata), io') \<leftarrow> r_io_read_internal io'
           (if r = UT64_MAX then replicate (nat len) 0xff else map (io_garbage io) [0..<nat len]) len;
        data \<leftarrow> buf_read buf 0 (nat len);
        Some (len, io'\<lparr>io_cache := io_cache io' @ [\<lparr>ch_from = addr, ch_to = addr + of_int len,
            ch_size = len, ch_data = data, ch_odata = odata, ch_written = (io_cached io = 0)\<rparr>]\<rparr>) })"

definition r_range_overlap :: "ut64 \<Rightarrow> ut64 \<Rightarrow> ut64 \<Rightarrow> ut64 \<Rightarrow> int \<times> bool" where
  "r_range_overlap a0 a1 b0 b1 = (c_int (b0 - a0), \<not> (a1 < b0 \<or> a0 > b1))"

definition cache_apply :: "ut64 \<Rightarrow> int \<Rightarrow> io_cache \<Rightarrow> int \<times> ut8 list \<Rightarrow> (int \<times> ut8 list) option" where
  "cache_apply addr len c st =
     (let (covered, buf) = st; (ret, hit) = r_range_overlap addr (addr + of_int len - 1) (ch_from c) (ch_to c) in
      if \<not> hit then Some st
      else let da = (if ret > 0 then ret else 0);
               db = (if ret < 0 then - ret else 0);
               l = ch_size c - db;
               l = (if l + da > len then len - da else l)
           in if l < 1 then Some (covered + 1, buf)
              else do {
                src \<leftarrow> buf_read (ch_data c) (nat db) (nat l);
                buf \<leftarrow> buf_write buf (nat da) src;
                Some (covered + l, buf) })"

fun cache_fold :: "ut64 \<Rightarrow> int \<Rightarrow> io_cache list \<Rightarrow> int \<times> ut8 list \<Rightarrow> (int \<times> ut8 list) option" where
  "cache_fold addr len [] st = Some st"
| "cache_fold addr len (c # cs) st = do { st \<leftarrow> cache_apply addr len c st; cache_fold addr len cs st }"

definition r_io_cache_read :: "'d rio \<Rightarrow> ut64 \<Rightarrow> ut8 list \<Rightarrow> int \<Rightarrow> (int \<times> ut8 list) option" where
  "r_io_cache_read io addr buf len =
     (if len < 0 then Some (0, buf) else cache_fold addr len (io_cache io) (0, buf))"

text \<open>
  \<open>r_io_cache_commit\<close> and \<open>r_io_cache_invalidate\<close> write through \<open>r_io_write_at\<close> with \<open>io->cached\<close> set to 2.
  \<open>r_io_write_at\<close> hands every write to \<open>r_io_cache_write\<close> when \<open>io->cached\<close> is set, whatever its value.
\<close>

definition cached_write_at :: "'d rio \<Rightarrow> ut64 \<Rightarrow> ut8 list \<Rightarrow> int \<Rightarrow> (int \<times> 'd rio) option" where
  "cached_write_at io addr buf len = do {
     (r, io') \<leftarrow> r_io_cache_write (io\<lparr>io_cached := 2\<rparr>) addr buf len;
     Some (r, io'\<lparr>io_cached := io_cached io\<rparr>) }"

definition within :: "ut64 \<Rightarrow> ut64 \<Rightarrow> io_cache \<Rightarrow> bool" where
  "within from to' c \<longleftrightarrow> ch_from c \<ge> from \<and> ch_to c \<le> to'"

definition r_io_cache_commit :: "'d rio \<Rightarrow> ut64 \<Rightarrow> ut64 \<Rightarrow> 'd rio option" where
  "r_io_cache_commit io from to' = (case find (within from to') (io_cache io) of
     None \<Rightarrow> Some io
   | Some c \<Rightarrow> do {
       (r, io) \<leftarrow> cached_write_at io (ch_from c) (ch_data c) (ch_size c);
       Some (if r \<noteq> 0
         then io\<lparr>io_cache := update_first (within from to') (\<lambda>c. c\<lparr>ch_written := True\<rparr>) (io_cache io)\<rparr>
         else io) })"

text \<open>
  After \<open>r_list_delete\<close>, which frees the item, the code still writes to it: dropping an item that was
  not written has no defined result.
\<close>

definition r_io_cache_invalidate :: "'d rio \<Rightarrow> ut64 \<Rightarrow> ut64 \<Rightarrow> (bool \<times> 'd rio) option" where
  "r_io_cache_invalidate io from to' =
     (if \<not> from < to' then Some (False, io)
      else case find (within from to') (io_cache io) of
        None \<Rightarrow> Some (False, io)
      | Some c \<Rightarrow> do {
          (_, io) \<leftarrow> cached_write_at io (ch_from c) (ch_odata c) (ch_size c);
          (if ch_written c
           then Some (True, io\<lparr>io_cache :=
                  update_first (within from to') (\<lambda>c. c\<lparr>ch_written := False\<rparr>) (io_cache io)\<rparr>)
           else None) })"

end
