(* ===== verification/R2_IO_Rw.thy ===== *)
theory R2_IO_Rw
  imports R2_IO
begin

text \<open>
  Reading and writing through the IO layer: \<open>r_io_read_at\<close>, \<open>r_io_read\<close>, \<open>r_io_write\<close>,
  \<open>r_io_write_at\<close> and what is built on them (\<^verbatim>\<open>libr/io/io.c\<close>, \<^verbatim>\<open>buffer.c\<close>, the write history of
  \<^verbatim>\<open>undo.c\<close>), and the address-translating accesses of \<^verbatim>\<open>vio.c\<close>.

  The loop of \<open>r_io_read_at\<close> can take steps of any sign over the address space, so it has fuel, one
  unit per turn; running out of it is \<open>None\<close> as undefined behaviour is, and the properties show
  results, never only "if it returns".
\<close>

section \<open>The block buffer\<close>

definition r_io_buffer_close :: "'d rio \<Rightarrow> 'd rio" where
  "r_io_buffer_close io = io\<lparr>io_buffer := r_cache_flush (io_buffer io), io_buffer_enabled := False\<rparr>"

definition block_read :: "rcache \<Rightarrow> int \<Rightarrow> int \<Rightarrow> ut8 list option" where
  "block_read c pos n = do {
     b \<leftarrow> rc_buf c;
     (if 0 \<le> pos \<and> 0 \<le> n then buf_read b (nat pos) (nat n) else None) }"

definition r_io_buffer_read :: "'d rio \<Rightarrow> ut64 \<Rightarrow> ut8 list \<Rightarrow> int \<Rightarrow> (int \<times> ut8 list) option" where
  "r_io_buffer_read io addr buf len =
     (let c = io_buffer io; (ret, l0) = r_cache_get c addr; l = (case l0 of None \<Rightarrow> 0 | Some n \<Rightarrow> n) in
      case ret of
        None \<Rightarrow>
          if l < 1 \<or> l > len then Some (0, buf)
          else let nxt = l; (ret2, l1) = r_cache_get c (addr + of_int nxt + 1);
                   l = (case l1 of None \<Rightarrow> l | Some n \<Rightarrow> n)
               in (case ret2 of
                     None \<Rightarrow> Some (0, buf)
                   | Some pos \<Rightarrow> do {
                       buf \<leftarrow> (if l < len then mem_fill buf l (len - l) 0xff else Some buf);
                       buf \<leftarrow> mem_fill buf 0 nxt 0xff;
                       src \<leftarrow> block_read c pos (len - nxt);
                       buf \<leftarrow> buf_write buf (nat nxt) src;
                       Some (len, buf) })
      | Some pos \<Rightarrow> do {
          buf \<leftarrow> (if l < len then mem_fill buf l (len - l) 0xff else Some buf);
          src \<leftarrow> block_read c pos (min l len);
          buf \<leftarrow> buf_write buf 0 src;
          Some (min l len, buf) })"

section \<open>r\_io\_read\_at\<close>

text \<open>How a turn of the loop continues: with new \<open>w\<close>, \<open>len\<close>, \<open>l\<close> and \<open>addr\<close>, or with the end of the call.\<close>

datatype turn = Skip int | Finish | Chunk int

text \<open>
  Which bytes the turn is about: \<open>Skip l\<close> jumps over \<open>l\<close> bytes that nothing maps, \<open>Chunk l\<close> reads the
  next \<open>l\<close>. \<open>l0\<close> is the value \<open>l\<close> has from the turn before.
\<close>

definition read_chunk :: "'d rio \<Rightarrow> ut64 \<Rightarrow> int \<Rightarrow> int \<Rightarrow> int \<Rightarrow> turn" where
  "read_chunk io addr w len l0 =
     (let a = addr + of_int w; secs = io_secs io; maps = io_maps io;
          chunk = (\<lambda>l. Chunk (if l < 1 then len else l)) in
      if \<not> a < a + of_int len then chunk (c_int (UT64_MAX - addr + 1))
      else if r_io_section_exists_for_paddr secs a 0 = 0 \<and> r_io_section_exists_for_vaddr secs a 0 = 0 \<and>
              \<not> r_io_map_exists_for_offset maps a \<and> r_io_map_count maps > 0 then
        (case r_io_section_get_first_in_vaddr_range secs a (addr + of_int len + of_int w) of
           Some sec \<Rightarrow>
             if of_int len \<le> UT64_MAX - addr then Skip (if l0 = 0 then 1 else l0)
             else if addr > sc_offset sec then Finish
             else let l = c_int (sc_offset sec - addr) in Skip (if l = 0 then 1 else l)
         | None \<Rightarrow>
           (case r_io_map_get_first_map_in_range maps a (addr + of_int len + of_int w) of
              None \<Rightarrow> Finish
            | Some m \<Rightarrow>
                let l = (if of_int len \<le> mp_from m - addr then l0 else c_int (mp_from m - addr))
                in Skip (if l = 0 then 1 else l)))
      else
        (let last = r_io_section_next secs a;
             last = (if last = a then r_io_map_next maps a else last);
             room = last - addr + of_int w
         in chunk (if of_int len > room then c_int room else len)))"

fun read_at_loop ::
  "nat \<Rightarrow> 'd rio \<Rightarrow> ut64 \<Rightarrow> ut8 list \<Rightarrow> int \<Rightarrow> int \<Rightarrow> int \<Rightarrow> (ut8 list \<times> 'd rio) option" where
  "read_at_loop 0 io addr buf w len l = None"
| "read_at_loop (Suc n) io addr buf w len l0 =
     (if len \<le> 0 then Some (buf, io)
      else case read_chunk io addr w len l0 of
        Finish \<Rightarrow> Some (buf, io)
      | Skip l \<Rightarrow> do {
          w \<leftarrow> c_add w l; len \<leftarrow> c_add len (- l);
          read_at_loop n io addr buf w len l }
      | Chunk l \<Rightarrow> do {
          (let paddr = (if addr = UT64_MAX then 0
                        else if w \<noteq> 0 then r_io_section_vaddr_to_maddr_try (io_secs io) (addr + of_int w)
                        else addr)
           in do {
             (paddr, io) \<leftarrow> (if paddr = UT64_MAX then r_io_map_select io addr else Some (paddr, io));
             (if paddr = UT64_MAX then do {
                w \<leftarrow> c_add w l; len \<leftarrow> c_add len (- l);
                read_at_loop n io addr buf w len l }
              else do {
                (_, io) \<leftarrow> r_io_map_select io addr;
                (let l = (if l > len then len else l); addr = paddr - of_int w in do {
                  (r, io) \<leftarrow> r_io_seek io paddr R_IO_SEEK_SET;
                  buf \<leftarrow> (if r = UT64_MAX then mem_fill buf w l (io_Oxff io) else Some buf);
                  (ms, io) \<leftarrow> r_io_map_select io (addr + of_int w);
                  ((ret, buf), io) \<leftarrow> at_offset buf w (\<lambda>b. r_io_read_internal io b l);
                  buf \<leftarrow> (if ret < 1 then mem_fill buf w l (io_Oxff io) else Some buf);
                  (let l = (if 1 \<le> ret \<and> ret < l then ret else l) in
                   if io_cached io \<noteq> 0 then do {
                     ((_, buf), _) \<leftarrow> at_offset buf w
                        (\<lambda>b. map_option (\<lambda>r. (r, ())) (r_io_cache_read io (addr + of_int w) b len));
                     w \<leftarrow> c_add w l; len \<leftarrow> c_add len (- l);
                     buf \<leftarrow> (if len > 0 then mem_fill buf w len (io_Oxff io) else Some buf);
                     read_at_loop n io addr buf w len l }
                   else if length (io_maps io) > 1 \<and> \<not> io_debug io \<and> c_int ms > 0 then do {
                     buf \<leftarrow> (if r_io_section_maddr_to_vaddr (io_secs io) (addr + of_int w) = UT64_MAX \<and>
                                r_io_section_vaddr_to_maddr_try (io_secs io) (addr + of_int w) = UT64_MAX
                             then mem_fill buf w l (io_Oxff io) else Some buf);
                     Some (buf, io) }
                   else do {
                     w \<leftarrow> c_add w l; len \<leftarrow> c_add len (- l);
                     buf \<leftarrow> (if len > 0 then mem_fill buf w len (io_Oxff io) else Some buf);
                     read_at_loop n io addr buf w len l }) }) }) }) })"

text \<open>
  The entry of the function: restriction to sections, raw access, the block buffer, then the loop.
  \<open>vio\<close> is the alternative path \<open>r_io_read_cr\<close>.
\<close>

definition read_at_plain ::
  "nat \<Rightarrow> 'd rio \<Rightarrow> ut64 \<Rightarrow> ut8 list \<Rightarrow> int \<Rightarrow> int \<Rightarrow> ((int \<times> ut8 list) \<times> 'd rio) option" where
  "read_at_plain fuel io addr buf len olen =
     (if io_raw io then do {
        (r, io) \<leftarrow> r_io_seek io addr R_IO_SEEK_SET;
        buf \<leftarrow> (if r = UT64_MAX then mem_fill buf 0 len (io_Oxff io) else Some buf);
        r_io_read_internal io buf len }
      else let io = io\<lparr>io_off := addr\<rparr> in do {
        buf \<leftarrow> mem_fill buf 0 len (io_Oxff io);
        (if io_buffer_enabled io
         then map_option (\<lambda>(r, buf). ((r, buf), io)) (r_io_buffer_read io addr buf len)
         else do {
           (buf, io) \<leftarrow> read_at_loop fuel io addr buf 0 len 0;
           Some ((olen, buf), io) }) })"

definition read_at_sections ::
  "nat \<Rightarrow> 'd rio \<Rightarrow> ut64 \<Rightarrow> ut8 list \<Rightarrow> int \<Rightarrow> ((int \<times> ut8 list) \<times> 'd rio) option" where
  "read_at_sections fuel io addr buf len =
     (if io_sectonly io \<and> ss_sections (io_secs io) \<noteq> [] \<and>
         r_io_section_exists_for_vaddr (io_secs io) addr 0 = 0
      then do {
        buf \<leftarrow> mem_fill buf 0 len (io_Oxff io);
        (let nxt = r_io_section_next (io_secs io) addr in
         if nxt < addr + of_int len \<and> nxt \<noteq> 0
         then let delta = c_int (nxt - addr)
              in at_offset buf delta (\<lambda>b. read_at_plain fuel io nxt b (len - delta) len)
         else Some ((0, buf), io)) }
      else read_at_plain fuel io addr buf len len)"

section \<open>Virtual addressing\<close>

abbreviation (input) R_FAIL :: int where "R_FAIL \<equiv> - 1"
abbreviation (input) R_ERROR :: int where "R_ERROR \<equiv> - 2"

definition r_io_pread :: "'d rio \<Rightarrow> ut64 \<Rightarrow> ut8 list \<Rightarrow> int \<Rightarrow> ((int \<times> ut8 list) \<times> 'd rio) option" where
  "r_io_pread io paddr buf len =
     (if paddr = UT64_MAX then
        (if io_ff io then do { buf \<leftarrow> mem_fill buf 0 len 0xff; Some ((len, buf), io) }
         else Some ((R_FAIL, buf), io))
      else do {
        (_, io) \<leftarrow> r_io_seek io paddr R_IO_SEEK_SET;
        (if io_buffer_enabled io
         then map_option (\<lambda>(r, buf). ((r, buf), io)) (r_io_buffer_read io (io_off io) buf len)
         else r_io_read_internal io buf len) })"

definition r_io_pwrite :: "'d rio \<Rightarrow> ut64 \<Rightarrow> ut8 list \<Rightarrow> int \<Rightarrow> (int \<times> 'd rio) option" where
  "r_io_pwrite io paddr buf len =
     (let len = (if UT64_MAX - of_int len < paddr then c_int (UT64_MAX - paddr) else len) in do {
        (_, io) \<leftarrow> r_io_seek io paddr R_IO_SEEK_SET;
        (case io_desc io of
           None \<Rightarrow> Some (0, io)
         | Some _ \<Rightarrow> do {
             (k, d) \<leftarrow> cur_desc io;
             f \<leftarrow> pl_write (ds_plugin d);
             (r, data) \<leftarrow> f (ds_data d) buf len;
             Some (r, set_data io k data) }) })"

text \<open>The part of a request that falls into a map: its first address, its offset in the buffer and its length.\<close>

definition clip_to_map :: "io_map \<Rightarrow> ut64 \<Rightarrow> int \<Rightarrow> (ut64 \<times> int \<times> int) option" where
  "clip_to_map m maddr n =
     (let endaddr = maddr + of_int n in
      if endaddr > mp_to m \<and> maddr > mp_to m then None
      else let (endaddr, n) = (if endaddr > mp_to m then (mp_to m, c_int (mp_to m - maddr)) else (endaddr, n)) in
        if maddr < mp_from m then
          (if endaddr < mp_from m \<or> of_int n < mp_from m - maddr then None
           else Some (mp_from m, c_int (mp_from m - maddr), c_int (of_int n - (mp_from m - maddr))))
        else Some (maddr, 0, n))"

text \<open>The map an access goes through; outside the address space the length is cut first.\<close>

definition no_overflow_len :: "ut64 \<Rightarrow> int \<Rightarrow> int" where
  "no_overflow_len maddr len = (if UT64_MAX - of_int len < maddr then c_int (UT64_MAX - maddr) else len)"

definition resolve_map :: "'d rio \<Rightarrow> int \<Rightarrow> ut64 \<Rightarrow> int \<Rightarrow> io_map option" where
  "resolve_map io fd maddr n = (case r_io_map_resolve_in_range (io_maps io) maddr (maddr + of_int n) fd of
     Some m \<Rightarrow> Some m | None \<Rightarrow> r_io_map_resolve (io_maps io) fd)"

definition r_io_mread ::
  "'d rio \<Rightarrow> int \<Rightarrow> ut64 \<Rightarrow> ut8 list \<Rightarrow> int \<Rightarrow> ((int \<times> ut8 list) \<times> 'd rio) option" where
  "r_io_mread io fd maddr buf len =
     (if len < 0 then Some ((R_FAIL, buf), io)
      else let n = no_overflow_len maddr len in
        case resolve_map io fd maddr n of
          None \<Rightarrow> Some ((R_ERROR, buf), io)
        | Some m \<Rightarrow> (case clip_to_map m maddr n of
            None \<Rightarrow> Some ((R_FAIL, buf), io)
          | Some (maddr, d, n) \<Rightarrow> (case r_io_desc_get io fd of
              None \<Rightarrow> Some ((R_ERROR, buf), io)
            | Some k \<Rightarrow> do {
                ((r, buf), io') \<leftarrow> at_offset buf d
                   (\<lambda>b. r_io_pread (io\<lparr>io_desc := Some k\<rparr>) (maddr - mp_from m + mp_delta m) b n);
                Some ((r, buf), io'\<lparr>io_desc := io_desc io\<rparr>) })))"

definition r_io_mwrite :: "'d rio \<Rightarrow> int \<Rightarrow> ut64 \<Rightarrow> ut8 list \<Rightarrow> int \<Rightarrow> (int \<times> 'd rio) option" where
  "r_io_mwrite io fd maddr buf len =
     (if len < 0 then Some (R_FAIL, io)
      else let n = no_overflow_len maddr len in
        case resolve_map io fd maddr n of
          None \<Rightarrow> Some (R_ERROR, io)
        | Some m \<Rightarrow> (case clip_to_map m maddr n of
            None \<Rightarrow> Some (R_FAIL, io)
          | Some (maddr, d, n) \<Rightarrow>
              if (of_int (mp_flags m) :: 32 word) AND R_IO_WRITE = 0 then Some (n, io)
              else (case r_io_desc_get io fd of
                None \<Rightarrow> Some (R_ERROR, io)
              | Some k \<Rightarrow> do {
                  (r, io') \<leftarrow> (if 0 \<le> d \<and> d \<le> int (length buf)
                    then r_io_pwrite (io\<lparr>io_desc := Some k\<rparr>) (maddr - mp_from m + mp_delta m) (drop (nat d) buf) n
                    else None);
                  Some (r, io'\<lparr>io_desc := io_desc io\<rparr>) })))"

text \<open>
  \<open>r_io_vread\<close>: the sections of the range first, then the gaps between them from the maps. The
  state of the loop over the sections: address, length and buffer position reached, gaps found.
\<close>

definition mread_at ::
  "ut8 list \<times> 'd rio \<Rightarrow> ut64 \<Rightarrow> int \<Rightarrow> ut64 \<Rightarrow> int \<Rightarrow> (ut8 list \<times> 'd rio) option" where
  "mread_at st pos fd maddr len = do {
     ((_, buf), io) \<leftarrow> at_offset (fst st) (uint pos) (\<lambda>b. r_io_mread (snd st) fd maddr b len);
     Some (buf, io) }"

fun vread_sections ::
  "ut64 \<Rightarrow> io_section list \<Rightarrow> ut64 \<Rightarrow> int \<Rightarrow> ut64 \<Rightarrow> (ut64 \<times> ut64) list \<Rightarrow> ut8 list \<times> 'd rio \<Rightarrow>
   ((ut64 \<times> ut64) list \<times> (ut8 list \<times> 'd rio)) option" where
  "vread_sections vaddr [] tmp_vaddr tmp_len pos ranges st = Some (ranges, st)"
| "vread_sections vaddr (s # ss) tmp_vaddr tmp_len pos ranges st =
     (if sc_vaddr s = 0 then vread_sections vaddr ss tmp_vaddr tmp_len pos ranges st
      else let gap = sc_vaddr s > tmp_vaddr;
               ranges = (if gap then ranges @ [(tmp_vaddr, sc_vaddr s)] else ranges);
               tmp_len = (if gap then c_int (of_int tmp_len - (sc_vaddr s - vaddr)) else tmp_len);
               pos = (if gap then pos + (sc_vaddr s - vaddr) else pos);
               tmp_vaddr = (if gap then sc_vaddr s else tmp_vaddr);
               vendaddr = min (tmp_vaddr + of_int tmp_len) (sc_vaddr s + sc_vsize s);
               maddr = tmp_vaddr - sc_vaddr s + sc_offset s;
               file_end = sc_offset s + sc_size s
           in do {
             st \<leftarrow> (if maddr > file_end then Some st
                   else mread_at st pos (sc_fd s) maddr
                     (if vendaddr - sc_vaddr s + sc_offset s > file_end then c_int (file_end - maddr)
                      else c_int (vendaddr - tmp_vaddr)));
             vread_sections vaddr ss vendaddr (c_int (of_int tmp_len - (vendaddr - tmp_vaddr)))
               (pos + (vendaddr - tmp_vaddr)) ranges st })"

fun vread_maps ::
  "io_map list \<Rightarrow> ut64 \<Rightarrow> ut64 \<Rightarrow> int \<Rightarrow> ut8 list \<times> 'd rio \<Rightarrow> (ut8 list \<times> 'd rio) option" where
  "vread_maps [] pos addr len st = do {
     (_, d) \<leftarrow> cur_desc (snd st);
     mread_at st pos (ds_fd d) addr len }"
| "vread_maps (m # maps) pos addr len st = do {
     st \<leftarrow> mread_at st pos (mp_fd m) addr len;
     vread_maps maps pos addr len st }"

fun vread_ranges ::
  "ut64 \<Rightarrow> (ut64 \<times> ut64) list \<Rightarrow> ut8 list \<times> 'd rio \<Rightarrow> (ut8 list \<times> 'd rio) option" where
  "vread_ranges vaddr [] st = Some st"
| "vread_ranges vaddr ((from, to') # ranges) st = do {
     st \<leftarrow> vread_maps (r_io_map_get_maps_in_range (io_maps (snd st)) from (to' - from))
            (from - vaddr) from (c_int (to' - from)) st;
     vread_ranges vaddr ranges st }"

definition r_io_vread :: "'d rio \<Rightarrow> ut64 \<Rightarrow> ut8 list \<Rightarrow> int \<Rightarrow> ((int \<times> ut8 list) \<times> 'd rio) option" where
  "r_io_vread io vaddr buf len =
     (if io_desc io = None then Some ((R_ERROR, buf), io)
      else if len < 0 then Some ((R_FAIL, buf), io)
      else let sections = r_io_section_get_in_vaddr_range (io_secs io) vaddr (vaddr + of_int len) in do {
        (buf, io) \<leftarrow> (if sections \<noteq> [] then do {
             (ranges, st) \<leftarrow> vread_sections vaddr sections vaddr len 0 [] (buf, io);
             vread_ranges vaddr ranges st }
           else vread_maps (r_io_map_get_maps_in_range (io_maps io) vaddr (vaddr + of_int len)) 0 vaddr len (buf, io));
        Some ((1, buf), io) })"

definition r_io_read_cr :: "'d rio \<Rightarrow> ut64 \<Rightarrow> ut8 list \<Rightarrow> int \<Rightarrow> ((int \<times> ut8 list) \<times> 'd rio) option" where
  "r_io_read_cr io addr buf len = do {
     buf \<leftarrow> (if io_ff io then mem_fill buf 0 len (io_Oxff io) else Some buf);
     (if io_raw io then do {
        (_, io) \<leftarrow> r_io_seek io addr R_IO_SEEK_SET;
        r_io_read_internal io buf len }
      else do {
        (buf, io) \<leftarrow> (if io_va io then do { ((_, buf), io) \<leftarrow> r_io_vread io addr buf len; Some (buf, io) }
           else vread_maps (r_io_map_get_maps_in_range (io_maps io) addr (addr + of_int len)) 0 addr len (buf, io));
        (_, buf) \<leftarrow> (if io_cached io \<noteq> 0 then r_io_cache_read io addr buf len else Some (0, buf));
        Some ((len, buf), io) }) }"

definition r_io_read_at ::
  "nat \<Rightarrow> 'd rio \<Rightarrow> ut64 \<Rightarrow> ut8 list \<Rightarrow> int \<Rightarrow> ((int \<times> ut8 list) \<times> 'd rio) option" where
  "r_io_read_at fuel io addr buf len =
     (if len < 0 then Some ((0, buf), io)
      else if io_vio io then r_io_read_cr io addr buf len
      else read_at_sections fuel io addr buf len)"

section \<open>Sequential reading and writing\<close>

definition r_io_read :: "nat \<Rightarrow> 'd rio \<Rightarrow> ut8 list \<Rightarrow> int \<Rightarrow> ((int \<times> ut8 list) \<times> 'd rio) option" where
  "r_io_read fuel io buf len =
     (if io_desc io = None \<or> io_off io = UT64_MAX then Some ((- 1, buf), io)
      else if io_enforce_rwx io AND R_IO_READ \<noteq> 0 \<and>
              r_io_section_get_rwx (io_secs io) (io_off io) AND R_IO_READ = 0 then Some ((- 1, buf), io)
      else let vaddr = r_io_section_maddr_to_vaddr (io_secs io) (io_off io);
               vaddr = (if vaddr = UT64_MAX then io_off io else vaddr)
           in do {
             ((ret, buf), io) \<leftarrow> r_io_read_at fuel io vaddr buf len;
             Some ((ret, buf), if ret > 0 then io\<lparr>io_off := io_off io + of_int ret\<rparr> else io) })"

text \<open>\<open>write_data\<close>: the bytes to write after the mask, which also re-reads the place.\<close>

definition write_data :: "nat \<Rightarrow> 'd rio \<Rightarrow> ut8 list \<Rightarrow> int \<Rightarrow> (ut8 list option \<times> 'd rio) option" where
  "write_data fuel io buf len =
     (if io_write_mask_fd io = - 1 then Some (Some buf, io)
      else if len \<le> 0 then Some (None, io)
      else do {
        (_, io) \<leftarrow> r_io_seek io (io_off io) R_IO_SEEK_SET;
        (_, io) \<leftarrow> r_io_read fuel io (map (io_garbage io) [0..<nat len]) len;
        (_, io) \<leftarrow> r_io_seek io (io_off io) R_IO_SEEK_SET;
        src \<leftarrow> buf_read buf 0 (nat len);
        (let mask = io_write_mask_buf io in
         if mask = [] then None
         else Some (Some (map (\<lambda>i. src ! i AND mask ! (i mod length mask)) [0..<nat len]), io)) })"

definition write_through :: "'d rio \<Rightarrow> ut8 list \<Rightarrow> int \<Rightarrow> (int \<times> 'd rio) option" where
  "write_through io buf len = do {
     (_, io') \<leftarrow> r_io_map_select io (io_off io);
     (let io = io'\<lparr>io_off := io_off io\<rparr>;
          io = (case r_io_map_get (io_maps io) (io_off io) of
                  Some m \<Rightarrow> io\<lparr>io_off := io_off io - mp_from m\<rparr> | None \<Rightarrow> io)
      in do {
        pl \<leftarrow> io_plugin io;
        (ret, io) \<leftarrow> (case (pl_write pl, cur_desc io) of
            (None, _) \<Rightarrow> Some (- 1, io)
          | (Some f, Some (k, d)) \<Rightarrow> do { (r, data) \<leftarrow> f (ds_data d) buf len; Some (r, set_data io k data) }
          | (Some f, None) \<Rightarrow> None);
        (if ret = - 1 then
           (if io_cached io \<noteq> 2
            then do { (_, io) \<leftarrow> r_io_cache_invalidate io (io_off io) (io_off io + 1); Some (ret, io) }
            else Some (ret, io))
         else case cur_desc io of
           None \<Rightarrow> Some (ret, io)
         | Some (_, d) \<Rightarrow>
             Some (ret, io\<lparr>io_maps := snd (r_io_map_write_update (io_maps io) (ds_fd d) (io_off io) (of_int ret)),
                           io_off := io_off io + of_int ret\<rparr>)) }) }"

definition r_io_write :: "nat \<Rightarrow> 'd rio \<Rightarrow> ut8 list \<Rightarrow> int \<Rightarrow> (int \<times> 'd rio) option" where
  "r_io_write fuel io buf len =
     (if io_enforce_rwx io AND R_IO_WRITE \<noteq> 0 \<and>
         r_io_section_get_rwx (io_secs io) (io_off io) AND R_IO_WRITE = 0 then Some (- 1, io)
      else do {
        (ret, io) \<leftarrow> (if io_cached io \<noteq> 0 then r_io_cache_write io (io_off io) buf len else Some (- 1, io));
        (if io_cached io \<noteq> 0 \<and> ret = len then Some (len, io)
         else let (buf, len) = (if io_cached io \<noteq> 0 \<and> ret > 0 then (drop (nat ret) buf, len - ret) else (buf, len))
              in do {
                (data, io) \<leftarrow> write_data fuel io buf len;
                (case data of None \<Rightarrow> Some (- 1, io) | Some buf \<Rightarrow> write_through io buf len) }) })"

definition r_io_write_at :: "nat \<Rightarrow> 'd rio \<Rightarrow> ut64 \<Rightarrow> ut8 list \<Rightarrow> int \<Rightarrow> (int \<times> 'd rio) option" where
  "r_io_write_at fuel io addr buf len =
     (if io_cached io \<noteq> 0 then r_io_cache_write io addr buf len
      else do {
        (_, io) \<leftarrow> r_io_seek io addr R_IO_SEEK_SET;
        r_io_write fuel io buf len })"

definition r_io_set_write_mask :: "'d rio \<Rightarrow> ut8 list \<Rightarrow> int \<Rightarrow> (bool \<times> 'd rio) option" where
  "r_io_set_write_mask io buf len =
     (if len > 0 then do {
        (_, d) \<leftarrow> cur_desc io;
        mask \<leftarrow> buf_read buf 0 (nat len);
        Some (True, io\<lparr>io_write_mask_fd := ds_fd d, io_write_mask_buf := mask\<rparr>) }
      else Some (False, io\<lparr>io_write_mask_fd := - 1\<rparr>))"

definition r_io_resize :: "'d rio \<Rightarrow> ut64 \<Rightarrow> (bool \<times> 'd rio) option" where
  "r_io_resize io newsize = (case io_plugin io of
     None \<Rightarrow> Some (True, io)
   | Some pl \<Rightarrow> (case (pl_resize pl, io_desc io) of
       (Some f, Some _) \<Rightarrow> do {
         (k, d) \<leftarrow> cur_desc io;
         (res, data) \<leftarrow> f (ds_data d) newsize;
         (let io = set_data io k data in
          Some (res, if res then io\<lparr>io_maps := snd (r_io_map_truncate_update (io_maps io) (ds_fd d) newsize)\<rparr>
                     else io)) }
     | _ \<Rightarrow> Some (False, io)))"

section \<open>The history of writes\<close>

definition r_io_wundo_new :: "nat \<Rightarrow> 'd rio \<Rightarrow> ut64 \<Rightarrow> ut8 list \<Rightarrow> int \<Rightarrow> 'd rio option" where
  "r_io_wundo_new fuel io off data len =
     (if un_w_enable (io_undo io) = 0 then Some io
      else do {
        n \<leftarrow> (if 0 \<le> len then buf_read data 0 (nat len) else None);
        ((_, old), io) \<leftarrow> r_io_read_at fuel io off (map (io_garbage io) [0..<nat len]) len;
        Some (io\<lparr>io_w_list := io_w_list io @ [\<lparr>uw_set = True, uw_off = off, uw_o = old, uw_n = n, uw_len = len\<rparr>]\<rparr>) })"

definition r_io_wundo_clear :: "'d rio \<Rightarrow> 'd rio" where
  "r_io_wundo_clear io = io\<lparr>io_w_list := []\<rparr>"

definition r_io_wundo_size :: "'d rio \<Rightarrow> int" where
  "r_io_wundo_size io = (if un_w_init (io_undo io) \<noteq> 0 then int (length (io_w_list io)) else 0)"

text \<open>\<open>k\<close> is the position of the entry in the list.\<close>

definition r_io_wundo_apply :: "nat \<Rightarrow> 'd rio \<Rightarrow> nat \<Rightarrow> bool \<Rightarrow> 'd rio option" where
  "r_io_wundo_apply fuel io k redo =
     (if k < length (io_w_list io)
      then let u = io_w_list io ! k; orig = un_w_enable (io_undo io) in do {
        (_, io) \<leftarrow> r_io_write_at fuel (io\<lparr>io_undo := (io_undo io)\<lparr>un_w_enable := 0\<rparr>\<rparr>)
           (uw_off u) (if redo then uw_n u else uw_o u) (uw_len u);
        Some (io\<lparr>io_w_list := (io_w_list io)[k := u\<lparr>uw_set := redo\<rparr>],
                 io_undo := (io_undo io)\<lparr>un_w_enable := orig\<rparr>\<rparr>) }
      else None)"

fun wundo_apply_from :: "nat \<Rightarrow> nat \<Rightarrow> 'd rio \<Rightarrow> bool \<Rightarrow> 'd rio option" where
  "wundo_apply_from fuel 0 io redo = Some io"
| "wundo_apply_from fuel (Suc k) io redo = do {
     io \<leftarrow> r_io_wundo_apply fuel io k redo;
     wundo_apply_from fuel k io redo }"

definition r_io_wundo_apply_all :: "nat \<Rightarrow> 'd rio \<Rightarrow> bool \<Rightarrow> 'd rio option" where
  "r_io_wundo_apply_all fuel io redo = wundo_apply_from fuel (length (io_w_list io)) io redo"

text \<open>
  Entry \<open>n\<close> counted from the latest. When there is no such entry the loop variable is left on the
  oldest one, so that one is applied.
\<close>

definition r_io_wundo_set :: "nat \<Rightarrow> 'd rio \<Rightarrow> int \<Rightarrow> bool \<Rightarrow> (bool \<times> 'd rio) option" where
  "r_io_wundo_set fuel io n redo =
     (let m = length (io_w_list io) in
      if un_w_init (io_undo io) = 0 \<or> m = 0 then Some (False, io)
      else do {
        io \<leftarrow> r_io_wundo_apply fuel io (if 0 \<le> n \<and> n < int m then m - 1 - nat n else 0) redo;
        Some (True, io) })"

end
