(* ===== verification/R2_IO_Malloc.thy ===== *)
theory R2_IO_Malloc
  imports R2_IO_Rw
begin

text \<open>
  The memory plugin \<^verbatim>\<open>libr/io/p/io_malloc.c\<close>. The data of a descriptor is an \<open>RIOMalloc\<close>, or \<open>None\<close>
  once it is closed; the length of \<open>ml_buf\<close> is the size of its allocation. \<open>__open\<close>, which parses
  the size with the calculator of \<open>r_num_math\<close>, is left out; \<open>malloc_new\<close> is the state it sets up
  for a size.
\<close>

record riomalloc =
  ml_buf :: "ut8 list"
  ml_size :: ut32
  ml_offset :: ut64

type_synonym malloc_data = "riomalloc option"

definition malloc_new :: "ut32 \<Rightarrow> riomalloc" where
  "malloc_new sz = \<lparr>ml_buf = replicate (unat sz + 1) 0, ml_size = sz, ml_offset = 0\<rparr>"

definition malloc_write :: "malloc_data \<Rightarrow> ut8 list \<Rightarrow> int \<Rightarrow> (int \<times> malloc_data) option" where
  "malloc_write data buf count = (case data of
     None \<Rightarrow> Some (- 1, data)
   | Some m \<Rightarrow>
       if count < 0 \<or> ml_offset m > ucast (ml_size m) then Some (- 1, data)
       else let off = ml_offset m;
                count = (if off + of_int count > ucast (ml_size m)
                         then c_int (of_int count - (off + of_int count - ucast (ml_size m))) else count)
            in if count > 0 then do {
                 src \<leftarrow> buf_read buf 0 (nat count);
                 b \<leftarrow> buf_write (ml_buf m) (unat off) src;
                 Some (count, Some (m\<lparr>ml_buf := b, ml_offset := off + of_int count\<rparr>)) }
               else Some (- 1, data))"

definition malloc_resize :: "malloc_data \<Rightarrow> ut64 \<Rightarrow> (bool \<times> malloc_data) option" where
  "malloc_resize data count = (case data of
     None \<Rightarrow> Some (False, data)
   | Some m \<Rightarrow>
       if count = 0 \<or> ml_offset m > ucast (ml_size m) then Some (False, data)
       else do {
         src \<leftarrow> buf_read (ml_buf m) 0 (min (unat count) (unat (ml_size m)));
         Some (True, Some (m\<lparr>ml_buf := src @ replicate (unat count - unat (ml_size m)) 0,
                             ml_size := ucast count\<rparr>)) })"

definition malloc_read :: "malloc_data \<Rightarrow> ut8 list \<Rightarrow> int \<Rightarrow> ((int \<times> ut8 list) \<times> malloc_data) option" where
  "malloc_read data buf count = do {
     buf \<leftarrow> mem_fill buf 0 count 0xff;
     (case data of
        None \<Rightarrow> Some ((- 1, buf), data)
      | Some m \<Rightarrow>
          if ml_offset m > ucast (ml_size m) then Some ((- 1, buf), data)
          else let count = (if ml_offset m + of_int count \<ge> ucast (ml_size m)
                            then c_int (ucast (ml_size m) - ml_offset m) else count)
               in if count < 0 then None
                  else do {
                    src \<leftarrow> buf_read (ml_buf m) (unat (ml_offset m)) (nat count);
                    buf \<leftarrow> buf_write buf 0 src;
                    Some ((count, buf), data) }) }"

definition malloc_close :: "malloc_data \<Rightarrow> int \<times> malloc_data" where
  "malloc_close data = (case data of None \<Rightarrow> (- 1, None) | Some _ \<Rightarrow> (0, None))"

definition malloc_lseek :: "malloc_data \<Rightarrow> ut64 \<Rightarrow> int \<Rightarrow> ut64 \<times> malloc_data" where
  "malloc_lseek data offset whence = (case data of
     None \<Rightarrow> (offset, data)
   | Some m \<Rightarrow>
       let sz = ucast (ml_size m);
           r = (if whence = R_IO_SEEK_SET then (if offset \<le> sz then offset else sz)
                else if whence = R_IO_SEEK_CUR
                then (if ml_offset m + offset \<le> sz then ml_offset m + offset else sz)
                else if whence = R_IO_SEEK_END then sz
                else offset)
       in (r, Some (m\<lparr>ml_offset := r\<rparr>)))"

definition r_io_plugin_malloc :: "malloc_data io_plugin" where
  "r_io_plugin_malloc = \<lparr>pl_name = ''malloc'', pl_listener = None, pl_read = malloc_read,
     pl_write = Some malloc_write, pl_lseek = malloc_lseek, pl_resize = Some malloc_resize,
     pl_extend = None, pl_close = Some malloc_close\<rparr>"

section \<open>Behaviour of the plugin\<close>

text \<open>The allocation holds at least \<open>size\<close> bytes, and the size fits an \<open>int\<close>, as \<open>__open\<close> makes sure.\<close>

definition malloc_ok :: "riomalloc \<Rightarrow> bool" where
  "malloc_ok m \<longleftrightarrow> unat (ml_size m) \<le> length (ml_buf m) \<and> unat (ml_size m) < 2 ^ 31"

definition small :: "int \<Rightarrow> bool" where
  "small n \<longleftrightarrow> 0 \<le> n \<and> n < 2 ^ 31"

lemma unat_of_small: "small n \<Longrightarrow> unat (of_int n :: ut64) = nat n"
proof -
  assume "small n"
  then have "(of_int n :: ut64) = of_nat (nat n)" "nat n < 2 ^ 64" by (auto simp: small_def)
  then show ?thesis by (simp add: unsigned_of_nat take_bit_nat_eq_self)
qed

lemma ucast_size_unat [simp]: "unat (ucast (x :: ut32) :: ut64) = unat x"
proof -
  have "unat (ucast x :: ut64) = take_bit 64 (unat x)" by (simp add: unsigned_ucast_eq)
  also have "\<dots> = unat x"
  proof (rule take_bit_nat_eq_self)
    have "unat x < 2 ^ 32" using unsigned_less [of x, where 'a = nat] by simp
    then show "unat x < 2 ^ 64" by simp
  qed
  finally show ?thesis .
qed

lemma c_int_small: "unat w < 2 ^ 31 \<Longrightarrow> c_int w = int (unat w)"
proof -
  assume w: "unat w < 2 ^ 31"
  have u: "uint w < 2 ^ 31" using w by (simp flip: of_nat_less_iff [where 'a = int])
  have "uint (ucast w :: 32 word) = uint w"
    using u by (simp add: unsigned_ucast_eq take_bit_int_eq_self)
  then have "c_int w = signed_take_bit 31 (uint w)" by (simp add: c_int_def sint_uint)
  also have "\<dots> = uint w" using u by (intro signed_take_bit_int_eq_self) (auto intro: order_trans [OF _ uint_ge_0])
  finally show ?thesis by simp
qed

lemma malloc_end:
  assumes "malloc_ok m" "ml_offset m \<le> ucast (ml_size m)" "small count"
  shows "unat (ml_offset m + of_int count) = unat (ml_offset m) + nat count"
proof -
  have "unat (ml_offset m) + unat (of_int count :: ut64) < 2 ^ 64"
    using assms(1,2) unat_of_small [OF assms(3)] assms(3) unfolding malloc_ok_def word_le_nat_alt small_def
    by simp linarith
  then show ?thesis using end_no_wrap unat_of_small [OF assms(3)] by simp
qed

lemma malloc_clip:
  assumes "malloc_ok m" "ml_offset m \<le> ucast (ml_size m)" "small count"
  shows "ml_offset m + of_int count \<ge> ucast (ml_size m) \<longleftrightarrow> unat (ml_size m) \<le> unat (ml_offset m) + nat count"
    "ml_offset m + of_int count > ucast (ml_size m) \<longleftrightarrow> unat (ml_size m) < unat (ml_offset m) + nat count"
    "c_int (ucast (ml_size m) - ml_offset m) = int (unat (ml_size m) - unat (ml_offset m))"
    "of_int count - (ml_offset m + of_int count - ucast (ml_size m)) = ucast (ml_size m) - ml_offset m"
proof -
  show "ml_offset m + of_int count \<ge> ucast (ml_size m) \<longleftrightarrow> unat (ml_size m) \<le> unat (ml_offset m) + nat count"
    "ml_offset m + of_int count > ucast (ml_size m) \<longleftrightarrow> unat (ml_size m) < unat (ml_offset m) + nat count"
    using malloc_end [OF assms] by (simp_all add: word_le_nat_alt word_less_nat_alt)
  have "unat (ucast (ml_size m) - ml_offset m) = unat (ml_size m) - unat (ml_offset m)"
    using assms(2) by (simp add: unat_sub)
  moreover have "unat (ml_size m) - unat (ml_offset m) < 2 ^ 31" using assms(1) unfolding malloc_ok_def by linarith
  ultimately show "c_int (ucast (ml_size m) - ml_offset m) = int (unat (ml_size m) - unat (ml_offset m))"
    using c_int_small [of "ucast (ml_size m) - ml_offset m"] by simp
qed simp

text \<open>The two accesses at the current position, for any number of bytes.\<close>

lemma malloc_read_eq:
  assumes "malloc_ok m" "ml_offset m \<le> ucast (ml_size m)" "small count" "nat count \<le> length buf"
  defines "n \<equiv> min (nat count) (unat (ml_size m) - unat (ml_offset m))"
  shows "malloc_read (Some m) buf count =
    Some ((int n, take n (drop (unat (ml_offset m)) (ml_buf m)) @ replicate (nat count - n) 0xff @
      drop (nat count) buf), Some m)"
proof -
  have off: "unat (ml_offset m) \<le> unat (ml_size m)" "unat (ml_size m) \<le> length (ml_buf m)"
    using assms(1,2) by (simp_all add: malloc_ok_def word_le_nat_alt)
  have fill: "mem_fill buf 0 count 0xff = Some (replicate (nat count) 0xff @ drop (nat count) buf)"
    using assms(3,4) by (simp add: mem_fill_def buf_write_def small_def)
  have n: "(if ml_offset m + of_int count \<ge> ucast (ml_size m)
      then c_int (ucast (ml_size m) - ml_offset m) else count) = int n"
    using malloc_clip [OF assms(1-3)] assms(3) off by (auto simp: n_def small_def)
  have src: "buf_read (ml_buf m) (unat (ml_offset m)) n = Some (take n (drop (unat (ml_offset m)) (ml_buf m)))"
    using off by (simp add: buf_read_def n_def)
  have len: "length (take n (drop (unat (ml_offset m)) (ml_buf m))) = n" using off by (simp add: n_def)
  have "n \<le> nat count" by (simp add: n_def)
  then have put: "buf_write (replicate (nat count) 0xff @ drop (nat count) buf) 0
      (take n (drop (unat (ml_offset m)) (ml_buf m))) =
      Some (take n (drop (unat (ml_offset m)) (ml_buf m)) @ replicate (nat count - n) 0xff @ drop (nat count) buf)"
    using assms(4) unfolding buf_write_def len by simp
  show ?thesis
    using assms(2) fill src put unfolding malloc_read_def by (simp add: n not_less Let_def)
qed

lemma malloc_write_eq:
  assumes "malloc_ok m" "ml_offset m \<le> ucast (ml_size m)" "small count" "nat count \<le> length buf"
  defines "n \<equiv> min (nat count) (unat (ml_size m) - unat (ml_offset m))"
  shows "malloc_write (Some m) buf count =
    (if n = 0 then Some (- 1, Some m)
     else Some (int n, Some (m\<lparr>ml_buf := take (unat (ml_offset m)) (ml_buf m) @ take n buf @
        drop (unat (ml_offset m) + n) (ml_buf m), ml_offset := ml_offset m + of_nat n\<rparr>)))"
proof -
  have off: "unat (ml_offset m) \<le> unat (ml_size m)" "unat (ml_size m) \<le> length (ml_buf m)"
    using assms(1,2) by (simp_all add: malloc_ok_def word_le_nat_alt)
  have n: "(if ml_offset m + of_int count > ucast (ml_size m)
      then c_int (of_int count - (ml_offset m + of_int count - ucast (ml_size m))) else count) = int n"
    using malloc_clip [OF assms(1-3)] assms(3) off by (auto simp: n_def small_def)
  have src: "buf_read buf 0 n = Some (take n buf)" "length (take n buf) = n"
    using assms(4) by (simp_all add: buf_read_def n_def)
  have put: "buf_write (ml_buf m) (unat (ml_offset m)) (take n buf) =
      Some (take (unat (ml_offset m)) (ml_buf m) @ take n buf @ drop (unat (ml_offset m) + n) (ml_buf m))"
    using off unfolding buf_write_def src(2) by (simp add: n_def)
  show ?thesis
    using assms(3) leD [OF assms(2)] src put unfolding malloc_write_def small_def
    by (simp add: n Let_def)
qed

text \<open>C28: no access to a \<open>malloc://\<close> file touches memory outside its allocation: reading, writing, seeking and
  resizing are defined for every request a caller can make and keep the buffer at least as long as
  the recorded size.\<close>
theorem malloc_plugin_safe:
  assumes "malloc_ok m" "small count" "nat count \<le> length buf" "unat sz < 2 ^ 31"
  shows "(\<exists>r buf'. malloc_read (Some m) buf count = Some ((r, buf'), Some m) \<and> length buf' = length buf) \<and>
    (\<exists>r m'. malloc_write (Some m) buf count = Some (r, Some m') \<and> malloc_ok m') \<and>
    (\<exists>r m'. malloc_lseek (Some m) offset whence = (r, Some m') \<and> malloc_ok m') \<and>
    (\<exists>r m'. malloc_resize (Some m) sz = Some (r, Some m') \<and> malloc_ok m')"
proof -
  have len: "unat (ml_size m) \<le> length (ml_buf m)" "unat (ml_size m) < 2 ^ 31"
    using assms(1) by (simp_all add: malloc_ok_def)
  have rd: "\<exists>r buf'. malloc_read (Some m) buf count = Some ((r, buf'), Some m) \<and> length buf' = length buf"
  proof (cases "ml_offset m \<le> ucast (ml_size m)")
    case True
    then have "unat (ml_offset m) \<le> unat (ml_size m)" by (simp add: word_le_nat_alt)
    with malloc_read_eq [OF assms(1) True assms(2,3)] show ?thesis using assms(3) len by simp
  next
    case False
    then show ?thesis using assms(2,3)
      by (simp add: malloc_read_def mem_fill_def buf_write_def small_def not_le)
  qed
  have wr: "\<exists>r m'. malloc_write (Some m) buf count = Some (r, Some m') \<and> malloc_ok m'"
  proof (cases "ml_offset m \<le> ucast (ml_size m)")
    case True
    then have "unat (ml_offset m) \<le> unat (ml_size m)" by (simp add: word_le_nat_alt)
    with malloc_write_eq [OF assms(1) True assms(2,3)] show ?thesis
      using assms(1,3) len by (simp add: malloc_ok_def)
  next
    case False
    then show ?thesis using assms(1) by (simp add: malloc_write_def not_le)
  qed
  have "\<exists>r m'. malloc_lseek (Some m) offset whence = (r, Some m') \<and> malloc_ok m'"
    using assms(1) by (simp add: malloc_lseek_def malloc_ok_def Let_def)
  moreover have "\<exists>r m'. malloc_resize (Some m) sz = Some (r, Some m') \<and> malloc_ok m'"
  proof -
    have "unat (ucast sz :: ut32) = unat sz"
      using assms(4) by (simp add: unsigned_ucast_eq take_bit_nat_eq_self)
    moreover have "min (unat sz) (unat (ml_size m)) \<le> length (ml_buf m)" using len(1) by linarith
    ultimately show ?thesis using assms(1,4) by (auto simp: malloc_resize_def malloc_ok_def buf_read_def)
  qed
  ultimately show ?thesis using rd wr by blast
qed

lemma malloc_new_ok: "unat sz < 2 ^ 31 \<Longrightarrow> malloc_ok (malloc_new sz)"
  by (simp add: malloc_new_def malloc_ok_def)

theorem malloc_plugin_safe_witness:
  "\<exists>r m'. malloc_write (Some (malloc_new 4)) [1, 2, 3, 4, 5, 6] 6 = Some (r, Some m') \<and> malloc_ok m'"
  using malloc_plugin_safe [OF malloc_new_ok, of 4 6 "[1, 2, 3, 4, 5, 6]" 16] by (simp add: small_def)

end
