(* ===== verification/R2_IO_Cache.thy ===== *)
theory R2_IO_Cache
  imports R2_IO_Malloc
begin

text \<open>
  What the write cache of the IO layer does to reads: \<open>r_io_cache_read\<close> lays the cached writes over
  the bytes read from the file, the later ones on top. The specification \<open>overlay\<close> says this per
  address. The second part is about the functions that give cached writes back to the file.
\<close>

section \<open>Distances as \<open>int\<close>\<close>

lemma c_int_signed: "c_int w = signed_take_bit 31 (uint w)"
proof -
  have "c_int w = signed_take_bit 31 (take_bit 32 (uint w))"
    by (simp add: c_int_def sint_uint unsigned_ucast_eq)
  then show ?thesis by (simp add: signed_take_bit_take_bit)
qed

lemma c_int_minus: "unat w \<le> 2 ^ 31 \<Longrightarrow> c_int (- w) = - int (unat w)"
proof -
  assume w: "unat w \<le> 2 ^ 31"
  have "signed_take_bit 31 (uint (- w)) = signed_take_bit 31 (- uint w)"
  proof -
    have "take_bit 32 (uint (- w)) = take_bit 32 (- uint w)"
      by (simp add: uint_word_ariths take_bit_eq_mod mod_mod_cancel)
    from arg_cong [OF this, of "signed_take_bit 31"] show ?thesis by (simp add: signed_take_bit_take_bit)
  qed
  also have "\<dots> = - uint w"
  proof (rule signed_take_bit_int_eq_self)
    have "uint w \<le> 2 ^ 31" using w by (simp flip: of_nat_le_iff [where 'a = int])
    then show "- (2 ^ 31) \<le> - uint w" by simp
    show "- uint w < 2 ^ 31" by (rule le_less_trans [of _ 0]) simp_all
  qed
  finally show ?thesis by (simp add: c_int_signed)
qed

lemma c_int_distance:
  assumes "unat b - unat a < 2 ^ 31" "unat a - unat b \<le> 2 ^ 31"
  shows "c_int (b - a) = int (unat b) - int (unat a)"
proof (cases "a \<le> b")
  case True
  then have u: "unat (b - a) = unat b - unat a" "unat a \<le> unat b" by (simp_all add: unat_sub word_le_nat_alt)
  then show ?thesis using c_int_small [of "b - a"] assms(1) by simp
next
  case False
  then have u: "unat (a - b) = unat a - unat b" "unat b \<le> unat a" by (simp_all add: unat_sub word_le_nat_alt)
  then show ?thesis using c_int_minus [of "a - b"] assms(2) by simp
qed

section \<open>Overlay\<close>

definition cache_ok :: "io_cache \<Rightarrow> bool" where
  "cache_ok c \<longleftrightarrow> ch_size c = int (length (ch_data c)) \<and> small (ch_size c) \<and>
     ch_to c = ch_from c + of_int (ch_size c) \<and> unat (ch_from c) + length (ch_data c) < 2 ^ 64"

definition covers :: "io_cache \<Rightarrow> nat \<Rightarrow> bool" where
  "covers c a \<longleftrightarrow> unat (ch_from c) \<le> a \<and> a < unat (ch_from c) + length (ch_data c)"

fun overlay :: "io_cache list \<Rightarrow> nat \<Rightarrow> ut8 \<Rightarrow> ut8" where
  "overlay [] a b = b"
| "overlay (c # cs) a b = overlay cs a (if covers c a then ch_data c ! (a - unat (ch_from c)) else b)"

lemma cache_apply_hit:
  assumes "r_range_overlap addr (addr + of_int len - 1) (ch_from c) (ch_to c) = (ret, True)"
    and "(if ret > 0 then ret else 0) = int da" "(if ret < 0 then - ret else 0) = int db"
    and "(if ch_size c - int db + int da > len then len - int da else ch_size c - int db) = int l"
  shows "cache_apply addr len c (cov, buf) =
    (if l = 0 then Some (cov + 1, buf)
     else do { src \<leftarrow> buf_read (ch_data c) db l; buf' \<leftarrow> buf_write buf da src; Some (cov + int l, buf') })"
  by (simp only: cache_apply_def Let_def case_prod_beta fst_conv snd_conv assms not_True_eq_False if_False) simp

lemma window:
  fixes A F S n i :: nat
  assumes "F \<le> A + n - 1" "A \<le> F + S" "0 < n"
  shows "F \<le> A + i \<and> A + i < F + S \<and> i < n \<longleftrightarrow> F - A \<le> i \<and> i < F - A + min (S - (A - F)) (n - (F - A))"
    "F - A \<le> i \<Longrightarrow> A + i - F = A - F + (i - (F - A))"
  using assms by (cases "A \<le> F"; auto simp: min_def)+

lemma cache_apply_overlay:
  assumes "cache_ok c" "small len" "0 < len" "unat addr + nat len \<le> 2 ^ 64" "nat len \<le> length buf"
  shows "\<exists>cov' buf'. cache_apply addr len c (cov, buf) = Some (cov', buf') \<and> length buf' = length buf \<and>
    (\<forall>i < length buf. buf' ! i = (if i < nat len \<and> covers c (unat addr + i)
       then ch_data c ! (unat addr + i - unat (ch_from c)) else buf ! i))"
proof -
  let ?A = "unat addr" and ?F = "unat (ch_from c)" and ?S = "length (ch_data c)" and ?n = "nat len"
  have sz: "ch_size c = int ?S" "?S < 2 ^ 31" "?F + ?S < 2 ^ 64" "?n < 2 ^ 31" "0 < ?n"
    using assms(1-3) by (auto simp: cache_ok_def small_def)
  have to': "unat (ch_to c) = ?F + ?S"
    using assms(1) sz unat_of_small [of "ch_size c"] end_no_wrap [of "ch_from c" "of_int (ch_size c)"]
    by (simp add: cache_ok_def)
  have last: "unat (addr + of_int len - 1) = ?A + ?n - 1"
  proof -
    have "addr + of_int len - 1 = addr + of_int (len - 1)" by simp
    moreover have "small (len - 1)" using assms(2,3) by (simp add: small_def)
    moreover have "?A + nat (len - 1) < 2 ^ 64" using assms(3,4) by linarith
    moreover have "?A + nat (len - 1) = ?A + ?n - 1" using assms(3) by linarith
    ultimately show ?thesis
      using unat_of_small [of "len - 1"] end_no_wrap [of addr "of_int (len - 1)"] by metis
  qed
  have hit: "snd (r_range_overlap addr (addr + of_int len - 1) (ch_from c) (ch_to c)) \<longleftrightarrow>
      ?F \<le> ?A + ?n - 1 \<and> ?A \<le> ?F + ?S"
    by (auto simp: r_range_overlap_def word_less_nat_alt last to' not_less)
  show ?thesis
  proof (cases "?F \<le> ?A + ?n - 1 \<and> ?A \<le> ?F + ?S")
    case False
    then show ?thesis using hit sz(5)
      by (auto simp: cache_apply_def split_beta covers_def intro!: exI [of _ cov] exI [of _ buf])
  next
    case True
    have ret: "c_int (ch_from c - addr) = int ?F - int ?A" using True sz by (intro c_int_distance) linarith+
    define da where "da = ?F - ?A"
    define db where "db = ?A - ?F"
    define l where "l = min (?S - db) (?n - da)"
    have dl0: "da < ?n" "db \<le> ?S" using True sz(5) by (auto simp: da_def db_def)
    have dl: "da < ?n" "db \<le> ?S" "db + l \<le> ?S" "da + l \<le> length buf"
      using dl0 assms(5) unfolding l_def by linarith+
    have eq: "cache_apply addr len c (cov, buf) =
        (if l = 0 then Some (cov + 1, buf)
         else do { src \<leftarrow> buf_read (ch_data c) db l; buf' \<leftarrow> buf_write buf da src; Some (cov + int l, buf') })"
    proof -
      have "(if int f - int a > 0 then int f - int a else 0) = int (f - a)"
        "(if int f - int a < 0 then - (int f - int a) else 0) = int (a - f)" for f a by auto
      then have "(if int ?F - int ?A > 0 then int ?F - int ?A else 0) = int da"
        "(if int ?F - int ?A < 0 then - (int ?F - int ?A) else 0) = int db" unfolding da_def db_def by metis+
      moreover have "(if ch_size c - int db + int da > len then len - int da else ch_size c - int db) = int l"
        using dl assms(3) sz(1) by (auto simp: l_def)
      moreover have "r_range_overlap addr (addr + of_int len - 1) (ch_from c) (ch_to c) = (int ?F - int ?A, True)"
        using hit True ret by (simp add: r_range_overlap_def)
      ultimately show ?thesis by (intro cache_apply_hit)
    qed
    have rd: "buf_read (ch_data c) db l = Some (take l (drop db (ch_data c)))"
      using dl by (simp add: buf_read_def)
    have len: "length (take l (drop db (ch_data c))) = l" using dl by simp
    obtain b where b: "buf_write buf da (take l (drop db (ch_data c))) = Some b"
      using buf_write_defined [of da "take l (drop db (ch_data c))" buf] dl len by auto
    have cov: "covers c (?A + i) \<and> i < ?n \<longleftrightarrow> da \<le> i \<and> i < da + l" for i
      using window(1) [OF _ _ sz(5), of ?F ?A ?S i] True unfolding covers_def da_def db_def l_def by blast
    have idx: "take l (drop db (ch_data c)) ! (i - da) = ch_data c ! (?A + i - ?F)"
      if "da \<le> i" "i < da + l" for i
    proof -
      have "?A + i - ?F = db + (i - da)"
        using window(2) [OF _ _ sz(5), of ?F ?A ?S i] True that(1) unfolding da_def db_def by blast
      moreover have "i - da < l" using that by linarith
      ultimately show ?thesis using dl by simp
    qed
    show ?thesis
    proof (cases "l = 0")
      case True
      have "\<not> (i < ?n \<and> covers c (?A + i))" for i using cov [of i] unfolding True by linarith
      then show ?thesis unfolding eq by (simp add: True) blast
    next
      case False
      have "b ! i = (if i < ?n \<and> covers c (?A + i) then ch_data c ! (?A + i - ?F) else buf ! i)"
        if "i < length buf" for i
        using buf_write_nth [OF b that] cov [of i] idx [of i] unfolding len by auto
      moreover have "cache_apply addr len c (cov, buf) = Some (cov + int l, b)"
        unfolding eq using False rd b by simp
      ultimately show ?thesis using buf_write_length [OF b] by blast
    qed
  qed
qed

lemma cache_fold_overlay:
  assumes "small len" "0 < len" "unat addr + nat len \<le> 2 ^ 64"
  shows "list_all cache_ok cs \<Longrightarrow> nat len \<le> length buf \<Longrightarrow>
    \<exists>cov' buf'. cache_fold addr len cs (cov, buf) = Some (cov', buf') \<and> length buf' = length buf \<and>
    (\<forall>i < length buf. buf' ! i = (if i < nat len then overlay cs (unat addr + i) (buf ! i) else buf ! i))"
proof (induction cs arbitrary: cov buf)
  case (Cons c cs)
  from cache_apply_overlay [OF _ assms Cons.prems(2), of c cov] Cons.prems(1) obtain cov1 buf1 where
    one: "cache_apply addr len c (cov, buf) = Some (cov1, buf1)" "length buf1 = length buf"
      "\<forall>i < length buf. buf1 ! i = (if i < nat len \<and> covers c (unat addr + i)
         then ch_data c ! (unat addr + i - unat (ch_from c)) else buf ! i)" by auto
  from Cons.IH [of buf1 cov1] Cons.prems one(2) obtain cov2 buf2 where
    two: "cache_fold addr len cs (cov1, buf1) = Some (cov2, buf2)" "length buf2 = length buf1"
      "\<forall>i < length buf1. buf2 ! i = (if i < nat len then overlay cs (unat addr + i) (buf1 ! i) else buf1 ! i)"
    by auto
  show ?case using one two by auto
qed auto

text \<open>C20: reading with the cache on gives, at every address, the byte of the latest cached write that covers
  it and the byte of the file where there is none. No access leaves the buffer or a cached block.\<close>
theorem cache_read_overlay:
  assumes "list_all cache_ok (io_cache io)" "small len" "0 < len" "unat addr + nat len \<le> 2 ^ 64"
    and "length buf = nat len"
  shows "\<exists>cov. r_io_cache_read io addr buf len =
    Some (cov, map (\<lambda>i. overlay (io_cache io) (unat addr + i) (buf ! i)) [0..<nat len])"
proof -
  from cache_fold_overlay [OF assms(2-4) assms(1), of buf 0] assms(5) obtain cov buf' where
    r: "cache_fold addr len (io_cache io) (0, buf) = Some (cov, buf')" "length buf' = nat len"
      "\<forall>i < nat len. buf' ! i = overlay (io_cache io) (unat addr + i) (buf ! i)" by auto
  then have "buf' = map (\<lambda>i. overlay (io_cache io) (unat addr + i) (buf ! i)) [0..<nat len]"
    by (intro nth_equalityI) auto
  then show ?thesis using r(1) assms(3) by (simp add: r_io_cache_read_def)
qed

definition malloc_rio :: "ut32 \<Rightarrow> ut64 \<Rightarrow> int \<Rightarrow> malloc_data rio" where
  "malloc_rio sz base cached = \<lparr>io_desc = Some 0, io_enforce_rwx = 0, io_cached = cached, io_cached_read = 0,
     io_off = 0, io_debug = False, io_raised = - 1, io_va = False, io_raw = False, io_vio = False,
     io_sectonly = False, io_write_mask_fd = - 1, io_write_mask_buf = [], io_plugin = Some r_io_plugin_malloc,
     io_undo = demo_ring, io_w_list = [], io_secs = r_io_section_init,
     io_maps = [\<lparr>mp_fd = 3, mp_flags = 7, mp_delta = 0, mp_from = base, mp_to = base + ucast sz\<rparr>],
     io_store = [\<lparr>ds_fd = 3, ds_flags = 7, ds_plugin = r_io_plugin_malloc, ds_data = Some (malloc_new sz)\<rparr>],
     io_files = [0], io_cache = [], io_buffer = r_cache_new, io_buffer_enabled = False, io_ff = True,
     io_Oxff = 0xff, io_autofd = True, io_garbage = (\<lambda>_. 0)\<rparr>"

definition demo_cache :: "io_cache list" where
  "demo_cache = [\<lparr>ch_from = 0x10, ch_to = 0x13, ch_size = 3, ch_data = [1, 2, 3], ch_odata = [0, 0, 0], ch_written = False\<rparr>,
     \<lparr>ch_from = 0x12, ch_to = 0x14, ch_size = 2, ch_data = [8, 9], ch_odata = [0, 0], ch_written = False\<rparr>]"

theorem cache_read_overlay_witness:
  "\<exists>cov. r_io_cache_read ((malloc_rio 64 0 1)\<lparr>io_cache := demo_cache\<rparr>) 0x11 [0, 0, 0, 0] 4 = Some (cov, [2, 8, 9, 0])"
proof -
  have "map (\<lambda>i. overlay demo_cache (unat (0x11 :: ut64) + i) ([0, 0, 0, 0] ! i)) [0..<nat 4] = [2, 8, 9, 0]"
    by code_simp
  with cache_read_overlay [of "(malloc_rio 64 0 1)\<lparr>io_cache := demo_cache\<rparr>" 4 "0x11" "[0, 0, 0, 0]"] show ?thesis
    by (simp add: cache_ok_def small_def demo_cache_def)
qed

section \<open>Giving cached writes back\<close>

text \<open>\<open>r_io_cache_commit\<close> never changes anything: it asks \<open>r_io_write_at\<close> for the write with \<open>io->cached\<close>
  set to 2, \<open>r_io_write_at\<close> passes every write on to the cache when \<open>io->cached\<close> is set, and the cache
  refuses it for that value. Cached writes cannot reach the file this way.\<close>
theorem cache_commit_does_nothing:
  "r_io_cache_commit io from to' = Some io"
  by (simp add: r_io_cache_commit_def cached_write_at_def r_io_cache_write_def split: option.split)

lemma write_at_cached: "io_cached io \<noteq> 0 \<Longrightarrow> r_io_write_at n io addr buf len = r_io_cache_write io addr buf len"
  by (simp add: r_io_write_at_def)

end
