(* ===== verification/R2_IO_Memory.thy ===== *)
theory R2_IO_Memory
  imports R2_IO_Cache
begin

text \<open>
  The IO layer as memory. The locale \<open>byte_memory\<close> is what a client such as the ESIL machine expects of
  \<open>read_at\<close> and \<open>write_at\<close>: bytes at addresses, changed by writes only. It is interpreted on
  \<open>r_io_read_at\<close> and \<open>r_io_write_at\<close> over a \<open>malloc://\<close> file mapped at an address, the set-up
  \<open>r_io_open_at\<close> makes (one map, no sections, no cache, no raw access).
\<close>

section \<open>The contract\<close>

locale byte_memory =
  fixes rd :: "'io \<Rightarrow> ut64 \<Rightarrow> ut8 list \<Rightarrow> int \<Rightarrow> ((int \<times> ut8 list) \<times> 'io) option"
    and wr :: "'io \<Rightarrow> ut64 \<Rightarrow> ut8 list \<Rightarrow> int \<Rightarrow> (int \<times> 'io) option"
    and ok :: "'io \<Rightarrow> bool" and byte :: "'io \<Rightarrow> nat \<Rightarrow> ut8" and inside :: "ut64 \<Rightarrow> int \<Rightarrow> bool"
  assumes rd: "ok io \<Longrightarrow> inside addr len \<Longrightarrow> nat len \<le> length buf \<Longrightarrow>
      \<exists>io'. rd io addr buf len =
          Some ((len, map (byte io) [unat addr..<unat addr + nat len] @ drop (nat len) buf), io') \<and>
        ok io' \<and> byte io' = byte io"
    and wr: "ok io \<Longrightarrow> inside addr len \<Longrightarrow> nat len \<le> length buf \<Longrightarrow>
      \<exists>io'. wr io addr buf len = Some (len, io') \<and> ok io' \<and>
        byte io' = (\<lambda>a. if unat addr \<le> a \<and> a < unat addr + nat len then buf ! (a - unat addr) else byte io a)"
begin

text \<open>The bytes of a range.\<close>

definition bytes :: "'io \<Rightarrow> ut64 \<Rightarrow> int \<Rightarrow> ut8 list" where
  "bytes io addr len = map (byte io) [unat addr..<unat addr + nat len]"

lemma write_then_read:
  assumes "ok io" "inside addr len" "nat len \<le> length buf" "nat len \<le> length buf'"
  shows "\<exists>io1 io2. wr io addr buf len = Some (len, io1) \<and> 
    rd io1 addr buf' len = Some ((len, take (nat len) buf @ drop (nat len) buf'), io2) \<and>
    ok io2 \<and> byte io2 = byte io1"
proof -
  from wr [OF assms(1-3)] obtain io1 where io1: "wr io addr buf len = Some (len, io1)" "ok io1"
    "byte io1 = (\<lambda>a. if unat addr \<le> a \<and> a < unat addr + nat len then buf ! (a - unat addr) else byte io a)"
    by blast
  have "map (byte io1) [unat addr..<unat addr + nat len] = take (nat len) buf"
    using assms(3) by (intro nth_equalityI) (simp_all add: io1(3))
  with rd [OF io1(2) assms(2,4)] io1(1) show ?thesis by auto
qed

lemma write_leaves_rest:
  assumes "ok io" "inside addr len" "nat len \<le> length buf" "inside addr2 len2" "nat len2 \<le> length buf2"
    and "unat addr2 + nat len2 \<le> unat addr \<or> unat addr + nat len \<le> unat addr2"
  shows "\<exists>io1 io2. wr io addr buf len = Some (len, io1) \<and>
    rd io1 addr2 buf2 len2 = Some ((len2, bytes io addr2 len2 @ drop (nat len2) buf2), io2) \<and> ok io2"
proof -
  from wr [OF assms(1-3)] obtain io1 where io1: "wr io addr buf len = Some (len, io1)" "ok io1"
    "byte io1 = (\<lambda>a. if unat addr \<le> a \<and> a < unat addr + nat len then buf ! (a - unat addr) else byte io a)"
    by blast
  have "map (byte io1) [unat addr2..<unat addr2 + nat len2] = bytes io addr2 len2"
    using assms(6) by (auto simp: bytes_def io1(3))
  with rd [OF io1(2) assms(4,5)] io1(1) show ?thesis by auto
qed

end

section \<open>A mapped file\<close>

text \<open>
  \<open>flat io k m mp\<close>: descriptor \<open>k\<close>, with contents \<open>m\<close>, is the one in use, and \<open>mp\<close> is the only map; all of
  it lies inside the file.
\<close>

definition plain_access :: "'d rio \<Rightarrow> bool" where
  "plain_access io \<longleftrightarrow> io_cached io = 0 \<and> \<not> io_debug io \<and> \<not> io_raw io \<and> \<not> io_vio io \<and>
     io_enforce_rwx io = 0 \<and> io_write_mask_fd io = - 1 \<and> \<not> io_buffer_enabled io \<and>
     ss_sections (io_secs io) = []"

definition map_inside :: "io_map \<Rightarrow> riomalloc \<Rightarrow> bool" where
  "map_inside mp m \<longleftrightarrow> mp_from mp \<le> mp_to mp \<and> 0 \<le> mp_fd mp \<and> mp_fd mp < 2 ^ 31 \<and>
     unat (mp_delta mp) + (unat (mp_to mp) - unat (mp_from mp)) \<le> unat (ml_size m)"

definition flat :: "malloc_data rio \<Rightarrow> nat \<Rightarrow> riomalloc \<Rightarrow> io_map \<Rightarrow> bool" where
  "flat io k m mp \<longleftrightarrow> plain_access io \<and> io_desc io = Some k \<and> io_maps io = [mp] \<and>
     io_plugin io = Some r_io_plugin_malloc \<and> k < length (io_store io) \<and>
     ds_plugin (io_store io ! k) = r_io_plugin_malloc \<and> ds_data (io_store io ! k) = Some m \<and>
     ds_fd (io_store io ! k) = mp_fd mp \<and> r_io_desc_get io (mp_fd mp) = Some k \<and> malloc_ok m \<and> map_inside mp m"

lemma flat_cur: "flat io k m mp \<Longrightarrow> cur_desc io = Some (k, io_store io ! k)"
  by (simp add: flat_def cur_desc_def desc_at_def)

lemma desc_get_set: "k < length (io_store io) \<Longrightarrow> r_io_desc_get (set_data io k d) fd = r_io_desc_get io fd"
proof -
  assume k: "k < length (io_store io)"
  have "map_option ds_fd (desc_at (set_data io k d) j) = map_option ds_fd (desc_at io j)" for j
    using k by (simp add: desc_at_def set_data_def nth_list_update)
  then show ?thesis by (simp add: r_io_desc_get_def set_data_def)
qed

lemma desc_get_off: "r_io_desc_get (io\<lparr>io_off := x\<rparr>) fd = r_io_desc_get io fd"
  by (simp add: r_io_desc_get_def desc_at_def)

lemma flat_set:
  assumes "flat io k m mp" "malloc_ok m'" "ml_size m' = ml_size m"
  shows "flat (set_data io k (Some m')) k m' mp"
proof -
  have k: "k < length (io_store io)" using assms(1) by (simp add: flat_def)
  show ?thesis
    using assms desc_get_set [OF k, of "Some m'"] k
    unfolding flat_def plain_access_def map_inside_def by (simp add: set_data_def)
qed

lemma flat_off: "flat io k m mp \<Longrightarrow> flat (io\<lparr>io_off := x\<rparr>) k m mp"
  by (simp add: flat_def plain_access_def desc_get_off)

lemma flat_use_fd: "flat io k m mp \<Longrightarrow> snd (r_io_use_fd io (mp_fd mp)) = io"
  by (simp add: flat_def r_io_use_fd_def desc_at_def)

lemma unat_max: "unat UT64_MAX = 2 ^ 64 - 1"
  by (simp add: unsigned_minus_1_eq_mask mask_eq_exp_minus_1)

lemma size_not_max: "malloc_ok m \<Longrightarrow> (ucast (ml_size m) :: ut64) \<noteq> UT64_MAX"
proof
  assume m: "malloc_ok m" and "(ucast (ml_size m) :: ut64) = UT64_MAX"
  then have "unat (ml_size m) = 2 ^ 64 - 1" using unat_max ucast_size_unat [of "ml_size m"] by metis
  then show False using m by (simp add: malloc_ok_def)
qed

lemma flat_fd: "flat io k m mp \<Longrightarrow> c_int (of_int (mp_fd mp)) = mp_fd mp \<and> (of_int (mp_fd mp) :: ut64) \<noteq> UT64_MAX"
proof -
  assume "flat io k m mp"
  then have s: "small (mp_fd mp)" by (simp add: flat_def map_inside_def small_def)
  then have u: "unat (of_int (mp_fd mp) :: ut64) = nat (mp_fd mp)" by (rule unat_of_small)
  have "(of_int (mp_fd mp) :: ut64) \<noteq> UT64_MAX"
  proof
    assume "(of_int (mp_fd mp) :: ut64) = UT64_MAX"
    then have "nat (mp_fd mp) = 2 ^ 64 - 1" using u unat_max by metis
    moreover have "nat (mp_fd mp) < 2 ^ 31" using s by (simp add: small_def nat_less_iff)
    ultimately show False by simp
  qed
  moreover have "c_int (of_int (mp_fd mp)) = mp_fd mp"
    using s c_int_small [of "of_int (mp_fd mp)"] u by (simp add: small_def nat_less_iff)
  ultimately show ?thesis by blast
qed

lemma malloc_ok_offset [simp]: "malloc_ok (m\<lparr>ml_offset := p\<rparr>) = malloc_ok m"
  by (simp add: malloc_ok_def)

section \<open>Steps on a mapped file\<close>

lemma flat_seek:
  assumes "flat io k m mp" "off \<noteq> UT64_MAX"
  defines "p \<equiv> (if off \<le> ucast (ml_size m) then off else ucast (ml_size m))"
  shows "\<exists>io'. r_io_seek io off 0 = Some (p, io') \<and> flat io' k (m\<lparr>ml_offset := p\<rparr>) mp \<and> io_off io' = off"
proof -
  have t: "seek_target io off = off" using assms(1) by (simp add: flat_def plain_access_def seek_target_def)
  have l: "pl_lseek r_io_plugin_malloc (Some m) off 0 = (p, Some (m\<lparr>ml_offset := p\<rparr>))"
    by (simp add: r_io_plugin_malloc_def malloc_lseek_def p_def Let_def)
  have "r_io_seek io off 0 = Some (p, (set_data io k (Some (m\<lparr>ml_offset := p\<rparr>)))\<lparr>io_off := off\<rparr>)"
    using assms(1,2) t l flat_cur [OF assms(1)]
    by (simp add: r_io_seek_def flat_def plain_access_def Let_def)
  moreover have "flat ((set_data io k (Some (m\<lparr>ml_offset := p\<rparr>)))\<lparr>io_off := off\<rparr>) k (m\<lparr>ml_offset := p\<rparr>) mp"
    using assms(1) by (intro flat_off flat_set [OF assms(1)]) (simp_all add: flat_def)
  ultimately show ?thesis by simp
qed

text \<open>The position in the file of an address.\<close>

definition file_pos :: "io_map \<Rightarrow> ut64 \<Rightarrow> ut64" where
  "file_pos mp a = a - mp_from mp + mp_delta mp"

lemma file_pos_unat:
  assumes "flat io k m mp" "mp_from mp \<le> a" "unat a \<le> unat (mp_to mp)"
  shows "unat (file_pos mp a) = unat a - unat (mp_from mp) + unat (mp_delta mp)"
    "unat a - unat (mp_from mp) + unat (mp_delta mp) + (unat (mp_to mp) - unat a) \<le> unat (ml_size m)"
    "unat (ml_size m) < 2 ^ 31"
proof -
  have i: "unat (mp_from mp) \<le> unat a" using assms(2) by (simp add: word_le_nat_alt)
  have s: "unat (mp_delta mp) + (unat (mp_to mp) - unat (mp_from mp)) \<le> unat (ml_size m)"
    and b: "unat (ml_size m) < 2 ^ 31"
    using assms(1) by (simp_all add: flat_def map_inside_def malloc_ok_def)
  show "unat a - unat (mp_from mp) + unat (mp_delta mp) + (unat (mp_to mp) - unat a) \<le> unat (ml_size m)"
    "unat (ml_size m) < 2 ^ 31" using s i assms(3) b by simp_all
  have "unat (a - mp_from mp) = unat a - unat (mp_from mp)" using assms(2) by (simp add: unat_sub)
  moreover from this have "unat (a - mp_from mp) + unat (mp_delta mp) < 2 ^ 64" using s b i assms(3) by simp
  ultimately show "unat (file_pos mp a) = unat a - unat (mp_from mp) + unat (mp_delta mp)"
    unfolding file_pos_def using end_no_wrap by simp
qed

lemma flat_select:
  assumes "flat io k m mp" "mp_from mp \<le> a" "a < mp_to mp"
  shows "\<exists>io'. r_io_map_select io a = Some (file_pos mp a, io') \<and>
    flat io' k (m\<lparr>ml_offset := file_pos mp a\<rparr>) mp \<and> io_off io' = file_pos mp a"
proof -
  have at: "unat a < unat (mp_to mp)" using assms(3) by (simp add: word_less_nat_alt)
  note u = file_pos_unat [OF assms(1,2) less_imp_le [OF at]]
  have le: "file_pos mp a \<le> ucast (ml_size m)" using u by (simp add: word_le_nat_alt)
  have ne: "file_pos mp a \<noteq> UT64_MAX"
  proof
    assume "file_pos mp a = UT64_MAX"
    then have "2 ^ 64 - 1 \<le> unat (ml_size m)" using le unat_max by (simp add: word_le_nat_alt)
    then show False using u(3) by simp
  qed
  have loop: "select_loop a (io_maps io) io 0 a UT64_MAX False = (io, file_pos mp a, of_int (mp_fd mp), True)"
    using assms flat_use_fd [OF assms(1)] by (simp add: flat_def file_pos_def Let_def)
  from flat_seek [OF assms(1) ne] le obtain io' where
    s: "r_io_seek io (file_pos mp a) 0 = Some (file_pos mp a, io')"
      "flat io' k (m\<lparr>ml_offset := file_pos mp a\<rparr>) mp" "io_off io' = file_pos mp a" by auto
  have "\<not> io_debug io" using assms(1) by (simp add: flat_def plain_access_def)
  then show ?thesis
    using loop s flat_fd [OF assms(1)] flat_use_fd [OF assms(1)] flat_use_fd [OF s(2)]
    by (simp add: r_io_map_select_def Let_def)
qed

text \<open>Reading at the position of the file; the position does not move.\<close>

lemma flat_read_internal:
  assumes "flat io k m mp" "small len" "nat len \<le> length buf" "unat (ml_offset m) + nat len \<le> unat (ml_size m)"
  shows "\<exists>io'. r_io_read_internal io buf len =
    Some ((len, take (nat len) (drop (unat (ml_offset m)) (ml_buf m)) @ drop (nat len) buf), io') \<and> flat io' k m mp"
proof -
  have ok: "malloc_ok m" using assms(1) by (simp add: flat_def)
  have le: "ml_offset m \<le> ucast (ml_size m)" using assms(4) by (simp add: word_le_nat_alt)
  have n: "min (nat len) (unat (ml_size m) - unat (ml_offset m)) = nat len" using assms(4) by simp
  have "malloc_read (Some m) buf len =
      Some ((len, take (nat len) (drop (unat (ml_offset m)) (ml_buf m)) @ drop (nat len) buf), Some m)"
    using malloc_read_eq [OF ok le assms(2,3)] assms(2) unfolding n by (simp add: small_def)
  moreover have "flat (set_data io k (Some m)) k m mp" by (rule flat_set [OF assms(1) ok refl])
  ultimately show ?thesis
    using assms(1) flat_cur [OF assms(1)] by (simp add: r_io_read_internal_def flat_def r_io_plugin_malloc_def)
qed

lemma flat_no_sections:
  assumes "flat io k m mp"
  shows "r_io_section_next (io_secs io) a = UT64_MAX" "r_io_section_exists_for_vaddr (io_secs io) a p = 0"
    "ss_sections (io_secs io) = []"
  using assms
  by (simp_all add: flat_def plain_access_def r_io_section_next_def r_io_section_exists_for_vaddr_def
    r_io_section_vget_def)

definition inside_map :: "io_map \<Rightarrow> ut64 \<Rightarrow> int \<Rightarrow> bool" where
  "inside_map mp addr len \<longleftrightarrow> small len \<and> 0 < len \<and> mp_from mp \<le> addr \<and> unat addr + nat len \<le> unat (mp_to mp)"

lemma inside_less: "inside_map mp addr len \<Longrightarrow> mp_from mp \<le> addr \<and> addr < mp_to mp \<and> addr \<noteq> UT64_MAX"
proof -
  assume i: "inside_map mp addr len"
  then have "addr < mp_to mp" by (auto simp: inside_map_def word_less_nat_alt)
  then show ?thesis using i by (auto simp: inside_map_def)
qed

lemma inside_end:
  assumes "inside_map mp addr len"
  shows "unat (addr + of_int len) = unat addr + nat len" "unat (of_int len :: ut64) = nat len"
proof -
  show u: "unat (of_int len :: ut64) = nat len" using assms unat_of_small by (simp add: inside_map_def)
  have "unat addr + nat len < 2 ^ 64"
    using assms unat_less_64 [of "mp_to mp"] unfolding inside_map_def by linarith
  then show "unat (addr + of_int len) = unat addr + nat len" using end_no_wrap u by simp
qed

lemma flat_chunk:
  assumes "flat io k m mp" "inside_map mp addr len"
  shows "read_chunk io addr 0 len 0 = Chunk len"
proof -
  note e = inside_end [OF assms(2)] and i = inside_less [OF assms(2)]
  have len: "0 < len" using assms(2) by (simp add: inside_map_def)
  have "addr < addr + of_int len" using e len by (simp add: word_less_nat_alt)
  moreover have "r_io_map_exists_for_offset (io_maps io) addr"
    using assms(1) i by (simp add: flat_def r_io_map_exists_for_offset_def)
  moreover have "\<not> of_int len > UT64_MAX - addr"
  proof -
    have "unat (UT64_MAX - addr) = 2 ^ 64 - 1 - unat addr" using unat_max by (simp add: unat_sub)
    moreover have "unat addr + nat len \<le> 2 ^ 64 - 1"
      using assms(2) unat_less_64 [of "mp_to mp"] unfolding inside_map_def by linarith
    ultimately show ?thesis using e(2) by (simp add: word_less_nat_alt)
  qed
  ultimately show ?thesis
    using i [THEN conjunct2, THEN conjunct2, symmetric] len flat_no_sections [OF assms(1)]
    by (simp add: read_chunk_def Let_def)
qed

section \<open>Reading\<close>

text \<open>The byte of an address.\<close>

definition map_bytes :: "io_map \<Rightarrow> riomalloc \<Rightarrow> nat \<Rightarrow> ut8" where
  "map_bytes mp m a = (if unat (mp_from mp) \<le> a \<and> a < unat (mp_to mp)
     then ml_buf m ! (a - unat (mp_from mp) + unat (mp_delta mp)) else 0)"

lemma flat_pos:
  assumes "flat io k m mp" "inside_map mp addr len"
  shows "unat (file_pos mp addr) = unat addr - unat (mp_from mp) + unat (mp_delta mp)"
    "unat (file_pos mp addr) + nat len \<le> unat (ml_size m)" "unat (ml_size m) \<le> length (ml_buf m)"
    "unat (mp_from mp) \<le> unat addr"
proof -
  have a: "mp_from mp \<le> addr" "unat addr \<le> unat (mp_to mp)" "unat addr + nat len \<le> unat (mp_to mp)"
    using assms(2) by (simp_all add: inside_map_def)
  note p = file_pos_unat [OF assms(1) a(1,2)]
  show "unat (file_pos mp addr) = unat addr - unat (mp_from mp) + unat (mp_delta mp)" by (rule p(1))
  show "unat (file_pos mp addr) + nat len \<le> unat (ml_size m)" using p(1,2) a(3) by linarith
  show "unat (ml_size m) \<le> length (ml_buf m)" using assms(1) by (simp add: flat_def malloc_ok_def)
  show "unat (mp_from mp) \<le> unat addr" using a(1) by (simp add: word_le_nat_alt)
qed

lemma file_slice:
  assumes "flat io k m mp" "inside_map mp addr len"
  shows "take (nat len) (drop (unat (file_pos mp addr)) (ml_buf m)) =
    map (map_bytes mp m) [unat addr..<unat addr + nat len]"
proof -
  note p = flat_pos [OF assms]
  show ?thesis
  proof (rule nth_equalityI)
    show "length (take (nat len) (drop (unat (file_pos mp addr)) (ml_buf m))) =
        length (map (map_bytes mp m) [unat addr..<unat addr + nat len])" using p(2,3) by simp
  next
    fix i assume "i < length (take (nat len) (drop (unat (file_pos mp addr)) (ml_buf m)))"
    then have i: "i < nat len" by simp
    have "unat addr + i - unat (mp_from mp) + unat (mp_delta mp) = unat (file_pos mp addr) + i"
      "unat (mp_from mp) \<le> unat addr + i" "unat addr + i < unat (mp_to mp)"
      using p(1,4) i assms(2) by (simp_all add: inside_map_def)
    then show "take (nat len) (drop (unat (file_pos mp addr)) (ml_buf m)) ! i =
        map (map_bytes mp m) [unat addr..<unat addr + nat len] ! i"
      using i p(2,3) by (simp add: map_bytes_def)
  qed
qed

lemma map_bytes_offset [simp]: "map_bytes mp (m\<lparr>ml_offset := p\<rparr>) = map_bytes mp m"
  by (simp add: map_bytes_def fun_eq_iff)

text \<open>The one turn of the loop a read inside the map takes, and the test that ends it.\<close>

lemma flat_read_loop:
  assumes "flat io k m mp" "inside_map mp addr len" "nat len \<le> length buf"
  shows "\<exists>io'. read_at_loop (Suc (Suc n)) io addr buf 0 len 0 =
      Some (map (map_bytes mp m) [unat addr..<unat addr + nat len] @ drop (nat len) buf, io') \<and>
    flat io' k (m\<lparr>ml_offset := file_pos mp addr\<rparr>) mp"
proof -
  note i = inside_less [OF assms(2)]
  have len: "0 < len" "small len" using assms(2) by (simp_all add: inside_map_def)
  from flat_select [OF assms(1)] i obtain io1 where
    one: "r_io_map_select io addr = Some (file_pos mp addr, io1)"
      "flat io1 k (m\<lparr>ml_offset := file_pos mp addr\<rparr>) mp" by blast
  have "malloc_ok m" using assms(1) by (simp add: flat_def)
  from flat_seek [OF one(2), of addr] i size_not_max [OF this] obtain q io2 where
    two: "r_io_seek io1 addr 0 = Some (q, io2)" "flat io2 k (m\<lparr>ml_offset := q\<rparr>) mp" "q \<noteq> UT64_MAX"
    by (auto split: if_splits)
  from flat_select [OF two(2)] i obtain io3 where
    three: "r_io_map_select io2 addr = Some (file_pos mp addr, io3)"
      "flat io3 k (m\<lparr>ml_offset := file_pos mp addr\<rparr>) mp" by auto
  from flat_read_internal [OF three(2) len(2) assms(3)] flat_pos(2) [OF three(2) assms(2)] obtain io4 where
    four: "r_io_read_internal io3 buf len =
        Some ((len, take (nat len) (drop (unat (file_pos mp addr)) (ml_buf m)) @ drop (nat len) buf), io4)"
      "flat io4 k (m\<lparr>ml_offset := file_pos mp addr\<rparr>) mp" by auto
  have st: "io_cached io4 = 0" "length (io_maps io4) = 1"
    using four(2) by (simp_all add: flat_def plain_access_def)
  have add: "c_add 0 len = Some len" "c_add len (- len) = Some 0"
    using len by (simp_all add: c_add_def small_def)
  show ?thesis
    using flat_chunk [OF assms(1,2)] i len one two three four st add file_slice [OF assms(1,2)]
    by (simp add: at_offset_def)
qed

lemma flat_read_at:
  assumes "flat io k m mp" "inside_map mp addr len" "nat len \<le> length buf" "2 \<le> n"
  shows "\<exists>io'. r_io_read_at n io addr buf len =
      Some ((len, map (map_bytes mp m) [unat addr..<unat addr + nat len] @ drop (nat len) buf), io') \<and>
    flat io' k (m\<lparr>ml_offset := file_pos mp addr\<rparr>) mp"
proof -
  obtain j where n: "n = Suc (Suc j)" using assms(4) by (auto dest!: le_Suc_ex)
  have len: "0 < len" using assms(2) by (simp add: inside_map_def)
  obtain b where b: "mem_fill buf 0 len (io_Oxff io) = Some b" "nat len \<le> length b"
      "drop (nat len) b = drop (nat len) buf"
    using len assms(3) by (simp add: mem_fill_def buf_write_def)
  from flat_read_loop [OF flat_off [OF assms(1), of addr] assms(2) b(2), of j] obtain io' where
    "read_at_loop n (io\<lparr>io_off := addr\<rparr>) addr b 0 len 0 =
      Some (map (map_bytes mp m) [unat addr..<unat addr + nat len] @ drop (nat len) buf, io')"
    "flat io' k (m\<lparr>ml_offset := file_pos mp addr\<rparr>) mp" unfolding n b(3) by blast
  moreover have "\<not> io_vio io" "\<not> io_raw io" "\<not> io_buffer_enabled io" "ss_sections (io_secs io) = []"
    using assms(1) by (simp_all add: flat_def plain_access_def)
  ultimately show ?thesis
    using len b by (simp add: r_io_read_at_def read_at_sections_def read_at_plain_def)
qed

section \<open>Writing\<close>

text \<open>The file after the write, and its position.\<close>

definition put_bytes :: "io_map \<Rightarrow> riomalloc \<Rightarrow> ut64 \<Rightarrow> ut8 list \<Rightarrow> int \<Rightarrow> riomalloc" where
  "put_bytes mp m addr buf len = (let p = unat (file_pos mp addr) in
     m\<lparr>ml_buf := take p (ml_buf m) @ take (nat len) buf @ drop (p + nat len) (ml_buf m),
       ml_offset := file_pos mp addr + of_nat (nat len)\<rparr>)"

lemma put_bytes_spec:
  assumes "flat io k m mp" "inside_map mp addr len" "nat len \<le> length buf"
  shows "map_bytes mp (put_bytes mp m addr buf len) =
    (\<lambda>a. if unat addr \<le> a \<and> a < unat addr + nat len then buf ! (a - unat addr) else map_bytes mp m a)"
proof
  fix a
  note p = flat_pos [OF assms(1,2)]
  let ?p = "unat (file_pos mp addr)" and ?q = "a - unat (mp_from mp) + unat (mp_delta mp)"
  show "map_bytes mp (put_bytes mp m addr buf len) a =
    (if unat addr \<le> a \<and> a < unat addr + nat len then buf ! (a - unat addr) else map_bytes mp m a)"
  proof (cases "unat (mp_from mp) \<le> a \<and> a < unat (mp_to mp)")
    case True
    have q: "?q + unat addr = ?p + a" using p(1,4) True by simp
    have "?q < length (ml_buf m)"
      using assms(1) True p(3) unfolding flat_def map_inside_def by linarith
    moreover have "buf_write (ml_buf m) ?p (take (nat len) buf) = Some (ml_buf (put_bytes mp m addr buf len))"
      using p(2,3) assms(3) by (simp add: buf_write_def put_bytes_def Let_def)
    ultimately have "ml_buf (put_bytes mp m addr buf len) ! ?q =
        (if ?p \<le> ?q \<and> ?q < ?p + nat len then take (nat len) buf ! (?q - ?p) else ml_buf m ! ?q)"
      using assms(3) by (simp add: buf_write_nth)
    moreover have "?p \<le> ?q \<longleftrightarrow> unat addr \<le> a" "?q < ?p + nat len \<longleftrightarrow> a < unat addr + nat len"
      "?q - ?p = a - unat addr" using q by linarith+
    ultimately show ?thesis using True by (auto simp: map_bytes_def)
  next
    case False
    then show ?thesis using p(4) assms(2) by (auto simp: map_bytes_def inside_map_def)
  qed
qed

lemma flat_write_through:
  assumes "flat io k m mp" "inside_map mp addr len" "nat len \<le> length buf" "io_off io = addr"
  shows "\<exists>io'. write_through io buf len = Some (len, io') \<and> flat io' k (put_bytes mp m addr buf len) mp"
proof -
  note i = inside_less [OF assms(2)] and p = flat_pos [OF assms(1,2)] and e = inside_end [OF assms(2)]
  have len: "small len" "0 < len" using assms(2) by (simp_all add: inside_map_def)
  let ?m = "m\<lparr>ml_offset := file_pos mp addr\<rparr>" and ?m' = "put_bytes mp m addr buf len"
  from flat_select [OF assms(1)] i obtain io1 where
    one: "r_io_map_select io addr = Some (file_pos mp addr, io1)" "flat io1 k ?m mp" by blast
  define io2 where "io2 = io1\<lparr>io_off := addr - mp_from mp\<rparr>"
  have two: "flat io2 k ?m mp" unfolding io2_def by (rule flat_off [OF one(2)])
  have ok: "malloc_ok ?m" "ml_offset ?m \<le> ucast (ml_size ?m)"
    using two p(2) by (simp_all add: flat_def word_le_nat_alt)
  have w: "malloc_write (Some ?m) buf len = Some (len, Some ?m')"
    using malloc_write_eq [OF ok len(1) assms(3)] p(2) len
    by (simp add: put_bytes_def Let_def min_absorb1)
  have ok': "malloc_ok ?m'" "ml_size ?m' = ml_size m"
    using ok(1) p(2,3) assms(3) by (auto simp: malloc_ok_def put_bytes_def Let_def)
  define io3 where "io3 = set_data io2 k (Some ?m')"
  have three: "flat io3 k ?m' mp" unfolding io3_def using flat_set [OF two ok'(1)] ok'(2) by simp
  have upd: "r_io_map_write_update [mp] (mp_fd mp) (addr - mp_from mp) (of_int len) = (False, [mp])"
  proof -
    have "unat (addr - mp_from mp) = unat addr - unat (mp_from mp)" using i by (simp add: unat_sub)
    then have "unat (addr - mp_from mp) + nat len \<le> unat (mp_to mp)"
      using assms(2) unfolding inside_map_def by linarith
    moreover have "unat (mp_to mp) < 2 ^ 64" by (rule unat_less_64)
    ultimately have "\<not> mp_to mp < addr - mp_from mp + of_int len"
      using end_no_wrap [of "addr - mp_from mp" "of_int len"] e(2) unfolding word_less_nat_alt by linarith
    then show ?thesis by (simp add: r_io_map_write_update_def)
  qed
  have get: "r_io_map_get (io_maps io1) addr = Some mp" using one(2) i by (simp add: flat_def r_io_map_get_def)
  have facts: "io_plugin io2 = Some r_io_plugin_malloc" "cur_desc io2 = Some (k, io_store io2 ! k)"
    "ds_data (io_store io2 ! k) = Some ?m" "cur_desc io3 = Some (k, io_store io3 ! k)"
    "ds_fd (io_store io3 ! k) = mp_fd mp" "io_maps io3 = [mp]" "io_off io3 = addr - mp_from mp"
    using two three flat_cur [OF two] flat_cur [OF three] by (auto simp: flat_def io3_def io2_def set_data_def)
  have "write_through io buf len = Some (len, io3\<lparr>io_maps := [mp], io_off := addr - mp_from mp + of_int len\<rparr>)"
    using one(1) get w upd facts assms(4) len
    by (simp add: write_through_def Let_def r_io_plugin_malloc_def flip: io2_def io3_def)
  moreover have "io3\<lparr>io_maps := [mp]\<rparr> = io3" using facts(6) by simp
  ultimately show ?thesis using flat_off [OF three] by simp
qed

lemma flat_write_at:
  assumes "flat io k m mp" "inside_map mp addr len" "nat len \<le> length buf"
  shows "\<exists>io'. r_io_write_at n io addr buf len = Some (len, io') \<and> flat io' k (put_bytes mp m addr buf len) mp"
proof -
  note i = inside_less [OF assms(2)]
  from flat_seek [OF assms(1), of addr] i obtain q io1 where
    one: "r_io_seek io addr 0 = Some (q, io1)" "flat io1 k (m\<lparr>ml_offset := q\<rparr>) mp" "io_off io1 = addr" by auto
  from flat_write_through [OF one(2) assms(2,3) one(3)] obtain io2 where
    two: "write_through io1 buf len = Some (len, io2)" "flat io2 k (put_bytes mp m addr buf len) mp"
    by (auto simp: put_bytes_def Let_def)
  have "io_cached io = 0" "io_enforce_rwx io1 = 0" "io_cached io1 = 0" "io_write_mask_fd io1 = - 1"
    using assms(1) one(2) by (simp_all add: flat_def plain_access_def)
  then have "r_io_write_at n io addr buf len = Some (len, io2)"
    using one(1) two(1) by (simp add: r_io_write_at_def r_io_write_def write_data_def)
  then show ?thesis using two(2) by blast
qed

section \<open>The contract holds\<close>

definition file_of :: "nat \<Rightarrow> malloc_data rio \<Rightarrow> riomalloc" where
  "file_of k io = (case ds_data (io_store io ! k) of Some m \<Rightarrow> m | None \<Rightarrow> malloc_new 0)"

definition mapped_file :: "nat \<Rightarrow> io_map \<Rightarrow> malloc_data rio \<Rightarrow> bool" where
  "mapped_file k mp io \<longleftrightarrow> flat io k (file_of k io) mp"

lemma flat_mapped: "flat io k m mp \<Longrightarrow> mapped_file k mp io \<and> file_of k io = m"
  by (simp add: mapped_file_def flat_def file_of_def)

interpretation malloc_mem: byte_memory "r_io_read_at (Suc (Suc n))" "r_io_write_at (Suc (Suc n))" "mapped_file k mp"
  "\<lambda>io. map_bytes mp (file_of k io)" "inside_map mp"
proof
  fix io addr len and buf :: "ut8 list"
  assume a: "mapped_file k mp io" "inside_map mp addr len" "nat len \<le> length buf"
  from flat_read_at [OF a(1) [unfolded mapped_file_def] a(2,3), of "Suc (Suc n)"]
  show "\<exists>io'. r_io_read_at (Suc (Suc n)) io addr buf len =
      Some ((len, map (map_bytes mp (file_of k io)) [unat addr..<unat addr + nat len] @ drop (nat len) buf), io') \<and>
    mapped_file k mp io' \<and> map_bytes mp (file_of k io') = map_bytes mp (file_of k io)"
    by (auto dest: flat_mapped)
next
  fix io addr len and buf :: "ut8 list"
  assume a: "mapped_file k mp io" "inside_map mp addr len" "nat len \<le> length buf"
  note f = a(1) [unfolded mapped_file_def]
  from flat_write_at [OF f a(2,3), of "Suc (Suc n)"] put_bytes_spec [OF f a(2,3)]
  show "\<exists>io'. r_io_write_at (Suc (Suc n)) io addr buf len = Some (len, io') \<and> mapped_file k mp io' \<and>
    map_bytes mp (file_of k io') = (\<lambda>a. if unat addr \<le> a \<and> a < unat addr + nat len
      then buf ! (a - unat addr) else map_bytes mp (file_of k io) a)"
    by (auto dest!: flat_mapped)
qed

lemma two_or_more: "2 \<le> n \<Longrightarrow> \<exists>j. n = Suc (Suc j)" for n :: nat
  by (auto dest!: le_Suc_ex)

text \<open>C4: what \<open>r_io_write_at\<close> writes into a mapped file, \<open>r_io_read_at\<close> reads back, from any state of the file and
  at any address of the map; both report the number of bytes asked for and leave the file mapped. Two turns
  of the loop of \<open>r_io_read_at\<close> are enough.\<close>
theorem io_write_then_read:
  assumes "mapped_file k mp io" "inside_map mp addr len" "nat len \<le> length buf" "nat len \<le> length buf'" "2 \<le> n"
  shows "\<exists>io1 io2. r_io_write_at n io addr buf len = Some (len, io1) \<and>
    r_io_read_at n io1 addr buf' len = Some ((len, take (nat len) buf @ drop (nat len) buf'), io2) \<and>
    mapped_file k mp io2"
  using two_or_more [OF assms(5)] malloc_mem.write_then_read [OF assms(1-4)] by metis

text \<open>C21: a write through \<open>r_io_write_at\<close> leaves every other byte of the map alone: a read of a range apart from
  the one written gives the bytes it would have given before.\<close>
theorem io_write_leaves_rest:
  assumes "mapped_file k mp io" "inside_map mp addr len" "nat len \<le> length buf"
    and "inside_map mp addr2 len2" "nat len2 \<le> length buf2" "2 \<le> n"
    and "unat addr2 + nat len2 \<le> unat addr \<or> unat addr + nat len \<le> unat addr2"
  shows "\<exists>io1 r. r_io_write_at n io addr buf len = Some (len, io1) \<and>
    map_option fst (r_io_read_at n io1 addr2 buf2 len2) = Some r \<and>
    map_option fst (r_io_read_at n io addr2 buf2 len2) = Some r"
proof -
  obtain j where n: "n = Suc (Suc j)" using two_or_more [OF assms(6)] by blast
  from malloc_mem.write_leaves_rest [OF assms(1-5,7), of j] malloc_mem.rd [OF assms(1,4,5), of j]
  show ?thesis unfolding n malloc_mem.bytes_def by fastforce
qed

lemma malloc_rio_mapped:
  "mapped_file 0 \<lparr>mp_fd = 3, mp_flags = 7, mp_delta = 0, mp_from = 0x1000, mp_to = 0x1040\<rparr> (malloc_rio 64 0x1000 0)"
  by (simp add: mapped_file_def flat_def plain_access_def map_inside_def file_of_def malloc_rio_def r_io_section_init_def
    r_io_desc_get_def desc_at_def malloc_new_ok) (simp add: malloc_new_def)

theorem io_write_then_read_witness:
  "\<exists>io1 io2. r_io_write_at 2 (malloc_rio 64 0x1000 0) 0x1010 [1, 2, 3] 3 = Some (3, io1) \<and>
    r_io_read_at 2 io1 0x1010 [0, 0, 0] 3 = Some ((3, [1, 2, 3]), io2)"
  using io_write_then_read [OF malloc_rio_mapped, of "0x1010" 3 "[1, 2, 3]" "[0, 0, 0]" 2]
  by (auto simp: inside_map_def small_def)

theorem io_write_leaves_rest_witness:
  "\<exists>io1 r. r_io_write_at 2 (malloc_rio 64 0x1000 0) 0x1010 [1, 2, 3] 3 = Some (3, io1) \<and>
    map_option fst (r_io_read_at 2 io1 0x1013 [7, 7] 2) = Some r"
  using io_write_leaves_rest [OF malloc_rio_mapped, of "0x1010" 3 "[1, 2, 3]" "0x1013" 2 "[7, 7]" 2]
  by (auto simp: inside_map_def small_def)

end
