(* ===== verification/R2_Esil_Memory.thy ===== *)
theory R2_Esil_Memory
  imports R2_Esil_Sem R2_IO_Memory
begin

text \<open>
  The ESIL machine over the IO layer. \<open>r_anal_esil_setup\<close> binds the interpreter to \<open>r_io_read_at\<close> and
  \<open>r_io_write_at\<close>; the lemmas about \<open>esil_poke_n\<close> and \<open>esil_peek_n\<close> are proved in the locale
  \<open>byte_memory\<close>, for any memory that keeps its contract, and reach the IO layer through its
  interpretation on a mapped file.
\<close>

section \<open>Bytes of a value\<close>

text \<open>The \<open>n\<close> bytes of a value in the byte order of the machine.\<close>

definition value_bytes :: "bool \<Rightarrow> nat \<Rightarrow> ut64 \<Rightarrow> ut8 list" where
  "value_bytes be n v = (if be then rev else id) (take n (enc_le64 v))"

definition machine_size :: "int \<Rightarrow> bool" where
  "machine_size bits \<longleftrightarrow> bits = 8 \<or> bits = 16 \<or> bits = 32 \<or> bits = 64"

lemma machine_sizeE:
  assumes "machine_size bits"
  obtains "bits = 8" | "bits = 16" | "bits = 32" | "bits = 64"
  using assms by (auto simp: machine_size_def)

lemma value_bytes_length [simp]: "n \<le> 8 \<Longrightarrow> length (value_bytes be n v) = n"
  by (simp add: value_bytes_def)

lemma enc_prefix:
  "take (Suc 0) (enc_le64 v) = [ucast v]" "take 2 (enc_le64 v) = enc_le16 (ucast v)"
  "take 4 (enc_le64 v) = enc_le32 (ucast v)" "take 8 (enc_le64 v) = enc_le64 v"
  by (auto simp: enc_defs bit_simps intro!: bit_word_eqI)

lemma write_ble_bytes:
  "machine_size bits \<Longrightarrow> r_write_ble b 0 v be bits = buf_write b 0 (value_bytes be (nat (bits div 8)) v)"
  by (elim machine_sizeE) (simp_all add: r_write_ble_def r_write_ble8_eq r_write_ble16_def r_write_ble32_def
      r_write_ble64_def write_le_eqs write_be_eqs value_bytes_def enc_prefix)

lemma enc_le64_nth: "i < 8 \<Longrightarrow> enc_le64 v ! i = ucast (drop_bit (8 * i) v)"
  by (auto simp: enc_defs less_Suc_eq numeral_eq_Suc nth_append bit_simps intro!: bit_word_eqI)

lemma enc_pad:
  assumes "n \<le> 8"
  shows "take n (enc_le64 v) @ replicate (8 - n) 0 = enc_le64 (v AND mask (8 * n))"
proof (rule nth_equalityI)
  fix i assume "i < length (take n (enc_le64 v) @ replicate (8 - n) 0)"
  then have "i < 8" using assms by simp
  then show "(take n (enc_le64 v) @ replicate (8 - n) 0) ! i = enc_le64 (v AND mask (8 * n)) ! i"
    using assms by (auto simp: nth_append enc_le64_nth bit_simps intro!: bit_word_eqI)
qed (use assms in simp)

lemma byte_bits: "\<not> bit (x :: ut8) (8 + n)" "\<not> bit x (16 + n)" "\<not> bit x (24 + n)"
  by (auto dest: bit_imp_le_length)

lemma enc_dec_le64: "length b = 8 \<Longrightarrow> enc_le64 (dec_le64 b) = b"
proof (rule nth_equalityI)
  fix i assume "length b = 8" "i < length (enc_le64 (dec_le64 b))"
  then have "i = 0 \<or> i = 1 \<or> i = 2 \<or> i = 3 \<or> i = 4 \<or> i = 5 \<or> i = 6 \<or> i = 7" by auto
  then show "enc_le64 (dec_le64 b) ! i = b ! i"
    using \<open>length b = 8\<close> by (elim disjE) (auto simp: enc_le64_nth dec_defs bit_simps byte_bits intro!: bit_word_eqI)
qed simp

lemma value_bytes_mask:
  assumes "machine_size bits"
  shows "value_bytes be (nat (bits div 8)) (v AND mask (nat bits)) = value_bytes be (nat (bits div 8)) v"
proof -
  have n: "nat (bits div 8) \<le> 8" "8 * nat (bits div 8) = nat bits"
    using assms by (auto simp: machine_size_def)
  from enc_pad [OF n(1), of v] have "take (nat (bits div 8)) (enc_le64 (v AND mask (nat bits))) =
      take (nat (bits div 8)) (enc_le64 v)"
    unfolding n(2) by (metis append_eq_conv_conj length_take length_enc(3) min_absorb2 n(1) append_take_drop_id)
  then show ?thesis by (simp add: value_bytes_def)
qed

lemma genmask_machine: "machine_size bits \<Longrightarrow> genmask (bits - 1) = Some (mask (nat bits))"
  by (elim machine_sizeE) (simp_all add: genmask_def shl64_def, code_simp+)

text \<open>What \<open>esil_peek_n\<close> makes of the bytes it read, and \<open>esil_poke_n\<close> wrote.\<close>

lemma peek_decodes:
  assumes "machine_size bits"
  defines "n \<equiv> nat (bits div 8)"
  shows "do { b \<leftarrow> r_read_ble64 (value_bytes be n v @ replicate (8 - n) 0) 0 False;
      if be then map_option dec_le64 (r_mem_swapendian (enc_le64 b) (bits div 8)) else Some b } =
    Some (v AND mask (nat bits))"
proof -
  have n: "n \<le> 8" "int n = bits div 8" "n \<in> {1, 2, 4, 8}" "8 * n = nat bits"
    using assms(1) by (auto simp: n_def machine_size_def)
  let ?b = "value_bytes be n v @ replicate (8 - n) 0"
  have rd: "r_read_ble64 ?b 0 False = Some (dec_le64 ?b)"
    using n(1) by (simp add: r_read_ble64_def read_64_eqs buf_read_def)
  have swap: "r_mem_swapendian ?b (bits div 8) = Some (rev (value_bytes be n v) @ replicate (8 - n) 0)"
    using n by (auto simp: r_mem_swapendian_def buf_read_def buf_write_def simp flip: n(2))
  show ?thesis
  proof (cases be)
    case True
    have "enc_le64 (dec_le64 ?b) = ?b" using n(1) by (intro enc_dec_le64) simp
    then show ?thesis using True n(4) rd swap enc_pad [OF n(1), of v] by (simp add: value_bytes_def dec_enc_le64)
  next
    case False
    then show ?thesis using n(4) rd enc_pad [OF n(1), of v] by (simp add: value_bytes_def dec_enc_le64)
  qed
qed

section \<open>Poke and peek on a memory\<close>

text \<open>The state of the machine: an IO object bound, writing allowed, no register spelled like the numeral \<open>a\<close>.\<close>

definition bound_to :: "'io esil \<Rightarrow> 'io \<Rightarrow> bool \<Rightarrow> ut64 \<Rightarrow> bool" where
  "bound_to s io be a \<longleftrightarrow> es_nowrite s = 0 \<and> (case es_anal s of None \<Rightarrow> False
     | Some an \<Rightarrow> an_io an = Some io \<and> an_big_endian an = be \<and> r_reg_get (an_reg an) (fmt_0x a) (- 1) = None)"

lemma bound_toE:
  assumes "bound_to s io be a"
  obtains an where "es_anal s = Some an" "an_io an = Some io" "an_big_endian an = be" "r_reg_get (an_reg an) (fmt_0x a) (- 1) = None"
    "es_nowrite s = 0"
  using assms by (auto simp: bound_to_def split: option.splits)

lemma bound_upd_io: "bound_to s io be a \<Longrightarrow> bound_to (upd_io s io') io' be a"
  by (auto simp: bound_to_def upd_io_def split: option.splits)

lemma bound_cong:
  "es_anal s' = es_anal s \<Longrightarrow> es_nowrite s' = es_nowrite s \<Longrightarrow> bound_to s' io be a = bound_to s io be a"
  by (simp add: bound_to_def)

lemma isregornum_numeral:
  assumes "bound_to s io be a"
  shows "isregornum (plain_cb iob g romem) (fmt_0x a) s = Some (Some a, s)"
proof -
  from assms obtain an where an: "es_anal s = Some an" "r_reg_get (an_reg an) (fmt_0x a) (- 1) = None" by (rule bound_toE)
  have "r_anal_esil_reg_read (plain_cb iob g romem) False (fmt_0x a) s = Some (None, s)"
    using an by (simp add: r_anal_esil_reg_read_def default_size_def sized_def internal_esil_reg_read_def
      fmt_0x_shape)
  moreover have "isnum (fmt_0x a) = Some (Some a)"
    by (simp add: isnum_def r_num_get_fmt_0x fmt_0x_shape) (simp add: fmt_0x_def decimal_def char_code_def)
  ultimately show ?thesis by (simp add: isregornum_def)
qed

context byte_memory
begin

abbreviation iob :: "'io io_bind" where
  "iob \<equiv> \<lparr>iob_read_at = rd, iob_write_at = wr\<rparr>"

lemma mem_read_bytes:
  assumes "bound_to s io be a" "ok io" "inside a len" "nat len \<le> length buf" "0 \<le> len"
  shows "\<exists>io'. r_anal_esil_mem_read (plain_cb iob g romem) a buf len s =
      Some ((len, bytes io a len @ drop (nat len) buf), upd_io s io') \<and> ok io' \<and> byte io' = byte io"
proof -
  from assms(1) obtain an where an: "es_anal s = Some an" "an_io an = Some io" by (rule bound_toE)
  from rd [OF assms(2-4)] obtain io' where
    "rd io a buf len = Some ((len, bytes io a len @ drop (nat len) buf), io')" "ok io'" "byte io' = byte io"
    unfolding bytes_def by blast
  then show ?thesis
    using an assms(4,5) by (auto simp: r_anal_esil_mem_read_def internal_esil_mem_read_def es_io_def)
qed

lemma mem_write_bytes:
  assumes "bound_to s io be a" "ok io" "inside a len" "nat len \<le> length buf" "0 \<le> len"
  shows "\<exists>io'. r_anal_esil_mem_write (plain_cb iob g romem) a buf len s = Some (len, upd_io s io') \<and> ok io' \<and>
    byte io' = (\<lambda>x. if unat a \<le> x \<and> x < unat a + nat len then buf ! (x - unat a) else byte io x)"
proof -
  from assms(1) obtain an where an: "es_anal s = Some an" "an_io an = Some io" "es_nowrite s = 0" by (rule bound_toE)
  from wr [OF assms(2-4)] obtain io' where
    "wr io a buf len = Some (len, io')" "ok io'"
    "byte io' = (\<lambda>x. if unat a \<le> x \<and> x < unat a + nat len then buf ! (x - unat a) else byte io x)" by blast
  then show ?thesis
    using an assms(4,5)
    by (auto simp: r_anal_esil_mem_write_def internal_esil_mem_write_def es_io_def write_result_def)
qed

text \<open>The two operations with numbers on the stack.\<close>

lemma poke_bytes:
  assumes "machine_size bits" "bound_to s io be a" "ok io" "inside a (bits div 8)"
    and "es_stack s = st @ [fmt_0x v, fmt_0x a]"
  shows "\<exists>s' io'. esil_poke_n bits (plain_cb iob g romem) s = Some (bits div 8, s') \<and> bound_to s' io' be a \<and> ok io' \<and>
    es_stack s' = st \<and> es_stacksize s' = es_stacksize s \<and> es_trap s' = es_trap s \<and>
    bytes io' a (bits div 8) = value_bytes be (nat (bits div 8)) v \<and>
    (\<forall>x. \<not> (unat a \<le> x \<and> x < unat a + nat (bits div 8)) \<longrightarrow> byte io' x = byte io x)"
proof -
  let ?cb = "plain_cb iob g romem :: 'io esil esil_cb" and ?n = "bits div 8"
  have n: "0 \<le> ?n" "nat ?n \<le> 8" "min 8 ?n = ?n" "bits mod 8 = 0" using assms(1) by (auto simp: machine_size_def)
  define s1 where "s1 = s\<lparr>es_stack := st\<rparr>"
  have pops: "r_anal_esil_pop s = (Some (fmt_0x a), s\<lparr>es_stack := st @ [fmt_0x v]\<rparr>)"
    "r_anal_esil_pop (s\<lparr>es_stack := st @ [fmt_0x v]\<rparr>) = (Some (fmt_0x v), s1)"
    using assms(5) by (simp_all add: r_anal_esil_pop_def s1_def butlast_append)
  have b1: "bound_to s1 io be a" using assms(2) by (simp add: s1_def bound_to_def)
  have buf: "length (c_buffer ?cb 8) = 8" by (simp add: c_buffer_def)
  from mem_read_bytes [OF b1 assms(3,4), of "c_buffer ?cb 8"] n buf obtain io1 where
    r: "r_anal_esil_mem_read ?cb a (c_buffer ?cb 8) ?n s1 =
        Some ((?n, bytes io a ?n @ drop (nat ?n) (c_buffer ?cb 8)), upd_io s1 io1)" "ok io1" "byte io1 = byte io"
    by auto
  define b where "b = bytes io a ?n @ drop (nat ?n) (c_buffer ?cb 8)"
  have lb: "length b = 8" using n(2) buf by (simp add: b_def bytes_def)
  obtain old where old: "r_read_ble64 b 0 be = Some old"
    using lb by (cases be) (auto simp: r_read_ble64_def read_64_eqs buf_read_def)
  let ?v = "v AND mask (nat bits)" and ?nb = "value_bytes be (nat ?n) (v AND mask (nat bits))"
  define s2 where "s2 = (upd_io s1 io1)\<lparr>es_old := old, es_cur := v, es_lastsz := of_int bits\<rparr>"
  have b2: "bound_to s2 io1 be a" using bound_upd_io [OF b1, of io1] by (simp add: s2_def bound_to_def)
  from b2 obtain an where an: "es_anal s2 = Some an" "an_big_endian an = be" by (rule bound_toE)
  define b' where "b' = ?nb @ drop (nat ?n) b"
  have w: "r_write_ble b 0 ?v be bits = Some b'" "nat ?n \<le> length b'" "take (nat ?n) b' = ?nb"
    using lb n(2) write_ble_bytes [OF assms(1)] by (simp_all add: buf_write_def b'_def)
  from mem_write_bytes [OF b2 r(2) assms(4) w(2) n(1)] obtain io2 where
    m: "r_anal_esil_mem_write ?cb a b' ?n s2 = Some (?n, upd_io s2 io2)" "ok io2"
      "byte io2 = (\<lambda>x. if unat a \<le> x \<and> x < unat a + nat ?n then b' ! (x - unat a) else byte io x)"
    unfolding r(3) by blast
  have "esil_poke_n bits ?cb s = Some (?n, upd_io s2 io2)"
  proof -
    obtain an1 where an1: "es_anal (upd_io s1 io1) = Some an1" "an_big_endian an1 = be"
      using an by (auto simp: s2_def)
    show ?thesis
      using pops n genmask_machine [OF assms(1)] r(1) old w(1) m(1) an an1
      unfolding esil_poke_n_def by (simp flip: b_def s2_def)
  qed
  moreover have "bytes io2 a ?n = value_bytes be (nat ?n) v"
  proof -
    have "bytes io2 a ?n = take (nat ?n) b'"
      using w(2) by (intro nth_equalityI) (simp_all add: bytes_def m(3))
    then show ?thesis using w(3) value_bytes_mask [OF assms(1)] by simp
  qed
  ultimately show ?thesis
    using bound_upd_io [OF b2] m(2,3) by (fastforce simp: s2_def s1_def upd_io_def)
qed

lemma peek_bytes:
  assumes "machine_size bits" "bound_to s io be a" "ok io" "inside a (bits div 8)"
    and "es_stack s = st @ [fmt_0x a]" "int (length st) < es_stacksize s"
    and "bytes io a (bits div 8) = value_bytes be (nat (bits div 8)) v"
  shows "\<exists>s' io'. esil_peek_n bits (plain_cb iob g romem) s = Some (bits div 8, s') \<and> bound_to s' io' be a \<and> ok io' \<and>
    byte io' = byte io \<and> es_stack s' = st @ [fmt_0x (v AND mask (nat bits))] \<and> es_trap s' = es_trap s \<and>
    es_stacksize s' = es_stacksize s"
proof -
  let ?cb = "plain_cb iob g romem :: 'io esil esil_cb" and ?n = "bits div 8"
  have n: "0 \<le> ?n" "nat ?n \<le> 8" "bits mod 8 = 0" using assms(1) by (auto simp: machine_size_def)
  define s1 where "s1 = s\<lparr>es_stack := st\<rparr>"
  have pop: "r_anal_esil_pop s = (Some (fmt_0x a), s1)" using assms(5) by (simp add: s1_def)
  have b1: "bound_to s1 io be a" using assms(2) by (simp add: s1_def bound_to_def)
  from mem_read_bytes [OF b1 assms(3,4), of "replicate 8 0"] n obtain io1 where
    r: "r_anal_esil_mem_read ?cb a (replicate 8 0) ?n s1 =
        Some ((?n, value_bytes be (nat ?n) v @ replicate (8 - nat ?n) 0), upd_io s1 io1)"
      "ok io1" "byte io1 = byte io"
    unfolding assms(7) by auto
  note b2 = bound_upd_io [OF b1, of io1]
  from b2 obtain an where an: "es_anal (upd_io s1 io1) = Some an" "an_big_endian an = be" by (rule bound_toE)
  let ?s2 = "upd_io s1 io1" and ?x = "fmt_0x (v AND mask (nat bits))"
  have room: "pushed (Some ?x) ?s2 = ?s2\<lparr>es_stack := st @ [?x]\<rparr>"
    using assms(6) by (simp add: r_anal_esil_push_def fmt_0x_shape upd_io_def s1_def)
  have "esil_peek_n bits ?cb s = Some (?n, ?s2\<lparr>es_stack := st @ [?x], es_lastsz := of_int bits\<rparr>)"
    using pop n(3) isregornum_numeral [OF b1, of iob g romem] genmask_machine [OF assms(1)] r(1) an room
      peek_decodes [OF assms(1), of be v]
    unfolding esil_peek_n_def by (auto simp: bind_eq_Some_conv split: if_splits)
  then show ?thesis
    using b2 r(2,3) by (auto simp: bound_to_def upd_io_def s1_def)
qed

text \<open>An operation of the form \<open>v,a,OP=[n]\<close> reads the operand, combines it and writes it back.\<close>

lemma mem_binop_bytes:
  assumes "machine_size bits" "bound_to s io be a" "ok io" "inside a (bits div 8)"
    and "es_stack s = st @ [fmt_0x v, fmt_0x a]" "int (length st) + 2 \<le> es_stacksize s"
    and "bytes io a (bits div 8) = value_bytes be (nat (bits div 8)) d"
  shows "\<exists>s' io'. mem_binop_n f bits (plain_cb iob g romem) s = Some (1, s') \<and> bound_to s' io' be a \<and> ok io' \<and>
    es_stack s' = st \<and> es_trap s' = es_trap s \<and>
    bytes io' a (bits div 8) = value_bytes be (nat (bits div 8)) (f (d AND mask (nat bits)) v) \<and>
    (\<forall>x. \<not> (unat a \<le> x \<and> x < unat a + nat (bits div 8)) \<longrightarrow> byte io' x = byte io x)"
proof -
  let ?cb = "plain_cb iob g romem :: 'io esil esil_cb" and ?n = "bits div 8" and ?d = "d AND mask (nat bits)"
  have n: "?n \<noteq> 0" using assms(1) by (auto simp: machine_size_def)
  define s1 where "s1 = s\<lparr>es_stack := st\<rparr>"
  have pops: "r_anal_esil_pop s = (Some (fmt_0x a), s\<lparr>es_stack := st @ [fmt_0x v]\<rparr>)"
    "r_anal_esil_pop (s\<lparr>es_stack := st @ [fmt_0x v]\<rparr>) = (Some (fmt_0x v), s1)"
    using assms(5) by (simp_all add: r_anal_esil_pop_def s1_def butlast_append)
  define s2 where "s2 = s\<lparr>es_stack := st @ [fmt_0x a]\<rparr>"
  have push1: "pushed (Some (fmt_0x a)) s1 = s2"
    using assms(6) by (simp add: r_anal_esil_push_def fmt_0x_shape s1_def s2_def)
  have b2: "bound_to s2 io be a" using assms(2) by (simp add: s2_def bound_to_def)
  from peek_bytes [OF assms(1) b2 assms(3,4), of st d g romem] assms(6,7) obtain s3 io3 where
    r: "esil_peek_n bits ?cb s2 = Some (?n, s3)" "bound_to s3 io3 be a" "ok io3" "byte io3 = byte io"
      "es_stack s3 = st @ [fmt_0x ?d]" "es_trap s3 = es_trap s" "es_stacksize s3 = es_stacksize s"
    by (auto simp: s2_def)
  define s4 where "s4 = s3\<lparr>es_stack := st @ [fmt_0x (f ?d v), fmt_0x a]\<rparr>"
  have pop2: "r_anal_esil_pop s3 = (Some (fmt_0x ?d), s3\<lparr>es_stack := st\<rparr>)" using r(5) by simp
  have push2: "pushed (Some (fmt_0x a)) (pushed_num (f ?d v) (s3\<lparr>es_stack := st\<rparr>)) = s4"
    using assms(6) r(7) by (simp add: r_anal_esil_pushnum_def r_anal_esil_push_def fmt_0x_shape s4_def)
  have b4: "bound_to s4 io3 be a" using r(2) by (simp add: s4_def bound_to_def)
  from poke_bytes [OF assms(1) b4 r(3) assms(4), of st "f ?d v" g romem] obtain s5 io5 where
    w: "esil_poke_n bits ?cb s4 = Some (?n, s5)" "bound_to s5 io5 be a" "ok io5" "es_stack s5 = st"
      "es_trap s5 = es_trap s" "bytes io5 a ?n = value_bytes be (nat ?n) (f ?d v)"
      "\<forall>x. \<not> (unat a \<le> x \<and> x < unat a + nat ?n) \<longrightarrow> byte io5 x = byte io x"
    using r(4,6) by (auto simp: s4_def)
  have "mem_binop_n f bits ?cb s = Some (1, s5)"
    using pops push1 r(1) pop2 push2 w(1) n by (simp add: mem_binop_n_def mem_update_def cbool_def)
  then show ?thesis using w by blast
qed

end

section \<open>The machine over a mapped file\<close>

text \<open>\<open>r_io_bind\<close>: the two functions, with the fuel of the loop of \<open>r_io_read_at\<close>.\<close>

definition r_io_bind :: "nat \<Rightarrow> 'd rio io_bind" where
  "r_io_bind n = \<lparr>iob_read_at = r_io_read_at n, iob_write_at = r_io_write_at n\<rparr>"

text \<open>The bytes of a value at an address of the map.\<close>

definition stored :: "nat \<Rightarrow> io_map \<Rightarrow> bool \<Rightarrow> int \<Rightarrow> malloc_data rio \<Rightarrow> ut64 \<Rightarrow> ut64 \<Rightarrow> bool" where
  "stored k mp be bits io a v \<longleftrightarrow> map (map_bytes mp (file_of k io)) [unat a..<unat a + nat (bits div 8)] =
     value_bytes be (nat (bits div 8)) v"

text \<open>C3: what the ESIL store \<open>v,a,=[n]\<close> puts into a mapped file, the load \<open>a,[n]\<close> brings back to the stack: the value
  cut to the size of the access, for both byte orders and every size the operations exist for. Neither
  raises a trap, and the stack below the operands is kept.\<close>
theorem esil_poke_then_peek:
  assumes "machine_size bits" "bound_to s io be a" "mapped_file k mp io" "inside_map mp a (bits div 8)"
    and "es_stack s = st @ [fmt_0x v, fmt_0x a]" "int (length st) < es_stacksize s" "2 \<le> n"
  shows "\<exists>s1 s2. esil_poke_n bits (plain_cb (r_io_bind n) g romem) s = Some (bits div 8, s1) \<and> es_stack s1 = st \<and>
    esil_peek_n bits (plain_cb (r_io_bind n) g romem) (pushed_num a s1) = Some (bits div 8, s2) \<and>
    es_stack s2 = st @ [fmt_0x (v AND mask (nat bits))] \<and> es_trap s2 = es_trap s"
proof -
  obtain j where n: "n = Suc (Suc j)" using two_or_more [OF assms(7)] by blast
  from malloc_mem.poke_bytes [OF assms(1-5), where g = g and romem = romem and n = j] obtain s1 io1 where
    w: "esil_poke_n bits (plain_cb (r_io_bind n) g romem) s = Some (bits div 8, s1)" "bound_to s1 io1 be a"
      "mapped_file k mp io1" "es_stack s1 = st" "es_stacksize s1 = es_stacksize s" "es_trap s1 = es_trap s"
      "malloc_mem.bytes mp k io1 a (bits div 8) = value_bytes be (nat (bits div 8)) v"
    unfolding n r_io_bind_def by blast
  have push: "pushed_num a s1 = s1\<lparr>es_stack := st @ [fmt_0x a]\<rparr>" using w(4,5) assms(6) by simp
  have "bound_to (s1\<lparr>es_stack := st @ [fmt_0x a]\<rparr>) io1 be a" using w(2) by (simp add: bound_to_def)
  from malloc_mem.peek_bytes [OF assms(1) this w(3) assms(4), where st = st and v = v and g = g and romem = romem and n = j]
     w(5,7) assms(6) obtain s2 where
    "esil_peek_n bits (plain_cb (r_io_bind n) g romem) (pushed_num a s1) = Some (bits div 8, s2)"
    "es_stack s2 = st @ [fmt_0x (v AND mask (nat bits))]" "es_trap s2 = es_trap s1"
    unfolding n r_io_bind_def push by auto
  then show ?thesis using w by auto
qed

text \<open>C7: the read-modify-write operations \<open>v,a,+=[n]\<close>, \<open>-=[n]\<close>, \<open>*=[n]\<close>, \<open>&=[n]\<close>, \<open>|=[n]\<close> and \<open>^=[n]\<close> on a mapped file
  leave at \<open>a\<close> the value that was there combined with \<open>v\<close>, modulo the size of the access, in the byte order of
  the machine.\<close>
theorem esil_mem_assign_ops:
  assumes "machine_size bits" "bound_to s io be a" "mapped_file k mp io" "inside_map mp a (bits div 8)"
    and "es_stack s = st @ [fmt_0x v, fmt_0x a]" "int (length st) + 2 \<le> es_stacksize s" "2 \<le> n"
    and "stored k mp be bits io a d" "d AND mask (nat bits) = d"
    and "(operation, f) \<in> {(esil_mem_addeq_n, (+)), (esil_mem_subeq_n, (-)), (esil_mem_muleq_n, (*)),
      (esil_mem_andeq_n, (AND)), (esil_mem_oreq_n, (OR)), (esil_mem_xoreq_n, (XOR))}"
  shows "\<exists>s' io'. operation bits (plain_cb (r_io_bind n) g romem) s = Some (1, s') \<and> es_stack s' = st \<and>
    bound_to s' io' be a \<and> mapped_file k mp io' \<and> stored k mp be bits io' a (f d v) \<and> es_trap s' = es_trap s"
proof -
  obtain j where n: "n = Suc (Suc j)" using two_or_more [OF assms(7)] by blast
  have op: "operation = mem_binop_n f"
    using assms(10) by (auto simp: esil_mem_addeq_n_def esil_mem_subeq_n_def esil_mem_muleq_n_def
      esil_mem_andeq_n_def esil_mem_oreq_n_def esil_mem_xoreq_n_def)
  from malloc_mem.mem_binop_bytes [OF assms(1-6), where n = j and d = d and f = f and g = g and romem = romem] assms(8)
  show ?thesis unfolding n r_io_bind_def op stored_def malloc_mem.bytes_def assms(9) by blast
qed

definition io_machine :: "malloc_data rio \<Rightarrow> string list \<Rightarrow> malloc_data rio esil" where
  "io_machine io st = (the (r_anal_esil_new 16 0))\<lparr>es_anal := Some \<lparr>an_reg = demo_reg, an_bits = 64,
     an_big_endian = True, an_esil_goto_limit = 64, an_io = Some io\<rparr>, es_stack := st\<rparr>"

abbreviation demo_ram :: "malloc_data rio" where "demo_ram \<equiv> malloc_rio 64 0x1000 0"

lemma io_machine_bound: "bound_to (io_machine demo_ram st) demo_ram True 0x1008"
proof -
  have "r_reg_get demo_reg (fmt_0x 0x1008) (- 1) = None" by code_simp
  then show ?thesis by (simp add: io_machine_def bound_to_def r_anal_esil_new_def)
qed

theorem esil_poke_then_peek_witness:
  "\<exists>s1 s2. esil_poke_n 32 (plain_cb (r_io_bind 2) (\<lambda>_. 0) False) (io_machine demo_ram [fmt_0x 0x1122334455667788, fmt_0x 0x1008])
      = Some (4, s1) \<and> es_stack s1 = [] \<and>
    esil_peek_n 32 (plain_cb (r_io_bind 2) (\<lambda>_. 0) False) (pushed_num 0x1008 s1) = Some (4, s2) \<and>
    es_stack s2 = [fmt_0x 0x55667788]"
proof -
  have st: "es_stack (io_machine demo_ram [fmt_0x 0x1122334455667788, fmt_0x 0x1008]) =
      [] @ [fmt_0x 0x1122334455667788, fmt_0x 0x1008]" by (simp add: io_machine_def)
  have v: "(0x1122334455667788 :: ut64) AND mask (nat 32) = 0x55667788" by code_simp
  from esil_poke_then_peek [OF _ io_machine_bound malloc_rio_mapped _ st, of 32 2 "\<lambda>_. 0" False] show ?thesis
    using v by (auto simp: machine_size_def inside_map_def small_def io_machine_def r_anal_esil_new_def)
qed

theorem esil_mem_assign_ops_witness:
  "\<exists>s'. esil_mem_subeq_n 16 (plain_cb (r_io_bind 2) (\<lambda>_. 0) False) (io_machine demo_ram [fmt_0x 1, fmt_0x 0x1008])
      = Some (1, s') \<and> es_stack s' = []"
proof -
  have st: "es_stack (io_machine demo_ram [fmt_0x 1, fmt_0x 0x1008]) = [] @ [fmt_0x 1, fmt_0x 0x1008]"
    by (simp add: io_machine_def)
  have "stored 0 \<lparr>mp_fd = 3, mp_flags = 7, mp_delta = 0, mp_from = 0x1000, mp_to = 0x1040\<rparr> True 16 demo_ram 0x1008 0"
    by code_simp
  from esil_mem_assign_ops [OF _ io_machine_bound malloc_rio_mapped _ st _ _ this, of 2 esil_mem_subeq_n "(-)"
      "\<lambda>_. 0" False] show ?thesis
    by (auto simp: machine_size_def inside_map_def small_def io_machine_def r_anal_esil_new_def)
qed

end
