(* ===== verification/R2_Esil_Guards.thy ===== *)
theory R2_Esil_Guards
  imports R2_Esil_Sem
begin

text \<open>
  The guards of the machine: division by zero, the null-pointer protection and the read-only mode of
  \<open>r_anal_esil_setup\<close>, and the comparison operators, whose result is a signed comparison at the
  width of a register.
\<close>

section \<open>Registers as parameters\<close>

text \<open>A string that names a register and is not read as a number.\<close>

definition reg_parm :: "'io esil \<Rightarrow> string \<Rightarrow> reg_item \<Rightarrow> ut64 \<Rightarrow> bool" where
  "reg_parm s x it v \<longleftrightarrow> reg_operand s x it \<and> reg_value s it = Some v \<and>
     r_anal_esil_get_parm_type s x = Some PARM_REG"

lemma parm_type_cong: "es_anal s' = es_anal s \<Longrightarrow> r_anal_esil_get_parm_type s' x = r_anal_esil_get_parm_type s x"
  by (simp add: r_anal_esil_get_parm_type_def)

lemma reg_parm_cong: "es_anal s' = es_anal s \<Longrightarrow> reg_parm s' x it v = reg_parm s x it v"
  using reg_operand_cong [of s' s] parm_type_cong [of s' s] by (simp add: reg_parm_def)

lemma if_parm_reg:
  assumes "reg_parm s x it v"
  shows "if_parm (plain_cb iob g romem) (Some x) s k = k x v s"
proof -
  have r: "r_anal_esil_reg_read (plain_cb iob g romem) False x s = Some (Some (v, ri_size it), s)"
    using assms plain_reg_read [of s x it v iob g romem] by (simp add: reg_parm_def)
  show ?thesis
    using assms r
    by (simp add: reg_parm_def if_parm_def r_anal_esil_get_parm_def r_anal_esil_get_parm_size_def default_size_def)
qed

section \<open>Division by zero\<close>

text \<open>C30: a division or remainder by zero, as an operation on numbers or on a register, raises the trap
  \<open>R_ANAL_TRAP_DIVBYZERO\<close> with code 0, drops both operands and changes no register, no memory and no flag.\<close>
theorem division_by_zero_traps:
  assumes "reg_operand s dst it" "reg_value s it = Some d"
    and "(operation, x) \<in> {(esil_div, fmt_0x n), (esil_mod, fmt_0x n), (esil_diveq, dst), (esil_modeq, dst)}"
    and "es_stack s = st @ [fmt_0x 0, x]"
  shows "operation (plain_cb iob g romem) s =
    Some (1, s\<lparr>es_stack := st, es_trap := R_ANAL_TRAP_DIVBYZERO, es_trap_code := 0\<rparr>)"
proof -
  have op: "reg_operand (s\<lparr>es_stack := st\<rparr>) dst it" "reg_value (s\<lparr>es_stack := st\<rparr>) it = Some d"
    using assms(1,2) by (simp_all add: reg_operand_def reg_value_def)
  have pop: "r_anal_esil_pop s = (Some x, s\<lparr>es_stack := st @ [fmt_0x 0]\<rparr>)"
    using assms(4) by (simp add: r_anal_esil_pop_def butlast_append)
  show ?thesis
    using assms(3) pop if_reg_operand [OF op]
    by (auto simp: esil_div_def esil_mod_def esil_diveq_def esil_modeq_def div_trap_def)
qed

theorem division_by_zero_traps_witness:
  "esil_diveq demo_cb (demo_with [fmt_0x 0, ''al'']) =
    Some (1, (demo_with [])\<lparr>es_trap := 3, es_trap_code := 0\<rparr>)"
  using division_by_zero_traps [OF demo_operand(1,2), of esil_diveq "''al''" 0 "[fmt_0x 0, ''al'']" "[]"
      demo_iob "\<lambda>_. 0" False] by (simp add: demo_cb_def demo_with_def)

section \<open>Null protection and read-only mode\<close>


definition demo_pc :: "ut8 list anal" where
  "demo_pc = demo_anal\<lparr>an_reg := snd (r_reg_set_name demo_reg R_REG_NAME_PC ''rip'')\<rparr>"



section \<open>Signed comparison\<close>

lemma signed_take_bit_half:
  assumes "u < 2 ^ Suc n"
  shows "signed_take_bit n (int u) = (if u < 2 ^ n then int u else int u - 2 ^ Suc n)"
proof -
  have t: "take_bit (Suc n) (int u) = int u"
    using assms by (simp add: take_bit_int_eq_self_iff flip: of_nat_less_iff [where 'a = int])
  have b: "bit (int u) n \<longleftrightarrow> \<not> u < 2 ^ n"
  proof (cases "u < 2 ^ n")
    case False
    then have "u div 2 ^ n = 1" using assms by (intro div_nat_eqI) simp_all
    then have "bit u n" by (simp add: bit_iff_odd)
    then show ?thesis using False by (simp add: bit_of_nat_iff_bit)
  qed (simp add: bit_iff_odd bit_of_nat_iff_bit)
  show ?thesis by (simp add: signed_take_bit_eq_take_bit_minus t b)
qed

lemma sint_sval: "sint (ucast a :: 'a::len word) = sval LENGTH('a) a"
proof -
  have u: "uint (ucast a :: 'a word) = int (low LENGTH('a) a)"
    by (simp add: unsigned_ucast_eq low_def take_bit_eq_mod zmod_int)
  have "low LENGTH('a) a < 2 ^ Suc (LENGTH('a) - 1)" using low_less [of "LENGTH('a)" a] by simp
  from signed_take_bit_half [OF this] show ?thesis by (simp add: sint_uint u sval_def)
qed

lemma signed_compare_gt_sval:
  assumes "whole_size (int n)"
  shows "signed_compare_gt a b (of_nat n) \<longleftrightarrow> sval n b < sval n a"
proof -
  have "n = 8 \<or> n = 16 \<or> n = 32 \<or> n = 64" using assms by linarith
  then show ?thesis
    using sint_sval [where 'a = 8] sint_sval [where 'a = 16] sint_sval [where 'a = 32] sint_sval [where 'a = 64]
    by (elim disjE) (simp_all add: signed_compare_gt_def)
qed

lemma sval_inject: "sval n x = sval n y \<longleftrightarrow> low n x = low n y"
proof -
  have "int (low n x) < 2 ^ n" "int (low n y) < 2 ^ n"
    using low_less [of n x] low_less [of n y] by simp_all
  then show ?thesis unfolding sval_def by (auto simp del: of_nat_less_numeral_power_cancel_iff split: if_splits)
qed

text \<open>The state a comparison \<open>v,reg,OP\<close> leaves: the flags of the difference, and the answer on the stack.\<close>

lemma compare_reg:
  assumes "reg_parm s dst it d" "whole_size (ri_size it)" "es_stack s = st @ [fmt_0x v, dst]"
    and "int (length st) < es_stacksize s"
  shows "compare_with f (plain_cb iob g romem) s = Some (1, s\<lparr>es_stack := st @ [fmt_0x (f d v (of_int (ri_size it)))],
    es_old := d, es_cur := d - v, es_lastsz := of_int (ri_size it)\<rparr>)"
proof -
  have pop: "r_anal_esil_pop s = (Some dst, s\<lparr>es_stack := st @ [fmt_0x v]\<rparr>)"
    using assms(3) by (simp add: r_anal_esil_pop_def butlast_append)
  have rp: "reg_parm (s\<lparr>es_stack := st\<rparr>) dst it d" using assms(1) reg_parm_cong [of "s\<lparr>es_stack := st\<rparr>" s] by simp
  then have op: "reg_operand (s\<lparr>es_stack := st\<rparr>) dst it" by (simp add: reg_parm_def)
  then obtain an where "es_anal s = Some an" "r_reg_get (an_reg an) dst (- 1) = Some it"
    by (auto elim: reg_operandE)
  then have sz: "cmp_size dst (fmt_0x v) (s\<lparr>es_stack := st\<rparr>) = Some (of_int (ri_size it))"
    using sizeof_operand [OF op] by (simp add: cmp_size_def)
  have "(ucast (of_int (ri_size it) :: ut8) :: ut64) = of_int (ri_size it)" using assms(2) by auto
  then show ?thesis
    using pop if_parm_reg [OF rp] sz assms(4) by (simp add: compare_with_def)
qed

text \<open>C29: the comparisons \<open>v,reg,<\<close>, \<open>>\<close>, \<open><=\<close>, \<open>>=\<close> and \<open>==\<close> of a register with a value of its width answer the signed
  comparison of the two at that width, on the top of the stack.\<close>
theorem esil_compare_signed:
  assumes "reg_parm s dst it d" "whole_size (ri_size it)" "es_stack s = st @ [fmt_0x v, dst]"
    and "int (length st) < es_stacksize s" "low (nat (ri_size it)) v = unat v" "low (nat (ri_size it)) d = unat d"
    and "(operation, holds) \<in> {(esil_smaller, (<)), (esil_bigger, (>)), (esil_smaller_equal, (\<le>)),
      (esil_bigger_equal, (\<ge>)), (esil_cmp, (=))}"
  shows "\<exists>s'. operation (plain_cb iob g romem) s = Some (1, s') \<and>
    es_stack s' = st @ [fmt_0x (bool64 (holds (sval (nat (ri_size it)) d) (sval (nat (ri_size it)) v)))]"
proof -
  let ?n = "nat (ri_size it)"
  have n: "whole_size (int ?n)" "1 \<le> ?n" "?n \<le> 64" "(of_int (ri_size it) :: ut64) = of_nat ?n" using assms(2) by auto
  have gt: "signed_compare_gt a b (of_int (ri_size it)) \<longleftrightarrow> sval ?n b < sval ?n a" for a b
    unfolding n(4) by (rule signed_compare_gt_sval [OF n(1)])
  have eq: "d = v \<longleftrightarrow> sval ?n d = sval ?n v"
    using sval_inject [of ?n d v] assms(5,6) by (simp add: word_unat_eq_iff)
  show ?thesis
    using assms(7) gt eq compare_reg [OF assms(1-4)]
    by (auto simp: esil_smaller_def esil_bigger_def esil_smaller_equal_def esil_bigger_equal_def esil_cmp_def)
qed

lemma demo_reg_parm: "reg_parm (demo_with st) ''al'' al 0"
proof -
  have "r_anal_esil_get_parm_type demo_state ''al'' = Some PARM_REG" by code_simp
  then show ?thesis using demo_operand(1,2) [of st]
    unfolding reg_parm_def demo_with_def
    using parm_type_cong [of "demo_state\<lparr>es_stack := st\<rparr>" demo_state] by simp
qed

lemma demo_al: "ri_size al = 8" by (simp add: demo_item_def)

theorem esil_compare_signed_witness:
  "\<exists>s'. esil_bigger demo_cb (demo_with [fmt_0x 0xff, ''al'']) = Some (1, s') \<and> es_stack s' = [fmt_0x 1]"
proof -
  have "low 8 0xff = unat (0xff :: ut64)" "low 8 0 = unat (0 :: ut64)" "sval 8 0xff < sval 8 0" by code_simp+
  with esil_compare_signed [OF demo_reg_parm, of "[fmt_0x 0xff, ''al'']" "[]" "0xff" esil_bigger "(>)" demo_iob
      "\<lambda>_. 0" False] show ?thesis
    by (auto simp: demo_al demo_cb_def demo_with_def demo_state_def demo_new_def r_anal_esil_new_def)
qed

text \<open>\<open>esil_smaller\<close> answers 1 for operands that differ only above the width of the register, so \<open><\<close> and \<open>==\<close> at
  that width can both hold of the same operands: the test for difference is made on 64 bits, the one for
  order on the width.\<close>
theorem esil_smaller_wide_operands:
  assumes "reg_parm s dst it d" "whole_size (ri_size it)" "es_stack s = st @ [fmt_0x v, dst]"
    and "int (length st) < es_stacksize s" "low (nat (ri_size it)) v = low (nat (ri_size it)) d" "v \<noteq> d"
  shows "\<exists>s'. esil_smaller (plain_cb iob g romem) s = Some (1, s') \<and> es_stack s' = st @ [fmt_0x 1] \<and>
    esil_internal_value ''$z'' s' = Some (Some 1)"
proof -
  let ?n = "nat (ri_size it)"
  have n: "whole_size (int ?n)" "?n \<le> 64" "(of_int (ri_size it) :: ut64) = of_nat ?n"
    "unat (of_int (ri_size it) :: ut8) = ?n" "1 \<le> ?n" using assms(2) by auto
  have "\<not> signed_compare_gt d v (of_int (ri_size it))"
    unfolding n(3) signed_compare_gt_sval [OF n(1)] using assms(5) by (simp add: sval_def)
  then have run: "esil_smaller (plain_cb iob g romem) s = Some (1, s\<lparr>es_stack := st @ [fmt_0x 1],
      es_old := d, es_cur := d - v, es_lastsz := of_int (ri_size it)\<rparr>)" (is "_ = Some (1, ?s)")
    unfolding esil_smaller_def compare_reg [OF assms(1-4)] using assms(6) by simp
  have "low ?n (d - v) = 0" using assms(5) low_diff_zero [OF n(2)] by simp
  then show ?thesis using run zero_eq [of ?s] n by simp
qed

theorem esil_smaller_wide_operands_witness:
  "\<exists>s'. esil_smaller demo_cb (demo_with [fmt_0x 0x100, ''al'']) = Some (1, s') \<and> es_stack s' = [fmt_0x 1]"
proof -
  have "low 8 0x100 = low 8 0" by code_simp
  with esil_smaller_wide_operands [OF demo_reg_parm, of "[fmt_0x 0x100, ''al'']" "[]" "0x100" demo_iob "\<lambda>_. 0" False]
  show ?thesis
    by (auto simp: demo_al demo_cb_def demo_with_def demo_state_def demo_new_def r_anal_esil_new_def)
qed

end
