(* ===== verification/R2_List.thy ===== *)
theory R2_List
  imports R2_Prelude
begin

text \<open>
  The doubly linked list of \<^verbatim>\<open>libr/util/list.c\<close>, which every other part of radare2 keeps its objects in.

  \<^item> The iterators live in a heap: a list of cells, where a pointer is a position, a freed cell is \<open>None\<close> and
    a new one is appended. An access to a freed cell or past the end is undefined.
  \<^item> The type variable stands for the \<open>void *\<close> data, \<open>None\<close> for \<open>NULL\<close>. Comparators are functions to \<open>int\<close>.
  \<^item> Loops that follow pointers take at most one turn per cell of the heap and one to see the end; a loop
    that takes more runs in a cycle and never ends, and has no result here.
  \<^item> The callback \<open>list->free\<close> releases the data and does not touch the list; it is left out.
  \<^item> A list passed as \<open>NULL\<close> makes every operation do nothing and is left out too.
\<close>

section \<open>Heap and list\<close>

record 'a list_iter =
  it_data :: "'a option"
  it_n :: "nat option"
  it_p :: "nat option"

type_synonym 'a list_heap = "'a list_iter option list"

record rlist =
  ls_head :: "nat option"
  ls_tail :: "nat option"
  ls_length :: int
  ls_sorted :: bool

definition cell :: "'a list_heap \<Rightarrow> nat \<Rightarrow> 'a list_iter option" where
  "cell h a = (if a < length h then h ! a else None)"

definition put :: "nat \<Rightarrow> ('a list_iter \<Rightarrow> 'a list_iter) \<Rightarrow> 'a list_heap \<Rightarrow> 'a list_heap option" where
  "put a f h = do { c \<leftarrow> cell h a; Some (h[a := Some (f c)]) }"

definition dispose :: "nat \<Rightarrow> 'a list_heap \<Rightarrow> 'a list_heap option" where
  "dispose a h = do { _ \<leftarrow> cell h a; Some (h[a := None]) }"

text \<open>\<open>if (q) q->n = v\<close> and \<open>if (q) q->p = v\<close>\<close>

definition set_next :: "nat option \<Rightarrow> nat option \<Rightarrow> 'a list_heap \<Rightarrow> 'a list_heap option" where
  "set_next q v h = (case q of None \<Rightarrow> Some h | Some a \<Rightarrow> put a (\<lambda>c. c\<lparr>it_n := v\<rparr>) h)"

definition set_prev :: "nat option \<Rightarrow> nat option \<Rightarrow> 'a list_heap \<Rightarrow> 'a list_heap option" where
  "set_prev q v h = (case q of None \<Rightarrow> Some h | Some a \<Rightarrow> put a (\<lambda>c. c\<lparr>it_p := v\<rparr>) h)"

definition loop_fuel :: "'a list_heap \<Rightarrow> nat" where
  "loop_fuel h = Suc (length h)"

definition r_list_init :: rlist where
  "r_list_init = \<lparr>ls_head = None, ls_tail = None, ls_length = 0, ls_sorted = False\<rparr>"

definition r_list_empty :: "rlist \<Rightarrow> bool" where
  "r_list_empty l \<longleftrightarrow> ls_head l = None \<and> ls_tail l = None"

definition r_list_length :: "rlist \<Rightarrow> int" where
  "r_list_length l = ls_length l"

section \<open>Looking up\<close>

text \<open>\<open>data\<close> of a pointer that may be \<open>NULL\<close>: the first and last elements.\<close>

definition data_of :: "nat option \<Rightarrow> 'a list_heap \<Rightarrow> 'a option option" where
  "data_of q h = (case q of None \<Rightarrow> Some None | Some a \<Rightarrow> map_option it_data (cell h a))"

definition r_list_first :: "rlist \<Rightarrow> 'a list_heap \<Rightarrow> 'a option option" where
  "r_list_first l h = data_of (ls_head l) h"

definition r_list_get_bottom :: "rlist \<Rightarrow> 'a list_heap \<Rightarrow> 'a option option" where
  "r_list_get_bottom l h = data_of (ls_head l) h"

definition r_list_get_top :: "rlist \<Rightarrow> 'a list_heap \<Rightarrow> 'a option option" where
  "r_list_get_top l h = data_of (ls_tail l) h"

text \<open>\<open>for (it = ..., i = ...; it && it->data; it = it->n, i++) if (i == n) ...\<close>\<close>

fun seek_n :: "nat \<Rightarrow> 'a list_heap \<Rightarrow> nat option \<Rightarrow> int \<Rightarrow> int \<Rightarrow> nat option option" where
  "seek_n 0 h it i n = None"
| "seek_n (Suc k) h it i n = (case it of
     None \<Rightarrow> Some None
   | Some a \<Rightarrow> do {
       c \<leftarrow> cell h a;
       (if it_data c = None then Some None
        else if i = n then Some (Some a)
        else seek_n k h (it_n c) (i + 1) n) })"

definition r_list_get_n :: "int \<Rightarrow> rlist \<Rightarrow> 'a list_heap \<Rightarrow> 'a option option" where
  "r_list_get_n n l h = do {
     r \<leftarrow> seek_n (loop_fuel h) h (ls_head l) 0 n;
     data_of r h }"

text \<open>\<open>r_list_foreach\<close> up to the first element with a property.\<close>

fun seek_data :: "nat \<Rightarrow> ('a \<Rightarrow> bool) \<Rightarrow> 'a list_heap \<Rightarrow> nat option \<Rightarrow> nat option option" where
  "seek_data 0 P h it = None"
| "seek_data (Suc k) P h it = (case it of
     None \<Rightarrow> Some None
   | Some a \<Rightarrow> do {
       c \<leftarrow> cell h a;
       (case it_data c of
          None \<Rightarrow> Some None
        | Some x \<Rightarrow> if P x then Some (Some a) else seek_data k P h (it_n c)) })"

definition r_list_contains :: "'a \<Rightarrow> rlist \<Rightarrow> 'a list_heap \<Rightarrow> nat option option" where
  "r_list_contains p l h = seek_data (loop_fuel h) (\<lambda>q. p = q) h (ls_head l)"

definition r_list_find :: "'a \<Rightarrow> ('a \<Rightarrow> 'a \<Rightarrow> int) \<Rightarrow> rlist \<Rightarrow> 'a list_heap \<Rightarrow> nat option option" where
  "r_list_find p cmp l h = seek_data (loop_fuel h) (\<lambda>q. cmp p q = 0) h (ls_head l)"

section \<open>Insertion\<close>

definition r_list_append :: "'a option \<Rightarrow> rlist \<Rightarrow> 'a list_heap \<Rightarrow> (nat option \<times> rlist \<times> 'a list_heap) option" where
  "r_list_append d l h = (case d of
     None \<Rightarrow> Some (None, l, h)
   | Some _ \<Rightarrow>
       (let item = length h; h = h @ [Some \<lparr>it_data = d, it_n = None, it_p = ls_tail l\<rparr>] in do {
          h \<leftarrow> set_next (ls_tail l) (Some item) h;
          Some (Some item, l\<lparr>ls_tail := Some item,
            ls_head := (if ls_head l = None then Some item else ls_head l),
            ls_length := ls_length l + 1, ls_sorted := False\<rparr>, h) }))"

definition r_list_push :: "'a option \<Rightarrow> rlist \<Rightarrow> 'a list_heap \<Rightarrow> (nat option \<times> rlist \<times> 'a list_heap) option" where
  "r_list_push = r_list_append"

definition r_list_prepend :: "'a option \<Rightarrow> rlist \<Rightarrow> 'a list_heap \<Rightarrow> (nat option \<times> rlist \<times> 'a list_heap) option" where
  "r_list_prepend d l h =
     (let item = length h; h = h @ [Some \<lparr>it_data = d, it_n = ls_head l, it_p = None\<rparr>] in do {
        h \<leftarrow> set_prev (ls_head l) (Some item) h;
        Some (Some item, l\<lparr>ls_head := Some item,
          ls_tail := (if ls_tail l = None then Some item else ls_tail l),
          ls_length := ls_length l + 1, ls_sorted := True\<rparr>, h) })"

text \<open>A new iterator in front of the one at \<open>a\<close>; the caller updates the list.\<close>

definition link_before :: "'a option \<Rightarrow> nat \<Rightarrow> 'a list_heap \<Rightarrow> ((nat \<times> nat option) \<times> 'a list_heap) option" where
  "link_before d a h = do {
     c \<leftarrow> cell h a;
     (let item = length h; h = h @ [Some \<lparr>it_data = d, it_n = Some a, it_p = it_p c\<rparr>] in do {
        h \<leftarrow> set_next (it_p c) (Some item) h;
        h \<leftarrow> set_prev (Some a) (Some item) h;
        Some ((item, it_p c), h) }) }"

definition r_list_insert ::
  "int \<Rightarrow> 'a option \<Rightarrow> rlist \<Rightarrow> 'a list_heap \<Rightarrow> (nat option \<times> rlist \<times> 'a list_heap) option" where
  "r_list_insert n d l h =
     (if ls_head l = None \<or> n = 0 then r_list_prepend d l h
      else do {
        r \<leftarrow> seek_n (loop_fuel h) h (ls_head l) 0 n;
        (case r of
           None \<Rightarrow> r_list_append d l h
         | Some a \<Rightarrow> do {
             ((item, _), h) \<leftarrow> link_before d a h;
             Some (Some item, l\<lparr>ls_length := ls_length l + 1, ls_sorted := True\<rparr>, h) }) })"

text \<open>
  \<open>for (it = list->head; it && it->data && cmp (data, it->data) > 0; it = it->n)\<close> gives the iterator the new
  one goes before, or the end; the result is \<open>NULL\<close> when it is appended.
\<close>

fun seek_place :: "nat \<Rightarrow> ('a \<Rightarrow> 'a \<Rightarrow> int) \<Rightarrow> 'a \<Rightarrow> 'a list_heap \<Rightarrow> nat option \<Rightarrow> nat option option" where
  "seek_place 0 cmp x h it = None"
| "seek_place (Suc k) cmp x h it = (case it of
     None \<Rightarrow> Some None
   | Some a \<Rightarrow> do {
       c \<leftarrow> cell h a;
       (case it_data c of
          None \<Rightarrow> Some it
        | Some y \<Rightarrow> if cmp x y > 0 then seek_place k cmp x h (it_n c) else Some it) })"

definition r_list_add_sorted ::
  "'a option \<Rightarrow> ('a \<Rightarrow> 'a \<Rightarrow> int) \<Rightarrow> rlist \<Rightarrow> 'a list_heap \<Rightarrow> (nat option \<times> rlist \<times> 'a list_heap) option" where
  "r_list_add_sorted d cmp l h = (case d of
     None \<Rightarrow> Some (None, l, h)
   | Some x \<Rightarrow> do {
       r \<leftarrow> seek_place (loop_fuel h) cmp x h (ls_head l);
       (case r of
          Some a \<Rightarrow> do {
            ((item, prv), h) \<leftarrow> link_before d a h;
            Some (Some item, l\<lparr>ls_head := (if prv = None then Some item else ls_head l),
              ls_length := ls_length l + 1, ls_sorted := True\<rparr>, h) }
        | None \<Rightarrow> do {
            (_, l, h) \<leftarrow> r_list_append d l h;
            Some (None, l\<lparr>ls_sorted := True\<rparr>, h) }) })"

definition r_list_set_n :: "int \<Rightarrow> 'a option \<Rightarrow> rlist \<Rightarrow> 'a list_heap \<Rightarrow> (bool \<times> rlist \<times> 'a list_heap) option" where
  "r_list_set_n n d l h = do {
     r \<leftarrow> seek_n (loop_fuel h) h (ls_head l) 0 n;
     (case r of
        None \<Rightarrow> Some (False, l, h)
      | Some a \<Rightarrow> do {
          h \<leftarrow> put a (\<lambda>c. c\<lparr>it_data := d\<rparr>) h;
          Some (True, l\<lparr>ls_sorted := False\<rparr>, h) }) }"

section \<open>Removal\<close>

definition r_list_split_iter :: "nat \<Rightarrow> rlist \<Rightarrow> 'a list_heap \<Rightarrow> (rlist \<times> 'a list_heap) option" where
  "r_list_split_iter a l h = do {
     c \<leftarrow> cell h a;
     (let l = (if ls_head l = Some a then l\<lparr>ls_head := it_n c\<rparr> else l);
          l = (if ls_tail l = Some a then l\<lparr>ls_tail := it_p c\<rparr> else l)
      in do {
        h \<leftarrow> set_next (it_p c) (it_n c) h;
        c \<leftarrow> cell h a;
        h \<leftarrow> set_prev (it_n c) (it_p c) h;
        Some (l\<lparr>ls_length := ls_length l - 1\<rparr>, h) }) }"

definition r_list_delete :: "nat \<Rightarrow> rlist \<Rightarrow> 'a list_heap \<Rightarrow> (rlist \<times> 'a list_heap) option" where
  "r_list_delete a l h = do {
     (l, h) \<leftarrow> r_list_split_iter a l h;
     h \<leftarrow> dispose a h;
     Some (l, h) }"

definition r_list_delete_data :: "'a \<Rightarrow> rlist \<Rightarrow> 'a list_heap \<Rightarrow> (bool \<times> rlist \<times> 'a list_heap) option" where
  "r_list_delete_data p l h = do {
     r \<leftarrow> seek_data (loop_fuel h) (\<lambda>q. p = q) h (ls_head l);
     (case r of
        None \<Rightarrow> Some (False, l, h)
      | Some a \<Rightarrow> do { (l, h) \<leftarrow> r_list_delete a l h; Some (True, l, h) }) }"

text \<open>\<open>r_list_split\<close> looks at every iterator, also past one with \<open>NULL\<close> data.\<close>

fun seek_ptr :: "nat \<Rightarrow> 'a option \<Rightarrow> 'a list_heap \<Rightarrow> nat option \<Rightarrow> nat option option" where
  "seek_ptr 0 d h it = None"
| "seek_ptr (Suc k) d h it = (case it of
     None \<Rightarrow> Some None
   | Some a \<Rightarrow> do {
       c \<leftarrow> cell h a;
       (if it_data c = d then Some it else seek_ptr k d h (it_n c)) })"

definition r_list_split :: "'a option \<Rightarrow> rlist \<Rightarrow> 'a list_heap \<Rightarrow> (rlist \<times> 'a list_heap) option" where
  "r_list_split d l h = do {
     r \<leftarrow> seek_ptr (loop_fuel h) d h (ls_head l);
     (case r of
        None \<Rightarrow> Some (l, h)
      | Some a \<Rightarrow> r_list_delete a l h) }"

fun purge_loop :: "nat \<Rightarrow> nat option \<Rightarrow> rlist \<Rightarrow> 'a list_heap \<Rightarrow> (rlist \<times> 'a list_heap) option" where
  "purge_loop 0 it l h = None"
| "purge_loop (Suc k) it l h = (case it of
     None \<Rightarrow> Some (l, h)
   | Some a \<Rightarrow> do {
       c \<leftarrow> cell h a;
       (l, h) \<leftarrow> r_list_delete a l h;
       purge_loop k (it_n c) l h })"

definition r_list_purge :: "rlist \<Rightarrow> 'a list_heap \<Rightarrow> (rlist \<times> 'a list_heap) option" where
  "r_list_purge l h = do {
     (l, h) \<leftarrow> purge_loop (loop_fuel h) (ls_head l) l h;
     Some (l\<lparr>ls_head := None, ls_tail := None\<rparr>, h) }"

text \<open>The length is decremented even when there is nothing to pop.\<close>

definition r_list_pop :: "rlist \<Rightarrow> 'a list_heap \<Rightarrow> ('a option \<times> rlist \<times> 'a list_heap) option" where
  "r_list_pop l h = (case ls_tail l of
     None \<Rightarrow> Some (None, l\<lparr>ls_length := ls_length l - 1\<rparr>, h)
   | Some a \<Rightarrow> do {
       c \<leftarrow> cell h a;
       (l, h) \<leftarrow> (if ls_head l = ls_tail l then Some (l\<lparr>ls_head := None, ls_tail := None\<rparr>, h)
          else do {
            q \<leftarrow> it_p c;
            h \<leftarrow> put q (\<lambda>c. c\<lparr>it_n := None\<rparr>) h;
            Some (l\<lparr>ls_tail := Some q\<rparr>, h) });
       c \<leftarrow> cell h a;
       h \<leftarrow> dispose a h;
       Some (it_data c, l\<lparr>ls_length := ls_length l - 1\<rparr>, h) })"

definition r_list_pop_head :: "rlist \<Rightarrow> 'a list_heap \<Rightarrow> ('a option \<times> rlist \<times> 'a list_heap) option" where
  "r_list_pop_head l h = (case ls_head l of
     None \<Rightarrow> Some (None, l\<lparr>ls_length := ls_length l - 1\<rparr>, h)
   | Some a \<Rightarrow> do {
       c \<leftarrow> cell h a;
       (l, h) \<leftarrow> (if ls_head l = ls_tail l then Some (l\<lparr>ls_head := None, ls_tail := None\<rparr>, h)
          else do {
            q \<leftarrow> it_n c;
            h \<leftarrow> put q (\<lambda>c. c\<lparr>it_p := None\<rparr>) h;
            Some (l\<lparr>ls_head := Some q\<rparr>, h) });
       c \<leftarrow> cell h a;
       h \<leftarrow> dispose a h;
       Some (it_data c, l\<lparr>ls_length := ls_length l - 1\<rparr>, h) })"

definition r_list_del_n :: "int \<Rightarrow> rlist \<Rightarrow> 'a list_heap \<Rightarrow> (bool \<times> rlist \<times> 'a list_heap) option" where
  "r_list_del_n n l h = do {
     r \<leftarrow> seek_n (loop_fuel h) h (ls_head l) 0 n;
     (case r of
        None \<Rightarrow> Some (False, l, h)
      | Some a \<Rightarrow> do {
          c \<leftarrow> cell h a;
          (l, h) \<leftarrow> (case (it_p c, it_n c) of
              (None, None) \<Rightarrow> Some (l\<lparr>ls_head := None, ls_tail := None\<rparr>, h)
            | (None, Some q) \<Rightarrow> do {
                h \<leftarrow> put q (\<lambda>c. c\<lparr>it_p := None\<rparr>) h;
                Some (l\<lparr>ls_head := Some q\<rparr>, h) }
            | (Some q, None) \<Rightarrow> do {
                h \<leftarrow> put q (\<lambda>c. c\<lparr>it_n := None\<rparr>) h;
                Some (l\<lparr>ls_tail := Some q\<rparr>, h) }
            | (Some q, Some r) \<Rightarrow> do {
                h \<leftarrow> put q (\<lambda>c. c\<lparr>it_n := Some r\<rparr>) h;
                h \<leftarrow> put r (\<lambda>c. c\<lparr>it_p := Some q\<rparr>) h;
                Some (l, h) });
          h \<leftarrow> dispose a h;
          Some (True, l\<lparr>ls_length := ls_length l - 1\<rparr>, h) }) }"

section \<open>Whole lists\<close>

fun reverse_loop :: "nat \<Rightarrow> nat option \<Rightarrow> 'a list_heap \<Rightarrow> 'a list_heap option" where
  "reverse_loop 0 it h = None"
| "reverse_loop (Suc k) it h = (case it of
     None \<Rightarrow> Some h
   | Some a \<Rightarrow> do {
       c \<leftarrow> cell h a;
       (if it_data c = None then Some h
        else do {
          h \<leftarrow> put a (\<lambda>c. c\<lparr>it_p := it_n c, it_n := it_p c\<rparr>) h;
          reverse_loop k (it_n c) h }) })"

definition r_list_reverse :: "rlist \<Rightarrow> 'a list_heap \<Rightarrow> (rlist \<times> 'a list_heap) option" where
  "r_list_reverse l h = do {
     h \<leftarrow> reverse_loop (loop_fuel h) (ls_head l) h;
     Some (l\<lparr>ls_head := ls_tail l, ls_tail := ls_head l\<rparr>, h) }"

fun clone_loop :: "nat \<Rightarrow> nat option \<Rightarrow> rlist \<Rightarrow> 'a list_heap \<Rightarrow> (rlist \<times> 'a list_heap) option" where
  "clone_loop 0 it l h = None"
| "clone_loop (Suc k) it l h = (case it of
     None \<Rightarrow> Some (l, h)
   | Some a \<Rightarrow> do {
       c \<leftarrow> cell h a;
       (case it_data c of
          None \<Rightarrow> Some (l, h)
        | Some x \<Rightarrow> do {
            (_, l, h) \<leftarrow> r_list_append (Some x) l h;
            c \<leftarrow> cell h a;
            clone_loop k (it_n c) l h }) })"

definition r_list_clone :: "rlist \<Rightarrow> 'a list_heap \<Rightarrow> (rlist \<times> 'a list_heap) option" where
  "r_list_clone list h = do {
     (l, h) \<leftarrow> clone_loop (loop_fuel h) (ls_head list) r_list_init h;
     Some (l\<lparr>ls_sorted := ls_sorted list\<rparr>, h) }"

definition r_list_join :: "rlist \<Rightarrow> rlist \<Rightarrow> 'a list_heap \<Rightarrow> (bool \<times> rlist \<times> rlist \<times> 'a list_heap) option" where
  "r_list_join l1 l2 h =
     (if r_list_empty l2 then Some (False, l1, l2, h)
      else do {
        (l, h) \<leftarrow>
          (if r_list_empty l1 then Some (l1\<lparr>ls_head := ls_head l2, ls_tail := ls_tail l2\<rparr>, h)
           else case (ls_tail l1, ls_head l2) of
             (None, _) \<Rightarrow> Some (l1\<lparr>ls_tail := ls_head l2\<rparr>, h)
           | (Some t, Some b) \<Rightarrow> do {
               h \<leftarrow> put t (\<lambda>c. c\<lparr>it_n := Some b\<rparr>) h;
               h \<leftarrow> put b (\<lambda>c. c\<lparr>it_p := Some t\<rparr>) h;
               Some (l1, h) }
           | (Some _, None) \<Rightarrow> Some (l1, h));
        Some (True, l\<lparr>ls_length := ls_length l + ls_length l2, ls_sorted := True\<rparr>,
          l2\<lparr>ls_head := None, ls_tail := None\<rparr>, h) })"

section \<open>Sorting\<close>

text \<open>The recursions of the merge sort; \<open>data\<close> of an iterator is never \<open>NULL\<close> there.\<close>

fun merge_iters ::
  "nat \<Rightarrow> ('a \<Rightarrow> 'a \<Rightarrow> int) \<Rightarrow> nat option \<Rightarrow> nat option \<Rightarrow> 'a list_heap \<Rightarrow> (nat option \<times> 'a list_heap) option" where
  "merge_iters 0 cmp first second h = None"
| "merge_iters (Suc k) cmp first second h = (case (first, second) of
     (None, _) \<Rightarrow> Some (second, h)
   | (_, None) \<Rightarrow> Some (first, h)
   | (Some a, Some b) \<Rightarrow> do {
       ca \<leftarrow> cell h a; cb \<leftarrow> cell h b; x \<leftarrow> it_data ca; y \<leftarrow> it_data cb;
       (if cmp x y > 0 then do {
          (r, h) \<leftarrow> merge_iters k cmp first (it_n cb) h;
          q \<leftarrow> r;
          h \<leftarrow> put b (\<lambda>c. c\<lparr>it_n := r\<rparr>) h;
          h \<leftarrow> put q (\<lambda>c. c\<lparr>it_p := Some b\<rparr>) h;
          h \<leftarrow> put b (\<lambda>c. c\<lparr>it_p := None\<rparr>) h;
          Some (Some b, h) }
        else do {
          (r, h) \<leftarrow> merge_iters k cmp (it_n ca) second h;
          q \<leftarrow> r;
          h \<leftarrow> put a (\<lambda>c. c\<lparr>it_n := r\<rparr>) h;
          h \<leftarrow> put q (\<lambda>c. c\<lparr>it_p := Some a\<rparr>) h;
          h \<leftarrow> put a (\<lambda>c. c\<lparr>it_p := None\<rparr>) h;
          Some (Some a, h) }) })"

text \<open>\<open>while (fast && fast->n && fast->n->n)\<close>; the result is \<open>slow\<close>.\<close>

fun half_loop :: "nat \<Rightarrow> nat \<Rightarrow> nat \<Rightarrow> 'a list_heap \<Rightarrow> nat option" where
  "half_loop 0 fast slow h = None"
| "half_loop (Suc k) fast slow h = do {
     cf \<leftarrow> cell h fast;
     (case it_n cf of
        None \<Rightarrow> Some slow
      | Some f1 \<Rightarrow> do {
          c1 \<leftarrow> cell h f1;
          (case it_n c1 of
             None \<Rightarrow> Some slow
           | Some f2 \<Rightarrow> do {
               cs \<leftarrow> cell h slow;
               s \<leftarrow> it_n cs;
               half_loop k f2 s h }) }) }"

definition r_list_half_split :: "nat option \<Rightarrow> 'a list_heap \<Rightarrow> (nat option \<times> 'a list_heap) option" where
  "r_list_half_split head h = (case head of
     None \<Rightarrow> Some (None, h)
   | Some a \<Rightarrow> do {
       c \<leftarrow> cell h a;
       (if it_n c = None then Some (head, h)
        else do {
          slow \<leftarrow> half_loop (loop_fuel h) a a h;
          c \<leftarrow> cell h slow;
          h \<leftarrow> put slow (\<lambda>c. c\<lparr>it_n := None\<rparr>) h;
          Some (it_n c, h) }) })"

fun merge_sort_iters ::
  "nat \<Rightarrow> ('a \<Rightarrow> 'a \<Rightarrow> int) \<Rightarrow> nat option \<Rightarrow> 'a list_heap \<Rightarrow> (nat option \<times> 'a list_heap) option" where
  "merge_sort_iters 0 cmp head h = None"
| "merge_sort_iters (Suc k) cmp head h = (case head of
     None \<Rightarrow> Some (None, h)
   | Some a \<Rightarrow> do {
       c \<leftarrow> cell h a;
       (if it_n c = None then Some (head, h)
        else do {
          (second, h) \<leftarrow> r_list_half_split head h;
          (head, h) \<leftarrow> merge_sort_iters k cmp head h;
          (second, h) \<leftarrow> merge_sort_iters k cmp second h;
          merge_iters (loop_fuel h) cmp head second h }) })"

fun last_iter :: "nat \<Rightarrow> nat \<Rightarrow> 'a list_heap \<Rightarrow> nat option" where
  "last_iter 0 a h = None"
| "last_iter (Suc k) a h = do {
     c \<leftarrow> cell h a;
     (case it_n c of None \<Rightarrow> Some a | Some b \<Rightarrow> last_iter k b h) }"

definition r_list_merge_sort :: "('a \<Rightarrow> 'a \<Rightarrow> int) \<Rightarrow> rlist \<Rightarrow> 'a list_heap \<Rightarrow> (rlist \<times> 'a list_heap) option" where
  "r_list_merge_sort cmp l h = do {
     (l, h) \<leftarrow>
       (if \<not> ls_sorted l \<and> ls_head l \<noteq> None then do {
          (r, h) \<leftarrow> merge_sort_iters (loop_fuel h) cmp (ls_head l) h;
          t \<leftarrow> (case r of None \<Rightarrow> Some None | Some a \<Rightarrow> map_option Some (last_iter (loop_fuel h) a h));
          Some (l\<lparr>ls_head := r, ls_tail := t\<rparr>, h) }
        else Some (l, h));
     Some (l\<lparr>ls_sorted := True\<rparr>, h) }"

text \<open>The inner loop swaps the data of \<open>a\<close> with every smaller element behind it.\<close>

fun exchange_loop :: "nat \<Rightarrow> ('a \<Rightarrow> 'a \<Rightarrow> int) \<Rightarrow> nat \<Rightarrow> nat option \<Rightarrow> 'a list_heap \<Rightarrow> 'a list_heap option" where
  "exchange_loop 0 cmp a it2 h = None"
| "exchange_loop (Suc k) cmp a it2 h = (case it2 of
     None \<Rightarrow> Some h
   | Some b \<Rightarrow> do {
       cb \<leftarrow> cell h b;
       (case it_data cb of
          None \<Rightarrow> Some h
        | Some y \<Rightarrow> do {
            ca \<leftarrow> cell h a;
            x \<leftarrow> it_data ca;
            h \<leftarrow> (if cmp x y > 0 then do {
                h \<leftarrow> put a (\<lambda>c. c\<lparr>it_data := Some y\<rparr>) h;
                put b (\<lambda>c. c\<lparr>it_data := Some x\<rparr>) h }
              else Some h);
            exchange_loop k cmp a (it_n cb) h }) })"

fun selection_loop :: "nat \<Rightarrow> ('a \<Rightarrow> 'a \<Rightarrow> int) \<Rightarrow> nat option \<Rightarrow> 'a list_heap \<Rightarrow> 'a list_heap option" where
  "selection_loop 0 cmp it h = None"
| "selection_loop (Suc k) cmp it h = (case it of
     None \<Rightarrow> Some h
   | Some a \<Rightarrow> do {
       c \<leftarrow> cell h a;
       (if it_data c = None then Some h
        else do {
          h \<leftarrow> exchange_loop (loop_fuel h) cmp a (it_n c) h;
          selection_loop k cmp (it_n c) h }) })"

definition r_list_insertion_sort :: "('a \<Rightarrow> 'a \<Rightarrow> int) \<Rightarrow> rlist \<Rightarrow> 'a list_heap \<Rightarrow> (rlist \<times> 'a list_heap) option" where
  "r_list_insertion_sort cmp l h =
     (if ls_sorted l then Some (l, h)
      else do {
        h \<leftarrow> selection_loop (loop_fuel h) cmp (ls_head l) h;
        Some (l\<lparr>ls_sorted := True\<rparr>, h) })"

definition r_list_sort :: "('a \<Rightarrow> 'a \<Rightarrow> int) \<Rightarrow> rlist \<Rightarrow> 'a list_heap \<Rightarrow> (rlist \<times> 'a list_heap) option" where
  "r_list_sort cmp l h = (if ls_length l > 43 then r_list_merge_sort cmp l h else r_list_insertion_sort cmp l h)"

end
