(* ===== verification/R2_List_Laws.thy ===== *)
theory R2_List_Laws
  imports R2_List
begin

text \<open>
  The linked list refines a list of its elements. \<open>seg\<close> describes a chain of iterators in the heap; two
  lemmas, one per direction of the links, carry the proofs of all operations that relink a list.
\<close>

section \<open>Chains\<close>

definition first_of :: "(nat \<times> 'a) list \<Rightarrow> nat option \<Rightarrow> nat option" where
  "first_of xs e = (case xs of [] \<Rightarrow> e | x # _ \<Rightarrow> Some (fst x))"

definition last_of :: "nat option \<Rightarrow> (nat \<times> 'a) list \<Rightarrow> nat option" where
  "last_of e xs = (if xs = [] then e else Some (fst (last xs)))"

abbreviation addrs :: "(nat \<times> 'a) list \<Rightarrow> nat set" where
  "addrs xs \<equiv> fst ` set xs"

fun seg :: "'a list_heap \<Rightarrow> nat option \<Rightarrow> (nat \<times> 'a) list \<Rightarrow> nat option \<Rightarrow> bool" where
  "seg h prv [] nxt \<longleftrightarrow> True"
| "seg h prv (x # xs) nxt \<longleftrightarrow>
     cell h (fst x) = Some \<lparr>it_data = Some (snd x), it_n = first_of xs nxt, it_p = prv\<rparr> \<and> seg h (Some (fst x)) xs nxt"

lemma first_of_simps [simp]:
  "first_of [] e = e" "first_of (x # xs) e = Some (fst x)"
  "first_of (xs @ ys) e = first_of xs (first_of ys e)"
  by (simp_all add: first_of_def split: list.split)

lemma last_of_simps [simp]:
  "last_of e [] = e" "last_of e (xs @ [x]) = Some (fst x)" "last_of e (x # xs) = last_of (Some (fst x)) xs"
  "last_of e (xs @ ys) = last_of (last_of e xs) ys"
  by (simp_all add: last_of_def)

lemma first_of_None [simp]: "first_of xs None = None \<longleftrightarrow> xs = []"
  by (cases xs) simp_all

lemma last_of_None [simp]: "last_of None xs = None \<longleftrightarrow> xs = []"
  by (simp add: last_of_def)

lemma ends_nonempty [simp]:
  "xs \<noteq> [] \<Longrightarrow> first_of xs e = Some (fst (hd xs))" "xs \<noteq> [] \<Longrightarrow> last_of e xs = Some (fst (last xs))"
  by (simp_all add: first_of_def last_of_def split: list.split)

lemma seg_append [simp]:
  "seg h prv (xs @ ys) nxt \<longleftrightarrow> seg h prv xs (first_of ys nxt) \<and> seg h (last_of prv xs) ys nxt"
  by (induction xs arbitrary: prv) auto

text \<open>What an operation may change: \<open>frame A h h'\<close> says that only the cells of \<open>A\<close> and new ones differ.\<close>

definition frame :: "nat set \<Rightarrow> 'a list_heap \<Rightarrow> 'a list_heap \<Rightarrow> bool" where
  "frame A h h' \<longleftrightarrow> length h \<le> length h' \<and> (\<forall>a. a \<notin> A \<longrightarrow> a < length h \<longrightarrow> cell h' a = cell h a)"

lemma frame_refl [simp]: "frame A h h"
  by (simp add: frame_def)

lemma frame_cell: "frame A h h' \<Longrightarrow> a \<notin> A \<Longrightarrow> a < length h \<Longrightarrow> cell h' a = cell h a"
  by (simp add: frame_def)

lemma frame_trans:
  assumes "frame A h h1" "frame B h1 h2" "A \<union> B \<subseteq> C"
  shows "frame C h h2"
proof -
  have "cell h2 a = cell h a" if "a \<notin> C" "a < length h" for a
  proof -
    have "a \<notin> A" "a \<notin> B" "a < length h1" using assms that by (auto simp: frame_def)
    then show ?thesis using assms(1,2) that(2) by (simp add: frame_def)
  qed
  then show ?thesis using assms(1,2) by (auto simp: frame_def)
qed

lemma frame_trans_new:
  assumes "frame A h h1" "frame (A \<union> B) h1 h2" "\<forall>b\<in>B. length h \<le> b"
  shows "frame A h h2"
  using assms unfolding frame_def by (metis Un_iff leD le_trans order_less_le_trans)

lemma frame_mono: "frame A h h' \<Longrightarrow> A \<subseteq> B \<Longrightarrow> frame B h h'"
  by (auto simp: frame_def)

lemma cell_bound: "cell h a = Some c \<Longrightarrow> a < length h"
  by (simp add: cell_def split: if_splits)

lemma cell_new [simp]: "cell (h @ [c]) (length h) = c"
  by (simp add: cell_def)

lemma cell_old: "a < length h \<Longrightarrow> cell (h @ [c]) a = cell h a"
  by (simp add: cell_def nth_append)

lemma cell_upd: "cell (h[a := c]) b = (if a = b \<and> a < length h then c else cell h b)"
  by (simp add: cell_def nth_list_update)

lemma cell_freed [simp]: "cell (h[a := None]) a = None"
  by (simp add: cell_def)

lemma frame_new: "frame A h (h @ [c])"
  by (simp add: frame_def cell_old)

lemma put_eq: "cell h a = Some c \<Longrightarrow> put a f h = Some (h[a := Some (f c)])"
  by (simp add: put_def)

lemma frame_upd: "frame {a} h (h[a := c])"
  by (simp add: frame_def cell_upd)

lemma seg_bound: "seg h prv xs nxt \<Longrightarrow> a \<in> addrs xs \<Longrightarrow> a < length h"
  by (induction xs arbitrary: prv) (auto dest: cell_bound)

lemma seg_cong: "(\<And>a. a \<in> addrs xs \<Longrightarrow> cell h' a = cell h a) \<Longrightarrow> seg h' prv xs nxt = seg h prv xs nxt"
  by (induction xs arbitrary: prv) auto

lemma seg_frame: "seg h prv xs nxt \<Longrightarrow> frame A h h' \<Longrightarrow> addrs xs \<inter> A = {} \<Longrightarrow> seg h' prv xs nxt"
proof -
  assume a: "seg h prv xs nxt" "frame A h h'" "addrs xs \<inter> A = {}"
  have "cell h' b = cell h b" if "b \<in> addrs xs" for b
    using a that seg_bound [OF a(1) that] unfolding frame_def by blast
  then show ?thesis using a(1) seg_cong by metis
qed

text \<open>The two ways to relink: the forward link of the last iterator, the backward link of the first.\<close>

lemma set_next_seg:
  assumes "seg h prv xs nxt" "distinct (map fst xs)"
  obtains h' where "set_next (last_of None xs) v h = Some h'" "seg h' prv xs v" "frame (addrs xs) h h'"
    "length h' = length h"
proof (cases xs rule: rev_cases)
  case Nil
  then show ?thesis using that [of h] by (simp add: set_next_def)
next
  case (snoc ys t)
  let ?c = "\<lparr>it_data = Some (snd t), it_n = nxt, it_p = last_of prv ys\<rparr>"
  have c: "cell h (fst t) = Some ?c" using assms(1) by (simp add: snoc)
  define h' where "h' = h[fst t := Some (?c\<lparr>it_n := v\<rparr>)]"
  have f: "frame {fst t} h h'" by (simp add: h'_def frame_upd)
  have "fst t \<notin> addrs ys" using assms(2) by (auto simp: snoc)
  then have "seg h' prv ys (Some (fst t))" using assms(1) f by (intro seg_frame [OF _ f]) (auto simp: snoc)
  moreover have "cell h' (fst t) = Some (?c\<lparr>it_n := v\<rparr>)" using cell_bound [OF c] by (simp add: h'_def cell_upd)
  moreover have "set_next (last_of None xs) v h = Some h'" by (simp add: snoc set_next_def put_eq [OF c] h'_def)
  ultimately show ?thesis using that [of h'] frame_mono [OF f] by (simp add: snoc h'_def)
qed

lemma set_prev_seg:
  assumes "seg h prv xs nxt" "distinct (map fst xs)"
  obtains h' where "set_prev (first_of xs None) v h = Some h'" "seg h' v xs nxt" "frame (addrs xs) h h'"
    "length h' = length h"
proof (cases xs)
  case Nil
  then show ?thesis using that [of h] by (simp add: set_prev_def)
next
  case (Cons t ys)
  let ?c = "\<lparr>it_data = Some (snd t), it_n = first_of ys nxt, it_p = prv\<rparr>"
  have c: "cell h (fst t) = Some ?c" using assms(1) by (simp add: Cons)
  define h' where "h' = h[fst t := Some (?c\<lparr>it_p := v\<rparr>)]"
  have f: "frame {fst t} h h'" by (simp add: h'_def frame_upd)
  have "fst t \<notin> addrs ys" using assms(2) by (simp add: Cons)
  then have "seg h' (Some (fst t)) ys nxt" using assms(1) by (intro seg_frame [OF _ f]) (auto simp: Cons)
  moreover have "cell h' (fst t) = Some (?c\<lparr>it_p := v\<rparr>)" using cell_bound [OF c] by (simp add: h'_def cell_upd)
  moreover have "set_prev (first_of xs None) v h = Some h'" by (simp add: Cons set_prev_def put_eq [OF c] h'_def)
  ultimately show ?thesis using that [of h'] frame_mono [OF f] by (simp add: Cons h'_def)
qed

section \<open>Lists\<close>

definition repr :: "'a list_heap \<Rightarrow> rlist \<Rightarrow> (nat \<times> 'a) list \<Rightarrow> bool" where
  "repr h l xs \<longleftrightarrow> seg h None xs None \<and> distinct (map fst xs) \<and> ls_head l = first_of xs None \<and>
     ls_tail l = last_of None xs \<and> ls_length l = int (length xs)"

lemma repr_frame: "repr h l xs \<Longrightarrow> frame A h h' \<Longrightarrow> addrs xs \<inter> A = {} \<Longrightarrow> repr h' l xs"
  using seg_frame [of h None xs None A h'] by (simp add: repr_def)

lemma repr_init [simp]: "repr h r_list_init []"
  by (simp add: repr_def r_list_init_def)

lemma repr_new: "repr h l xs \<Longrightarrow> length h \<notin> addrs xs"
  using seg_bound [of h None xs None "length h"] by (auto simp: repr_def)

text \<open>Every operation comes with the cells it may change, so lists that share the heap are not disturbed.\<close>

lemma append_repr:
  assumes "repr h l xs"
  shows "\<exists>l' h'. r_list_append (Some x) l h = Some (Some (length h), l', h') \<and>
    repr h' l' (xs @ [(length h, x)]) \<and> frame (addrs xs) h h'"
proof -
  let ?h = "h @ [Some \<lparr>it_data = Some x, it_n = None, it_p = last_of None xs\<rparr>]"
  have s: "seg ?h None xs None" using assms seg_frame [OF _ frame_new, of h None xs None "{}"] by (simp add: repr_def)
  from set_next_seg [OF s, of "Some (length h)"] assms obtain h' where
    h': "set_next (last_of None xs) (Some (length h)) ?h = Some h'" "seg h' None xs (Some (length h))"
      "frame (addrs xs) ?h h'" by (auto simp: repr_def)
  have "cell h' (length h) = cell ?h (length h)"
    using h'(3) repr_new [OF assms] unfolding frame_def by auto
  then show ?thesis
    using assms h' repr_new [OF assms] frame_trans [OF frame_new [of "{}"] h'(3)]
    by (auto simp: r_list_append_def repr_def Let_def)
qed

lemma prepend_repr:
  assumes "repr h l xs"
  shows "\<exists>l' h'. r_list_prepend (Some x) l h = Some (Some (length h), l', h') \<and>
    repr h' l' ((length h, x) # xs) \<and> frame (addrs xs) h h'"
proof -
  let ?h = "h @ [Some \<lparr>it_data = Some x, it_n = first_of xs None, it_p = None\<rparr>]"
  have s: "seg ?h None xs None" using assms seg_frame [OF _ frame_new, of h None xs None "{}"] by (simp add: repr_def)
  from set_prev_seg [OF s, of "Some (length h)"] assms obtain h' where
    h': "set_prev (first_of xs None) (Some (length h)) ?h = Some h'" "seg h' (Some (length h)) xs None"
      "frame (addrs xs) ?h h'" by (auto simp: repr_def)
  have "cell h' (length h) = cell ?h (length h)"
    using h'(3) repr_new [OF assms] unfolding frame_def by auto
  then show ?thesis
    using assms h' repr_new [OF assms] frame_trans [OF frame_new [of "{}"] h'(3)]
    by (auto simp: r_list_prepend_def repr_def Let_def)
qed

lemma link_before_repr:
  assumes "repr h l (ys @ (a, y) # zs)"
  obtains h' where "link_before (Some x) a h = Some ((length h, last_of None ys), h')"
    "seg h' None (ys @ (length h, x) # (a, y) # zs) None" "frame (addrs (ys @ (a, y) # zs)) h h'"
proof -
  let ?c = "Some \<lparr>it_data = Some x, it_n = Some a, it_p = last_of None ys\<rparr>"
  have h: "cell h a = Some \<lparr>it_data = Some y, it_n = first_of zs None, it_p = last_of None ys\<rparr>"
    and n: "length h \<notin> addrs (ys @ (a, y) # zs)" and d: "distinct (map fst (ys @ (a, y) # zs))"
    using assms repr_new [OF assms] by (simp_all add: repr_def)
  have s: "seg (h @ [?c]) None (ys @ (a, y) # zs) None"
    using assms by (intro seg_frame [OF _ frame_new [of "{}"]]) (simp_all add: repr_def)
  then have s1: "seg (h @ [?c]) None ys (Some a)" "distinct (map fst ys)" using d by simp_all
  from set_next_seg [OF s1, of "Some (length h)"] obtain h1 where
    h1: "set_next (last_of None ys) (Some (length h)) (h @ [?c]) = Some h1" "seg h1 None ys (Some (length h))"
      "frame (addrs ys) (h @ [?c]) h1" "length h1 = length (h @ [?c])" by blast
  have "seg h1 (last_of None ys) ((a, y) # zs) None"
    using s d by (intro seg_frame [OF _ h1(3)]) auto
  moreover have "distinct (map fst ((a, y) # zs))" using d by simp
  ultimately obtain h2 where "set_prev (first_of ((a, y) # zs) None) (Some (length h)) h1 = Some h2" and
    h2: "seg h2 (Some (length h)) ((a, y) # zs) None" "frame (addrs ((a, y) # zs)) h1 h2"
    by (rule set_prev_seg)
  then have p: "set_prev (Some a) (Some (length h)) h1 = Some h2" by simp
  have "seg h2 None ys (Some (length h))" using h1(2) d by (intro seg_frame [OF _ h2(2)]) auto
  moreover have "cell h2 (length h) = ?c"
  proof -
    have "cell h1 (length h) = ?c" using frame_cell [OF h1(3), of "length h"] n by auto
    then show ?thesis using frame_cell [OF h2(2), of "length h"] h1(4) n by auto
  qed
  moreover have "frame (addrs (ys @ (a, y) # zs)) h h2"
    by (rule frame_trans [OF frame_trans [OF frame_new [of "{}"] h1(3), of "addrs ys"] h2(2)]) auto
  ultimately show ?thesis
    using that [of h2] h h1(1) p h2(1) by (simp add: link_before_def Let_def)
qed

lemma unlink_seg:
  assumes "seg h None (ys @ (a, x) # zs) None" "distinct (map fst (ys @ (a, x) # zs))"
  obtains h1 h2 where "set_next (last_of None ys) (first_of zs None) h = Some h1"
    "set_prev (first_of zs None) (last_of None ys) h1 = Some h2" "seg h2 None (ys @ zs) None"
    "cell h1 a = cell h a" "cell h2 a = cell h a" "frame (addrs ys \<union> addrs zs) h h2" "length h2 = length h"
proof -
  have s: "seg h None ys (Some a)" "distinct (map fst ys)" "distinct (map fst zs)"
    and n: "a \<notin> addrs ys" "a \<notin> addrs zs" "addrs ys \<inter> addrs zs = {}" "a < length h"
    using assms by (auto dest: cell_bound)
  from set_next_seg [OF s(1,2), of "first_of zs None"] obtain h1 where
    h1: "set_next (last_of None ys) (first_of zs None) h = Some h1" "seg h1 None ys (first_of zs None)"
      "frame (addrs ys) h h1" "length h1 = length h" by blast
  have "seg h1 (Some a) zs None" using assms(1) n by (intro seg_frame [OF _ h1(3)]) auto
  from set_prev_seg [OF this s(3), of "last_of None ys"] obtain h2 where
    h2: "set_prev (first_of zs None) (last_of None ys) h1 = Some h2" "seg h2 (last_of None ys) zs None"
      "frame (addrs zs) h1 h2" "length h2 = length h1" by blast
  have "seg h2 None ys (first_of zs None)" using h1(2) n by (intro seg_frame [OF _ h2(3)]) auto
  moreover have "cell h1 a = cell h a" "cell h2 a = cell h a" using h1(3,4) h2(3) n by (simp_all add: frame_def)
  ultimately show ?thesis
    using that [OF h1(1) h2(1)] h2(2,4) h1(4) frame_trans [OF h1(3) h2(3) order_refl] by simp
qed

lemma dispose_eq: "cell h a = Some c \<Longrightarrow> dispose a h = Some (h[a := None])"
  by (simp add: dispose_def)

text \<open>An iterator is unlinked and freed; the operations that remove elements differ in the updates of the list.\<close>

lemma remove_seg:
  assumes "repr h l (ys @ (a, x) # zs)"
  obtains h1 h2 where "set_next (last_of None ys) (first_of zs None) h = Some h1"
    "set_prev (first_of zs None) (last_of None ys) h1 = Some h2"
    "\<And>g. g \<in> {h, h1, h2} \<Longrightarrow> cell g a = Some \<lparr>it_data = Some x, it_n = first_of zs None, it_p = last_of None ys\<rparr>"
    "dispose a h2 = Some (h2[a := None])"
    "seg (h2[a := None]) None (ys @ zs) None" "frame (addrs (ys @ (a, x) # zs)) h (h2[a := None])"
proof -
  have s: "seg h None (ys @ (a, x) # zs) None" "distinct (map fst (ys @ (a, x) # zs))"
    using assms by (simp_all add: repr_def)
  from unlink_seg [OF this] obtain h1 h2 where
    h: "set_next (last_of None ys) (first_of zs None) h = Some h1"
      "set_prev (first_of zs None) (last_of None ys) h1 = Some h2" "seg h2 None (ys @ zs) None"
      "cell h1 a = cell h a" "cell h2 a = cell h a" "frame (addrs ys \<union> addrs zs) h h2" "length h2 = length h" by blast
  have c: "cell h a = Some \<lparr>it_data = Some x, it_n = first_of zs None, it_p = last_of None ys\<rparr>" using s(1) by simp
  have "seg (h2[a := None]) None (ys @ zs) None"
    using h(3) s(2) by (intro seg_frame [OF _ frame_upd]) auto
  moreover have "frame (addrs (ys @ (a, x) # zs)) h (h2[a := None])"
    by (rule frame_trans [OF h(6) frame_upd]) auto
  moreover have "\<And>g. g \<in> {h, h1, h2} \<Longrightarrow> cell g a = Some \<lparr>it_data = Some x, it_n = first_of zs None, it_p = last_of None ys\<rparr>"
    using c h(4,5) by auto
  moreover have "dispose a h2 = Some (h2[a := None])" using c h(5) dispose_eq [of h2 a] by simp
  ultimately show ?thesis using that h(1,2) by blast
qed

lemma repr_ends:
  assumes "repr h l (ys @ (a, x) # zs)"
  shows "ls_head l = Some a \<longleftrightarrow> ys = []" "ls_tail l = Some a \<longleftrightarrow> zs = []"
    "ls_head l = ls_tail l \<longleftrightarrow> ys = [] \<and> zs = []"
proof -
  have d: "distinct (map fst (ys @ (a, x) # zs))" "ls_head l = first_of (ys @ (a, x) # zs) None"
    "ls_tail l = last_of None (ys @ (a, x) # zs)" using assms by (simp_all only: repr_def)
  show "ls_head l = Some a \<longleftrightarrow> ys = []" using d by (cases ys) auto
  show "ls_tail l = Some a \<longleftrightarrow> zs = []" using d by (cases zs rule: rev_cases) auto
  show "ls_head l = ls_tail l \<longleftrightarrow> ys = [] \<and> zs = []"
    using d by (cases ys; cases zs rule: rev_cases) auto
qed

lemma delete_repr:
  assumes "repr h l (ys @ (a, x) # zs)"
  shows "\<exists>l' h'. r_list_delete a l h = Some (l', h') \<and> repr h' l' (ys @ zs) \<and> frame (addrs (ys @ (a, x) # zs)) h h' \<and>
    ls_sorted l' = ls_sorted l \<and> cell h' a = None"
proof -
  obtain h1 h2 where h: "set_next (last_of None ys) (first_of zs None) h = Some h1"
    "set_prev (first_of zs None) (last_of None ys) h1 = Some h2"
    "\<And>g. g \<in> {h, h1, h2} \<Longrightarrow> cell g a = Some \<lparr>it_data = Some x, it_n = first_of zs None, it_p = last_of None ys\<rparr>"
    "dispose a h2 = Some (h2[a := None])"
    "seg (h2[a := None]) None (ys @ zs) None" "frame (addrs (ys @ (a, x) # zs)) h (h2[a := None])"
    using remove_seg [OF assms] by blast
  then show ?thesis
    using assms repr_ends [OF assms] cell_freed [of h2 a]
    by (auto simp: r_list_delete_def r_list_split_iter_def Let_def repr_def)
qed

end
