(* ===== verification/R2_List_Ops.thy ===== *)
theory R2_List_Ops
  imports R2_List_Laws
begin

text \<open>
  What the operations of the linked list do to the elements it holds: the searches, insertion in the middle,
  removal at either end and at a position, reversal, copying and joining.
\<close>

section \<open>Searches\<close>

lemma repr_fuel: "repr h l xs \<Longrightarrow> length xs < loop_fuel h"
proof -
  assume a: "repr h l xs"
  then have "addrs xs \<subseteq> {..<length h}" using seg_bound [of h None xs None] unfolding repr_def by blast
  then have "card (addrs xs) \<le> length h" using card_mono [of "{..<length h}"] by simp
  moreover have "card (addrs xs) = length xs" using a distinct_card [of "map fst xs"] by (simp add: repr_def)
  ultimately show ?thesis by (simp add: loop_fuel_def)
qed

lemma seek_n_seg:
  "seg h prv xs None \<Longrightarrow> length xs < k \<Longrightarrow>
   seek_n k h (first_of xs None) i n =
     Some (if i \<le> n \<and> nat (n - i) < length xs then Some (fst (xs ! nat (n - i))) else None)"
proof (induction xs arbitrary: prv k i)
  case Nil
  then show ?case by (cases k) auto
next
  case (Cons x xs)
  then obtain k' where k: "k = Suc k'" "length xs < k'" by (cases k) auto
  show ?case
  proof (cases "i < n")
    case True
    then have "nat (n - i) = Suc (nat (n - (i + 1)))" by simp
    then show ?thesis using Cons.IH [of "Some (fst x)" k' "i + 1"] Cons.prems True k by simp
  next
    case False
    then show ?thesis using Cons.IH [of "Some (fst x)" k' "i + 1"] Cons.prems k by auto
  qed
qed

lemma seek_data_seg:
  "seg h prv xs None \<Longrightarrow> length xs < k \<Longrightarrow>
   seek_data k P h (first_of xs None) = Some (map_option fst (find (\<lambda>e. P (snd e)) xs))"
proof (induction xs arbitrary: prv k)
  case (Cons x xs)
  then show ?case by (cases k) auto
qed (auto simp: gr0_conv_Suc)

lemma seek_ptr_seg:
  "seg h prv xs None \<Longrightarrow> length xs < k \<Longrightarrow>
   seek_ptr k (Some d) h (first_of xs None) = Some (map_option fst (find (\<lambda>e. snd e = d) xs))"
proof (induction xs arbitrary: prv k)
  case (Cons x xs)
  then show ?case by (cases k) auto
qed (auto simp: gr0_conv_Suc)

lemma seek_place_seg:
  "seg h prv xs None \<Longrightarrow> length xs < k \<Longrightarrow>
   seek_place k cmp x h (first_of xs None) = Some (first_of (dropWhile (\<lambda>e. cmp x (snd e) > 0) xs) None)"
proof (induction xs arbitrary: prv k)
  case (Cons x xs)
  then show ?case by (cases k) auto
qed (auto simp: gr0_conv_Suc)

text \<open>The loops started at the head of a list that is represented.\<close>

lemma seek_n_repr:
  "repr h l xs \<Longrightarrow> seek_n (loop_fuel h) h (ls_head l) 0 n =
     Some (if 0 \<le> n \<and> nat n < length xs then Some (fst (xs ! nat n)) else None)"
  using repr_fuel [of h l xs] seek_n_seg [of h None xs "loop_fuel h" 0 n] by (simp add: repr_def)

lemma seek_data_repr:
  "repr h l xs \<Longrightarrow> seek_data (loop_fuel h) P h (ls_head l) = Some (map_option fst (find (\<lambda>e. P (snd e)) xs))"
  using repr_fuel [of h l xs] seek_data_seg [of h None xs "loop_fuel h" P] by (simp add: repr_def)

lemma seek_ptr_repr:
  "repr h l xs \<Longrightarrow> seek_ptr (loop_fuel h) (Some d) h (ls_head l) = Some (map_option fst (find (\<lambda>e. snd e = d) xs))"
  using repr_fuel [of h l xs] seek_ptr_seg [of h None xs "loop_fuel h" d] by (simp add: repr_def)

lemma seek_place_repr:
  "repr h l xs \<Longrightarrow>
   seek_place (loop_fuel h) cmp x h (ls_head l) = Some (first_of (dropWhile (\<lambda>e. cmp x (snd e) > 0) xs) None)"
  using repr_fuel [of h l xs] seek_place_seg [of h None xs "loop_fuel h" cmp x] by (simp add: repr_def)

lemma repr_cell:
  "repr h l (ys @ (a, x) # zs) \<Longrightarrow> cell h a = Some \<lparr>it_data = Some x, it_n = first_of zs None, it_p = last_of None ys\<rparr>"
  by (simp add: repr_def)

lemma repr_cell_nth: "repr h l xs \<Longrightarrow> i < length xs \<Longrightarrow> map_option it_data (cell h (fst (xs ! i))) = Some (Some (snd (xs ! i)))"
  using repr_cell [of h l "take i xs" "fst (xs ! i)" "snd (xs ! i)" "drop (Suc i) xs"] by (simp add: id_take_nth_drop [symmetric])

lemma get_n_repr:
  "repr h l xs \<Longrightarrow> r_list_get_n n l h = Some (if 0 \<le> n \<and> nat n < length xs then Some (snd (xs ! nat n)) else None)"
  by (simp add: r_list_get_n_def seek_n_repr data_of_def repr_cell_nth)

section \<open>Insertion\<close>

lemma link_before_list:
  assumes "repr h l (ys @ (a, y) # zs)" "ls_head l' = first_of ys (Some (length h))" "ls_tail l' = ls_tail l"
    "ls_length l' = ls_length l + 1"
  shows "\<exists>h'. link_before (Some x) a h = Some ((length h, last_of None ys), h') \<and>
    repr h' l' (ys @ (length h, x) # (a, y) # zs) \<and> frame (addrs (ys @ (a, y) # zs)) h h'"
proof -
  from link_before_repr [OF assms(1)] obtain h' where
    h': "link_before (Some x) a h = Some ((length h, last_of None ys), h')"
    "seg h' None (ys @ (length h, x) # (a, y) # zs) None" "frame (addrs (ys @ (a, y) # zs)) h h'" by blast
  then show ?thesis using assms repr_new [OF assms(1)] by (auto simp: repr_def)
qed

lemma insert_repr:
  assumes "repr h l xs" "0 \<le> n"
  shows "\<exists>l' h'. r_list_insert n (Some x) l h = Some (Some (length h), l', h') \<and>
    repr h' l' (take (nat n) xs @ (length h, x) # drop (nat n) xs) \<and> frame (addrs xs) h h'"
proof (cases "xs = [] \<or> n = 0")
  case True
  then have "r_list_insert n (Some x) l h = r_list_prepend (Some x) l h"
    using assms(1) by (auto simp: r_list_insert_def repr_def)
  then show ?thesis using prepend_repr [OF assms(1)] True by auto
next
  case False
  then have n: "ls_head l \<noteq> None" "n \<noteq> 0" using assms(1) by (auto simp: repr_def)
  show ?thesis
  proof (cases "nat n < length xs")
    case False
    then have "r_list_insert n (Some x) l h = r_list_append (Some x) l h"
      using n by (auto simp: r_list_insert_def seek_n_repr [OF assms(1)])
    then show ?thesis using append_repr [OF assms(1)] False by simp
  next
    case True
    then obtain ys a y zs where xs: "xs = ys @ (a, y) # zs" "length ys = nat n"
      by (metis id_take_nth_drop length_take min.absorb4 surj_pair)
    let ?l = "l\<lparr>ls_length := ls_length l + 1, ls_sorted := True\<rparr>"
    have "ys \<noteq> []" using n(2) assms(2) xs(2) by auto
    then have "ls_head ?l = first_of ys (Some (length h))" using assms(1) by (simp add: repr_def xs(1))
    then obtain h' where "link_before (Some x) a h = Some ((length h, last_of None ys), h')"
      "repr h' ?l (ys @ (length h, x) # (a, y) # zs)" "frame (addrs (ys @ (a, y) # zs)) h h'"
      using link_before_list [OF assms(1) [unfolded xs(1)], of ?l x] by auto
    then show ?thesis
      using n assms(2) xs(2) by (auto simp: r_list_insert_def seek_n_repr [OF assms(1)] xs(1) simp flip: xs(2))
  qed
qed

lemma add_sorted_repr:
  assumes "repr h l xs"
  shows "\<exists>r l' h'. r_list_add_sorted (Some x) cmp l h = Some (r, l', h') \<and>
    repr h' l' (takeWhile (\<lambda>e. cmp x (snd e) > 0) xs @ (length h, x) # dropWhile (\<lambda>e. cmp x (snd e) > 0) xs) \<and>
    frame (addrs xs) h h'"
proof -
  define ys where "ys = takeWhile (\<lambda>e. cmp x (snd e) > 0) xs"
  define zs where "zs = dropWhile (\<lambda>e. cmp x (snd e) > 0) xs"
  have xs: "xs = ys @ zs" by (simp add: ys_def zs_def)
  have p: "seek_place (loop_fuel h) cmp x h (ls_head l) = Some (first_of zs None)"
    by (simp add: seek_place_repr [OF assms] zs_def)
  have "\<exists>r l' h'. r_list_add_sorted (Some x) cmp l h = Some (r, l', h') \<and>
    repr h' l' (ys @ (length h, x) # zs) \<and> frame (addrs xs) h h'"
  proof (cases zs)
    case Nil
    from append_repr [OF assms] obtain l' h' where
      "r_list_append (Some x) l h = Some (Some (length h), l', h')" "repr h' l' (xs @ [(length h, x)])"
      "frame (addrs xs) h h'" by blast
    then show ?thesis using Nil xs p by (simp add: r_list_add_sorted_def repr_def)
  next
    case (Cons e ts)
    obtain a y where e: "e = (a, y)" by force
    let ?l = "l\<lparr>ls_head := (if last_of None ys = None then Some (length h) else ls_head l),
      ls_length := ls_length l + 1, ls_sorted := True\<rparr>"
    have r: "repr h l (ys @ (a, y) # ts)" using assms xs Cons e by simp
    then have "ls_head ?l = first_of ys (Some (length h))" by (simp add: repr_def)
    then obtain h' where "link_before (Some x) a h = Some ((length h, last_of None ys), h')"
      "repr h' ?l (ys @ (length h, x) # (a, y) # ts)" "frame (addrs (ys @ (a, y) # ts)) h h'"
      using link_before_list [OF r, of ?l x] by auto
    then show ?thesis using xs Cons e p by (simp add: r_list_add_sorted_def)
  qed
  then show ?thesis by (simp add: ys_def zs_def)
qed

section \<open>Removal\<close>

lemma pop_repr:
  assumes "repr h l (ys @ [(a, x)])"
  shows "\<exists>l' h'. r_list_pop l h = Some (Some x, l', h') \<and> repr h' l' ys \<and> frame (addrs (ys @ [(a, x)])) h h'"
proof -
  obtain h1 h2 where h: "set_next (last_of None ys) None h = Some h1" "set_prev None (last_of None ys) h1 = Some h2"
    "\<And>g. g \<in> {h, h1, h2} \<Longrightarrow> cell g a = Some \<lparr>it_data = Some x, it_n = None, it_p = last_of None ys\<rparr>"
    "dispose a h2 = Some (h2[a := None])"
    "seg (h2[a := None]) None ys None" "frame (addrs (ys @ [(a, x)])) h (h2[a := None])"
    using remove_seg [OF assms] by auto
  have l: "ls_tail l = Some a" "ls_head l = ls_tail l \<longleftrightarrow> ys = []" using repr_ends [OF assms] by simp_all
  have "r_list_pop l h = Some (Some x, l\<lparr>ls_head := first_of ys None, ls_tail := last_of None ys,
      ls_length := ls_length l - 1\<rparr>, h2[a := None])"
    using h(1-4) l assms by (cases ys rule: rev_cases)
      (simp_all add: r_list_pop_def set_prev_def set_next_def repr_def)
  then show ?thesis using assms h(5,6) by (simp add: repr_def)
qed

lemma pop_head_repr:
  assumes "repr h l ((a, x) # zs)"
  shows "\<exists>l' h'. r_list_pop_head l h = Some (Some x, l', h') \<and> repr h' l' zs \<and> frame (addrs ((a, x) # zs)) h h'"
proof -
  have r: "repr h l ([] @ (a, x) # zs)" using assms by simp
  obtain h1 h2 where h: "set_next None (first_of zs None) h = Some h1" "set_prev (first_of zs None) None h1 = Some h2"
    "\<And>g. g \<in> {h, h1, h2} \<Longrightarrow> cell g a = Some \<lparr>it_data = Some x, it_n = first_of zs None, it_p = None\<rparr>"
    "dispose a h2 = Some (h2[a := None])"
    "seg (h2[a := None]) None zs None" "frame (addrs ((a, x) # zs)) h (h2[a := None])"
    using remove_seg [OF r] by auto
  have l: "ls_head l = Some a" "ls_tail l = Some a \<longleftrightarrow> zs = []" using repr_ends [OF r] by simp_all
  have "r_list_pop_head l h = Some (Some x, l\<lparr>ls_head := first_of zs None, ls_tail := last_of None zs,
      ls_length := ls_length l - 1\<rparr>, h2[a := None])"
    using h(1-4) l assms by (cases zs)
      (simp_all add: r_list_pop_head_def set_prev_def set_next_def repr_def)
  then show ?thesis using assms h(5,6) by (simp add: repr_def)
qed

lemma del_n_repr:
  assumes "repr h l xs" "0 \<le> n" "nat n < length xs"
  shows "\<exists>l' h'. r_list_del_n n l h = Some (True, l', h') \<and> repr h' l' (take (nat n) xs @ drop (Suc (nat n)) xs) \<and>
    frame (addrs xs) h h'"
proof -
  obtain ys a x zs where xs: "xs = ys @ (a, x) # zs" "length ys = nat n"
    using assms(3) by (metis id_take_nth_drop length_take min.absorb4 surj_pair)
  have r: "repr h l (ys @ (a, x) # zs)" using assms(1) xs by simp
  obtain h1 h2 where h: "set_next (last_of None ys) (first_of zs None) h = Some h1"
    "set_prev (first_of zs None) (last_of None ys) h1 = Some h2"
    "\<And>g. g \<in> {h, h1, h2} \<Longrightarrow> cell g a = Some \<lparr>it_data = Some x, it_n = first_of zs None, it_p = last_of None ys\<rparr>"
    "dispose a h2 = Some (h2[a := None])"
    "seg (h2[a := None]) None (ys @ zs) None" "frame (addrs (ys @ (a, x) # zs)) h (h2[a := None])"
    using remove_seg [OF r] by blast
  have s: "seek_n (loop_fuel h) h (ls_head l) 0 n = Some (Some a)"
    using xs assms(2) by (simp add: seek_n_repr [OF assms(1)] nth_append)
  have l: "ls_head l = first_of (ys @ (a, x) # zs) None" "ls_tail l = last_of None (ys @ (a, x) # zs)"
    using r by (simp_all only: repr_def)
  have "r_list_del_n n l h = Some (True, l\<lparr>ls_head := first_of (ys @ zs) None, ls_tail := last_of None (ys @ zs),
      ls_length := ls_length l - 1\<rparr>, h2[a := None])"
    using h(1-4) s assms(2) l
    by (cases ys rule: rev_cases; cases zs) (simp_all add: r_list_del_n_def set_prev_def set_next_def)
  then show ?thesis using h(5,6) r xs by (simp add: repr_def)
qed

lemma delete_data_repr:
  assumes "repr h l (ys @ (a, x) # zs)" "x \<notin> snd ` set ys"
  shows "\<exists>l' h'. r_list_delete_data x l h = Some (True, l', h') \<and> repr h' l' (ys @ zs) \<and>
    frame (addrs (ys @ (a, x) # zs)) h h'"
proof -
  have "find (\<lambda>e. x = snd e) ys = None" using assms(2) by (force simp: find_None_iff)
  then have "find (\<lambda>e. x = snd e) (ys @ (a, x) # zs) = Some (a, x)" by (induction ys) auto
  then show ?thesis
    using delete_repr [OF assms(1)] by (auto simp: r_list_delete_data_def seek_data_repr [OF assms(1)])
qed

lemma put_data_seg:
  assumes "seg h prv (ys @ (a, x) # zs) nxt" "distinct (map fst (ys @ (a, x) # zs))"
  obtains h' where "put a (\<lambda>c. c\<lparr>it_data := Some y\<rparr>) h = Some h'" "seg h' prv (ys @ (a, y) # zs) nxt" "frame {a} h h'"
    "length h' = length h"
proof -
  let ?c = "\<lparr>it_data = Some y, it_n = first_of zs nxt, it_p = last_of prv ys\<rparr>"
  let ?h = "h[a := Some ?c]"
  have c: "cell h a = Some \<lparr>it_data = Some x, it_n = first_of zs nxt, it_p = last_of prv ys\<rparr>" using assms(1) by simp
  have "seg ?h prv ys (Some a)" "seg ?h (Some a) zs nxt"
    using assms by (auto intro!: seg_frame [OF _ frame_upd])
  moreover have "cell ?h a = Some ?c" using cell_bound [OF c] by (simp add: cell_upd)
  ultimately show ?thesis using that [of ?h] put_eq [OF c] by (simp add: frame_upd)
qed

lemma set_n_repr:
  assumes "repr h l xs" "0 \<le> n" "nat n < length xs"
  shows "\<exists>l' h'. r_list_set_n n (Some x) l h = Some (True, l', h') \<and> repr h' l' (xs[nat n := (fst (xs ! nat n), x)]) \<and>
    frame (addrs xs) h h'"
proof -
  obtain ys a y zs where xs: "xs = ys @ (a, y) # zs" "length ys = nat n"
    using assms(3) by (metis id_take_nth_drop length_take min.absorb4 surj_pair)
  have r: "repr h l (ys @ (a, y) # zs)" using assms(1) xs by simp
  have s: "seek_n (loop_fuel h) h (ls_head l) 0 n = Some (Some a)"
    using xs assms(2) by (simp add: seek_n_repr [OF assms(1)] nth_append)
  obtain h' where h: "put a (\<lambda>c. c\<lparr>it_data := Some x\<rparr>) h = Some h'" "seg h' None (ys @ (a, x) # zs) None" "frame {a} h h'"
    using put_data_seg [of h None ys a y zs None] r unfolding repr_def by blast
  then have "repr h' (l\<lparr>ls_sorted := False\<rparr>) (ys @ (a, x) # zs)" using r by (simp add: repr_def)
  moreover have "xs[nat n := (fst (xs ! nat n), x)] = ys @ (a, x) # zs"
    by (simp add: xs(1) list_update_append nth_append flip: xs(2))
  moreover have "frame (addrs xs) h h'" using frame_mono [OF h(3)] by (simp add: xs(1))
  ultimately show ?thesis using s h(1) by (simp add: r_list_set_n_def)
qed

lemma purge_loop_repr:
  "repr h l xs \<Longrightarrow> length xs < k \<Longrightarrow> \<exists>l' h'. purge_loop k (first_of xs None) l h = Some (l', h') \<and> repr h' l' [] \<and>
     frame (addrs xs) h h' \<and> (\<forall>a\<in>addrs xs. cell h' a = None)"
proof (induction xs arbitrary: h l k)
  case Nil
  then show ?case by (auto simp: gr0_conv_Suc)
next
  case (Cons e xs)
  obtain a x where e: "e = (a, x)" by force
  obtain k' where k: "k = Suc k'" "length xs < k'" using Cons.prems(2) by (cases k) auto
  have r: "repr h l ([] @ (a, x) # xs)" using Cons.prems(1) e by simp
  from delete_repr [OF r] obtain l1 h1 where d: "r_list_delete a l h = Some (l1, h1)" "repr h1 l1 xs"
    "frame (addrs (e # xs)) h h1" "cell h1 a = None" by (auto simp: e)
  from Cons.IH [OF d(2) k(2)] obtain l2 h2 where i: "purge_loop k' (first_of xs None) l1 h1 = Some (l2, h2)"
    "repr h2 l2 []" "frame (addrs xs) h1 h2" "\<forall>b\<in>addrs xs. cell h2 b = None" by blast
  have "a < length h1" "a \<notin> addrs xs" using cell_bound [OF repr_cell [OF r]] d(3) r by (auto simp: frame_def repr_def)
  then have "cell h2 a = None" using frame_cell [OF i(3)] d(4) by simp
  moreover have "frame (addrs (e # xs)) h h2" using frame_trans [OF d(3) i(3)] by auto
  ultimately show ?case using repr_cell [OF r] d i k e by auto
qed

lemma purge_repr:
  assumes "repr h l xs"
  shows "\<exists>l' h'. r_list_purge l h = Some (l', h') \<and> repr h' l' [] \<and> frame (addrs xs) h h' \<and> (\<forall>a\<in>addrs xs. cell h' a = None)"
proof -
  have l: "ls_head l = first_of xs None" using assms by (simp add: repr_def)
  from purge_loop_repr [OF assms repr_fuel [OF assms]] obtain l' h' where
    "purge_loop (loop_fuel h) (first_of xs None) l h = Some (l', h')" "repr h' l' []" "frame (addrs xs) h h'"
    "\<forall>a\<in>addrs xs. cell h' a = None" by blast
  then show ?thesis by (auto simp: r_list_purge_def l repr_def)
qed

section \<open>Whole lists\<close>

lemma reverse_loop_seg:
  "seg h prv xs None \<Longrightarrow> distinct (map fst xs) \<Longrightarrow> length xs < k \<Longrightarrow>
   \<exists>h'. reverse_loop k (first_of xs None) h = Some h' \<and> seg h' None (rev xs) prv \<and> frame (addrs xs) h h'"
proof (induction xs arbitrary: prv h k)
  case Nil
  then show ?case by (auto simp: gr0_conv_Suc)
next
  case (Cons e xs)
  obtain k' where k: "k = Suc k'" "length xs < k'" using Cons.prems(3) by (cases k) auto
  let ?c = "\<lparr>it_data = Some (snd e), it_n = prv, it_p = first_of xs None\<rparr>"
  let ?h = "h[fst e := Some ?c]"
  have c: "cell h (fst e) = Some \<lparr>it_data = Some (snd e), it_n = first_of xs None, it_p = prv\<rparr>"
    using Cons.prems(1) by simp
  have n: "fst e \<notin> addrs xs" using Cons.prems(2) by simp
  have "seg ?h (Some (fst e)) xs None" using Cons.prems(1) n by (intro seg_frame [OF _ frame_upd]) auto
  from Cons.IH [OF this _ k(2)] Cons.prems(2) obtain h' where
    i: "reverse_loop k' (first_of xs None) ?h = Some h'" "seg h' None (rev xs) (Some (fst e))" "frame (addrs xs) ?h h'"
    by auto
  have "cell h' (fst e) = Some ?c"
    using frame_cell [OF i(3) n] cell_bound [OF c] by (simp add: cell_upd)
  moreover have "last_of None (rev xs) = first_of xs None" by (cases xs) simp_all
  moreover have "frame (addrs (e # xs)) h h'" using frame_trans [OF frame_upd i(3)] by auto
  ultimately show ?case using c i k put_eq [OF c] by simp
qed

lemma reverse_repr:
  assumes "repr h l xs"
  shows "\<exists>l' h'. r_list_reverse l h = Some (l', h') \<and> repr h' l' (rev xs) \<and> frame (addrs xs) h h'"
proof -
  obtain h' where "reverse_loop (loop_fuel h) (first_of xs None) h = Some h'" "seg h' None (rev xs) None" "frame (addrs xs) h h'"
    using reverse_loop_seg [of h None xs "loop_fuel h"] repr_fuel [OF assms] assms by (auto simp: repr_def)
  moreover have "first_of (rev xs) None = last_of None xs" by (cases xs rule: rev_cases) simp_all
  moreover have "last_of None (rev xs) = first_of xs None" by (cases xs) simp_all
  ultimately show ?thesis using assms by (auto simp: r_list_reverse_def repr_def rev_map [symmetric])
qed

lemma clone_loop_repr:
  "seg h prv ys None \<Longrightarrow> repr h l zs \<Longrightarrow> addrs ys \<inter> addrs zs = {} \<Longrightarrow> length ys < k \<Longrightarrow>
   \<exists>l' h' new. clone_loop k (first_of ys None) l h = Some (l', h') \<and> repr h' l' (zs @ new) \<and> map snd new = map snd ys \<and>
     frame (addrs zs) h h' \<and> (\<forall>a\<in>addrs new. length h \<le> a)"
proof (induction ys arbitrary: prv h l zs k)
  case Nil
  then have "clone_loop k (first_of [] None) l h = Some (l, h)" by (auto simp: gr0_conv_Suc)
  then show ?case using Nil.prems(2) by (intro exI [of _ l] exI [of _ h] exI [of _ "[]"]) simp
next
  case (Cons e ys)
  obtain k' where k: "k = Suc k'" "length ys < k'" using Cons.prems(4) by (cases k) auto
  from append_repr [OF Cons.prems(2), of "snd e"] obtain l1 h1 where
    a: "r_list_append (Some (snd e)) l h = Some (Some (length h), l1, h1)" "repr h1 l1 (zs @ [(length h, snd e)])"
      "frame (addrs zs) h h1" by blast
  have s: "seg h1 prv (e # ys) None" using Cons.prems(1,3) by (intro seg_frame [OF _ a(3)]) auto
  have "length h \<notin> addrs ys" using seg_bound [OF Cons.prems(1), of "length h"] by auto
  then have "addrs ys \<inter> addrs (zs @ [(length h, snd e)]) = {}" using Cons.prems(3) by auto
  from Cons.IH [OF _ a(2) this k(2), of "Some (fst e)"] s obtain l' h' new where
    i: "clone_loop k' (first_of ys None) l1 h1 = Some (l', h')" "repr h' l' ((zs @ [(length h, snd e)]) @ new)"
      "map snd new = map snd ys" "frame (addrs (zs @ [(length h, snd e)])) h1 h'" "\<forall>a\<in>addrs new. length h1 \<le> a" by auto
  have "length h \<le> length h1" using a(3) by (simp add: frame_def)
  then have n: "\<forall>a\<in>addrs new. length h \<le> a" using i(5) by (meson order_trans)
  have "frame (addrs zs) h h'" using frame_trans_new [OF a(3), of "{length h}" h'] i(4) by simp
  moreover have "clone_loop k (first_of (e # ys) None) l h = Some (l', h')"
    using Cons.prems(1) s a(1) i(1) k by simp
  ultimately show ?case using i(2,3) n by (intro exI [of _ l'] exI [of _ h'] exI [of _ "(length h, snd e) # new"]) simp
qed

lemma clone_repr:
  assumes "repr h l xs"
  shows "\<exists>l' h' new. r_list_clone l h = Some (l', h') \<and> repr h' l' new \<and> map snd new = map snd xs \<and>
    ls_sorted l' = ls_sorted l \<and> repr h' l xs \<and> addrs new \<inter> addrs xs = {}"
proof -
  have x: "seg h None xs None" "ls_head l = first_of xs None" using assms by (simp_all add: repr_def)
  from clone_loop_repr [OF x(1) repr_init _ repr_fuel [OF assms]] obtain l' h' new where
    "clone_loop (loop_fuel h) (first_of xs None) r_list_init h = Some (l', h')" "repr h' l' new"
    "map snd new = map snd xs" "frame {} h h'" and n: "\<forall>a\<in>addrs new. length h \<le> a" by auto
  moreover have "addrs new \<inter> addrs xs = {}" using n seg_bound [OF x(1)] by fastforce
  ultimately show ?thesis using x(2) repr_frame [OF assms, of "{}" h'] by (auto simp: r_list_clone_def repr_def)
qed

text \<open>
  Joining links the elements of the second list behind those of the first but leaves the tail where it was,
  so the result represents the concatenation only when the first list was empty.
\<close>

lemma join_link:
  assumes "seg h None xs nxt" "distinct (map fst xs)" "xs \<noteq> []" "ls_head l1 = first_of xs None" "ls_tail l1 = last_of None xs"
    "repr h l2 ys" "addrs xs \<inter> addrs ys = {}" "ys \<noteq> []"
  shows "\<exists>h'. r_list_join l1 l2 h = Some (True, l1\<lparr>ls_length := ls_length l1 + ls_length l2, ls_sorted := True\<rparr>,
      l2\<lparr>ls_head := None, ls_tail := None\<rparr>, h') \<and> seg h' None (xs @ ys) None \<and> frame (addrs xs \<union> addrs ys) h h'"
proof -
  have s: "seg h None ys None" "distinct (map fst ys)" and l: "ls_head l2 = first_of ys None" "ls_tail l2 = last_of None ys"
    using assms(6) by (simp_all only: repr_def)
  obtain h1 where h1: "set_next (last_of None xs) (first_of ys None) h = Some h1" "seg h1 None xs (first_of ys None)"
    "frame (addrs xs) h h1" using set_next_seg [OF assms(1,2)] by blast
  have "seg h1 None ys None" using s(1) assms(7) by (intro seg_frame [OF _ h1(3)]) auto
  then obtain h2 where h2: "set_prev (first_of ys None) (last_of None xs) h1 = Some h2" "seg h2 (last_of None xs) ys None"
    "frame (addrs ys) h1 h2" using set_prev_seg [OF _ s(2)] by blast
  have "seg h2 None xs (first_of ys None)" using h1(2) assms(7) by (intro seg_frame [OF _ h2(3)]) auto
  then have "seg h2 None (xs @ ys) None" using h2(2) by simp
  moreover have "frame (addrs xs \<union> addrs ys) h h2" by (rule frame_trans [OF h1(3) h2(3) order_refl])
  ultimately show ?thesis
    using h1(1) h2(1) l assms(3-5,8) by (simp add: r_list_join_def r_list_empty_def set_next_def set_prev_def)
qed

lemma join_empty:
  assumes "repr h l1 []" "repr h l2 ys" "ys \<noteq> []"
  shows "\<exists>l1' l2'. r_list_join l1 l2 h = Some (True, l1', l2', h) \<and> repr h l1' ys \<and> ls_head l2' = None \<and> ls_tail l2' = None"
  using assms by (auto simp: r_list_join_def r_list_empty_def repr_def)

text \<open>A second join overwrites the link the first one made: the elements that came with it are no longer in the chain.\<close>

lemma join_twice:
  assumes "repr h l1 xs" "repr h l2 ys" "repr h l3 zs" "xs \<noteq> []" "ys \<noteq> []" "zs \<noteq> []"
    "addrs xs \<inter> addrs ys = {}" "(addrs xs \<union> addrs ys) \<inter> addrs zs = {}"
  shows "\<exists>l e h1 l' e' h2. r_list_join l1 l2 h = Some (True, l, e, h1) \<and> seg h1 None (xs @ ys) None \<and>
    r_list_join l l3 h1 = Some (True, l', e', h2) \<and> seg h2 None (xs @ zs) None \<and> ls_head l' = first_of xs None \<and>
    ls_tail l' = last_of None xs \<and> ls_length l' = int (length xs + length ys + length zs)"
proof -
  have s: "seg h None xs None" "distinct (map fst xs)" "ls_head l1 = first_of xs None" "ls_tail l1 = last_of None xs"
    "ls_length l1 = int (length xs)" "ls_length l2 = int (length ys)" "ls_length l3 = int (length zs)"
    using assms(1-3) by (simp_all only: repr_def)
  let ?l = "l1\<lparr>ls_length := ls_length l1 + ls_length l2, ls_sorted := True\<rparr>"
  obtain h1 where h1: "r_list_join l1 l2 h = Some (True, ?l, l2\<lparr>ls_head := None, ls_tail := None\<rparr>, h1)"
    "seg h1 None (xs @ ys) None" "frame (addrs xs \<union> addrs ys) h h1"
    using join_link [OF s(1,2) assms(4) s(3,4) assms(2,7,5)] by blast
  have x: "seg h1 None xs (first_of ys None)" using h1(2) by simp
  have r: "repr h1 l3 zs" using repr_frame [OF assms(3) h1(3)] assms(8) by blast
  obtain h2 where "r_list_join ?l l3 h1 = Some (True, ?l\<lparr>ls_length := ls_length ?l + ls_length l3, ls_sorted := True\<rparr>,
      l3\<lparr>ls_head := None, ls_tail := None\<rparr>, h2)" "seg h2 None (xs @ zs) None"
    using join_link [OF x s(2) assms(4) _ _ r, of ?l] s(3,4) assms(6,8) by auto
  then show ?thesis using h1(1,2) s by simp
qed

end
