(* ===== verification/R2_List_Sort.thy ===== *)
theory R2_List_Sort
  imports R2_List_Ops "HOL-Library.Multiset"
begin

text \<open>
  Sorting a linked list. Short lists are sorted by exchanging the data of the iterators, long ones by a merge
  sort that relinks them; both are related to functions on lists of entries and shown to sort.
\<close>

section \<open>Comparators\<close>

definition ordering_cmp :: "('a \<Rightarrow> 'a \<Rightarrow> int) \<Rightarrow> bool" where
  "ordering_cmp cmp \<longleftrightarrow> (\<forall>x y. cmp x y > 0 \<longrightarrow> cmp y x \<le> 0) \<and> (\<forall>x y z. cmp x y \<le> 0 \<longrightarrow> cmp y z \<le> 0 \<longrightarrow> cmp x z \<le> 0)"

abbreviation in_order :: "('a \<Rightarrow> 'a \<Rightarrow> int) \<Rightarrow> 'a list \<Rightarrow> bool" where
  "in_order cmp \<equiv> sorted_wrt (\<lambda>x y. cmp x y \<le> 0)"

lemma ordering_total: "ordering_cmp cmp \<Longrightarrow> cmp x y > 0 \<Longrightarrow> cmp y x \<le> 0"
  by (simp add: ordering_cmp_def)

lemma ordering_trans: "ordering_cmp cmp \<Longrightarrow> cmp x y \<le> 0 \<Longrightarrow> cmp y z \<le> 0 \<Longrightarrow> cmp x z \<le> 0"
  unfolding ordering_cmp_def by blast

section \<open>Exchanging data\<close>

fun exchange :: "('a \<Rightarrow> 'a \<Rightarrow> int) \<Rightarrow> 'a \<Rightarrow> 'a list \<Rightarrow> 'a \<times> 'a list" where
  "exchange cmp x [] = (x, [])"
| "exchange cmp x (y # ys) =
     (if cmp x y > 0 then (let (m, zs) = exchange cmp y ys in (m, x # zs))
      else (let (m, zs) = exchange cmp x ys in (m, y # zs)))"

lemma exchange_length: "exchange cmp x ys = (m, zs) \<Longrightarrow> length zs = length ys"
  by (induction ys arbitrary: x m zs) (auto split: if_splits prod.splits)

function selection :: "('a \<Rightarrow> 'a \<Rightarrow> int) \<Rightarrow> 'a list \<Rightarrow> 'a list" where
  "selection cmp [] = []"
| "selection cmp (x # xs) = (case exchange cmp x xs of (m, ys) \<Rightarrow> m # selection cmp ys)"
  by pat_completeness auto
termination by (relation "measure (\<lambda>(cmp, xs). length xs)") (auto dest: exchange_length [OF sym])

lemma exchange_mset: "exchange cmp x ys = (m, zs) \<Longrightarrow> add_mset m (mset zs) = add_mset x (mset ys)"
  by (induction ys arbitrary: x m zs) (force split: if_splits prod.splits)+

lemma exchange_least:
  "ordering_cmp cmp \<Longrightarrow> exchange cmp x ys = (m, zs) \<Longrightarrow> cmp m x \<le> 0 \<and> (\<forall>z\<in>set zs. cmp m z \<le> 0)"
proof (induction ys arbitrary: x m zs)
  case Nil
  then show ?case using ordering_total [of cmp x x] by fastforce
next
  case (Cons y ys)
  show ?case
  proof (cases "cmp x y > 0")
    case True
    then obtain ts where "exchange cmp y ys = (m, ts)" "zs = x # ts" using Cons.prems(2) by (auto split: prod.splits)
    then show ?thesis
      using Cons.IH [OF Cons.prems(1)] ordering_trans [OF Cons.prems(1), of m y x] ordering_total [OF Cons.prems(1) True] by simp
  next
    case False
    then obtain ts where "exchange cmp x ys = (m, ts)" "zs = y # ts" using Cons.prems(2) by (auto split: prod.splits)
    then show ?thesis
      using Cons.IH [OF Cons.prems(1)] ordering_trans [OF Cons.prems(1), of m x y] False by simp
  qed
qed

lemma selection_mset [simp]: "mset (selection cmp xs) = mset xs"
proof (induction cmp xs rule: selection.induct)
  case (2 cmp x xs)
  obtain m ys where e: "exchange cmp x xs = (m, ys)" by force
  show ?case using 2 e exchange_mset [OF e] by simp
qed simp

lemma selection_sorted: "ordering_cmp cmp \<Longrightarrow> in_order cmp (selection cmp xs)"
proof (induction cmp xs rule: selection.induct)
  case (2 cmp x xs)
  obtain m ys where e: "exchange cmp x xs = (m, ys)" by force
  have "set (selection cmp ys) = set ys" by (metis selection_mset set_mset_mset)
  then show ?case using 2 e exchange_least [OF 2(2) e] by simp
qed simp

lemma selection_length [simp]: "length (selection cmp xs) = length xs"
  by (metis selection_mset size_mset)

lemma exchange_loop_seg:
  "seg h prv (ps @ (a, x) # ws @ zs) None \<Longrightarrow> distinct (map fst (ps @ (a, x) # ws @ zs)) \<Longrightarrow> length zs < k \<Longrightarrow>
   exchange cmp x (map snd zs) = (m, ys) \<Longrightarrow>
   \<exists>h'. exchange_loop k cmp a (first_of zs None) h = Some h' \<and> seg h' prv (ps @ (a, m) # ws @ zip (map fst zs) ys) None \<and>
     frame (addrs (ps @ (a, x) # ws @ zs)) h h' \<and> length h' = length h"
proof (induction zs arbitrary: h x ws k m ys)
  case Nil
  then show ?case by (auto simp: gr0_conv_Suc)
next
  case (Cons e zs)
  obtain b y where e: "e = (b, y)" by force
  obtain k' where k: "k = Suc k'" "length zs < k'" using Cons.prems(3) by (cases k) auto
  have c: "cell h b = Some \<lparr>it_data = Some y, it_n = first_of zs None, it_p = last_of (Some a) ws\<rparr>"
    "cell h a = Some \<lparr>it_data = Some x, it_n = first_of ws (Some b), it_p = last_of prv ps\<rparr>"
    using Cons.prems(1) e by simp_all
  show ?case
  proof (cases "cmp x y > 0")
    case True
    then obtain ts where t: "exchange cmp y (map snd zs) = (m, ts)" "ys = x # ts"
      using Cons.prems(4) e by (auto split: prod.splits)
    obtain h1 where h1: "put a (\<lambda>c. c\<lparr>it_data := Some y\<rparr>) h = Some h1"
      "seg h1 prv (ps @ (a, y) # ws @ (b, y) # zs) None" "frame {a} h h1" "length h1 = length h"
      using put_data_seg [OF Cons.prems(1,2), of y] e by metis
    have s1: "seg h1 prv ((ps @ (a, y) # ws) @ (b, y) # zs) None" "distinct (map fst ((ps @ (a, y) # ws) @ (b, y) # zs))"
      using h1(2) Cons.prems(2) e by simp_all
    obtain h2 where h2: "put b (\<lambda>c. c\<lparr>it_data := Some x\<rparr>) h1 = Some h2"
      "seg h2 prv ((ps @ (a, y) # ws) @ (b, x) # zs) None" "frame {b} h1 h2" "length h2 = length h1"
      using put_data_seg [OF s1, of x] by metis
    have s2: "seg h2 prv (ps @ (a, y) # (ws @ [(b, x)]) @ zs) None" "distinct (map fst (ps @ (a, y) # (ws @ [(b, x)]) @ zs))"
      using h2(2) s1(2) by simp_all
    from Cons.IH [OF s2 k(2) t(1)] obtain h' where h': "exchange_loop k' cmp a (first_of zs None) h2 = Some h'"
      "seg h' prv (ps @ (a, m) # (ws @ [(b, x)]) @ zip (map fst zs) ts) None"
      "frame (addrs (ps @ (a, y) # (ws @ [(b, x)]) @ zs)) h2 h'" "length h' = length h2" by blast
    have "frame (addrs (ps @ (a, x) # ws @ e # zs)) h h'"
      by (rule frame_trans [OF frame_trans [OF h1(3) h2(3) order_refl] h'(3)]) (auto simp: e)
    then show ?thesis using c True k e t(2) h1(1,4) h2(1,4) h'(1,2,4) by simp
  next
    case False
    then obtain ts where t: "exchange cmp x (map snd zs) = (m, ts)" "ys = y # ts"
      using Cons.prems(4) e by (auto split: prod.splits)
    have s: "seg h prv (ps @ (a, x) # (ws @ [(b, y)]) @ zs) None" "distinct (map fst (ps @ (a, x) # (ws @ [(b, y)]) @ zs))"
      using Cons.prems(1,2) e by simp_all
    from Cons.IH [OF s k(2) t(1)] obtain h' where h': "exchange_loop k' cmp a (first_of zs None) h = Some h'"
      "seg h' prv (ps @ (a, m) # (ws @ [(b, y)]) @ zip (map fst zs) ts) None"
      "frame (addrs (ps @ (a, x) # (ws @ [(b, y)]) @ zs)) h h'" "length h' = length h" by blast
    have "frame (addrs (ps @ (a, x) # ws @ e # zs)) h h'" by (rule frame_mono [OF h'(3)]) (auto simp: e)
    then show ?thesis using c False k e t(2) h'(1,2,4) by simp
  qed
qed

lemma exchange_zip:
  assumes "distinct (map fst (ps @ (a, x) # zs))" "exchange cmp x (map snd zs) = (m, ys)"
  shows "distinct (map fst ((ps @ [(a, m)]) @ zip (map fst zs) ys))" "map snd (zip (map fst zs) ys) = ys"
    "addrs ((ps @ [(a, m)]) @ zip (map fst zs) ys) = addrs (ps @ (a, x) # zs)"
proof -
  have l: "length ys = length zs" using exchange_length [OF assms(2)] by simp
  then have z: "map fst (zip (map fst zs) ys) = map fst zs" by simp
  show "map snd (zip (map fst zs) ys) = ys" using l by simp
  have "map fst ((ps @ [(a, m)]) @ zip (map fst zs) ys) = map fst (ps @ (a, x) # zs)" using z by simp
  then show "distinct (map fst ((ps @ [(a, m)]) @ zip (map fst zs) ys))"
    "addrs ((ps @ [(a, m)]) @ zip (map fst zs) ys) = addrs (ps @ (a, x) # zs)"
    using assms(1) by (metis, metis list.set_map)
qed

lemma selection_loop_seg:
  "seg h prv (ps @ xs) None \<Longrightarrow> distinct (map fst (ps @ xs)) \<Longrightarrow> length xs < k \<Longrightarrow> length xs \<le> length h \<Longrightarrow>
   \<exists>h'. selection_loop k cmp (first_of xs None) h = Some h' \<and>
     seg h' prv (ps @ zip (map fst xs) (selection cmp (map snd xs))) None \<and> frame (addrs (ps @ xs)) h h'"
proof (induction "length xs" arbitrary: xs ps h k)
  case 0
  then show ?case by (auto simp: gr0_conv_Suc)
next
  case (Suc n)
  then obtain a x zs where xs: "xs = (a, x) # zs" "length zs = n" by (cases xs) auto
  obtain k' where k: "k = Suc k'" "n < k'" using Suc.prems(3) Suc.hyps(2) by (cases k) auto
  obtain m ys where e: "exchange cmp x (map snd zs) = (m, ys)" by force
  have s: "seg h prv (ps @ (a, x) # [] @ zs) None" "distinct (map fst (ps @ (a, x) # [] @ zs))"
    "length zs < loop_fuel h" using Suc.prems xs by (simp_all add: loop_fuel_def)
  from exchange_loop_seg [OF s e] obtain h1 where
    h1: "exchange_loop (loop_fuel h) cmp a (first_of zs None) h = Some h1"
      "seg h1 prv (ps @ (a, m) # [] @ zip (map fst zs) ys) None" "frame (addrs (ps @ (a, x) # [] @ zs)) h h1"
      "length h1 = length h" by blast
  let ?zs = "zip (map fst zs) ys"
  have d: "distinct (map fst (ps @ (a, x) # zs))" using s(2) by simp
  note z = exchange_zip [OF d e]
  have l: "n = length ?zs" "length ?zs < k'" "length ?zs \<le> length h1"
    using exchange_length [OF e] xs(2) k(2) h1(4) Suc.prems(4) xs by simp_all
  have "seg h1 prv ((ps @ [(a, m)]) @ ?zs) None" using h1(2) by simp
  from Suc.hyps(1) [OF l(1) this z(1) l(2,3)] obtain h2 where
    h2: "selection_loop k' cmp (first_of ?zs None) h1 = Some h2"
      "seg h2 prv ((ps @ [(a, m)]) @ zip (map fst ?zs) (selection cmp (map snd ?zs))) None"
      "frame (addrs ((ps @ [(a, m)]) @ ?zs)) h1 h2" by blast
  have f: "frame (addrs (ps @ xs)) h h2"
    using h1(3) h2(3) z(3) xs(1) by (intro frame_trans [OF h1(3) h2(3)]) simp
  have "map fst ?zs = map fst zs" using exchange_length [OF e] by simp
  moreover then have "first_of ?zs None = first_of zs None" by (cases ?zs; cases zs) auto
  ultimately show ?case using f h1(1) h2(1,2) s(1) z(2) e xs(1) k(1) by simp
qed

lemma insertion_sort_repr:
  assumes "repr h l xs" "\<not> ls_sorted l"
  shows "\<exists>l' h'. r_list_insertion_sort cmp l h = Some (l', h') \<and> repr h' l' (zip (map fst xs) (selection cmp (map snd xs))) \<and>
    frame (addrs xs) h h' \<and> ls_sorted l'"
proof -
  have r: "seg h None ([] @ xs) None" "distinct (map fst ([] @ xs))" "ls_head l = first_of xs None"
    "ls_tail l = last_of None xs" "ls_length l = int (length xs)" using assms(1) by (simp_all only: repr_def append_Nil)
  have f: "length xs < loop_fuel h" "length xs \<le> length h" using repr_fuel [OF assms(1)] by (simp_all add: loop_fuel_def)
  let ?zs = "zip (map fst xs) (selection cmp (map snd xs))"
  from selection_loop_seg [OF r(1,2) f] obtain h' where
    h': "selection_loop (loop_fuel h) cmp (first_of xs None) h = Some h'" "seg h' None ?zs None" "frame (addrs xs) h h'"
    by auto
  have m: "map fst ?zs = map fst xs" by simp
  moreover then have "first_of ?zs None = first_of xs None" by (cases ?zs; cases xs) auto
  moreover from m have "last_of None ?zs = last_of None xs" by (metis last_map last_of_def map_is_Nil_conv)
  ultimately have "repr h' (l\<lparr>ls_sorted := True\<rparr>) ?zs" using r h'(2) by (simp add: repr_def)
  then show ?thesis using assms(2) h' r(3) by (simp add: r_list_insertion_sort_def)
qed

end
