(* ===== verification/R2_List_Merge.thy ===== *)
theory R2_List_Merge
  imports R2_List_Sort
begin

text \<open>
  The merge sort for long lists. Between its steps the backward link of the first iterator of a chain is
  left over from the list it was cut from; the chains are therefore described up to that link.
\<close>

section \<open>Merging entries\<close>

fun merge_entries :: "('a \<Rightarrow> 'a \<Rightarrow> int) \<Rightarrow> (nat \<times> 'a) list \<Rightarrow> (nat \<times> 'a) list \<Rightarrow> (nat \<times> 'a) list" where
  "merge_entries cmp [] ys = ys"
| "merge_entries cmp xs [] = xs"
| "merge_entries cmp (x # xs) (y # ys) =
     (if cmp (snd x) (snd y) > 0 then y # merge_entries cmp (x # xs) ys else x # merge_entries cmp xs (y # ys))"

lemma merge_mset [simp]: "mset (merge_entries cmp xs ys) = mset xs + mset ys"
  by (induction cmp xs ys rule: merge_entries.induct) auto

lemma merge_set [simp]: "set (merge_entries cmp xs ys) = set xs \<union> set ys"
  by (metis merge_mset set_mset_mset set_mset_union)

lemma merge_distinct [simp]: "distinct (map fst (merge_entries cmp xs ys)) \<longleftrightarrow> distinct (map fst (xs @ ys))"
proof (rule mset_eq_imp_distinct_iff)
  show "mset (map fst (merge_entries cmp xs ys)) = mset (map fst (xs @ ys))" by (simp flip: mset_map del: mset_map) (simp add: image_mset_union)
qed

lemma merge_nonempty: "xs \<noteq> [] \<or> ys \<noteq> [] \<Longrightarrow> merge_entries cmp xs ys \<noteq> []"
  by (metis Un_empty merge_set set_empty)

abbreviation entries_in_order :: "('a \<Rightarrow> 'a \<Rightarrow> int) \<Rightarrow> (nat \<times> 'a) list \<Rightarrow> bool" where
  "entries_in_order cmp \<equiv> sorted_wrt (\<lambda>x y. cmp (snd x) (snd y) \<le> 0)"

lemma merge_sorted:
  "ordering_cmp cmp \<Longrightarrow> entries_in_order cmp xs \<Longrightarrow> entries_in_order cmp ys \<Longrightarrow> entries_in_order cmp (merge_entries cmp xs ys)"
proof (induction cmp xs ys rule: merge_entries.induct)
  case (3 cmp x xs y ys)
  show ?case
  proof (cases "cmp (snd x) (snd y) > 0")
    case True
    then have "cmp (snd y) (snd x) \<le> 0" by (rule ordering_total [OF 3(3)])
    then have "cmp (snd y) (snd z) \<le> 0" if "z \<in> set (x # xs)" for z
      using 3(4) ordering_trans [OF 3(3), of "snd y" "snd x" "snd z"] that by auto
    then show ?thesis using 3 True by auto
  next
    case False
    then have "cmp (snd x) (snd z) \<le> 0" if "z \<in> set (y # ys)" for z
      using 3(5) ordering_trans [OF 3(3), of "snd x" "snd y" "snd z"] that by auto
    then show ?thesis using 3 False by auto
  qed
qed auto

text \<open>Stability: entries that compare equal to \<open>v\<close> keep their order.\<close>

abbreviation equals :: "('a \<Rightarrow> 'a \<Rightarrow> int) \<Rightarrow> 'a \<Rightarrow> nat \<times> 'a \<Rightarrow> bool" where
  "equals cmp v \<equiv> (\<lambda>e. cmp (snd e) v \<le> 0 \<and> cmp v (snd e) \<le> 0)"

lemma merge_stable:
  "ordering_cmp cmp \<Longrightarrow> entries_in_order cmp xs \<Longrightarrow> filter (equals cmp v) (merge_entries cmp xs ys) =
   filter (equals cmp v) xs @ filter (equals cmp v) ys"
proof (induction cmp xs ys rule: merge_entries.induct)
  case (3 cmp x xs y ys)
  show ?case
  proof (cases "cmp (snd x) (snd y) > 0 \<and> equals cmp v y")
    case True
    have "\<not> equals cmp v z" if "z \<in> set (x # xs)" for z
    proof
      assume "equals cmp v z"
      then have "cmp (snd z) (snd y) \<le> 0" using True ordering_trans [OF 3(3)] by blast
      moreover have "cmp (snd x) (snd z) \<le> 0" using that 3(4) ordering_total [OF 3(3), of "snd x" "snd x"] by fastforce
      ultimately show False using True ordering_trans [OF 3(3)] by fastforce
    qed
    then have "filter (equals cmp v) (x # xs) = []" by (simp only: filter_empty_conv) blast
    then show ?thesis using 3 True by (simp del: filter.simps add: filter.simps(2) [of _ y])
  next
    case False
    then show ?thesis using 3 by auto
  qed
qed auto

section \<open>Merging chains\<close>

text \<open>The iterator \<open>e\<close> in front of the chain the recursive call made.\<close>

lemma link_front:
  assumes "frame (addrs zs) h h0" "length h0 = length h" "seg h0 r zs None" "distinct (map fst zs)" "zs \<noteq> []"
    "fst e \<notin> addrs zs" "cell h (fst e) = Some c" "it_data c = Some (snd e)"
  obtains h' where "do {
      q \<leftarrow> first_of zs None;
      h \<leftarrow> put (fst e) (\<lambda>c. c\<lparr>it_n := first_of zs None\<rparr>) h0;
      h \<leftarrow> put q (\<lambda>c. c\<lparr>it_p := Some (fst e)\<rparr>) h;
      h \<leftarrow> put (fst e) (\<lambda>c. c\<lparr>it_p := None\<rparr>) h;
      Some (Some (fst e), h) } = Some (Some (fst e), h')"
    "seg h' None (e # zs) None" "frame (insert (fst e) (addrs zs)) h h'" "length h' = length h"
proof -
  let ?b = "fst e"
  have c0: "cell h0 ?b = Some c" using frame_cell [OF assms(1,6)] cell_bound [OF assms(7)] assms(7) by simp
  let ?h1 = "h0[?b := Some (c\<lparr>it_n := first_of zs None\<rparr>)]"
  have "seg ?h1 r zs None" using assms(3,6) by (intro seg_frame [OF _ frame_upd]) auto
  from set_prev_seg [OF this assms(4), of "Some ?b"] obtain h2 where
    h2: "set_prev (first_of zs None) (Some ?b) ?h1 = Some h2" "seg h2 (Some ?b) zs None" "frame (addrs zs) ?h1 h2"
      "length h2 = length ?h1" by blast
  have c2: "cell h2 ?b = Some (c\<lparr>it_n := first_of zs None\<rparr>)"
    using frame_cell [OF h2(3) assms(6)] cell_bound [OF c0] by (simp add: cell_upd)
  let ?c = "c\<lparr>it_n := first_of zs None, it_p := None\<rparr>"
  let ?h3 = "h2[?b := Some ?c]"
  have "seg ?h3 (Some ?b) zs None" using h2(2) assms(6) by (intro seg_frame [OF _ frame_upd]) auto
  moreover have "cell ?h3 ?b = Some ?c" using cell_bound [OF c2] by (simp add: cell_upd)
  moreover have "?c = \<lparr>it_data = Some (snd e), it_n = first_of zs None, it_p = None\<rparr>" using assms(8) by (cases c) simp
  moreover have "frame (insert ?b (addrs zs)) h0 ?h3"
    by (rule frame_trans [OF frame_trans [OF frame_upd h2(3) order_refl] frame_upd]) auto
  then have "frame (insert ?b (addrs zs)) h ?h3" by (rule frame_trans [OF assms(1)]) auto
  ultimately show ?thesis
    using that [of ?h3] h2(1,4) put_eq [OF c0] put_eq [OF c2] assms(2,5) by (simp add: set_prev_def)
qed

lemma merge_iters_seg:
  "seg h p xs None \<Longrightarrow> seg h q ys None \<Longrightarrow> distinct (map fst (xs @ ys)) \<Longrightarrow> length xs + length ys < k \<Longrightarrow>
   \<exists>r h'. merge_iters k cmp (first_of xs None) (first_of ys None) h = Some (first_of (merge_entries cmp xs ys) None, h') \<and>
     seg h' r (merge_entries cmp xs ys) None \<and> (xs \<noteq> [] \<longrightarrow> ys \<noteq> [] \<longrightarrow> r = None) \<and>
     frame (addrs (xs @ ys)) h h' \<and> length h' = length h"
proof (induction cmp xs ys arbitrary: h p q k rule: merge_entries.induct)
  case (1 cmp ys)
  then show ?case by (auto simp: gr0_conv_Suc elim!: less_natE)
next
  case (2 cmp x xs)
  then show ?case by (auto elim!: less_natE)
next
  case (3 cmp x xs y ys)
  obtain k' where k: "k = Suc k'" "Suc (length xs + length ys) < k'" using 3(6) by (cases k) auto
  have c: "cell h (fst x) = Some \<lparr>it_data = Some (snd x), it_n = first_of xs None, it_p = p\<rparr>"
    "cell h (fst y) = Some \<lparr>it_data = Some (snd y), it_n = first_of ys None, it_p = q\<rparr>"
    using 3(3,4) by simp_all
  show ?case
  proof (cases "cmp (snd x) (snd y) > 0")
    case True
    let ?zs = "merge_entries cmp (x # xs) ys"
    obtain r h1 where i: "merge_iters k' cmp (Some (fst x)) (first_of ys None) h = Some (first_of ?zs None, h1)"
      "seg h1 r ?zs None" "frame (addrs ?zs) h h1" "length h1 = length h"
      using 3(1) [OF True 3(3), of "Some (fst y)" k'] 3(4,5) k by (auto simp: image_Un)
    have n: "?zs \<noteq> []" "fst y \<notin> addrs ?zs" "distinct (map fst ?zs)" using merge_nonempty 3(5) by auto
    obtain h' where "do {
        q \<leftarrow> first_of ?zs None;
        h \<leftarrow> put (fst y) (\<lambda>c. c\<lparr>it_n := first_of ?zs None\<rparr>) h1;
        h \<leftarrow> put q (\<lambda>c. c\<lparr>it_p := Some (fst y)\<rparr>) h;
        h \<leftarrow> put (fst y) (\<lambda>c. c\<lparr>it_p := None\<rparr>) h;
        Some (Some (fst y), h) } = Some (Some (fst y), h')"
      "seg h' None (y # ?zs) None" "frame (insert (fst y) (addrs ?zs)) h h'" "length h' = length h"
      using link_front [OF i(3,4,2) n(3,1,2) c(2)] by auto
    then show ?thesis using c True k(1) i(1) n(1) by (auto simp: image_Un insert_commute)
  next
    case False
    let ?zs = "merge_entries cmp xs (y # ys)"
    obtain r h1 where i: "merge_iters k' cmp (first_of xs None) (Some (fst y)) h = Some (first_of ?zs None, h1)"
      "seg h1 r ?zs None" "frame (addrs ?zs) h h1" "length h1 = length h"
      using 3(2) [OF False _ 3(4), of "Some (fst x)" k'] 3(3,5) k by (auto simp: image_Un)
    have n: "?zs \<noteq> []" "fst x \<notin> addrs ?zs" "distinct (map fst ?zs)" using merge_nonempty 3(5) by auto
    obtain h' where "do {
        q \<leftarrow> first_of ?zs None;
        h \<leftarrow> put (fst x) (\<lambda>c. c\<lparr>it_n := first_of ?zs None\<rparr>) h1;
        h \<leftarrow> put q (\<lambda>c. c\<lparr>it_p := Some (fst x)\<rparr>) h;
        h \<leftarrow> put (fst x) (\<lambda>c. c\<lparr>it_p := None\<rparr>) h;
        Some (Some (fst x), h) } = Some (Some (fst x), h')"
      "seg h' None (x # ?zs) None" "frame (insert (fst x) (addrs ?zs)) h h'" "length h' = length h"
      using link_front [OF i(3,4,2) n(3,1,2) c(1)] by auto
    then show ?thesis using c False k(1) i(1) n(1) by (auto simp: image_Un insert_commute)
  qed
qed

section \<open>Halving\<close>

lemma seg_nth:
  "seg h p xs nxt \<Longrightarrow> i < length xs \<Longrightarrow>
   cell h (fst (xs ! i)) = Some \<lparr>it_data = Some (snd (xs ! i)), it_n = first_of (drop (Suc i) xs) nxt, it_p = last_of p (take i xs)\<rparr>"
proof -
  assume a: "seg h p xs nxt" "i < length xs"
  then have "seg h p (take i xs @ xs ! i # drop (Suc i) xs) nxt" by (simp add: id_take_nth_drop [symmetric])
  then show ?thesis by simp
qed

lemma first_of_drop: "first_of (drop i xs) None = (if i < length xs then Some (fst (xs ! i)) else None)"
  by (cases "i < length xs") (simp_all add: Cons_nth_drop_Suc [symmetric])

lemma first_of_take: "0 < i \<Longrightarrow> first_of (take i xs) e = first_of xs e"
  by (cases xs; cases i) simp_all

lemma half_loop_seg:
  "seg h p xs None \<Longrightarrow> 2 * i < length xs \<Longrightarrow> length xs < k + 2 * i + 1 \<Longrightarrow>
   half_loop k (fst (xs ! (2 * i))) (fst (xs ! i)) h = Some (fst (xs ! ((length xs - 1) div 2)))"
proof (induction k arbitrary: i)
  case (Suc k)
  note c = seg_nth [OF Suc.prems(1)]
  show ?case
  proof (cases "2 * i + 2 < length xs")
    case True
    have "half_loop k (fst (xs ! (2 * Suc i))) (fst (xs ! Suc i)) h = Some (fst (xs ! ((length xs - 1) div 2)))"
      using True Suc.prems by (intro Suc.IH) simp_all
    then show ?thesis using True c [of i] c [of "2 * i"] c [of "2 * i + 1"] by (simp add: first_of_drop)
  next
    case False
    then have "i = (length xs - 1) div 2" using Suc.prems(2) by linarith
    then show ?thesis using False Suc.prems(2) c [of "2 * i"] c [of "2 * i + 1"]
      by (cases "2 * i + 1 < length xs") (simp_all add: first_of_drop)
  qed
qed simp

lemma half_split_seg:
  assumes "seg h p xs None" "distinct (map fst xs)" "2 \<le> length xs" "length xs < loop_fuel h" "m = Suc ((length xs - 1) div 2)"
  obtains h' where "r_list_half_split (first_of xs None) h = Some (first_of (drop m xs) None, h')"
    "seg h' p (take m xs) None" "seg h' (last_of p (take m xs)) (drop m xs) None" "frame (addrs xs) h h'" "length h' = length h"
proof -
  let ?s = "fst (xs ! (m - 1))"
  have l: "m < length xs" "m - 1 < length xs" "xs \<noteq> []" using assms(3,5) by auto
  have "half_loop (loop_fuel h) (fst (xs ! 0)) (fst (xs ! 0)) h = Some ?s"
    using half_loop_seg [OF assms(1), of 0 "loop_fuel h"] assms(4,5) l(3) by simp
  moreover have f: "first_of xs None = Some (fst (xs ! 0))" using first_of_drop [of 0 xs] l(3) by simp
  moreover have "cell h ?s = Some \<lparr>it_data = Some (snd (xs ! (m - 1))), it_n = first_of (drop m xs) None, it_p = last_of p (take (m - 1) xs)\<rparr>"
    using seg_nth [OF assms(1) l(2)] assms(5) by simp
  moreover have "cell h (fst (xs ! 0)) = Some \<lparr>it_data = Some (snd (xs ! 0)), it_n = Some (fst (xs ! 1)), it_p = p\<rparr>"
    using seg_nth [OF assms(1), of 0] first_of_drop [of 1 xs] assms(3) l(3) by simp
  moreover have s: "seg h p (take m xs) (first_of (drop m xs) None)" "seg h (last_of p (take m xs)) (drop m xs) None"
    using assms(1) seg_append [of h p "take m xs" "drop m xs" None] by simp_all
  moreover obtain h' where h': "set_next (last_of None (take m xs)) None h = Some h'" "seg h' p (take m xs) None"
    "frame (addrs (take m xs)) h h'" "length h' = length h"
    using set_next_seg [OF s(1), of None] assms(2) by (metis distinct_take take_map)
  moreover have "last_of None (take m xs) = Some ?s"
    using l assms(5) by (simp add: last_of_def last_conv_nth)
  ultimately have "r_list_half_split (first_of xs None) h = Some (first_of (drop m xs) None, h')"
    by (simp add: r_list_half_split_def set_next_def)
  moreover have "addrs (take m xs) \<inter> addrs (drop m xs) = {}"
    using assms(2) by (metis append_take_drop_id distinct_append list.set_map map_append)
  then have "seg h' (last_of p (take m xs)) (drop m xs) None" using s(2) by (intro seg_frame [OF _ h'(3)]) auto
  moreover have "frame (addrs xs) h h'" by (rule frame_mono [OF h'(3)]) (auto dest: in_set_takeD)
  ultimately show ?thesis using that h'(2,4) by blast
qed

section \<open>The sort\<close>

function msort :: "('a \<Rightarrow> 'a \<Rightarrow> int) \<Rightarrow> (nat \<times> 'a) list \<Rightarrow> (nat \<times> 'a) list" where
  "msort cmp xs =
     (if length xs < 2 then xs
      else (let m = Suc ((length xs - 1) div 2) in merge_entries cmp (msort cmp (take m xs)) (msort cmp (drop m xs))))"
  by pat_completeness auto
termination by (relation "measure (\<lambda>(cmp, xs). length xs)") auto

declare msort.simps [simp del]

lemma msort_short: "length xs < 2 \<Longrightarrow> msort cmp xs = xs"
  by (simp add: msort.simps)

lemma msort_long: "2 \<le> length xs \<Longrightarrow> m = Suc ((length xs - 1) div 2) \<Longrightarrow>
  msort cmp xs = merge_entries cmp (msort cmp (take m xs)) (msort cmp (drop m xs))"
  by (subst msort.simps) (simp add: Let_def)

lemma msort_mset [simp]: "mset (msort cmp xs) = mset xs"
proof (induction cmp xs rule: msort.induct)
  case (1 cmp xs)
  show ?case
  proof (cases "length xs < 2")
    case False
    then show ?thesis using 1 by (simp add: msort_long flip: mset_append)
  qed (simp add: msort_short)
qed

lemma msort_set [simp]: "set (msort cmp xs) = set xs"
  by (metis msort_mset set_mset_mset)

lemma msort_length [simp]: "length (msort cmp xs) = length xs"
  by (metis msort_mset size_mset)

lemma msort_empty [simp]: "msort cmp xs = [] \<longleftrightarrow> xs = []"
  by (metis msort_set set_empty)

lemma msort_distinct [simp]: "distinct (map fst (msort cmp xs)) \<longleftrightarrow> distinct (map fst xs)"
  by (metis msort_mset mset_eq_imp_distinct_iff mset_map)

lemma msort_sorted_stable:
  "ordering_cmp cmp \<Longrightarrow> entries_in_order cmp (msort cmp xs) \<and> filter (equals cmp v) (msort cmp xs) = filter (equals cmp v) xs"
proof (induction cmp xs rule: msort.induct)
  case (1 cmp xs)
  show ?case
  proof (cases "length xs < 2")
    case True
    then show ?thesis by (cases xs) (simp_all add: msort_short)
  next
    case False
    define m where "m = Suc ((length xs - 1) div 2)"
    have i: "entries_in_order cmp (msort cmp (take m xs))" "entries_in_order cmp (msort cmp (drop m xs))"
      "filter (equals cmp v) (msort cmp (take m xs)) = filter (equals cmp v) (take m xs)"
      "filter (equals cmp v) (msort cmp (drop m xs)) = filter (equals cmp v) (drop m xs)"
      using 1 False by (simp_all add: m_def)
    have "msort cmp xs = merge_entries cmp (msort cmp (take m xs)) (msort cmp (drop m xs))"
      using False m_def by (intro msort_long) simp_all
    moreover have "filter (equals cmp v) (take m xs) @ filter (equals cmp v) (drop m xs) = filter (equals cmp v) xs"
      by (simp flip: filter_append)
    ultimately show ?thesis
      using merge_sorted [OF 1(3) i(1,2)] merge_stable [OF 1(3) i(1), of v "msort cmp (drop m xs)"] i(3,4) by simp
  qed
qed

lemma merge_sort_iters_seg:
  "seg h p xs None \<Longrightarrow> distinct (map fst xs) \<Longrightarrow> length xs < loop_fuel h \<Longrightarrow> length xs \<le> k \<Longrightarrow> 0 < k \<Longrightarrow>
   \<exists>r h'. merge_sort_iters k cmp (first_of xs None) h = Some (first_of (msort cmp xs) None, h') \<and>
     seg h' r (msort cmp xs) None \<and> (2 \<le> length xs \<longrightarrow> r = None) \<and> (length xs < 2 \<longrightarrow> r = p) \<and>
     frame (addrs xs) h h' \<and> length h' = length h"
proof (induction k arbitrary: h p xs)
  case (Suc k)
  show ?case
  proof (cases "length xs < 2")
    case True
    then have "merge_sort_iters (Suc k) cmp (first_of xs None) h = Some (first_of xs None, h)"
      using Suc.prems(1) by (cases xs) auto
    then show ?thesis using True Suc.prems(1) by (auto simp: msort_short)
  next
    case False
    define m where "m = Suc ((length xs - 1) div 2)"
    let ?us = "take m xs" and ?vs = "drop m xs"
    have m: "0 < m" "m < length xs" "m \<le> k" "0 < k" using False Suc.prems(4) by (simp_all add: m_def)
    obtain h1 where h1: "r_list_half_split (first_of xs None) h = Some (first_of ?vs None, h1)" "seg h1 p ?us None"
      "seg h1 (last_of p ?us) ?vs None" "frame (addrs xs) h h1" "length h1 = length h"
      using half_split_seg [OF Suc.prems(1,2) _ Suc.prems(3) m_def] False by auto
    have d: "distinct (map fst (?us @ ?vs))" "distinct (map fst ?us)" "distinct (map fst ?vs)"
      "addrs ?us \<inter> addrs ?vs = {}" "addrs ?us \<union> addrs ?vs = addrs xs"
      using Suc.prems(2) by (simp, simp_all add: take_map [symmetric] drop_map [symmetric])
        (metis append_take_drop_id distinct_append list.set_map map_append,
         metis append_take_drop_id image_Un set_append)
    have l: "length ?us < loop_fuel h1" "length ?us \<le> k" "length ?vs < loop_fuel h1" "length ?vs \<le> k"
      using m Suc.prems(3,4) h1(5) by (simp_all add: loop_fuel_def)
    obtain r2 h2 where h2: "merge_sort_iters k cmp (first_of ?us None) h1 = Some (first_of (msort cmp ?us) None, h2)"
      "seg h2 r2 (msort cmp ?us) None" "frame (addrs ?us) h1 h2" "length h2 = length h1"
      using Suc.IH [OF h1(2) d(2) l(1,2) m(4)] by blast
    have s2: "seg h2 (last_of p ?us) ?vs None" using h1(3) d(4) by (intro seg_frame [OF _ h2(3)]) auto
    obtain r3 h3 where h3: "merge_sort_iters k cmp (first_of ?vs None) h2 = Some (first_of (msort cmp ?vs) None, h3)"
      "seg h3 r3 (msort cmp ?vs) None" "frame (addrs ?vs) h2 h3" "length h3 = length h2"
      using Suc.IH [OF s2 d(3) _ l(4) m(4)] l(3) h2(4) by (auto simp: loop_fuel_def)
    have s3: "seg h3 r2 (msort cmp ?us) None" using h2(2) d(4) by (intro seg_frame [OF _ h3(3)]) auto
    have d3: "distinct (map fst (msort cmp ?us @ msort cmp ?vs))" using d by simp
    have "length (msort cmp ?us) + length (msort cmp ?vs) < loop_fuel h3"
      using Suc.prems(3) h1(5) h2(4) h3(4) m(2) by (simp add: loop_fuel_def)
    from merge_iters_seg [OF s3 h3(2) d3 this, of cmp] obtain r4 h4 where
      h4: "merge_iters (loop_fuel h3) cmp (first_of (msort cmp ?us) None) (first_of (msort cmp ?vs) None) h3 =
        Some (first_of (merge_entries cmp (msort cmp ?us) (msort cmp ?vs)) None, h4)"
      "seg h4 r4 (merge_entries cmp (msort cmp ?us) (msort cmp ?vs)) None"
      "msort cmp ?us \<noteq> [] \<Longrightarrow> msort cmp ?vs \<noteq> [] \<Longrightarrow> r4 = None"
      "frame (addrs (msort cmp ?us @ msort cmp ?vs)) h3 h4" "length h4 = length h3" by blast
    have "msort cmp ?us \<noteq> []" "msort cmp ?vs \<noteq> []" using m by auto
    then have r4: "r4 = None" by (rule h4(3))
    have e: "msort cmp xs = merge_entries cmp (msort cmp ?us) (msort cmp ?vs)"
      using False m_def by (intro msort_long) simp_all
    have "frame (addrs xs) h h4"
      by (rule frame_trans [OF h1(4) frame_trans [OF frame_trans [OF h2(3) h3(3) order_refl] h4(4) order_refl]])
        (use d(5) in auto)
    moreover have "first_of xs None = Some (fst (xs ! 0))" "first_of ?us None = first_of xs None"
      using first_of_drop [of 0 xs] m by (auto simp: first_of_take)
    moreover have "cell h (fst (xs ! 0)) = Some \<lparr>it_data = Some (snd (xs ! 0)), it_n = Some (fst (xs ! 1)), it_p = p\<rparr>"
      using seg_nth [OF Suc.prems(1), of 0] first_of_drop [of 1 xs] False by (cases xs) auto
    ultimately show ?thesis
      using False h1(1,5) h2(1,4) h3(1,4) h4(1,2,5) r4 e by auto
  qed
qed simp

lemma last_iter_seg: "seg h p xs None \<Longrightarrow> xs \<noteq> [] \<Longrightarrow> length xs \<le> k \<Longrightarrow> last_iter k (fst (hd xs)) h = Some (fst (last xs))"
proof (induction xs arbitrary: p k)
  case (Cons e xs)
  then obtain k' where k: "k = Suc k'" "length xs \<le> k'" by (cases k) auto
  show ?case
  proof (cases xs)
    case Nil
    then show ?thesis using Cons.prems(1) k by simp
  next
    case (Cons f ys)
    then show ?thesis using Cons.IH [of "Some (fst e)" k'] Cons.prems(1) k by simp
  qed
qed simp

lemma merge_sort_repr:
  assumes "repr h l xs" "\<not> ls_sorted l"
  shows "\<exists>l' h'. r_list_merge_sort cmp l h = Some (l', h') \<and> repr h' l' (msort cmp xs) \<and> frame (addrs xs) h h' \<and> ls_sorted l'"
proof (cases "xs = []")
  case True
  then show ?thesis using assms by (auto simp: r_list_merge_sort_def repr_def msort_short)
next
  case False
  have s: "seg h None xs None" "distinct (map fst xs)" "ls_head l = first_of xs None" "ls_length l = int (length xs)"
    using assms(1) by (simp_all only: repr_def)
  have f: "length xs < loop_fuel h" "length xs \<le> loop_fuel h" "0 < loop_fuel h"
    using repr_fuel [OF assms(1)] by (simp_all add: loop_fuel_def)
  obtain r h' where h': "merge_sort_iters (loop_fuel h) cmp (first_of xs None) h = Some (first_of (msort cmp xs) None, h')"
    "seg h' r (msort cmp xs) None" "2 \<le> length xs \<longrightarrow> r = None" "length xs < 2 \<longrightarrow> r = None"
    "frame (addrs xs) h h'" "length h' = length h"
    using merge_sort_iters_seg [OF s(1,2) f, of cmp] by blast
  have r: "r = None" using h'(3,4) by linarith
  have n: "msort cmp xs \<noteq> []" using False by simp
  have "last_iter (loop_fuel h') (fst (hd (msort cmp xs))) h' = Some (fst (last (msort cmp xs)))"
    using f(2) h'(6) by (intro last_iter_seg [OF h'(2) n]) (simp add: loop_fuel_def)
  then have "r_list_merge_sort cmp l h = Some (l\<lparr>ls_head := first_of (msort cmp xs) None,
      ls_tail := last_of None (msort cmp xs), ls_sorted := True\<rparr>, h')"
    using assms(2) False s(3) h'(1) n by (simp add: r_list_merge_sort_def)
  then show ?thesis using s(2,4) h'(2,5) r by (simp add: repr_def)
qed

end
