(* ===== verification/R2_Store.thy ===== *)
theory R2_Store
  imports R2_Prelude
begin

text \<open>
  The interface of a container that elements are added to and taken from one at a time. The linked list, the
  ring queue and the stack provide it.
\<close>

fun add_all :: "('a \<Rightarrow> 's \<Rightarrow> 's option) \<Rightarrow> 'a list \<Rightarrow> 's \<Rightarrow> 's option" where
  "add_all add [] s = Some s"
| "add_all add (x # xs) s = do { s \<leftarrow> add x s; add_all add xs s }"

fun take_many :: "('s \<Rightarrow> ('a option \<times> 's) option) \<Rightarrow> nat \<Rightarrow> 's \<Rightarrow> ('a list \<times> 's) option" where
  "take_many take1 0 s = Some ([], s)"
| "take_many take1 (Suc n) s = do {
     (r, s) \<leftarrow> take1 s;
     x \<leftarrow> r;
     (xs, s) \<leftarrow> take_many take1 n s;
     Some (x # xs, s) }"

text \<open>
  A store gives its elements back in the order in which \<open>place\<close> arranges them, as long as it does not hold more
  than \<open>room\<close> of them.
\<close>

locale element_store =
  fixes holds :: "'s \<Rightarrow> 'a list \<Rightarrow> bool"
    and add :: "'a \<Rightarrow> 's \<Rightarrow> 's option"
    and take1 :: "'s \<Rightarrow> ('a option \<times> 's) option"
    and place :: "'a \<Rightarrow> 'a list \<Rightarrow> 'a list"
    and room :: nat
  assumes add_law: "holds s xs \<Longrightarrow> length xs < room \<Longrightarrow> \<exists>s'. add x s = Some s' \<and> holds s' (place x xs)"
    and take_law: "holds s (x # xs) \<Longrightarrow> \<exists>s'. take1 s = Some (Some x, s') \<and> holds s' xs"
    and place_length: "length (place x xs) = Suc (length xs)"
begin

lemma add_all_holds:
  "holds s ys \<Longrightarrow> length xs + length ys \<le> room \<Longrightarrow> \<exists>s'. add_all add xs s = Some s' \<and> holds s' (fold place xs ys)"
proof (induction xs arbitrary: s ys)
  case (Cons x xs)
  from add_law [OF Cons.prems(1)] Cons.prems(2) obtain s' where "add x s = Some s'" "holds s' (place x ys)" by auto
  then show ?case using Cons.IH [of s' "place x ys"] Cons.prems(2) by (simp add: place_length)
qed simp

lemma take_many_holds: "holds s xs \<Longrightarrow> \<exists>s'. take_many take1 (length xs) s = Some (xs, s') \<and> holds s' []"
proof (induction xs arbitrary: s)
  case (Cons x xs)
  from take_law [OF Cons.prems] obtain s' where "take1 s = Some (Some x, s')" "holds s' xs" by blast
  then show ?case using Cons.IH by fastforce
qed simp

lemma fold_place_length: "length (fold place xs ys) = length xs + length ys"
  by (induction xs arbitrary: ys) (simp_all add: place_length)

lemma drain:
  assumes "holds s []" "length xs \<le> room"
  shows "\<exists>s' s''. add_all add xs s = Some s' \<and> take_many take1 (length xs) s' = Some (fold place xs [], s'') \<and> holds s'' []"
proof -
  obtain s' where "add_all add xs s = Some s'" "holds s' (fold place xs [])"
    using add_all_holds [OF assms(1), of xs] assms(2) by auto
  then show ?thesis using take_many_holds [of s' "fold place xs []"] fold_place_length [of xs "[]"] by auto
qed

end

text \<open>The arrangements of a queue and of a stack.\<close>

definition at_end :: "'a \<Rightarrow> 'a list \<Rightarrow> 'a list" where
  "at_end x xs = xs @ [x]"

lemma at_end_length: "length (at_end x xs) = Suc (length xs)"
  by (simp add: at_end_def)

lemma fold_at_end [simp]: "fold at_end xs ys = ys @ xs"
  by (induction xs arbitrary: ys) (simp_all add: at_end_def)

lemma fold_Cons [simp]: "fold Cons xs [] = rev xs"
  by (simp add: fold_Cons_rev)

end
