(* ===== verification/R2_Queue.thy ===== *)
theory R2_Queue
  imports R2_Store
begin

text \<open>
  The ring queue of \<^verbatim>\<open>libr/util/queue.c\<close> and the growing stack of \<^verbatim>\<open>libr/util/stack.c\<close>. The type variable stands for
  the \<open>void *\<close> elements, \<open>None\<close> for \<open>NULL\<close>; allocations succeed.
\<close>

section \<open>Queue\<close>

record 'a rqueue =
  rq_elems :: "'a option list"
  rq_capacity :: ut32
  rq_front :: ut32
  rq_rear :: int
  rq_size :: ut32

definition r_queue_new :: "int \<Rightarrow> 'a rqueue option" where
  "r_queue_new n =
     (if n \<le> 0 then None
      else Some \<lparr>rq_elems = replicate (nat n) None, rq_capacity = word_of_int n, rq_front = 0, rq_rear = - 1, rq_size = 0\<rparr>)"

definition is_full :: "'a rqueue \<Rightarrow> bool" where
  "is_full q \<longleftrightarrow> rq_size q = rq_capacity q"

definition r_queue_is_empty :: "'a rqueue \<Rightarrow> bool" where
  "r_queue_is_empty q \<longleftrightarrow> rq_size q = 0"

text \<open>The copying loop; \<open>i\<close> is the index after the increment, the turns are counted by the size.\<close>

fun copy_ring :: "nat \<Rightarrow> nat \<Rightarrow> ut32 \<Rightarrow> 'a rqueue \<Rightarrow> 'a option list \<Rightarrow> 'a option list option" where
  "copy_ring 0 i front q newelems = Some newelems"
| "copy_ring (Suc k) i front q newelems = do {
     e \<leftarrow> nth_opt (rq_elems q) (uint front);
     newelems \<leftarrow> buf_write newelems i [e];
     copy_ring k (Suc i) ((front + 1) mod rq_capacity q) q newelems }"

definition increase_capacity :: "'a rqueue \<Rightarrow> 'a rqueue option" where
  "increase_capacity q =
     (let new_capacity = rq_capacity q * 2 in do {
        newelems \<leftarrow> copy_ring (unat (rq_size q)) 0 (rq_front q) q (replicate (unat new_capacity) None);
        Some (q\<lparr>rq_elems := newelems, rq_front := 0, rq_rear := uint (rq_size q) - 1, rq_capacity := new_capacity\<rparr>) })"

definition r_queue_enqueue :: "'a option \<Rightarrow> 'a rqueue \<Rightarrow> 'a rqueue option" where
  "r_queue_enqueue el q = do {
     q \<leftarrow> (if is_full q then increase_capacity q else Some q);
     (let rear = sint ((word_of_int (rq_rear q + 1) :: ut32) mod rq_capacity q) in do {
        elems \<leftarrow> (if 0 \<le> rear then buf_write (rq_elems q) (nat rear) [el] else None);
        Some (q\<lparr>rq_rear := rear, rq_elems := elems, rq_size := rq_size q + 1\<rparr>) }) }"

definition r_queue_dequeue :: "'a rqueue \<Rightarrow> ('a option \<times> 'a rqueue) option" where
  "r_queue_dequeue q =
     (if r_queue_is_empty q then Some (None, q)
      else do {
        res \<leftarrow> nth_opt (rq_elems q) (uint (rq_front q));
        Some (res, q\<lparr>rq_front := (rq_front q + 1) mod rq_capacity q, rq_size := rq_size q - 1\<rparr>) })"

section \<open>Stack\<close>

record 'a rstack =
  rs_elems :: "'a option list"
  rs_n_elems :: ut32
  rs_top :: int

definition r_stack_new :: "ut32 \<Rightarrow> 'a rstack" where
  "r_stack_new n = \<lparr>rs_elems = replicate (unat n) None, rs_n_elems = n, rs_top = - 1\<rparr>"

definition r_stack_is_empty :: "'a rstack \<Rightarrow> bool" where
  "r_stack_is_empty s \<longleftrightarrow> rs_top s = - 1"

definition r_stack_size :: "'a rstack \<Rightarrow> ut32" where
  "r_stack_size s = word_of_int (rs_top s + 1)"

text \<open>\<open>realloc\<close> keeps the contents up to the smaller size; \<open>junk\<close> is what the new slots hold.\<close>

definition stack_grow :: "(nat \<Rightarrow> 'a option) \<Rightarrow> 'a rstack \<Rightarrow> 'a rstack" where
  "stack_grow junk s =
     (if (word_of_int (rs_top s) :: ut32) = rs_n_elems s - 1
      then (let n = rs_n_elems s * 2 in
        s\<lparr>rs_n_elems := n, rs_elems := take (unat n) (rs_elems s) @ map junk [length (rs_elems s)..<unat n]\<rparr>)
      else s)"

definition r_stack_push :: "(nat \<Rightarrow> 'a option) \<Rightarrow> 'a option \<Rightarrow> 'a rstack \<Rightarrow> 'a rstack option" where
  "r_stack_push junk el s =
     (let s = stack_grow junk s; top = rs_top s + 1 in do {
        elems \<leftarrow> (if 0 \<le> top then buf_write (rs_elems s) (nat top) [el] else None);
        Some (s\<lparr>rs_top := top, rs_elems := elems\<rparr>) })"

definition r_stack_pop :: "'a rstack \<Rightarrow> ('a option \<times> 'a rstack) option" where
  "r_stack_pop s =
     (if rs_top s = - 1 then Some (None, s)
      else do {
        res \<leftarrow> nth_opt (rs_elems s) (rs_top s);
        Some (res, s\<lparr>rs_top := rs_top s - 1\<rparr>) })"

section \<open>The queue is a queue\<close>

definition queue_holds :: "'a rqueue \<Rightarrow> 'a list \<Rightarrow> bool" where
  "queue_holds q xs \<longleftrightarrow>
     (let cap = unat (rq_capacity q); front = unat (rq_front q) in
        0 < cap \<and> cap < 2 ^ 31 \<and> length (rq_elems q) = cap \<and> unat (rq_size q) = length xs \<and> length xs \<le> cap \<and>
        front < cap \<and> - 1 \<le> rq_rear q \<and> rq_rear q < int cap \<and> nat (rq_rear q + 1) mod cap = (front + length xs) mod cap \<and>
        (\<forall>i<length xs. rq_elems q ! ((front + i) mod cap) = Some (xs ! i)))"

lemma unat_succ_mod: "unat w + 1 < 2 ^ 32 \<Longrightarrow> unat ((w + 1) mod c) = (unat w + 1) mod unat c" for w c :: ut32
  by (simp add: unat_mod_distrib unat_word_ariths)

lemma unat_of_int: "0 \<le> i \<Longrightarrow> i < 2 ^ 32 \<Longrightarrow> unat (word_of_int i :: ut32) = nat i"
  by (simp add: unsigned_of_int take_bit_int_eq_self)

lemma sint_small:
  fixes w :: ut32
  assumes "unat w = n" "n < 2 ^ 31"
  shows "sint w = int n"
proof -
  have "uint w = int n" using assms(1) by (metis of_nat_unat)
  then show ?thesis using assms(2) by (simp add: sint_uint signed_take_bit_int_eq_self)
qed

lemma ring_slots:
  fixes f :: nat
  assumes "i < n" "n < cap"
  shows "(f + i) mod cap \<noteq> (f + n) mod cap"
proof
  assume "(f + i) mod cap = (f + n) mod cap"
  then have "cap dvd (f + n) - (f + i)" using assms(1) by (metis add_le_cancel_left less_imp_le mod_eq_dvd_iff_nat)
  then show False using assms by (auto dest: dvd_imp_le)
qed

lemma nth_opt_uint: "length xs = unat c \<Longrightarrow> i < c \<Longrightarrow> nth_opt xs (uint i) = Some (xs ! unat i)" for i c :: ut32
  by (simp add: nth_opt_def word_less_def nat_uint_eq)

lemma copy_ring_eq:
  assumes "length (rq_elems q) = unat (rq_capacity q)" "unat (rq_capacity q) < 2 ^ 31"
  shows "front < rq_capacity q \<Longrightarrow> i + k \<le> length new \<Longrightarrow>
    copy_ring k i front q new =
      Some (take i new @ map (\<lambda>j. rq_elems q ! ((unat front + j) mod unat (rq_capacity q))) [0..<k] @ drop (i + k) new)"
proof (induction k arbitrary: i front new)
  case (Suc k)
  let ?e = "rq_elems q ! unat front"
  have f: "unat front < unat (rq_capacity q)" using Suc.prems(1) by (simp add: word_less_nat_alt)
  have e: "nth_opt (rq_elems q) (uint front) = Some ?e" using Suc.prems(1) by (intro nth_opt_uint [OF assms(1)])
  let ?new = "take i new @ [?e] @ drop (i + 1) new"
  have w: "buf_write new i [?e] = Some ?new" using Suc.prems(2) by (simp add: buf_write_def)
  have u: "unat ((front + 1) mod rq_capacity q) = (unat front + 1) mod unat (rq_capacity q)"
    using f assms(2) by (intro unat_succ_mod) simp
  have "(front + 1) mod rq_capacity q < rq_capacity q" using f u by (simp add: word_less_nat_alt)
  then have "copy_ring (Suc k) i front q new =
      Some (take (Suc i) ?new @ map (\<lambda>j. rq_elems q ! ((unat ((front + 1) mod rq_capacity q) + j) mod unat (rq_capacity q))) [0..<k] @
        drop (Suc i + k) ?new)"
    using e w Suc.prems(2) Suc.IH [of "(front + 1) mod rq_capacity q" "Suc i" ?new] by simp
  also have "\<dots> = Some (take i new @ map (\<lambda>j. rq_elems q ! ((unat front + j) mod unat (rq_capacity q))) [0..<Suc k] @
        drop (i + Suc k) new)"
    using f Suc.prems(2) by (simp add: u mod_add_left_eq upt_conv_Cons map_Suc_upt [symmetric] add.commute [of k i] del: upt_Suc)
  finally show ?case .
qed simp

lemma increase_capacity_holds:
  assumes "queue_holds q xs" "is_full q" "length xs < 2 ^ 30"
  shows "\<exists>q'. increase_capacity q = Some q' \<and> queue_holds q' xs \<and> \<not> is_full q'"
proof -
  have h: "length (rq_elems q) = unat (rq_capacity q)" "unat (rq_capacity q) < 2 ^ 31" "unat (rq_size q) = length xs"
    "rq_front q < rq_capacity q" "0 < unat (rq_capacity q)"
    "\<And>i. i < length xs \<Longrightarrow> rq_elems q ! ((unat (rq_front q) + i) mod unat (rq_capacity q)) = Some (xs ! i)"
    using assms(1) by (simp_all add: queue_holds_def Let_def word_less_nat_alt)
  have c: "unat (rq_capacity q) = length xs" using assms(2) h(3) by (simp add: is_full_def)
  then have c2: "unat (rq_capacity q * 2) = 2 * length xs"
    using assms(3) by (simp add: unat_word_ariths)
  have u: "uint (rq_size q) = int (length xs)" using h(3) by (metis of_nat_unat)
  let ?es = "map Some xs @ replicate (length xs) None"
  have "copy_ring (length xs) 0 (rq_front q) q (replicate (2 * length xs) None) = Some ?es"
    using copy_ring_eq [OF h(1,2,4), of 0 "length xs" "replicate (2 * length xs) None"] h(6)
    by (auto intro!: nth_equalityI)
  then have "increase_capacity q = Some (q\<lparr>rq_elems := ?es, rq_front := 0, rq_rear := int (length xs) - 1, rq_capacity := rq_capacity q * 2\<rparr>)"
    using c2 h(3) u by (simp add: increase_capacity_def Let_def)
  moreover have "queue_holds (q\<lparr>rq_elems := ?es, rq_front := 0, rq_rear := int (length xs) - 1, rq_capacity := rq_capacity q * 2\<rparr>) xs"
    using c c2 h(3,5) assms(3) by (auto simp: queue_holds_def Let_def nth_append)
  moreover have "rq_size q \<noteq> rq_capacity q * 2" using c2 h(3,5) c by (auto dest: arg_cong [of _ _ unat])
  ultimately show ?thesis by (simp add: is_full_def)
qed

lemma enqueue_holds:
  assumes "queue_holds q xs" "length xs < 2 ^ 30"
  shows "\<exists>q'. r_queue_enqueue (Some x) q = Some q' \<and> queue_holds q' (at_end x xs)"
proof -
  obtain p where p: "(if is_full q then increase_capacity q else Some q) = Some p" "queue_holds p xs" "\<not> is_full p"
    using increase_capacity_holds [OF assms(1) _ assms(2)] assms(1) by (cases "is_full q") auto
  define cap where "cap = unat (rq_capacity p)"
  define front where "front = unat (rq_front p)"
  have h: "length (rq_elems p) = cap" "cap < 2 ^ 31" "unat (rq_size p) = length xs" "length xs \<le> cap" "front < cap" "0 < cap"
    "- 1 \<le> rq_rear p" "rq_rear p < int cap" "nat (rq_rear p + 1) mod cap = (front + length xs) mod cap"
    "\<And>i. i < length xs \<Longrightarrow> rq_elems p ! ((front + i) mod cap) = Some (xs ! i)"
    using p(2) by (simp_all add: queue_holds_def Let_def cap_def front_def)
  have l: "length xs < cap" using h(3,4) p(3) unfolding is_full_def cap_def by (metis le_neq_implies_less word_unat_eq_iff)
  define r where "r = (front + length xs) mod cap"
  have r: "r < cap" using h(6) by (simp add: r_def)
  have w: "unat (word_of_int (rq_rear p + 1) :: ut32) = nat (rq_rear p + 1)"
    using h(2,7,8) by (intro unat_of_int) simp_all
  have u: "unat ((word_of_int (rq_rear p + 1) :: ut32) mod rq_capacity p) = r"
    using w h(9) by (simp add: unat_mod_distrib r_def flip: cap_def)
  have "sint ((word_of_int (rq_rear p + 1) :: ut32) mod rq_capacity p) = int r"
    using sint_small [OF u] r h(2) by simp
  moreover have "buf_write (rq_elems p) r [Some x] = Some ((rq_elems p)[r := Some x])"
    using r h(1) by (simp add: buf_write_def upd_conv_take_nth_drop)
  ultimately have e: "r_queue_enqueue (Some x) q =
      Some (p\<lparr>rq_rear := int r, rq_elems := (rq_elems p)[r := Some x], rq_size := rq_size p + 1\<rparr>)"
    using p(1) by (simp add: r_queue_enqueue_def)
  have "unat (rq_size p + 1) = Suc (length xs)" using h(2,3) l by (simp add: unat_word_ariths)
  moreover have "Suc r mod cap = Suc (front + length xs) mod cap" by (simp add: r_def mod_Suc_eq)
  moreover have "(rq_elems p)[r := Some x] ! ((front + i) mod cap) = Some ((xs @ [x]) ! i)" if "i < Suc (length xs)" for i
    using ring_slots [of i "length xs" cap front] h(1,6,10) l r that
    by (cases "i = length xs") (auto simp: r_def nth_append nth_list_update)
  ultimately have "queue_holds (p\<lparr>rq_rear := int r, rq_elems := (rq_elems p)[r := Some x], rq_size := rq_size p + 1\<rparr>) (xs @ [x])"
    using h r l by (simp add: queue_holds_def Let_def nat_add_distrib flip: cap_def front_def)
  then show ?thesis using e by (simp add: at_end_def)
qed

lemma dequeue_holds:
  assumes "queue_holds q (x # xs)"
  shows "\<exists>q'. r_queue_dequeue q = Some (Some x, q') \<and> queue_holds q' xs"
proof -
  define cap where "cap = unat (rq_capacity q)"
  define front where "front = unat (rq_front q)"
  have h: "length (rq_elems q) = cap" "cap < 2 ^ 31" "unat (rq_size q) = Suc (length xs)" "Suc (length xs) \<le> cap" "front < cap" "0 < cap"
    "- 1 \<le> rq_rear q" "rq_rear q < int cap" "nat (rq_rear q + 1) mod cap = (front + Suc (length xs)) mod cap"
    "\<And>i. i < Suc (length xs) \<Longrightarrow> rq_elems q ! ((front + i) mod cap) = Some ((x # xs) ! i)"
    using assms by (simp_all add: queue_holds_def Let_def cap_def front_def)
  have "rq_elems q ! front = Some x" using h(5) h(10) [of 0] by simp
  then have e: "nth_opt (rq_elems q) (uint (rq_front q)) = Some (Some x)"
    using nth_opt_uint [of "rq_elems q" "rq_capacity q" "rq_front q"] h(1,5) by (simp add: cap_def front_def word_less_nat_alt)
  have f: "unat ((rq_front q + 1) mod rq_capacity q) = Suc front mod cap"
    using unat_succ_mod [of "rq_front q" "rq_capacity q"] h(2,5) by (simp add: cap_def front_def)
  have s: "rq_size q \<noteq> 0" "unat (rq_size q - 1) = length xs" using h(3) unat_minus_one [of "rq_size q"] by (metis nat.discI unat_0, metis diff_Suc_1 nat.discI unat_0)
  have "rq_elems q ! ((Suc front mod cap + i) mod cap) = Some (xs ! i)" if "i < length xs" for i
    using h(10) [of "Suc i"] that by (simp add: mod_add_left_eq)
  then have "queue_holds (q\<lparr>rq_front := (rq_front q + 1) mod rq_capacity q, rq_size := rq_size q - 1\<rparr>) xs"
    using h f s(2) by (simp add: queue_holds_def Let_def mod_add_left_eq flip: cap_def front_def)
  then show ?thesis using e s(1) by (simp add: r_queue_dequeue_def r_queue_is_empty_def)
qed

interpretation ring: element_store queue_holds "\<lambda>x. r_queue_enqueue (Some x)" r_queue_dequeue at_end "2 ^ 30"
  by unfold_locales (erule (1) enqueue_holds, erule dequeue_holds, rule at_end_length)

lemma queue_new_holds:
  assumes "0 < n" "n < 2 ^ 31"
  shows "\<exists>q. r_queue_new n = Some q \<and> queue_holds q []"
proof -
  have "unat (word_of_int n :: ut32) = nat n" using assms by (intro unat_of_int) simp_all
  moreover have "(- 1 :: int) < uint (word_of_int n :: ut32)" by (rule order.strict_trans2 [OF _ uint_ge_0]) simp
  ultimately show ?thesis using assms by (simp add: r_queue_new_def queue_holds_def nat_less_iff)
qed

section \<open>The stack is a stack\<close>

definition stack_holds :: "'a rstack \<Rightarrow> 'a list \<Rightarrow> bool" where
  "stack_holds s xs \<longleftrightarrow> 0 < unat (rs_n_elems s) \<and> unat (rs_n_elems s) < 2 ^ 31 \<and> length (rs_elems s) = unat (rs_n_elems s) \<and>
     length xs \<le> unat (rs_n_elems s) \<and> rs_top s = int (length xs) - 1 \<and> take (length xs) (rs_elems s) = map Some (rev xs)"

lemma stack_new_holds: "0 < n \<Longrightarrow> unat n < 2 ^ 31 \<Longrightarrow> stack_holds (r_stack_new n) []"
  by (simp add: stack_holds_def r_stack_new_def unat_gt_0)

lemma stack_full:
  assumes "stack_holds s xs"
  shows "(word_of_int (rs_top s) :: ut32) = rs_n_elems s - 1 \<longleftrightarrow> length xs = unat (rs_n_elems s)"
proof -
  have "word_of_int (rs_top s) = (of_nat (length xs) :: ut32) - 1" using assms by (simp add: stack_holds_def)
  then have "(word_of_int (rs_top s) :: ut32) = rs_n_elems s - 1 \<longleftrightarrow> (of_nat (length xs) :: ut32) = rs_n_elems s" by simp
  also have "\<dots> \<longleftrightarrow> length xs = unat (rs_n_elems s)"
    using assms by (auto simp: stack_holds_def word_unat_eq_iff unat_of_nat take_bit_nat_eq_self)
  finally show ?thesis .
qed

lemma grow_holds:
  assumes "stack_holds s xs" "length xs < 2 ^ 30"
  shows "stack_holds (stack_grow junk s) xs" "length xs < unat (rs_n_elems (stack_grow junk s))"
proof -
  have "unat (rs_n_elems s * 2) = 2 * length xs" if "length xs = unat (rs_n_elems s)"
    using assms(2) that by (simp add: unat_word_ariths)
  then show "stack_holds (stack_grow junk s) xs" "length xs < unat (rs_n_elems (stack_grow junk s))"
    using assms stack_full [OF assms(1)] by (auto simp: stack_grow_def Let_def stack_holds_def)
qed

lemma push_holds:
  assumes "stack_holds s xs" "length xs < 2 ^ 30"
  shows "\<exists>s'. r_stack_push junk (Some x) s = Some s' \<and> stack_holds s' (x # xs)"
proof -
  define p where "p = stack_grow junk s"
  note p = grow_holds [OF assms, of junk, folded p_def]
  have h: "length (rs_elems p) = unat (rs_n_elems p)" "rs_top p = int (length xs) - 1" "take (length xs) (rs_elems p) = map Some (rev xs)"
    "0 < unat (rs_n_elems p)" "unat (rs_n_elems p) < 2 ^ 31" using p(1) by (simp_all add: stack_holds_def)
  have b: "buf_write (rs_elems p) (length xs) [Some x] = Some (map Some (rev (x # xs)) @ drop (Suc (length xs)) (rs_elems p))"
    using p(2) h(1,3) by (simp add: buf_write_def)
  have "r_stack_push junk (Some x) s = Some (p\<lparr>rs_top := int (length xs), rs_elems := map Some (rev (x # xs)) @ drop (Suc (length xs)) (rs_elems p)\<rparr>)"
    using b h(2) by (simp add: r_stack_push_def flip: p_def)
  moreover have "stack_holds (p\<lparr>rs_top := int (length xs), rs_elems := map Some (rev (x # xs)) @ drop (Suc (length xs)) (rs_elems p)\<rparr>) (x # xs)"
    using h p(2) by (simp add: stack_holds_def)
  ultimately show ?thesis by blast
qed

lemma pop_holds:
  assumes "stack_holds s (x # xs)"
  shows "\<exists>s'. r_stack_pop s = Some (Some x, s') \<and> stack_holds s' xs"
proof -
  have h: "take (Suc (length xs)) (rs_elems s) = map Some (rev xs) @ [Some x]" "length xs < length (rs_elems s)"
    "rs_top s = int (length xs)" using assms by (auto simp: stack_holds_def)
  then have "rs_elems s ! length xs = Some x" "take (length xs) (rs_elems s) = map Some (rev xs)"
    by (simp_all add: take_Suc_conv_app_nth)
  moreover from this h(2) have "nth_opt (rs_elems s) (int (length xs)) = Some (Some x)" by (simp add: nth_opt_def)
  ultimately show ?thesis using assms h(3) by (simp add: r_stack_pop_def stack_holds_def)
qed

lemma stack_empty_iff: "stack_holds s xs \<Longrightarrow> r_stack_is_empty s \<longleftrightarrow> xs = []"
  by (auto simp: stack_holds_def r_stack_is_empty_def)

interpretation stk: element_store stack_holds "\<lambda>x. r_stack_push junk (Some x)" r_stack_pop Cons "2 ^ 30" for junk
  by unfold_locales (erule (1) push_holds, erule pop_holds, simp)

end
