(* ===== verification/R2_List_Props.thy ===== *)
theory R2_List_Props
  imports R2_List_Merge R2_Queue
begin

text \<open>
  Properties of the linked list: its operations are those of a sequence, sorting sorts, and the ways the list
  is used as a queue, a stack and a priority queue, by interpretations of \<open>element_store\<close>.
\<close>

section \<open>The list as a store\<close>

definition list_holds :: "rlist \<times> 'a list_heap \<Rightarrow> 'a list \<Rightarrow> bool" where
  "list_holds s xs \<longleftrightarrow> (\<exists>es. repr (snd s) (fst s) es \<and> map snd es = xs)"

definition list_add :: "('a option \<Rightarrow> rlist \<Rightarrow> 'a list_heap \<Rightarrow> (nat option \<times> rlist \<times> 'a list_heap) option) \<Rightarrow>
    'a \<Rightarrow> rlist \<times> 'a list_heap \<Rightarrow> (rlist \<times> 'a list_heap) option" where
  "list_add f x s = map_option snd (f (Some x) (fst s) (snd s))"

definition list_take :: "(rlist \<Rightarrow> 'a list_heap \<Rightarrow> ('a option \<times> rlist \<times> 'a list_heap) option) \<Rightarrow>
    rlist \<times> 'a list_heap \<Rightarrow> ('a option \<times> rlist \<times> 'a list_heap) option" where
  "list_take f s = f (fst s) (snd s)"

definition insert_by :: "('a \<Rightarrow> 'a \<Rightarrow> int) \<Rightarrow> 'a \<Rightarrow> 'a list \<Rightarrow> 'a list" where
  "insert_by cmp x xs = takeWhile (\<lambda>y. cmp x y > 0) xs @ x # dropWhile (\<lambda>y. cmp x y > 0) xs"

lemma list_holds_empty [simp]: "list_holds (r_list_init, h) []"
  by (simp add: list_holds_def exI [of _ "[]"])

lemma take_head_law:
  "list_holds s (x # xs) \<Longrightarrow> \<exists>s'. list_take r_list_pop_head s = Some (Some x, s') \<and> list_holds s' xs"
proof -
  assume "list_holds s (x # xs)"
  then obtain a es where "repr (snd s) (fst s) ((a, x) # es)" "map snd es = xs"
    by (auto simp: list_holds_def map_eq_Cons_conv)
  then show ?thesis using pop_head_repr [of "snd s" "fst s" a x es] by (auto simp: list_holds_def list_take_def)
qed

lemma append_law: "list_holds s xs \<Longrightarrow> \<exists>s'. list_add r_list_append x s = Some s' \<and> list_holds s' (at_end x xs)"
proof -
  assume "list_holds s xs"
  then obtain es where e: "repr (snd s) (fst s) es" "map snd es = xs" by (auto simp: list_holds_def)
  from append_repr [OF e(1), of x] obtain l' h' where
    "r_list_append (Some x) (fst s) (snd s) = Some (Some (length (snd s)), l', h')" "repr h' l' (es @ [(length (snd s), x)])"
    by blast
  then show ?thesis using e(2) by (auto simp: list_holds_def list_add_def at_end_def intro!: exI [of _ "es @ [(length (snd s), x)]"])
qed

lemma insert_by_entries:
  "map snd (takeWhile (\<lambda>e. cmp x (snd e) > 0) es @ (a, x) # dropWhile (\<lambda>e. cmp x (snd e) > 0) es) =
   insert_by cmp x (map snd es)"
  by (simp add: insert_by_def takeWhile_map dropWhile_map o_def)

lemma insert_by_mset [simp]: "mset (insert_by cmp x xs) = add_mset x (mset xs)"
  by (metis (no_types) add_mset_add_single insert_by_def mset.simps(2) mset_append takeWhile_dropWhile_id union_mset_add_mset_right)

lemma insert_by_length: "length (insert_by cmp x xs) = Suc (length xs)"
  by (metis insert_by_mset size_add_mset size_mset)

lemma add_sorted_law:
  "list_holds s xs \<Longrightarrow>
   \<exists>s'. list_add (\<lambda>d. r_list_add_sorted d cmp) x s = Some s' \<and> list_holds s' (insert_by cmp x xs)"
proof -
  assume "list_holds s xs"
  then obtain es where e: "repr (snd s) (fst s) es" "map snd es = xs" by (auto simp: list_holds_def)
  let ?es = "takeWhile (\<lambda>e. cmp x (snd e) > 0) es @ (length (snd s), x) # dropWhile (\<lambda>e. cmp x (snd e) > 0) es"
  from add_sorted_repr [OF e(1), of x cmp] obtain r l' h' where
    "r_list_add_sorted (Some x) cmp (fst s) (snd s) = Some (r, l', h')" "repr h' l' ?es" by blast
  then show ?thesis using insert_by_entries [of cmp x es "length (snd s)"] e(2)
    by (auto simp only: list_holds_def list_add_def fst_conv snd_conv option.map intro!: exI [of _ ?es])
qed

interpretation fifo: element_store list_holds "list_add r_list_append" "list_take r_list_pop_head" at_end
  room for room
  by unfold_locales (erule append_law, erule take_head_law, rule at_end_length)

interpretation prio: element_store list_holds "list_add (\<lambda>d. r_list_add_sorted d cmp)" "list_take r_list_pop_head"
  "insert_by cmp" room for cmp room
  by unfold_locales (erule add_sorted_law, erule take_head_law, rule insert_by_length)

lemma take_tail_law:
  "list_holds s (rev (x # xs)) \<Longrightarrow> \<exists>s'. list_take r_list_pop s = Some (Some x, s') \<and> list_holds s' (rev xs)"
proof -
  assume "list_holds s (rev (x # xs))"
  then obtain a es where "repr (snd s) (fst s) (es @ [(a, x)])" "map snd es = rev xs"
    by (auto simp: list_holds_def map_eq_append_conv)
  then show ?thesis using pop_repr [of "snd s" "fst s" es a x] by (auto simp: list_holds_def list_take_def)
qed

interpretation lifo: element_store "\<lambda>s xs. list_holds s (rev xs)" "list_add r_list_push" "list_take r_list_pop" Cons
  room for room
proof unfold_locales
  fix s :: "rlist \<times> 'a list_heap" and xs x
  assume "list_holds s (rev xs)"
  then show "\<exists>s'. list_add r_list_push x s = Some s' \<and> list_holds s' (rev (x # xs))"
    using append_law [of s "rev xs" x] by (simp add: r_list_push_def at_end_def)
qed (rule take_tail_law, assumption, simp)

lemma insert_by_sorted:
  assumes "ordering_cmp cmp" "in_order cmp xs"
  shows "in_order cmp (insert_by cmp x xs)"
proof -
  define ys where "ys = takeWhile (\<lambda>y. cmp x y > 0) xs"
  define zs where "zs = dropWhile (\<lambda>y. cmp x y > 0) xs"
  have "xs = ys @ zs" by (simp add: ys_def zs_def)
  then have s: "in_order cmp ys" "in_order cmp zs" "\<forall>y\<in>set ys. \<forall>z\<in>set zs. cmp y z \<le> 0"
    using assms(2) by (simp_all add: sorted_wrt_append)
  have "cmp y x \<le> 0" if "y \<in> set ys" for y
    using ordering_total [OF assms(1)] set_takeWhileD [OF that [unfolded ys_def]] by simp
  moreover have "cmp x z \<le> 0" if "z \<in> set zs" for z
  proof (cases zs)
    case (Cons w ws)
    have "\<not> cmp x w > 0" using Cons by (simp add: zs_def dropWhile_eq_Cons_conv)
    then show ?thesis using Cons s(2) that ordering_trans [OF assms(1), of x w z] by auto
  qed (use that in simp)
  ultimately show ?thesis using s by (simp add: insert_by_def sorted_wrt_append flip: ys_def zs_def)
qed

lemma fold_insert_by:
  "mset (fold (insert_by cmp) xs ys) = mset xs + mset ys"
  "ordering_cmp cmp \<Longrightarrow> in_order cmp ys \<Longrightarrow> in_order cmp (fold (insert_by cmp) xs ys)"
  by (induction xs arbitrary: ys) (simp_all add: insert_by_sorted)

section \<open>Properties\<close>


definition int_cmp :: "int \<Rightarrow> int \<Rightarrow> int" where
  "int_cmp x y = x - y"

lemma int_cmp_ordering [simp]: "ordering_cmp int_cmp"
  by (simp add: ordering_cmp_def int_cmp_def)


text \<open>C12: On a list that is not marked sorted \<open>r_list_sort\<close> finishes and leaves a well-formed list of the same
  iterators whose elements are in the order of the comparator and a permutation of the old ones, whichever of
  the two algorithms it chooses, and touches no iterator of another list.\<close>
theorem list_sort_sorts:
  assumes "repr h l xs" "\<not> ls_sorted l" "ordering_cmp cmp"
  shows "\<exists>l' h' ys. r_list_sort cmp l h = Some (l', h') \<and> repr h' l' ys \<and> in_order cmp (map snd ys) \<and>
    mset (map snd ys) = mset (map snd xs) \<and> mset (map fst ys) = mset (map fst xs) \<and> frame (addrs xs) h h'"
proof (cases "ls_length l > 43")
  case True
  have "in_order cmp (map snd (msort cmp xs))"
    using msort_sorted_stable [OF assms(3), of xs] by (simp add: sorted_wrt_map)
  moreover obtain l' h' where "r_list_merge_sort cmp l h = Some (l', h')" "repr h' l' (msort cmp xs)" "frame (addrs xs) h h'"
    using merge_sort_repr [OF assms(1,2), of cmp] by blast
  ultimately show ?thesis
    using True by (intro exI [of _ l'] exI [of _ h'] exI [of _ "msort cmp xs"]) (simp add: r_list_sort_def)
next
  case False
  let ?ys = "zip (map fst xs) (selection cmp (map snd xs))"
  have "map snd ?ys = selection cmp (map snd xs)" "map fst ?ys = map fst xs" by simp_all
  then show ?thesis
    using insertion_sort_repr [OF assms(1,2), of cmp] selection_sorted [OF assms(3), of "map snd xs"] False
    by (metis r_list_sort_def selection_mset)
qed

definition list_example :: "rlist \<times> int list_heap" where
  "list_example = (\<lparr>ls_head = Some 2, ls_tail = Some 1, ls_length = 3, ls_sorted = False\<rparr>,
     [Some \<lparr>it_data = Some 5, it_n = Some 1, it_p = Some 2\<rparr>, Some \<lparr>it_data = Some 4, it_n = None, it_p = Some 0\<rparr>,
      Some \<lparr>it_data = Some 7, it_n = Some 0, it_p = None\<rparr>])"

lemma list_example_repr: "repr (snd list_example) (fst list_example) [(2, 7), (0, 5), (1, 4)]"
  by (simp add: list_example_def repr_def cell_def)

theorem list_sort_sorts_witness:
  "\<exists>l' h' ys. r_list_sort int_cmp (fst list_example) (snd list_example) = Some (l', h') \<and> repr h' l' ys \<and>
    in_order int_cmp (map snd ys) \<and> mset (map snd ys) = mset [7, 5, 4]"
  using list_sort_sorts [OF list_example_repr, of int_cmp] by (auto simp: list_example_def)

text \<open>C40: The merge sort that sorts long lists is stable: elements that compare equal stay in the order they
  had. It relinks the iterators, every one keeps its data.\<close>
theorem list_merge_sort_stable:
  assumes "repr h l xs" "\<not> ls_sorted l" "ordering_cmp cmp"
  shows "\<exists>l' h' ys. r_list_merge_sort cmp l h = Some (l', h') \<and> repr h' l' ys \<and> in_order cmp (map snd ys) \<and>
    mset ys = mset xs \<and>
    filter (\<lambda>e. cmp (snd e) v \<le> 0 \<and> cmp v (snd e) \<le> 0) ys = filter (\<lambda>e. cmp (snd e) v \<le> 0 \<and> cmp v (snd e) \<le> 0) xs"
proof -
  have "in_order cmp (map snd (msort cmp xs))"
    using msort_sorted_stable [OF assms(3), of xs] by (simp add: sorted_wrt_map)
  then show ?thesis
    using merge_sort_repr [OF assms(1,2), of cmp] msort_sorted_stable [OF assms(3), of xs v] msort_mset by blast
qed

theorem list_merge_sort_stable_witness:
  "\<exists>l' h' ys. r_list_merge_sort (\<lambda>x y. int_cmp (x div 2) (y div 2)) (fst list_example) (snd list_example) = Some (l', h') \<and>
    repr h' l' ys \<and> filter (\<lambda>e. snd e div 2 = 2) ys = [(0, 5), (1, 4)]"
proof -
  have "ordering_cmp (\<lambda>x y. int_cmp (x div 2) (y div 2))" by (simp add: ordering_cmp_def int_cmp_def)
  from list_merge_sort_stable [OF list_example_repr _ this, of 4] obtain l' h' ys where
    "r_list_merge_sort (\<lambda>x y. int_cmp (x div 2) (y div 2)) (fst list_example) (snd list_example) = Some (l', h')"
    "repr h' l' ys" and f: "filter (\<lambda>e. int_cmp (snd e div 2) 2 \<le> 0 \<and> int_cmp 2 (snd e div 2) \<le> 0) ys = [(0, 5), (1, 4)]"
    by (auto simp: list_example_def int_cmp_def)
  moreover have "(\<lambda>e :: nat \<times> int. int_cmp (snd e div 2) 2 \<le> 0 \<and> int_cmp 2 (snd e div 2) \<le> 0) = (\<lambda>e. snd e div 2 = 2)"
    by (auto simp: int_cmp_def)
  ultimately show ?thesis by auto
qed

text \<open>The result of an operation: the value it returns and the elements of the list after it.\<close>

definition gives :: "('b \<times> rlist \<times> 'a list_heap) option \<Rightarrow> 'b \<Rightarrow> 'a list \<Rightarrow> bool" where
  "gives r v ys \<longleftrightarrow> (\<exists>l h es. r = Some (v, l, h) \<and> repr h l es \<and> map snd es = ys)"

lemma givesI: "r = Some (v, l, h) \<Longrightarrow> repr h l es \<Longrightarrow> map snd es = ys \<Longrightarrow> gives r v ys"
  by (auto simp: gives_def)



text \<open>A copy shares nothing with its original: after \<open>r_list_clone\<close> the original can be purged, which frees every
  one of its iterators, and the copy still holds the elements in their order.\<close>
theorem list_clone_survives_purge:
  assumes "repr h l es"
  shows "\<exists>c h1 l2 h2 new. r_list_clone l h = Some (c, h1) \<and> r_list_purge l h1 = Some (l2, h2) \<and>
    repr h2 c new \<and> map snd new = map snd es \<and> repr h2 l2 [] \<and> (\<forall>a\<in>addrs es. cell h2 a = None)"
proof -
  obtain c h1 new where c: "r_list_clone l h = Some (c, h1)" "repr h1 c new" "map snd new = map snd es" "repr h1 l es"
    "addrs new \<inter> addrs es = {}" using clone_repr [OF assms] by blast
  obtain l2 h2 where p: "r_list_purge l h1 = Some (l2, h2)" "repr h2 l2 []" "frame (addrs es) h1 h2"
    "\<forall>a\<in>addrs es. cell h2 a = None" using purge_repr [OF c(4)] by blast
  have "repr h2 c new" using repr_frame [OF c(2) p(3)] c(5) by simp
  with c(1,3) p(1,2,4) have "r_list_clone l h = Some (c, h1) \<and> r_list_purge l h1 = Some (l2, h2) \<and>
    repr h2 c new \<and> map snd new = map snd es \<and> repr h2 l2 [] \<and> (\<forall>a\<in>addrs es. cell h2 a = None)" by simp
  then show ?thesis by (intro exI)
qed

theorem list_clone_survives_purge_witness:
  "\<exists>c h1 l2 h2 new. r_list_clone (fst list_example) (snd list_example) = Some (c, h1) \<and>
    r_list_purge (fst list_example) h1 = Some (l2, h2) \<and> repr h2 c new \<and> map snd new = [7, 5, 4] \<and> cell h2 2 = None"
proof -
  from list_clone_survives_purge [OF list_example_repr] obtain c h1 l2 h2 new where
    "r_list_clone (fst list_example) (snd list_example) = Some (c, h1) \<and> r_list_purge (fst list_example) h1 = Some (l2, h2) \<and>
      repr h2 c new \<and> map snd new = map snd [(2 :: nat, 7), (0, 5), (1, 4)] \<and> repr h2 l2 [] \<and>
      (\<forall>a\<in>addrs [(2, 7 :: int), (0, 5), (1, 4)]. cell h2 a = None)" by (elim exE)
  then have "r_list_clone (fst list_example) (snd list_example) = Some (c, h1) \<and>
    r_list_purge (fst list_example) h1 = Some (l2, h2) \<and> repr h2 c new \<and> map snd new = [7, 5, 4] \<and> cell h2 2 = None"
    by simp
  then show ?thesis by (intro exI)
qed

text \<open>\<open>r_list_join\<close> does not move the tail of the first list. Joining a second list links its elements behind
  the first, but joining a third one overwrites that link: the elements of the second list are no longer
  reachable from the head although the length still counts them.\<close>
theorem list_join_twice_loses:
  assumes "repr h l1 xs" "repr h l2 ys" "repr h l3 zs" "xs \<noteq> []" "ys \<noteq> []" "zs \<noteq> []"
    "addrs xs \<inter> addrs ys = {}" "(addrs xs \<union> addrs ys) \<inter> addrs zs = {}"
  shows "\<exists>l e h1 l' e' h2. r_list_join l1 l2 h = Some (True, l, e, h1) \<and> seg h1 None (xs @ ys) None \<and>
    r_list_join l l3 h1 = Some (True, l', e', h2) \<and> seg h2 None (xs @ zs) None \<and> ls_head l' = Some (fst (hd xs)) \<and>
    ls_tail l' = Some (fst (last xs)) \<and> ls_length l' = int (length xs + length ys + length zs)"
  using join_twice [OF assms] assms(4) by simp

definition join_example :: "nat list_heap" where
  "join_example = [Some \<lparr>it_data = Some 5, it_n = None, it_p = None\<rparr>, Some \<lparr>it_data = Some 6, it_n = None, it_p = None\<rparr>,
     Some \<lparr>it_data = Some 7, it_n = None, it_p = None\<rparr>]"

definition single :: "nat \<Rightarrow> rlist" where
  "single a = \<lparr>ls_head = Some a, ls_tail = Some a, ls_length = 1, ls_sorted = False\<rparr>"

theorem list_join_twice_loses_witness:
  "\<exists>l e h1 l' e' h2. r_list_join (single 0) (single 1) join_example = Some (True, l, e, h1) \<and>
    r_list_join l (single 2) h1 = Some (True, l', e', h2) \<and> seg h2 None [(0, 5), (2, 7)] None \<and> ls_length l' = 3"
proof -
  have "repr join_example (single 0) [(0, 5)]" "repr join_example (single 1) [(1, 6)]" "repr join_example (single 2) [(2, 7)]"
    by (simp_all add: repr_def single_def join_example_def cell_def)
  from list_join_twice_loses [OF this] show ?thesis by auto
qed

end
