(* ===== verification/R2_Graph.thy ===== *)
theory R2_Graph
  imports R2_List_Ops R2_Queue
begin

text \<open>
  The directed graphs of \<^verbatim>\<open>libr/util/graph.c\<close>: nodes with lists of their successors, predecessors and neighbours,
  and the depth-first search that reports to a visitor.

  \<^item> A node pointer is a position in a store of nodes, a freed node is \<open>None\<close> there; using one is undefined.
  \<^item> The lists of nodes are HOL lists: \<open>R2_List_Ops\<close> shows that \<open>r_list_append\<close>, \<open>r_list_insert\<close> and
    \<open>r_list_delete_data\<close> are appending, \<open>seq_insert\<close> and \<open>remove1\<close> on the elements.
  \<^item> A visitor is a record of optional callbacks on its data.
\<close>

section \<open>Nodes and edges\<close>

record 'd gnode =
  gn_idx :: ut32
  gn_data :: 'd
  gn_out :: "nat list"
  gn_in :: "nat list"
  gn_all :: "nat list"

record 'd rgraph =
  g_n_nodes :: ut32
  g_n_edges :: ut32
  g_last_index :: int
  g_nodes :: "nat list"
  g_store :: "'d gnode option list"

definition node :: "'d rgraph \<Rightarrow> nat \<Rightarrow> 'd gnode option" where
  "node g a = (if a < length (g_store g) then g_store g ! a else None)"

definition upd_node :: "nat \<Rightarrow> ('d gnode \<Rightarrow> 'd gnode) \<Rightarrow> 'd rgraph \<Rightarrow> 'd rgraph option" where
  "upd_node a f g = do { n \<leftarrow> node g a; Some (g\<lparr>g_store := (g_store g)[a := Some (f n)]\<rparr>) }"

text \<open>\<open>r_list_insert\<close> on the elements of a list.\<close>

definition seq_insert :: "int \<Rightarrow> 'a \<Rightarrow> 'a list \<Rightarrow> 'a list" where
  "seq_insert n x xs =
     (if xs = [] \<or> n = 0 then x # xs
      else if 0 \<le> n \<and> nat n < length xs then take (nat n) xs @ x # drop (nat n) xs else xs @ [x])"

definition r_graph_new :: "'d rgraph" where
  "r_graph_new = \<lparr>g_n_nodes = 0, g_n_edges = 0, g_last_index = 0, g_nodes = [], g_store = []\<rparr>"

definition r_graph_node_new :: "ut32 \<Rightarrow> 'd \<Rightarrow> 'd gnode" where
  "r_graph_node_new idx d = \<lparr>gn_idx = idx, gn_data = d, gn_out = [], gn_in = [], gn_all = []\<rparr>"

fun find_node :: "'d rgraph \<Rightarrow> ut32 \<Rightarrow> nat list \<Rightarrow> nat option option" where
  "find_node g idx [] = Some None"
| "find_node g idx (a # as) = do { n \<leftarrow> node g a; (if idx = gn_idx n then Some (Some a) else find_node g idx as) }"

definition r_graph_get_node :: "'d rgraph \<Rightarrow> ut32 \<Rightarrow> nat option option" where
  "r_graph_get_node g idx = find_node g idx (g_nodes g)"

text \<open>The nodes of the list are freed with it.\<close>

definition r_graph_reset :: "'d rgraph \<Rightarrow> 'd rgraph" where
  "r_graph_reset g = g\<lparr>g_store := fold (\<lambda>a st. st[a := None]) (g_nodes g) (g_store g), g_nodes := [],
     g_n_nodes := 0, g_n_edges := 0, g_last_index := 0\<rparr>"

definition r_graph_add_node :: "'d \<Rightarrow> 'd rgraph \<Rightarrow> (nat \<times> 'd rgraph) option" where
  "r_graph_add_node d g =
     (if g_last_index g < 2 ^ 31 - 1
      then Some (length (g_store g), g\<lparr>g_store := g_store g @ [Some (r_graph_node_new (word_of_int (g_last_index g)) d)],
        g_last_index := g_last_index g + 1, g_nodes := g_nodes g @ [length (g_store g)], g_n_nodes := g_n_nodes g + 1\<rparr>)
      else None)"

fun unlink_ins :: "nat \<Rightarrow> nat list \<Rightarrow> 'd rgraph \<Rightarrow> 'd rgraph option" where
  "unlink_ins n [] g = Some g"
| "unlink_ins n (a # as) g = do {
     g \<leftarrow> upd_node a (\<lambda>m. m\<lparr>gn_out := remove1 n (gn_out m)\<rparr>) g;
     g \<leftarrow> upd_node a (\<lambda>m. m\<lparr>gn_all := remove1 n (gn_all m)\<rparr>) g;
     unlink_ins n as (g\<lparr>g_n_edges := g_n_edges g - 1\<rparr>) }"

fun unlink_outs :: "nat \<Rightarrow> nat list \<Rightarrow> 'd rgraph \<Rightarrow> 'd rgraph option" where
  "unlink_outs n [] g = Some g"
| "unlink_outs n (a # as) g = do {
     g \<leftarrow> upd_node a (\<lambda>m. m\<lparr>gn_in := remove1 n (gn_in m)\<rparr>) g;
     g \<leftarrow> upd_node a (\<lambda>m. m\<lparr>gn_all := remove1 n (gn_all m)\<rparr>) g;
     unlink_outs n as (g\<lparr>g_n_edges := g_n_edges g - 1\<rparr>) }"

text \<open>
  The first loop changes no list of predecessors and the second no list of successors, so each of them walks
  the list it started with.
\<close>

definition r_graph_del_node :: "nat option \<Rightarrow> 'd rgraph \<Rightarrow> 'd rgraph option" where
  "r_graph_del_node q g = (case q of
     None \<Rightarrow> Some g
   | Some n \<Rightarrow> do {
       m \<leftarrow> node g n;
       g \<leftarrow> unlink_ins n (gn_in m) g;
       m \<leftarrow> node g n;
       g \<leftarrow> unlink_outs n (gn_out m) g;
       Some (g\<lparr>g_store := (if n \<in> set (g_nodes g) then (g_store g)[n := None] else g_store g),
         g_nodes := remove1 n (g_nodes g), g_n_nodes := g_n_nodes g - 1\<rparr>) })"

definition r_graph_add_edge_at :: "nat option \<Rightarrow> nat option \<Rightarrow> int \<Rightarrow> 'd rgraph \<Rightarrow> 'd rgraph option" where
  "r_graph_add_edge_at from to i g = (case (from, to) of
     (Some a, Some b) \<Rightarrow> do {
       g \<leftarrow> upd_node a (\<lambda>m. m\<lparr>gn_out := seq_insert i b (gn_out m)\<rparr>) g;
       g \<leftarrow> upd_node a (\<lambda>m. m\<lparr>gn_all := gn_all m @ [b]\<rparr>) g;
       g \<leftarrow> upd_node b (\<lambda>m. m\<lparr>gn_in := gn_in m @ [a]\<rparr>) g;
       g \<leftarrow> upd_node b (\<lambda>m. m\<lparr>gn_all := gn_all m @ [a]\<rparr>) g;
       Some (g\<lparr>g_n_edges := g_n_edges g + 1\<rparr>) }
   | _ \<Rightarrow> Some g)"

definition r_graph_add_edge :: "nat option \<Rightarrow> nat option \<Rightarrow> 'd rgraph \<Rightarrow> 'd rgraph option" where
  "r_graph_add_edge from to g = r_graph_add_edge_at from to (- 1) g"

definition r_graph_adjacent :: "'d rgraph \<Rightarrow> nat option \<Rightarrow> nat \<Rightarrow> bool option" where
  "r_graph_adjacent g from to = (case from of
     None \<Rightarrow> Some False
   | Some a \<Rightarrow> do { m \<leftarrow> node g a; Some (to \<in> set (gn_out m)) })"

definition r_graph_del_edge :: "nat option \<Rightarrow> nat option \<Rightarrow> 'd rgraph \<Rightarrow> 'd rgraph option" where
  "r_graph_del_edge from to g = (case (from, to) of
     (Some a, Some b) \<Rightarrow> do {
       adj \<leftarrow> r_graph_adjacent g from b;
       (if adj then do {
          g \<leftarrow> upd_node a (\<lambda>m. m\<lparr>gn_out := remove1 b (gn_out m)\<rparr>) g;
          g \<leftarrow> upd_node a (\<lambda>m. m\<lparr>gn_all := remove1 b (gn_all m)\<rparr>) g;
          g \<leftarrow> upd_node b (\<lambda>m. m\<lparr>gn_in := remove1 a (gn_in m)\<rparr>) g;
          g \<leftarrow> upd_node b (\<lambda>m. m\<lparr>gn_all := remove1 a (gn_all m)\<rparr>) g;
          Some (g\<lparr>g_n_edges := g_n_edges g - 1\<rparr>) }
        else Some g) }
   | _ \<Rightarrow> Some g)"

text \<open>The accessors; \<open>NULL\<close> for a list is \<open>Some None\<close>.\<close>

definition r_graph_get_neighbours :: "'d rgraph \<Rightarrow> nat option \<Rightarrow> nat list option option" where
  "r_graph_get_neighbours g n = (case n of None \<Rightarrow> Some None | Some a \<Rightarrow> do { m \<leftarrow> node g a; Some (Some (gn_out m)) })"

definition r_graph_innodes :: "'d rgraph \<Rightarrow> nat option \<Rightarrow> nat list option option" where
  "r_graph_innodes g n = (case n of None \<Rightarrow> Some None | Some a \<Rightarrow> do { m \<leftarrow> node g a; Some (Some (gn_in m)) })"

definition r_graph_all_neighbours :: "'d rgraph \<Rightarrow> nat option \<Rightarrow> nat list option option" where
  "r_graph_all_neighbours g n = (case n of None \<Rightarrow> Some None | Some a \<Rightarrow> do { m \<leftarrow> node g a; Some (Some (gn_all m)) })"

definition r_graph_nth_neighbour :: "'d rgraph \<Rightarrow> nat option \<Rightarrow> int \<Rightarrow> nat option option" where
  "r_graph_nth_neighbour g n i = (case n of
     None \<Rightarrow> Some None
   | Some a \<Rightarrow> do { m \<leftarrow> node g a; Some (nth_opt (gn_out m) i) })"

section \<open>Depth-first search\<close>

datatype color = WHITE_COLOR | GRAY_COLOR | BLACK_COLOR

record gedge =
  ge_from :: "nat option"
  ge_to :: "nat option"
  ge_nth :: int

record 'v visitor =
  discover_node :: "(nat \<Rightarrow> 'v \<Rightarrow> 'v) option"
  finish_node :: "(nat \<Rightarrow> 'v \<Rightarrow> 'v) option"
  tree_edge :: "(gedge \<Rightarrow> 'v \<Rightarrow> 'v) option"
  back_edge :: "(gedge \<Rightarrow> 'v \<Rightarrow> 'v) option"
  fcross_edge :: "(gedge \<Rightarrow> 'v \<Rightarrow> 'v) option"

definition notify :: "('x \<Rightarrow> 'v \<Rightarrow> 'v) option \<Rightarrow> 'x \<Rightarrow> 'v \<Rightarrow> 'v" where
  "notify f x v = (case f of None \<Rightarrow> v | Some f \<Rightarrow> f x v)"

definition color_of :: "'d rgraph \<Rightarrow> color list \<Rightarrow> nat \<Rightarrow> color option" where
  "color_of g color a = do { n \<leftarrow> node g a; nth_opt color (uint (gn_idx n)) }"

definition set_color :: "'d rgraph \<Rightarrow> nat \<Rightarrow> color \<Rightarrow> color list \<Rightarrow> color list option" where
  "set_color g a c color = do { n \<leftarrow> node g a; buf_write color (unat (gn_idx n)) [c] }"

text \<open>The report on an edge taken from the stack, and the end of a node when the edge has no target.\<close>

definition dfs_edge :: "'d rgraph \<Rightarrow> 'v visitor \<Rightarrow> gedge \<Rightarrow> color list \<Rightarrow> 'v \<Rightarrow> (color list \<times> 'v) option" where
  "dfs_edge g vis e color v = (case (ge_from e, ge_to e) of
     (Some a, Some b) \<Rightarrow> do {
       c \<leftarrow> color_of g color b;
       Some (color, case c of
          WHITE_COLOR \<Rightarrow> notify (tree_edge vis) e v
        | GRAY_COLOR \<Rightarrow> notify (back_edge vis) e v
        | BLACK_COLOR \<Rightarrow> notify (fcross_edge vis) e v) }
   | (Some a, None) \<Rightarrow> do {
       c \<leftarrow> color_of g color a;
       color' \<leftarrow> set_color g a BLACK_COLOR color;
       Some (color', if c \<noteq> BLACK_COLOR then notify (finish_node vis) a v else v) }
   | _ \<Rightarrow> Some (color, v))"

fun push_edges :: "(nat \<Rightarrow> gedge option) \<Rightarrow> nat \<Rightarrow> int \<Rightarrow> nat list \<Rightarrow> gedge rstack \<Rightarrow> gedge rstack option" where
  "push_edges junk a i [] s = Some s"
| "push_edges junk a i (b # bs) s = do {
     s \<leftarrow> r_stack_push junk (Some \<lparr>ge_from = Some a, ge_to = Some b, ge_nth = i\<rparr>) s;
     push_edges junk a (i + 1) bs s }"

fun dfs_loop ::
  "nat \<Rightarrow> (nat \<Rightarrow> gedge option) \<Rightarrow> 'd rgraph \<Rightarrow> 'v visitor \<Rightarrow> gedge rstack \<Rightarrow> color list \<Rightarrow> 'v \<Rightarrow> (color list \<times> 'v) option" where
  "dfs_loop 0 junk g vis s color v = None"
| "dfs_loop (Suc k) junk g vis s color v =
     (if r_stack_is_empty s then Some (color, v)
      else do {
        (r, s) \<leftarrow> r_stack_pop s;
        e \<leftarrow> r;
        (color, v) \<leftarrow> dfs_edge g vis e color v;
        (case ge_to e of
           None \<Rightarrow> dfs_loop k junk g vis s color v
         | Some a \<Rightarrow> do {
             c \<leftarrow> color_of g color a;
             (if c \<noteq> WHITE_COLOR then dfs_loop k junk g vis s color v
              else (let v = notify (discover_node vis) a v in do {
                color \<leftarrow> set_color g a GRAY_COLOR color;
                s \<leftarrow> r_stack_push junk (Some \<lparr>ge_from = Some a, ge_to = None, ge_nth = 0\<rparr>) s;
                n \<leftarrow> node g a;
                s \<leftarrow> push_edges junk a 0 (gn_out n) s;
                dfs_loop k junk g vis s color v })) }) })"

definition dfs_node ::
  "nat \<Rightarrow> (nat \<Rightarrow> gedge option) \<Rightarrow> 'd rgraph \<Rightarrow> nat \<Rightarrow> 'v visitor \<Rightarrow> color list \<Rightarrow> 'v \<Rightarrow> (color list \<times> 'v) option" where
  "dfs_node k junk g n vis color v = do {
     s \<leftarrow> r_stack_push junk (Some \<lparr>ge_from = None, ge_to = Some n, ge_nth = 0\<rparr>) (r_stack_new (2 * g_n_edges g + 1));
     dfs_loop k junk g vis s color v }"

definition r_graph_dfs_node ::
  "nat \<Rightarrow> (nat \<Rightarrow> gedge option) \<Rightarrow> 'd rgraph \<Rightarrow> nat option \<Rightarrow> 'v visitor \<Rightarrow> 'v \<Rightarrow> 'v option" where
  "r_graph_dfs_node k junk g n vis v = (case n of
     None \<Rightarrow> Some v
   | Some n \<Rightarrow> map_option snd (dfs_node k junk g n vis (replicate (nat (g_last_index g)) WHITE_COLOR) v))"

fun dfs_all ::
  "nat \<Rightarrow> (nat \<Rightarrow> gedge option) \<Rightarrow> 'd rgraph \<Rightarrow> nat list \<Rightarrow> 'v visitor \<Rightarrow> color list \<Rightarrow> 'v \<Rightarrow> (color list \<times> 'v) option" where
  "dfs_all k junk g [] vis color v = Some (color, v)"
| "dfs_all k junk g (n # ns) vis color v = do {
     c \<leftarrow> color_of g color n;
     (color, v) \<leftarrow> (if c = WHITE_COLOR then dfs_node k junk g n vis color v else Some (color, v));
     dfs_all k junk g ns vis color v }"

definition r_graph_dfs ::
  "nat \<Rightarrow> (nat \<Rightarrow> gedge option) \<Rightarrow> 'd rgraph \<Rightarrow> 'v visitor \<Rightarrow> 'v \<Rightarrow> 'v option" where
  "r_graph_dfs k junk g vis v =
     map_option snd (dfs_all k junk g (g_nodes g) vis (replicate (nat (g_last_index g)) WHITE_COLOR) v)"

section \<open>The lists underneath\<close>

lemma insert_seq:
  assumes "repr h l es"
  shows "\<exists>l' h' es'. r_list_insert n (Some x) l h = Some (Some (length h), l', h') \<and> repr h' l' es' \<and>
    map snd es' = seq_insert n x (map snd es)"
proof (cases "0 \<le> n")
  case True
  from insert_repr [OF assms True, of x] obtain l' h' where
    "r_list_insert n (Some x) l h = Some (Some (length h), l', h')"
    "repr h' l' (take (nat n) es @ (length h, x) # drop (nat n) es)" by blast
  moreover have "map snd (take (nat n) es @ (length h, x) # drop (nat n) es) = seq_insert n x (map snd es)"
    using True by (auto simp: seq_insert_def take_map drop_map)
  ultimately show ?thesis by blast
next
  case False
  show ?thesis
  proof (cases "es = []")
    case True
    then have "r_list_insert n (Some x) l h = r_list_prepend (Some x) l h"
      using assms by (simp add: r_list_insert_def repr_def)
    then show ?thesis using prepend_repr [OF assms, of x] True by (auto simp: seq_insert_def intro!: exI [of _ "[(length h, x)]"])
  next
    case ne: False
    then have "r_list_insert n (Some x) l h = r_list_append (Some x) l h"
      using False assms by (auto simp: r_list_insert_def seek_n_repr [OF assms]) (simp add: repr_def)
    then show ?thesis using append_repr [OF assms, of x] ne False by (auto simp: seq_insert_def intro!: exI [of _ "es @ [(length h, x)]"])
  qed
qed

end
