(* ===== verification/R2_Graph_Dfs.thy ===== *)
theory R2_Graph_Dfs
  imports R2_Graph
begin

text \<open>
  The depth-first search. Its loop over the stack is shown to end, to discover exactly the nodes that can be
  reached, each once, and to finish each of them once; the report to any visitor is the replay of one trace.
\<close>

section \<open>Traces\<close>

datatype event = Discover nat | Finish nat | Tree gedge | Back gedge | Cross gedge

definition recorder :: "event list visitor" where
  "recorder = \<lparr>discover_node = Some (\<lambda>a es. es @ [Discover a]), finish_node = Some (\<lambda>a es. es @ [Finish a]),
     tree_edge = Some (\<lambda>e es. es @ [Tree e]), back_edge = Some (\<lambda>e es. es @ [Back e]),
     fcross_edge = Some (\<lambda>e es. es @ [Cross e])\<rparr>"

fun play :: "'v visitor \<Rightarrow> event \<Rightarrow> 'v \<Rightarrow> 'v" where
  "play vis (Discover a) v = notify (discover_node vis) a v"
| "play vis (Finish a) v = notify (finish_node vis) a v"
| "play vis (Tree e) v = notify (tree_edge vis) e v"
| "play vis (Back e) v = notify (back_edge vis) e v"
| "play vis (Cross e) v = notify (fcross_edge vis) e v"

definition replay :: "'v visitor \<Rightarrow> 'v \<Rightarrow> color list \<times> event list \<Rightarrow> color list \<times> 'v" where
  "replay vis v r = (fst r, fold (play vis) (snd r) v)"

lemma notify_recorder [simp]:
  "notify (discover_node recorder) a es = es @ [Discover a]" "notify (finish_node recorder) a es = es @ [Finish a]"
  "notify (tree_edge recorder) e es = es @ [Tree e]" "notify (back_edge recorder) e es = es @ [Back e]"
  "notify (fcross_edge recorder) e es = es @ [Cross e]"
  by (simp_all add: recorder_def notify_def)

lemma dfs_edge_replay:
  "dfs_edge g vis e color (fold (play vis) es v) = map_option (replay vis v) (dfs_edge g recorder e color es)"
  by (auto simp: dfs_edge_def replay_def map_option_case split: option.split color.split Option.bind_split)

lemma dfs_loop_replay:
  "dfs_loop k junk g vis s color (fold (play vis) es v) = map_option (replay vis v) (dfs_loop k junk g recorder s color es)"
proof (induction k arbitrary: s color es)
  case (Suc k)
  show ?case
  proof (cases "r_stack_is_empty s")
    case True
    then show ?thesis by (simp add: replay_def)
  next
    case False
    have d: "notify (discover_node vis) a (fold (play vis) es v) = fold (play vis) (es @ [Discover a]) v" for a es
      by simp
    show ?thesis
      using False Suc
      by (auto simp: dfs_edge_replay Let_def d replay_def simp del: fold_append split: option.split Option.bind_split)
  qed
qed simp

section \<open>Searchable graphs\<close>

definition succs :: "'d rgraph \<Rightarrow> nat \<Rightarrow> nat list" where
  "succs g a = (case node g a of None \<Rightarrow> [] | Some n \<Rightarrow> gn_out n)"

definition node_idx :: "'d rgraph \<Rightarrow> nat \<Rightarrow> nat" where
  "node_idx g a = (case node g a of None \<Rightarrow> 0 | Some n \<Rightarrow> unat (gn_idx n))"

definition edges :: "'d rgraph \<Rightarrow> (nat \<times> nat) set" where
  "edges g = {(a, b). a \<in> set (g_nodes g) \<and> b \<in> set (succs g a)}"

text \<open>What the search relies on: the nodes are alive, have indices of their own inside the array of colors, and their
  successors are nodes.\<close>

definition dfs_ok :: "'d rgraph \<Rightarrow> bool" where
  "dfs_ok g \<longleftrightarrow> distinct (g_nodes g) \<and> inj_on (node_idx g) (set (g_nodes g)) \<and>
     (\<forall>a\<in>set (g_nodes g). node g a \<noteq> None \<and> int (node_idx g a) < g_last_index g \<and> set (succs g a) \<subseteq> set (g_nodes g))"

definition tint :: "'d rgraph \<Rightarrow> color list \<Rightarrow> nat \<Rightarrow> color" where
  "tint g color a = color ! node_idx g a"

lemma dfs_okD:
  assumes "dfs_ok g" "a \<in> set (g_nodes g)"
  obtains n where "node g a = Some n" "gn_out n = succs g a" "unat (gn_idx n) = node_idx g a"
    "int (node_idx g a) < g_last_index g" "set (succs g a) \<subseteq> set (g_nodes g)"
  using assms unfolding dfs_ok_def succs_def node_idx_def by fastforce

lemma color_of_ok:
  assumes "dfs_ok g" "a \<in> set (g_nodes g)" "int (length color) = g_last_index g"
  shows "color_of g color a = Some (tint g color a)"
proof -
  obtain n where n: "node g a = Some n" "unat (gn_idx n) = node_idx g a" "int (node_idx g a) < g_last_index g"
    using dfs_okD [OF assms(1,2)] by metis
  have "uint (gn_idx n) = int (node_idx g a)" using n(2) by (metis of_nat_unat)
  then show ?thesis using n assms(3) by (simp add: color_of_def nth_opt_def tint_def)
qed

lemma set_color_ok:
  assumes "dfs_ok g" "a \<in> set (g_nodes g)" "int (length color) = g_last_index g"
  shows "\<exists>color'. set_color g a c color = Some color' \<and> int (length color') = g_last_index g \<and>
    (\<forall>b\<in>set (g_nodes g). tint g color' b = ((tint g color)(a := c)) b)"
proof -
  obtain n where n: "node g a = Some n" "unat (gn_idx n) = node_idx g a" "int (node_idx g a) < g_last_index g"
    using dfs_okD [OF assms(1,2)] by metis
  have l: "node_idx g a < length color" using n(3) assms(3) by simp
  then have "set_color g a c color = Some (color[node_idx g a := c])"
    using n by (simp add: set_color_def buf_write_def upd_conv_take_nth_drop)
  moreover have "tint g (color[node_idx g a := c]) b = ((tint g color)(a := c)) b" if "b \<in> set (g_nodes g)" for b
    using l that assms(1,2) by (auto simp: tint_def nth_list_update dfs_ok_def dest: inj_onD)
  ultimately show ?thesis using assms(3) by simp
qed

section \<open>The invariant of the loop\<close>

definition discovered :: "event list \<Rightarrow> nat list" where
  "discovered es = concat (map (\<lambda>e. case e of Discover a \<Rightarrow> [a] | _ \<Rightarrow> []) es)"

definition finished :: "event list \<Rightarrow> nat list" where
  "finished es = concat (map (\<lambda>e. case e of Finish a \<Rightarrow> [a] | _ \<Rightarrow> []) es)"

lemma trace_simps [simp]:
  "discovered (es @ [e]) = discovered es @ (case e of Discover a \<Rightarrow> [a] | _ \<Rightarrow> [])"
  "finished (es @ [e]) = finished es @ (case e of Finish a \<Rightarrow> [a] | _ \<Rightarrow> [])"
  "discovered [] = []" "finished [] = []"
  by (simp_all add: discovered_def finished_def)

text \<open>The trace agrees with the colors.\<close>

definition traced :: "'d rgraph \<Rightarrow> (nat \<Rightarrow> color) \<Rightarrow> event list \<Rightarrow> bool" where
  "traced g col es \<longleftrightarrow>
     distinct (discovered es) \<and> set (discovered es) = {a \<in> set (g_nodes g). col a \<noteq> WHITE_COLOR} \<and>
     distinct (finished es) \<and> set (finished es) = {a \<in> set (g_nodes g). col a = BLACK_COLOR}"

text \<open>
  What is still to be done lies on the stack \<open>todo\<close>; \<open>D\<close> are the discovered and \<open>F\<close> the finished nodes, \<open>R\<close> is a set of
  nodes that the search stays in.
\<close>

definition pending :: "'d rgraph \<Rightarrow> nat set \<Rightarrow> gedge list \<Rightarrow> nat set \<Rightarrow> nat set \<Rightarrow> bool" where
  "pending g R todo D F \<longleftrightarrow> D \<subseteq> R \<and>
     (\<forall>e\<in>set todo. case ge_to e of Some b \<Rightarrow> b \<in> R | None \<Rightarrow> (\<exists>a\<in>D. ge_from e = Some a)) \<and>
     (\<forall>a\<in>D. \<forall>b\<in>set (succs g a). b \<in> D \<or> (\<exists>e\<in>set todo. ge_to e = Some b)) \<and>
     (\<forall>a\<in>D. a \<in> F \<or> (\<exists>e\<in>set todo. ge_from e = Some a \<and> ge_to e = None))"

lemma traced_cong: "(\<forall>a\<in>set (g_nodes g). col a = col' a) \<Longrightarrow> traced g col es = traced g col' es"
proof -
  assume "\<forall>a\<in>set (g_nodes g). col a = col' a"
  then have "{a \<in> set (g_nodes g). col a \<noteq> WHITE_COLOR} = {a \<in> set (g_nodes g). col' a \<noteq> WHITE_COLOR}"
    "{a \<in> set (g_nodes g). col a = BLACK_COLOR} = {a \<in> set (g_nodes g). col' a = BLACK_COLOR}" by auto
  then show ?thesis by (simp only: traced_def)
qed

text \<open>One lemma per kind of turn: an edge to a node that is known, the end of a node, and a new node.\<close>

lemma traced_edge [simp]:
  "traced g col (es @ [Tree e]) = traced g col es" "traced g col (es @ [Back e]) = traced g col es"
  "traced g col (es @ [Cross e]) = traced g col es"
  by (simp_all add: traced_def)

lemma traced_finish:
  "traced g col es \<Longrightarrow> a \<in> set (discovered es) \<Longrightarrow>
   traced g (col(a := BLACK_COLOR)) (if col a \<noteq> BLACK_COLOR then es @ [Finish a] else es)"
  by (auto simp: traced_def)

lemma traced_discover:
  "traced g col es \<Longrightarrow> a \<in> set (g_nodes g) \<Longrightarrow> col a = WHITE_COLOR \<Longrightarrow> traced g (col(a := GRAY_COLOR)) (es @ [Discover a])"
  by (auto simp: traced_def)

lemma pending_skip: "pending g R (e # todo) D F \<Longrightarrow> ge_to e = Some b \<Longrightarrow> b \<in> D \<Longrightarrow> pending g R todo D F"
  unfolding pending_def by (auto 5 2)

lemma pending_finish:
  "pending g R (e # todo) D F \<Longrightarrow> ge_from e = Some a \<Longrightarrow> ge_to e = None \<Longrightarrow> pending g R todo D (insert a F)"
  unfolding pending_def by (auto 5 2)

fun out_edges :: "nat \<Rightarrow> int \<Rightarrow> nat list \<Rightarrow> gedge list" where
  "out_edges a i [] = []"
| "out_edges a i (b # bs) = \<lparr>ge_from = Some a, ge_to = Some b, ge_nth = i\<rparr> # out_edges a (i + 1) bs"

lemma pending_discover:
  assumes "pending g R (e # todo) D F" "ge_to e = Some a" "set (succs g a) \<subseteq> R"
    "ge_to ` set outs = Some ` set (succs g a)" "ge_from f = Some a" "ge_to f = None"
  shows "pending g R (outs @ f # todo) (insert a D) F"
proof -
  have p: "D \<subseteq> R" "a \<in> R" "\<And>e. e \<in> set todo \<Longrightarrow> case ge_to e of Some b \<Rightarrow> b \<in> R | None \<Rightarrow> (\<exists>a\<in>D. ge_from e = Some a)"
    "\<And>c b. c \<in> D \<Longrightarrow> b \<in> set (succs g c) \<Longrightarrow> b \<in> D \<or> b = a \<or> (\<exists>e\<in>set todo. ge_to e = Some b)"
    "\<And>c. c \<in> D \<Longrightarrow> c \<in> F \<or> (\<exists>e\<in>set todo. ge_from e = Some c \<and> ge_to e = None)"
    using assms(1,2) unfolding pending_def by auto
  have o: "\<exists>b\<in>set (succs g a). ge_to e = Some b" if "e \<in> set outs" for e using assms(4) that by (metis imageE imageI)
  have s: "\<exists>e\<in>set outs. ge_to e = Some b" if "b \<in> set (succs g a)" for b using assms(4) that by (metis imageE imageI)
  show ?thesis
    unfolding pending_def
  proof (intro conjI ballI)
    show "insert a D \<subseteq> R" using p(1,2) by simp
  next
    fix d assume "d \<in> set (outs @ f # todo)"
    then consider "d \<in> set outs" | "d = f" | "d \<in> set todo" by auto
    then show "case ge_to d of Some b \<Rightarrow> b \<in> R | None \<Rightarrow> (\<exists>c\<in>insert a D. ge_from d = Some c)"
    proof cases
      case 1
      then show ?thesis using o [of d] assms(3) by auto
    next
      case 2
      then show ?thesis using assms(5,6) by simp
    next
      case 3
      then show ?thesis using p(3) [of d] by (auto split: option.splits)
    qed
  next
    fix c b assume "c \<in> insert a D" "b \<in> set (succs g c)"
    then show "b \<in> insert a D \<or> (\<exists>e\<in>set (outs @ f # todo). ge_to e = Some b)"
      using p(4) [of c b] s [of b] by auto
  next
    fix c assume "c \<in> insert a D"
    then show "c \<in> F \<or> (\<exists>e\<in>set (outs @ f # todo). ge_from e = Some c \<and> ge_to e = None)"
      using p(5) [of c] assms(5,6) by auto
  qed
qed

lemma push_edges_add: "push_edges junk a i bs s = add_all (\<lambda>x. r_stack_push junk (Some x)) (out_edges a i bs) s"
proof (induction bs arbitrary: i s)
  case (Cons b bs)
  then show ?case by (cases "r_stack_push junk (Some \<lparr>ge_from = Some a, ge_to = Some b, ge_nth = i\<rparr>) s") simp_all
qed simp

lemma out_edges_length [simp]: "length (out_edges a i bs) = length bs"
  by (induction bs arbitrary: i) simp_all

lemma out_edges_targets: "ge_to ` set (out_edges a i bs) = Some ` set bs"
  by (induction bs arbitrary: i) simp_all

section \<open>The search ends and finds what can be reached\<close>

text \<open>The weight of the nodes that are still white: each of them will push one entry and one per successor.\<close>

definition white_weight :: "'d rgraph \<Rightarrow> (nat \<Rightarrow> color) \<Rightarrow> nat" where
  "white_weight g col = (\<Sum>a\<leftarrow>g_nodes g. if col a = WHITE_COLOR then Suc (length (succs g a)) else 0)"

definition dfs_fuel :: "'d rgraph \<Rightarrow> nat" where
  "dfs_fuel g = (\<Sum>a\<leftarrow>g_nodes g. Suc (length (succs g a))) + 2"

lemma white_weight_sum: "dfs_ok g \<Longrightarrow> white_weight g col = (\<Sum>a\<in>set (g_nodes g). if col a = WHITE_COLOR then Suc (length (succs g a)) else 0)"
  by (simp add: white_weight_def dfs_ok_def sum_list_distinct_conv_sum_set)

lemma white_weight_cong: "(\<forall>a\<in>set (g_nodes g). col a = col' a) \<Longrightarrow> white_weight g col = white_weight g col'"
  unfolding white_weight_def by (intro arg_cong [of _ _ sum_list] map_cong) auto

lemma white_weight_discover:
  assumes "dfs_ok g" "a \<in> set (g_nodes g)" "col a = WHITE_COLOR"
  shows "white_weight g col = white_weight g (col(a := GRAY_COLOR)) + Suc (length (succs g a))"
  unfolding white_weight_sum [OF assms(1)]
  using assms(2,3) by (subst (1 2) sum.remove [of _ a]) (auto intro!: sum.cong)

lemma white_weight_finish:
  "dfs_ok g \<Longrightarrow> white_weight g (col(a := BLACK_COLOR)) \<le> white_weight g col"
  unfolding white_weight_sum by (auto intro!: sum_mono)

lemma white_weight_le: "white_weight g col + 2 \<le> dfs_fuel g"
  by (auto simp: white_weight_def dfs_fuel_def intro!: sum_list_mono)

definition searching ::
  "'d rgraph \<Rightarrow> nat set \<Rightarrow> gedge rstack \<Rightarrow> gedge list \<Rightarrow> color list \<Rightarrow> event list \<Rightarrow> bool" where
  "searching g R s todo color es \<longleftrightarrow> stack_holds s todo \<and> int (length color) = g_last_index g \<and> traced g (tint g color) es \<and>
     pending g R todo (set (discovered es)) (set (finished es)) \<and> length todo + white_weight g (tint g color) \<le> 2 ^ 30"

definition targets :: "gedge list \<Rightarrow> nat set" where
  "targets todo = {b. \<exists>e\<in>set todo. ge_to e = Some b}"

lemma targets_simps [simp]:
  "targets [] = {}" "targets (e # todo) = set_option (ge_to e) \<union> targets todo"
  "targets (xs @ ys) = targets xs \<union> targets ys"
  by (auto simp: targets_def)

text \<open>A turn of the loop leads to a state from which less is left to do.\<close>

definition turns_to ::
  "(nat \<Rightarrow> gedge option) \<Rightarrow> 'd rgraph \<Rightarrow> nat set \<Rightarrow> gedge rstack \<Rightarrow> gedge list \<Rightarrow> color list \<Rightarrow> event list \<Rightarrow>
   gedge rstack \<Rightarrow> gedge list \<Rightarrow> color list \<Rightarrow> event list \<Rightarrow> bool" where
  "turns_to junk g R s todo color es s' todo' color' es' \<longleftrightarrow>
     (\<forall>k. dfs_loop (Suc k) junk g recorder s color es = dfs_loop k junk g recorder s' color' es') \<and>
     searching g R s' todo' color' es' \<and>
     length todo' + white_weight g (tint g color') < length todo + white_weight g (tint g color) \<and>
     set (discovered es) \<union> targets todo \<subseteq> set (discovered es') \<union> targets todo'"

lemma searching_pop:
  assumes "searching g R s (e # todo) color es"
  obtains s' where "r_stack_pop s = Some (Some e, s')" "stack_holds s' todo" "\<not> r_stack_is_empty s"
  using assms stk.take_law [of s e todo] stack_empty_iff [of s "e # todo"] unfolding searching_def by auto

lemma turn_finish:
  assumes "dfs_ok g" "R \<subseteq> set (g_nodes g)" "searching g R s (e # todo) color es" "ge_to e = None"
  shows "\<exists>s' color' es'. turns_to junk g R s (e # todo) color es s' todo color' es'"
proof -
  have p: "int (length color) = g_last_index g" "traced g (tint g color) es"
    "pending g R (e # todo) (set (discovered es)) (set (finished es))" using assms(3) by (simp_all add: searching_def)
  obtain a where a: "ge_from e = Some a" "a \<in> set (discovered es)" "a \<in> set (g_nodes g)"
    using p(3) assms(2,4) unfolding pending_def by auto
  obtain s' where s': "r_stack_pop s = Some (Some e, s')" "stack_holds s' todo" "\<not> r_stack_is_empty s"
    using searching_pop [OF assms(3)] .
  obtain color' where c: "set_color g a BLACK_COLOR color = Some color'" "int (length color') = g_last_index g"
    "\<forall>b\<in>set (g_nodes g). tint g color' b = ((tint g color)(a := BLACK_COLOR)) b"
    using set_color_ok [OF assms(1) a(3) p(1), of BLACK_COLOR] by blast
  define es' where "es' = (if tint g color a \<noteq> BLACK_COLOR then es @ [Finish a] else es)"
  have t: "traced g (tint g color') es'"
    using traced_finish [OF p(2) a(2)] traced_cong [of g "tint g color'" "(tint g color)(a := BLACK_COLOR)", OF c(3)] by (simp add: es'_def)
  have f: "set (discovered es') = set (discovered es)" "set (finished es') = insert a (set (finished es))"
    using p(2) a(3) by (auto simp: es'_def traced_def)
  have w: "white_weight g (tint g color') \<le> white_weight g (tint g color)"
    using white_weight_finish [OF assms(1)] white_weight_cong [of g "tint g color'" "(tint g color)(a := BLACK_COLOR)", OF c(3)] by simp
  have "searching g R s' todo color' es'"
    using s'(2) c(2) t pending_finish [OF p(3) a(1) assms(4)] w assms(3) by (simp add: searching_def f)
  moreover have "dfs_loop (Suc k) junk g recorder s color es = dfs_loop k junk g recorder s' color' es'" for k
    using s' a(1) assms(4) c(1) color_of_ok [OF assms(1) a(3) p(1)] by (simp add: dfs_edge_def es'_def)
  ultimately show ?thesis using w f(1) assms(4) unfolding turns_to_def by fastforce
qed

lemma edge_event:
  assumes "dfs_ok g" "b \<in> set (g_nodes g)" "int (length color) = g_last_index g" "ge_to e = Some b" "traced g (tint g color) es"
  obtains es' where "dfs_edge g recorder e color es = Some (color, es')" "discovered es' = discovered es" "finished es' = finished es"
    "traced g (tint g color) es'"
  using assms color_of_ok [OF assms(1-3)]
  by (cases "ge_from e"; cases "tint g color b") (auto simp: dfs_edge_def)

lemma turn_known:
  assumes "dfs_ok g" "R \<subseteq> set (g_nodes g)" "searching g R s (e # todo) color es" "ge_to e = Some b" "tint g color b \<noteq> WHITE_COLOR"
  shows "\<exists>s' color' es'. turns_to junk g R s (e # todo) color es s' todo color' es'"
proof -
  have p: "int (length color) = g_last_index g" "traced g (tint g color) es"
    "pending g R (e # todo) (set (discovered es)) (set (finished es))" using assms(3) by (simp_all add: searching_def)
  have b: "b \<in> set (g_nodes g)" "b \<in> set (discovered es)"
    using p assms(2,4,5) unfolding pending_def traced_def by auto
  obtain s' where s': "r_stack_pop s = Some (Some e, s')" "stack_holds s' todo" "\<not> r_stack_is_empty s"
    using searching_pop [OF assms(3)] .
  obtain es' where e: "dfs_edge g recorder e color es = Some (color, es')" "discovered es' = discovered es" "finished es' = finished es"
    "traced g (tint g color) es'" using edge_event [OF assms(1) b(1) p(1) assms(4) p(2)] by metis
  have "searching g R s' todo color es'"
    using s'(2) p(1) e pending_skip [OF p(3) assms(4) b(2)] assms(3) by (simp add: searching_def)
  moreover have "dfs_loop (Suc k) junk g recorder s color es = dfs_loop k junk g recorder s' color es'" for k
    using s' e(1) assms(4,5) color_of_ok [OF assms(1) b(1) p(1)] by simp
  ultimately show ?thesis using e(2) b(2) assms(4) unfolding turns_to_def by fastforce
qed

lemma turn_new:
  assumes "dfs_ok g" "R \<subseteq> set (g_nodes g)" "\<And>a. a \<in> R \<Longrightarrow> set (succs g a) \<subseteq> R"
    "searching g R s (e # todo) color es" "ge_to e = Some a" "tint g color a = WHITE_COLOR"
  shows "\<exists>s' todo' color' es'. turns_to junk g R s (e # todo) color es s' todo' color' es'"
proof -
  have p: "int (length color) = g_last_index g" "traced g (tint g color) es"
    "pending g R (e # todo) (set (discovered es)) (set (finished es))"
    "length (e # todo) + white_weight g (tint g color) \<le> 2 ^ 30" using assms(4) by (simp_all add: searching_def)
  have a: "a \<in> R" "a \<in> set (g_nodes g)" using p(3) assms(2,5) unfolding pending_def by auto
  obtain n where n: "node g a = Some n" "gn_out n = succs g a" using dfs_okD [OF assms(1) a(2)] by metis
  obtain s1 where s1: "r_stack_pop s = Some (Some e, s1)" "stack_holds s1 todo" "\<not> r_stack_is_empty s"
    using searching_pop [OF assms(4)] .
  obtain es1 where e: "dfs_edge g recorder e color es = Some (color, es1)" "discovered es1 = discovered es" "finished es1 = finished es"
    "traced g (tint g color) es1" using edge_event [OF assms(1) a(2) p(1) assms(5) p(2)] by metis
  obtain color' where c: "set_color g a GRAY_COLOR color = Some color'" "int (length color') = g_last_index g"
    "\<forall>b\<in>set (g_nodes g). tint g color' b = ((tint g color)(a := GRAY_COLOR)) b"
    using set_color_ok [OF assms(1) a(2) p(1), of GRAY_COLOR] by blast
  have w: "white_weight g (tint g color) = white_weight g (tint g color') + Suc (length (succs g a))"
    using white_weight_discover [of g a "tint g color", OF assms(1) a(2) assms(6)] white_weight_cong [of g "tint g color'" "(tint g color)(a := GRAY_COLOR)", OF c(3)] by simp
  let ?f = "\<lparr>ge_from = Some a, ge_to = None, ge_nth = 0\<rparr>"
  let ?todo = "rev (out_edges a 0 (succs g a)) @ ?f # todo"
  obtain s2 where s2: "r_stack_push junk (Some ?f) s1 = Some s2" "stack_holds s2 (?f # todo)"
    using stk.add_law [OF s1(2), of junk ?f] p(4) by auto
  obtain s3 where s3: "push_edges junk a 0 (succs g a) s2 = Some s3" "stack_holds s3 ?todo"
    using stk.add_all_holds [OF s2(2), of "out_edges a 0 (succs g a)"] p(4) w
    by (auto simp: push_edges_add fold_Cons_rev)
  have "traced g (tint g color') (es1 @ [Discover a])"
    using traced_discover [OF e(4) a(2) assms(6)] traced_cong [of g "tint g color'" "(tint g color)(a := GRAY_COLOR)", OF c(3)] by simp
  moreover have "pending g R ?todo (insert a (set (discovered es))) (set (finished es))"
    using pending_discover [OF p(3) assms(5) assms(3) [OF a(1)], of "rev (out_edges a 0 (succs g a))" ?f]
    by (simp add: out_edges_targets)
  ultimately have "searching g R s3 ?todo color' (es1 @ [Discover a])"
    using s3(2) c(2) e(2,3) p(4) w by (simp add: searching_def)
  moreover have "dfs_loop (Suc k) junk g recorder s color es = dfs_loop k junk g recorder s3 color' (es1 @ [Discover a])" for k
    using s1 e(1) assms(5,6) color_of_ok [OF assms(1) a(2) p(1)] c(1) s2(1) s3(1) n by simp
  ultimately show ?thesis using e(2) w assms(5) unfolding turns_to_def
    by (intro exI [of _ s3] exI [of _ ?todo] exI [of _ color'] exI [of _ "es1 @ [Discover a]"]) auto
qed

lemma dfs_loop_ok:
  assumes "dfs_ok g" "R \<subseteq> set (g_nodes g)" "\<And>a. a \<in> R \<Longrightarrow> set (succs g a) \<subseteq> R"
  shows "searching g R s todo color es \<Longrightarrow> length todo + white_weight g (tint g color) < k \<Longrightarrow>
    \<exists>s' color' es'. dfs_loop k junk g recorder s color es = Some (color', es') \<and> searching g R s' [] color' es' \<and>
      set (discovered es) \<union> targets todo \<subseteq> set (discovered es')"
proof (induction k arbitrary: s todo color es)
  case (Suc k)
  show ?case
  proof (cases todo)
    case Nil
    then have "r_stack_is_empty s" using Suc.prems(1) stack_empty_iff [of s "[]"] by (simp add: searching_def)
    then show ?thesis using Suc.prems(1) Nil by auto
  next
    case (Cons e rest)
    obtain s' todo' color' es' where t: "turns_to junk g R s todo color es s' todo' color' es'"
      using turn_finish [OF assms(1,2)] turn_known [OF assms(1,2)] turn_new [OF assms] Suc.prems(1) unfolding Cons
      by (metis option.exhaust)
    from Suc.IH [of s' todo' color' es'] t Suc.prems(2) obtain s'' color'' es'' where
      "dfs_loop k junk g recorder s' color' es' = Some (color'', es'')" "searching g R s'' [] color'' es''"
      "set (discovered es') \<union> targets todo' \<subseteq> set (discovered es'')" by (auto simp: turns_to_def)
    then show ?thesis using t unfolding turns_to_def by fastforce
  qed
qed simp

lemma searching_done:
  assumes "searching g R s [] color es"
  shows "set (finished es) = set (discovered es)" "set (discovered es) \<subseteq> R"
    "a \<in> set (discovered es) \<Longrightarrow> set (succs g a) \<subseteq> set (discovered es)"
proof -
  have "set (discovered es) \<subseteq> R" "\<forall>a\<in>set (discovered es). set (succs g a) \<subseteq> set (discovered es)"
    "set (discovered es) \<subseteq> set (finished es)" using assms by (auto simp: searching_def pending_def)
  moreover have "traced g (tint g color) es" using assms by (simp add: searching_def)
  then have "set (finished es) \<subseteq> set (discovered es)" by (auto simp: traced_def)
  ultimately show "set (finished es) = set (discovered es)" "set (discovered es) \<subseteq> R"
    "a \<in> set (discovered es) \<Longrightarrow> set (succs g a) \<subseteq> set (discovered es)" by blast+
qed

text \<open>A search from a node, when everything discovered before is finished.\<close>

lemma dfs_node_ok:
  assumes "dfs_ok g" "R \<subseteq> set (g_nodes g)" "\<And>a. a \<in> R \<Longrightarrow> set (succs g a) \<subseteq> R" "n \<in> R" "dfs_fuel g \<le> k" "dfs_fuel g \<le> 2 ^ 30"
    "unat (g_n_edges g) < 2 ^ 30" "int (length color) = g_last_index g" "traced g (tint g color) es"
    "pending g R [] (set (discovered es)) (set (finished es))"
  shows "\<exists>s color' es'. dfs_node k junk g n recorder color es = Some (color', es') \<and> searching g R s [] color' es' \<and>
    insert n (set (discovered es)) \<subseteq> set (discovered es')"
proof -
  let ?e = "\<lparr>ge_from = None, ge_to = Some n, ge_nth = 0\<rparr>"
  have u: "unat (2 * g_n_edges g + 1) = 2 * unat (g_n_edges g) + 1" using assms(7) by (simp add: unat_word_ariths)
  then have "stack_holds (r_stack_new (2 * g_n_edges g + 1)) ([] :: gedge list)"
    using assms(7) by (intro stack_new_holds) (simp_all add: word_less_nat_alt)
  from stk.add_law [OF this, of junk ?e] obtain s where
    s: "r_stack_push junk (Some ?e) (r_stack_new (2 * g_n_edges g + 1)) = Some s" "stack_holds s [?e]" by auto
  have "pending g R [?e] (set (discovered es)) (set (finished es))" using assms(4,10) by (auto simp: pending_def)
  moreover have w: "length [?e] + white_weight g (tint g color) < k" "length [?e] + white_weight g (tint g color) \<le> 2 ^ 30"
    using white_weight_le [of g "tint g color"] assms(5,6) by simp_all
  ultimately have "searching g R s [?e] color es" using s(2) assms(8,9) by (simp add: searching_def)
  from dfs_loop_ok [OF assms(1-3) this w(1), of junk] show ?thesis using s(1) by (auto simp: dfs_node_def)
qed

lemma dfs_all_ok:
  assumes "dfs_ok g" "dfs_fuel g \<le> k" "dfs_fuel g \<le> 2 ^ 30" "unat (g_n_edges g) < 2 ^ 30"
  shows "set ns \<subseteq> set (g_nodes g) \<Longrightarrow> searching g (set (g_nodes g)) s [] color es \<Longrightarrow>
    \<exists>s' color' es'. dfs_all k junk g ns recorder color es = Some (color', es') \<and>
      searching g (set (g_nodes g)) s' [] color' es' \<and> set ns \<union> set (discovered es) \<subseteq> set (discovered es')"
proof (induction ns arbitrary: s color es)
  case (Cons n ns)
  have n: "n \<in> set (g_nodes g)" using Cons.prems(1) by simp
  have p: "int (length color) = g_last_index g" "traced g (tint g color) es"
    "pending g (set (g_nodes g)) [] (set (discovered es)) (set (finished es))" using Cons.prems(2) by (simp_all add: searching_def)
  have cl: "set (succs g a) \<subseteq> set (g_nodes g)" if "a \<in> set (g_nodes g)" for a using assms(1) that by (simp add: dfs_ok_def)
  obtain s1 color1 es1 where 1: "(if tint g color n = WHITE_COLOR then dfs_node k junk g n recorder color es else Some (color, es)) = Some (color1, es1)"
    "searching g (set (g_nodes g)) s1 [] color1 es1" "insert n (set (discovered es)) \<subseteq> set (discovered es1)"
  proof (cases "tint g color n = WHITE_COLOR")
    case True
    then show ?thesis
      using that dfs_node_ok [OF assms(1) order_refl cl n assms(2-4) p, of junk] by auto
  next
    case False
    then have "n \<in> set (discovered es)" using p(2) n by (simp add: traced_def)
    then show ?thesis using False that Cons.prems(2) by auto
  qed
  from Cons.IH [OF _ 1(2)] Cons.prems(1) obtain s2 color2 es2 where
    2: "dfs_all k junk g ns recorder color1 es1 = Some (color2, es2)" "searching g (set (g_nodes g)) s2 [] color2 es2"
      "set ns \<union> set (discovered es1) \<subseteq> set (discovered es2)" by auto
  have "dfs_all k junk g (n # ns) recorder color es = Some (color2, es2)"
    using color_of_ok [OF assms(1) n p(1)] 1(1) 2(1) by (auto split: if_splits)
  then show ?case using 1(3) 2(2,3) by fastforce
qed auto

lemma dfs_node_replay:
  "dfs_node k junk g n vis color (fold (play vis) es v) = map_option (replay vis v) (dfs_node k junk g n recorder color es)"
  by (auto simp: dfs_node_def dfs_loop_replay split: Option.bind_split)

lemma dfs_all_replay:
  "dfs_all k junk g ns vis color (fold (play vis) es v) = map_option (replay vis v) (dfs_all k junk g ns recorder color es)"
proof (induction ns arbitrary: color es)
  case (Cons n ns)
  then show ?case
    by (auto simp: dfs_node_replay replay_def split: Option.bind_split)
qed (simp add: replay_def)

lemma nothing_traced: "0 \<le> g_last_index g \<Longrightarrow> dfs_ok g \<Longrightarrow> traced g (tint g (replicate (nat (g_last_index g)) WHITE_COLOR)) []"
proof -
  assume "0 \<le> g_last_index g" "dfs_ok g"
  then have "tint g (replicate (nat (g_last_index g)) WHITE_COLOR) a = WHITE_COLOR" if "a \<in> set (g_nodes g)" for a
    using that by (auto simp: tint_def dfs_ok_def)
  then show ?thesis by (auto simp: traced_def)
qed

lemma reachable_closed:
  assumes "dfs_ok g" "n \<in> set (g_nodes g)"
  shows "{a. (n, a) \<in> (edges g)\<^sup>*} \<subseteq> set (g_nodes g)"
    "a \<in> {a. (n, a) \<in> (edges g)\<^sup>*} \<Longrightarrow> set (succs g a) \<subseteq> {a. (n, a) \<in> (edges g)\<^sup>*}"
proof -
  have "a \<in> set (g_nodes g)" if "(n, a) \<in> (edges g)\<^sup>*" for a
    using that assms by (induction rule: rtrancl_induct) (auto simp: edges_def dfs_ok_def)
  then show "{a. (n, a) \<in> (edges g)\<^sup>*} \<subseteq> set (g_nodes g)" by blast
  then show "set (succs g a) \<subseteq> {a. (n, a) \<in> (edges g)\<^sup>*}" if "a \<in> {a. (n, a) \<in> (edges g)\<^sup>*}"
    using that by (auto simp: edges_def intro: rtrancl_into_rtrancl)
qed

end
