(* ===== verification/R2_Graph_Inv.thy ===== *)
theory R2_Graph_Inv
  imports R2_Graph_Dfs "HOL-Library.Multiset"
begin

text \<open>
  The invariant of the graphs: the lists of successors, predecessors and neighbours describe the same edges, the
  counters agree with them, and the search may be started. Every operation keeps it.
\<close>

section \<open>The invariant\<close>

definition preds :: "'d rgraph \<Rightarrow> nat \<Rightarrow> nat list" where
  "preds g a = (case node g a of None \<Rightarrow> [] | Some n \<Rightarrow> gn_in n)"

definition nbrs :: "'d rgraph \<Rightarrow> nat \<Rightarrow> nat list" where
  "nbrs g a = (case node g a of None \<Rightarrow> [] | Some n \<Rightarrow> gn_all n)"

definition linked :: "'d rgraph \<Rightarrow> bool" where
  "linked g \<longleftrightarrow> (\<forall>a\<in>set (g_nodes g). set (preds g a) \<subseteq> set (g_nodes g) \<and> mset (nbrs g a) = mset (succs g a) + mset (preds g a) \<and>
     (\<forall>b\<in>set (g_nodes g). count (mset (succs g a)) b = count (mset (preds g b)) a))"

definition graph_ok :: "'d rgraph \<Rightarrow> bool" where
  "graph_ok g \<longleftrightarrow> dfs_ok g \<and> linked g \<and> 0 \<le> g_last_index g \<and> g_last_index g < 2 ^ 31 \<and>
     g_n_nodes g = of_nat (length (g_nodes g)) \<and> g_n_edges g = of_nat (\<Sum>a\<leftarrow>g_nodes g. length (succs g a))"

lemma node_bound: "node g a = Some n \<Longrightarrow> a < length (g_store g)"
  by (simp add: node_def split: if_splits)

text \<open>What an update of one node does to the others.\<close>

definition same_shape :: "'d rgraph \<Rightarrow> 'd rgraph \<Rightarrow> bool" where
  "same_shape g g' \<longleftrightarrow> g_nodes g' = g_nodes g \<and> g_n_nodes g' = g_n_nodes g \<and> g_last_index g' = g_last_index g"

lemma upd_node_ok:
  assumes "node g a = Some n"
  shows "\<exists>g'. upd_node a f g = Some g' \<and> node g' = (node g)(a := Some (f n)) \<and> same_shape g g' \<and> g_n_edges g' = g_n_edges g"
proof -
  have "node (g\<lparr>g_store := (g_store g)[a := Some (f n)]\<rparr>) = (node g)(a := Some (f n))"
    using node_bound [OF assms] by (auto simp: node_def fun_eq_iff nth_list_update)
  then show ?thesis using assms by (simp add: upd_node_def same_shape_def)
qed

lemma upd_node_twice:
  assumes "node g a = Some n"
  obtains g1 g2 where "upd_node a f1 g = Some g1" "upd_node a f2 g1 = Some g2" "node g2 = (node g)(a := Some (f2 (f1 n)))"
    "same_shape g g2" "g_n_edges g2 = g_n_edges g"
proof -
  obtain g1 where g1: "upd_node a f1 g = Some g1" "node g1 = (node g)(a := Some (f1 n))" "same_shape g g1" "g_n_edges g1 = g_n_edges g"
    using upd_node_ok [OF assms, of f1] by blast
  then have "node g1 a = Some (f1 n)" by simp
  from upd_node_ok [OF this, of f2] obtain g2 where
    "upd_node a f2 g1 = Some g2" "node g2 = (node g1)(a := Some (f2 (f1 n)))" "same_shape g1 g2" "g_n_edges g2 = g_n_edges g1" by blast
  then show ?thesis using that [of g1 g2] g1 by (simp add: same_shape_def)
qed

lemma same_shape_trans: "same_shape g g' \<Longrightarrow> same_shape g' g'' \<Longrightarrow> same_shape g g''"
  by (simp add: same_shape_def)

lemma mset_remove1_funpow [simp]: "mset ((remove1 n ^^ k) xs) = mset xs - replicate_mset k n"
  by (induction k) (simp_all add: diff_diff_add_mset)

lemma unlink_ins_ok:
  "set as \<subseteq> {a. node g a \<noteq> None} \<Longrightarrow>
   \<exists>g'. unlink_ins n as g = Some g' \<and> same_shape g g' \<and> g_n_edges g' = g_n_edges g - of_nat (length as) \<and>
     (\<forall>b. node g' b = map_option (\<lambda>m. m\<lparr>gn_out := (remove1 n ^^ count (mset as) b) (gn_out m),
       gn_all := (remove1 n ^^ count (mset as) b) (gn_all m)\<rparr>) (node g b))"
proof (induction as arbitrary: g)
  case Nil
  show ?case by (simp add: same_shape_def option.map_ident)
next
  case (Cons a as)
  obtain m where m: "node g a = Some m" using Cons.prems by auto
  obtain g1 g2 where g2: "upd_node a (\<lambda>m. m\<lparr>gn_out := remove1 n (gn_out m)\<rparr>) g = Some g1"
    "upd_node a (\<lambda>m. m\<lparr>gn_all := remove1 n (gn_all m)\<rparr>) g1 = Some g2"
    "node g2 = (node g)(a := Some (m\<lparr>gn_out := remove1 n (gn_out m), gn_all := remove1 n (gn_all m)\<rparr>))"
    "same_shape g g2" "g_n_edges g2 = g_n_edges g"
    by (rule upd_node_twice [OF m, of "\<lambda>m. m\<lparr>gn_out := remove1 n (gn_out m)\<rparr>" "\<lambda>m. m\<lparr>gn_all := remove1 n (gn_all m)\<rparr>"]) simp
  let ?g3 = "g2\<lparr>g_n_edges := g_n_edges g2 - 1\<rparr>"
  have n3: "node ?g3 = node g2" by (simp add: node_def fun_eq_iff)
  then have "set as \<subseteq> {a. node ?g3 a \<noteq> None}" using Cons.prems g2(3) by auto
  from Cons.IH [OF this] obtain g' where
    g': "unlink_ins n as ?g3 = Some g'" "same_shape ?g3 g'" "g_n_edges g' = g_n_edges ?g3 - of_nat (length as)"
    "\<forall>b. node g' b = map_option (\<lambda>m. m\<lparr>gn_out := (remove1 n ^^ count (mset as) b) (gn_out m),
       gn_all := (remove1 n ^^ count (mset as) b) (gn_all m)\<rparr>) (node g2 b)" unfolding n3 by blast
  have "node g' b = map_option (\<lambda>m. m\<lparr>gn_out := (remove1 n ^^ count (mset (a # as)) b) (gn_out m),
       gn_all := (remove1 n ^^ count (mset (a # as)) b) (gn_all m)\<rparr>) (node g b)" for b
    using g'(4) g2(3) m by (cases "b = a") (auto simp: funpow_swap1)
  moreover have "same_shape g g'" using g2(4) g'(2) by (simp add: same_shape_def)
  ultimately show ?case using g2(1,2,5) g'(1,3) by (auto simp: algebra_simps)
qed

lemma unlink_outs_ok:
  "set as \<subseteq> {a. node g a \<noteq> None} \<Longrightarrow>
   \<exists>g'. unlink_outs n as g = Some g' \<and> same_shape g g' \<and> g_n_edges g' = g_n_edges g - of_nat (length as) \<and>
     (\<forall>b. node g' b = map_option (\<lambda>m. m\<lparr>gn_in := (remove1 n ^^ count (mset as) b) (gn_in m),
       gn_all := (remove1 n ^^ count (mset as) b) (gn_all m)\<rparr>) (node g b))"
proof (induction as arbitrary: g)
  case Nil
  show ?case by (simp add: same_shape_def option.map_ident)
next
  case (Cons a as)
  obtain m where m: "node g a = Some m" using Cons.prems by auto
  obtain g1 g2 where g2: "upd_node a (\<lambda>m. m\<lparr>gn_in := remove1 n (gn_in m)\<rparr>) g = Some g1"
    "upd_node a (\<lambda>m. m\<lparr>gn_all := remove1 n (gn_all m)\<rparr>) g1 = Some g2"
    "node g2 = (node g)(a := Some (m\<lparr>gn_in := remove1 n (gn_in m), gn_all := remove1 n (gn_all m)\<rparr>))"
    "same_shape g g2" "g_n_edges g2 = g_n_edges g"
    by (rule upd_node_twice [OF m, of "\<lambda>m. m\<lparr>gn_in := remove1 n (gn_in m)\<rparr>" "\<lambda>m. m\<lparr>gn_all := remove1 n (gn_all m)\<rparr>"]) simp
  let ?g3 = "g2\<lparr>g_n_edges := g_n_edges g2 - 1\<rparr>"
  have n3: "node ?g3 = node g2" by (simp add: node_def fun_eq_iff)
  then have "set as \<subseteq> {a. node ?g3 a \<noteq> None}" using Cons.prems g2(3) by auto
  from Cons.IH [OF this] obtain g' where
    g': "unlink_outs n as ?g3 = Some g'" "same_shape ?g3 g'" "g_n_edges g' = g_n_edges ?g3 - of_nat (length as)"
    "\<forall>b. node g' b = map_option (\<lambda>m. m\<lparr>gn_in := (remove1 n ^^ count (mset as) b) (gn_in m),
       gn_all := (remove1 n ^^ count (mset as) b) (gn_all m)\<rparr>) (node g2 b)" unfolding n3 by blast
  have "node g' b = map_option (\<lambda>m. m\<lparr>gn_in := (remove1 n ^^ count (mset (a # as)) b) (gn_in m),
       gn_all := (remove1 n ^^ count (mset (a # as)) b) (gn_all m)\<rparr>) (node g b)" for b
    using g'(4) g2(3) m by (cases "b = a") (auto simp: funpow_swap1)
  moreover have "same_shape g g'" using g2(4) g'(2) by (simp add: same_shape_def)
  ultimately show ?case using g2(1,2,5) g'(1,3) by (auto simp: algebra_simps)
qed

section \<open>Adding and removing edges\<close>

definition edge_added :: "nat \<Rightarrow> nat \<Rightarrow> 'd rgraph \<Rightarrow> 'd rgraph \<Rightarrow> bool" where
  "edge_added a b g g' \<longleftrightarrow> same_shape g g' \<and> g_n_edges g' = g_n_edges g + 1 \<and>
     (\<forall>c. (node g' c = None \<longleftrightarrow> node g c = None) \<and> node_idx g' c = node_idx g c \<and>
        mset (succs g' c) = mset (succs g c) + (if c = a then {#b#} else {#}) \<and>
        mset (preds g' c) = mset (preds g c) + (if c = b then {#a#} else {#}) \<and>
        mset (nbrs g' c) = mset (nbrs g c) + (if c = a then {#b#} else {#}) + (if c = b then {#a#} else {#}))"

lemma set_by_mset: "set xs \<subseteq> A \<longleftrightarrow> set_mset (mset xs) \<subseteq> A"
  by simp

lemma edge_added_ok:
  assumes "edge_added a b g g'" "a \<in> set (g_nodes g)" "b \<in> set (g_nodes g)" "distinct (g_nodes g)"
  shows "graph_ok g' \<longleftrightarrow> graph_ok g"
proof -
  have sh: "g_nodes g' = g_nodes g" "g_n_nodes g' = g_n_nodes g" "g_last_index g' = g_last_index g" "g_n_edges g' = g_n_edges g + 1"
    using assms(1) by (simp_all add: edge_added_def same_shape_def)
  have v: "node g' c = None \<longleftrightarrow> node g c = None" "node_idx g' c = node_idx g c"
    "mset (succs g' c) = mset (succs g c) + (if c = a then {#b#} else {#})"
    "mset (preds g' c) = mset (preds g c) + (if c = b then {#a#} else {#})"
    "mset (nbrs g' c) = mset (nbrs g c) + (if c = a then {#b#} else {#}) + (if c = b then {#a#} else {#})" for c
    using assms(1) unfolding edge_added_def by blast+
  have idx: "node_idx g' = node_idx g" using v(2) by auto
  have "set (succs g' c) \<subseteq> set (g_nodes g) \<longleftrightarrow> set (succs g c) \<subseteq> set (g_nodes g)" for c
    using assms(3) unfolding set_by_mset v(3) by auto
  then have d: "dfs_ok g' \<longleftrightarrow> dfs_ok g" by (simp add: dfs_ok_def sh v(1) idx)
  have "set (preds g' c) \<subseteq> set (g_nodes g) \<longleftrightarrow> set (preds g c) \<subseteq> set (g_nodes g)" for c
    using assms(2) unfolding set_by_mset v(4) by auto
  moreover have "mset (nbrs g' c) = mset (succs g' c) + mset (preds g' c) \<longleftrightarrow> mset (nbrs g c) = mset (succs g c) + mset (preds g c)" for c
    unfolding v by auto
  moreover have "count (mset (succs g' c)) d = count (mset (preds g' d)) c \<longleftrightarrow> count (mset (succs g c)) d = count (mset (preds g d)) c" for c d
    unfolding v by simp
  ultimately have l: "linked g' \<longleftrightarrow> linked g" by (simp add: linked_def sh)
  have len: "length (succs g' c) = length (succs g c) + (if c = a then 1 else 0)" for c
    using arg_cong [OF v(3) [of c], of size] by simp
  have "(\<Sum>c\<leftarrow>g_nodes g. length (succs g' c)) = (\<Sum>c\<leftarrow>g_nodes g. length (succs g c)) + 1"
    using assms(2,4) by (simp add: len sum_list_addf sum_list_distinct_conv_sum_set sum.distrib)
  then show ?thesis by (simp add: graph_ok_def d l sh)
qed

lemma mset_seq_insert [simp]: "mset (seq_insert i x xs) = add_mset x (mset xs)"
proof -
  have "mset (take n xs) + mset (drop n xs) = mset xs" for n by (simp flip: mset_append)
  then show ?thesis by (auto simp: seq_insert_def)
qed

lemma both_removed: "b \<in># A \<Longrightarrow> b \<in># B \<Longrightarrow> add_mset b (add_mset b (A + B - {#b, b#})) = A + B"
  by (auto dest!: multi_member_split)

lemmas node_views = succs_def preds_def nbrs_def node_idx_def

lemma edges_only: "node (g\<lparr>g_n_edges := k\<rparr>) = node g"
  by (simp add: node_def fun_eq_iff)

lemma add_edge_ok:
  assumes "graph_ok g" "a \<in> set (g_nodes g)" "b \<in> set (g_nodes g)"
  shows "\<exists>g'. r_graph_add_edge_at (Some a) (Some b) i g = Some g' \<and> edge_added a b g g' \<and> graph_ok g'"
proof -
  obtain m where m: "node g a = Some m" using assms(1,2) by (auto simp: graph_ok_def dfs_ok_def)
  obtain g1 g2 where g2: "upd_node a (\<lambda>m. m\<lparr>gn_out := seq_insert i b (gn_out m)\<rparr>) g = Some g1"
    "upd_node a (\<lambda>m. m\<lparr>gn_all := gn_all m @ [b]\<rparr>) g1 = Some g2"
    "node g2 = (node g)(a := Some (m\<lparr>gn_out := seq_insert i b (gn_out m), gn_all := gn_all m @ [b]\<rparr>))"
    "same_shape g g2" "g_n_edges g2 = g_n_edges g"
    by (rule upd_node_twice [OF m, of "\<lambda>m. m\<lparr>gn_out := seq_insert i b (gn_out m)\<rparr>" "\<lambda>m. m\<lparr>gn_all := gn_all m @ [b]\<rparr>"]) simp
  obtain k where k: "node g2 b = Some k" using assms(1,3) g2(3) by (cases "a = b") (auto simp: graph_ok_def dfs_ok_def)
  obtain g3 g4 where g4: "upd_node b (\<lambda>m. m\<lparr>gn_in := gn_in m @ [a]\<rparr>) g2 = Some g3"
    "upd_node b (\<lambda>m. m\<lparr>gn_all := gn_all m @ [a]\<rparr>) g3 = Some g4"
    "node g4 = (node g2)(b := Some (k\<lparr>gn_in := gn_in k @ [a], gn_all := gn_all k @ [a]\<rparr>))"
    "same_shape g2 g4" "g_n_edges g4 = g_n_edges g2"
    by (rule upd_node_twice [OF k, of "\<lambda>m. m\<lparr>gn_in := gn_in m @ [a]\<rparr>" "\<lambda>m. m\<lparr>gn_all := gn_all m @ [a]\<rparr>"]) simp
  let ?g = "g4\<lparr>g_n_edges := g_n_edges g4 + 1\<rparr>"
  have "same_shape g ?g" using g2(4) g4(4) by (simp add: same_shape_def)
  then have e: "edge_added a b g ?g"
    using m k g2(3,5) g4(3,5) by (cases "a = b") (auto simp: edge_added_def node_views edges_only)
  then have "graph_ok ?g" using edge_added_ok [OF e assms(2,3)] assms(1) by (simp add: graph_ok_def dfs_ok_def)
  then show ?thesis using e g2(1,2) g4(1,2) by (simp add: r_graph_add_edge_at_def)
qed

lemma del_edge_ok:
  assumes "graph_ok g" "a \<in> set (g_nodes g)" "b \<in> set (succs g a)"
  shows "\<exists>g'. r_graph_del_edge (Some a) (Some b) g = Some g' \<and> edge_added a b g' g \<and> graph_ok g'"
proof -
  have b: "b \<in> set (g_nodes g)" using assms by (auto simp: graph_ok_def dfs_ok_def)
  have l: "a \<in># mset (preds g b)" "mset (nbrs g a) = mset (succs g a) + mset (preds g a)" "mset (nbrs g b) = mset (succs g b) + mset (preds g b)"
    using assms b by (auto simp: graph_ok_def linked_def simp flip: count_greater_zero_iff set_mset_mset)
  obtain m where m: "node g a = Some m" using assms(1,2) by (auto simp: graph_ok_def dfs_ok_def)
  obtain g1 g2 where g2: "upd_node a (\<lambda>m. m\<lparr>gn_out := remove1 b (gn_out m)\<rparr>) g = Some g1"
    "upd_node a (\<lambda>m. m\<lparr>gn_all := remove1 b (gn_all m)\<rparr>) g1 = Some g2"
    "node g2 = (node g)(a := Some (m\<lparr>gn_out := remove1 b (gn_out m), gn_all := remove1 b (gn_all m)\<rparr>))"
    "same_shape g g2" "g_n_edges g2 = g_n_edges g"
    by (rule upd_node_twice [OF m, of "\<lambda>m. m\<lparr>gn_out := remove1 b (gn_out m)\<rparr>" "\<lambda>m. m\<lparr>gn_all := remove1 b (gn_all m)\<rparr>"]) simp
  obtain k where k: "node g2 b = Some k" using assms(1) b g2(3) by (cases "a = b") (auto simp: graph_ok_def dfs_ok_def)
  obtain g3 g4 where g4: "upd_node b (\<lambda>m. m\<lparr>gn_in := remove1 a (gn_in m)\<rparr>) g2 = Some g3"
    "upd_node b (\<lambda>m. m\<lparr>gn_all := remove1 a (gn_all m)\<rparr>) g3 = Some g4"
    "node g4 = (node g2)(b := Some (k\<lparr>gn_in := remove1 a (gn_in k), gn_all := remove1 a (gn_all k)\<rparr>))"
    "same_shape g2 g4" "g_n_edges g4 = g_n_edges g2"
    by (rule upd_node_twice [OF k, of "\<lambda>m. m\<lparr>gn_in := remove1 a (gn_in m)\<rparr>" "\<lambda>m. m\<lparr>gn_all := remove1 a (gn_all m)\<rparr>"]) simp
  let ?g = "g4\<lparr>g_n_edges := g_n_edges g4 - 1\<rparr>"
  have "same_shape ?g g" using g2(4) g4(4) by (simp add: same_shape_def)
  then have e: "edge_added a b ?g g"
    using m k g2(3,5) g4(3,5) l assms(3) by (cases "a = b") (auto simp: edge_added_def node_views edges_only both_removed)
  have "g_nodes ?g = g_nodes g" using g2(4) g4(4) by (simp add: same_shape_def)
  then have "graph_ok ?g" using edge_added_ok [OF e] assms(1,2) b by (simp add: graph_ok_def dfs_ok_def)
  moreover have "b \<in> set (gn_out m)" using assms(3) m by (simp add: succs_def)
  ultimately show ?thesis using e m g2(1,2) g4(1,2) by (simp add: r_graph_del_edge_def r_graph_adjacent_def)
qed

section \<open>Adding and removing nodes\<close>

lemma add_node_ok:
  assumes "graph_ok g" "g_last_index g < 2 ^ 31 - 1"
  shows "\<exists>n g'. r_graph_add_node d g = Some (n, g') \<and> graph_ok g' \<and> g_nodes g' = g_nodes g @ [n] \<and> succs g' n = []"
proof -
  let ?n = "length (g_store g)"
  let ?m = "r_graph_node_new (word_of_int (g_last_index g)) d"
  define g' where "g' = g\<lparr>g_store := g_store g @ [Some ?m], g_last_index := g_last_index g + 1, g_nodes := g_nodes g @ [?n],
    g_n_nodes := g_n_nodes g + 1\<rparr>"
  have ok: "dfs_ok g" "linked g" "0 \<le> g_last_index g" using assms(1) by (simp_all add: graph_ok_def)
  have nd: "node g' = (node g)(?n := Some ?m)" by (auto simp: node_def g'_def fun_eq_iff nth_append)
  have fresh: "?n \<notin> set (g_nodes g)" using ok(1) by (auto simp: dfs_ok_def node_def)
  have old: "node g' c = node g c" "node_idx g' c = node_idx g c" "succs g' c = succs g c" "preds g' c = preds g c" "nbrs g' c = nbrs g c"
    if "c \<in> set (g_nodes g)" for c using that fresh nd by (auto simp: node_views)
  have new: "node g' ?n = Some ?m" "succs g' ?n = []" "preds g' ?n = []" "nbrs g' ?n = []"
    using nd by (simp_all add: node_views r_graph_node_new_def)
  have idx: "int (node_idx g' ?n) = g_last_index g"
    using nd ok(3) assms(2) unat_of_int [of "g_last_index g"] by (simp add: node_idx_def r_graph_node_new_def)
  have shp: "g_nodes g' = g_nodes g @ [?n]" "g_last_index g' = g_last_index g + 1" "g_n_nodes g' = g_n_nodes g + 1" "g_n_edges g' = g_n_edges g"
    by (simp_all add: g'_def)
  have "inj_on (node_idx g') (set (g_nodes g'))"
  proof -
    have "inj_on (node_idx g') (set (g_nodes g))" using ok(1) old(2) by (auto simp: dfs_ok_def inj_on_def)
    moreover have "node_idx g' ?n \<notin> node_idx g' ` set (g_nodes g)"
      using ok(1) old(2) idx by (force simp: dfs_ok_def)
    ultimately show ?thesis by (auto simp: shp(1))
  qed
  then have "dfs_ok g'" using ok(1) old new idx fresh by (auto simp: dfs_ok_def shp(1,2))
  moreover have "?n \<notin> set (preds g c)" "?n \<notin> set (succs g c)" if "c \<in> set (g_nodes g)" for c
    using ok that fresh by (auto simp: dfs_ok_def linked_def)
  then have "linked g'" using ok(2) old new by (auto simp: linked_def shp(1) count_mset_0_iff simp flip: not_in_iff)
  moreover have "(\<Sum>a\<leftarrow>g_nodes g. length (succs g' a)) = (\<Sum>a\<leftarrow>g_nodes g. length (succs g a))"
    using old(3) by (intro arg_cong [of _ _ sum_list] map_cong) auto
  ultimately have "graph_ok g'" using assms new by (simp add: graph_ok_def shp)
  then show ?thesis using assms(2) new(2) shp(1) by (simp add: r_graph_add_node_def g'_def)
qed

lemma remove_all_mset: "A - replicate_mset (count A n) n = filter_mset (\<lambda>x. x \<noteq> n) A"
  by (rule multiset_eqI) simp

lemma remove_all_both:
  "A + B - replicate_mset (count A n) n - replicate_mset (count B n) n = filter_mset (\<lambda>x. x \<noteq> n) (A + B)"
  by (rule multiset_eqI) simp

lemma size_without: "size (filter_mset (\<lambda>x. x \<noteq> n) A) + count A n = size A"
  by (induction A) auto

lemma count_sum_set: "finite S \<Longrightarrow> set xs \<subseteq> S \<Longrightarrow> (\<Sum>a\<in>S. count (mset xs) a) = length xs"
proof -
  assume a: "finite S" "set xs \<subseteq> S"
  have "(\<Sum>a\<in>S. count (mset xs) a) = (\<Sum>a\<in>set xs. count (mset xs) a)"
    using a by (intro sum.mono_neutral_right) (auto simp: count_mset_0_iff)
  also have "\<dots> = size (mset xs)" by (simp add: size_multiset_overloaded_eq)
  finally show ?thesis by simp
qed

text \<open>What is left of the lists when the node \<open>n\<close> has been unlinked.\<close>

lemma unlinked:
  assumes "graph_ok g" "n \<in> set (g_nodes g)"
  obtains m g1 m1 g2 where "node g n = Some m" "unlink_ins n (gn_in m) g = Some g1" "node g1 n = Some m1"
    "unlink_outs n (gn_out m1) g1 = Some g2" "same_shape g g2"
    "g_n_edges g2 = g_n_edges g - of_nat (length (preds g n) + (length (succs g n) - count (mset (succs g n)) n))"
    "\<forall>c\<in>set (g_nodes g). node g2 c \<noteq> None \<and> node_idx g2 c = node_idx g c"
    "\<forall>c\<in>set (g_nodes g) - {n}. mset (succs g2 c) = filter_mset (\<lambda>x. x \<noteq> n) (mset (succs g c)) \<and>
       mset (preds g2 c) = filter_mset (\<lambda>x. x \<noteq> n) (mset (preds g c)) \<and>
       mset (nbrs g2 c) = filter_mset (\<lambda>x. x \<noteq> n) (mset (succs g c) + mset (preds g c))"
proof -
  have ok: "dfs_ok g" "linked g" using assms(1) by (simp_all add: graph_ok_def)
  obtain m where m: "node g n = Some m" using ok(1) assms(2) by (auto simp: dfs_ok_def)
  have mv: "gn_in m = preds g n" "gn_out m = succs g n" using m by (simp_all add: node_views)
  have alive: "set (g_nodes g) \<subseteq> {a. node g a \<noteq> None}" using ok(1) by (auto simp: dfs_ok_def)
  have sub: "set (preds g n) \<subseteq> set (g_nodes g)" "set (succs g n) \<subseteq> set (g_nodes g)"
    using ok assms(2) by (simp_all add: dfs_ok_def linked_def)
  obtain g1 where g1: "unlink_ins n (gn_in m) g = Some g1" "same_shape g g1" "g_n_edges g1 = g_n_edges g - of_nat (length (preds g n))"
    "\<forall>b. node g1 b = map_option (\<lambda>m. m\<lparr>gn_out := (remove1 n ^^ count (mset (preds g n)) b) (gn_out m),
       gn_all := (remove1 n ^^ count (mset (preds g n)) b) (gn_all m)\<rparr>) (node g b)"
    using unlink_ins_ok [of "gn_in m" g n] sub(1) alive unfolding mv by blast
  have cn: "count (mset (preds g n)) c = count (mset (succs g c)) n" "count (mset (succs g n)) c = count (mset (preds g c)) n"
    if "c \<in> set (g_nodes g)" for c using ok(2) that assms(2) by (simp_all add: linked_def)
  define outs where "outs = (remove1 n ^^ count (mset (preds g n)) n) (succs g n)"
  have mo: "mset outs = filter_mset (\<lambda>x. x \<noteq> n) (mset (succs g n))"
    using cn(1) [OF assms(2)] by (simp add: outs_def remove_all_mset)
  obtain m1 where m1: "node g1 n = Some m1" "gn_out m1 = outs" using g1(4) m mv(2) by (simp add: outs_def)
  have "set outs \<subseteq> set (succs g n)" using arg_cong [OF mo, of set_mset] by auto
  then have "set outs \<subseteq> {a. node g1 a \<noteq> None}" using sub(2) alive g1(4) by auto
  from unlink_outs_ok [OF this, of n] obtain g2 where g2: "unlink_outs n outs g1 = Some g2" "same_shape g1 g2"
    "g_n_edges g2 = g_n_edges g1 - of_nat (length outs)"
    "\<forall>b. node g2 b = map_option (\<lambda>m. m\<lparr>gn_in := (remove1 n ^^ count (mset outs) b) (gn_in m),
       gn_all := (remove1 n ^^ count (mset outs) b) (gn_all m)\<rparr>) (node g1 b)" by blast
  have "size (mset outs) = length (succs g n) - count (mset (succs g n)) n"
    using arg_cong [OF remove_all_mset [of "mset (succs g n)" n, symmetric], of size]
    by (simp add: mo size_Diff_submset count_le_replicate_mset_subset_eq [symmetric])
  then have e: "g_n_edges g2 = g_n_edges g - of_nat (length (preds g n) + (length (succs g n) - count (mset (succs g n)) n))"
    using g1(3) g2(3) by simp
  have v: "node g2 c \<noteq> None \<and> node_idx g2 c = node_idx g c" if "c \<in> set (g_nodes g)" for c
    using that alive g1(4) g2(4) by (auto simp: node_idx_def)
  have w: "mset (succs g2 c) = filter_mset (\<lambda>x. x \<noteq> n) (mset (succs g c)) \<and>
       mset (preds g2 c) = filter_mset (\<lambda>x. x \<noteq> n) (mset (preds g c)) \<and>
       mset (nbrs g2 c) = filter_mset (\<lambda>x. x \<noteq> n) (mset (succs g c) + mset (preds g c))" if c: "c \<in> set (g_nodes g)" "c \<noteq> n" for c
  proof -
    have "mset (nbrs g c) = mset (succs g c) + mset (preds g c)" using ok(2) c(1) by (simp add: linked_def)
    moreover obtain k where "node g c = Some k" using alive c(1) by auto
    ultimately have k: "node g c = Some k" "gn_out k = succs g c" "gn_in k = preds g c" "mset (gn_all k) = mset (succs g c) + mset (preds g c)"
      by (simp_all add: node_views)
    have "count (mset outs) c = count (mset (preds g c)) n" using c cn(2) by (simp add: mo)
    then have "succs g2 c = (remove1 n ^^ count (mset (succs g c)) n) (succs g c)"
      "preds g2 c = (remove1 n ^^ count (mset (preds g c)) n) (preds g c)"
      "nbrs g2 c = (remove1 n ^^ count (mset (preds g c)) n) ((remove1 n ^^ count (mset (succs g c)) n) (gn_all k))"
      using g1(4) g2(4) k(1) cn(1) [OF c(1)] by (simp_all add: node_views)
    then show ?thesis by (simp only: mset_remove1_funpow k(4) remove_all_mset remove_all_both)
  qed
  show ?thesis
    using that [OF m g1(1) m1(1) _ same_shape_trans [OF g1(2) g2(2)] e] g2(1) m1(2) v w by simp
qed

lemma del_node_ok:
  assumes "graph_ok g" "n \<in> set (g_nodes g)"
  shows "\<exists>g'. r_graph_del_node (Some n) g = Some g' \<and> graph_ok g' \<and> g_nodes g' = remove1 n (g_nodes g)"
proof -
  have ok: "dfs_ok g" "linked g" using assms(1) by (simp_all add: graph_ok_def)
  obtain m g1 m1 g2 where u: "node g n = Some m" "unlink_ins n (gn_in m) g = Some g1" "node g1 n = Some m1"
    "unlink_outs n (gn_out m1) g1 = Some g2" "same_shape g g2"
    "g_n_edges g2 = g_n_edges g - of_nat (length (preds g n) + (length (succs g n) - count (mset (succs g n)) n))"
    "\<forall>c\<in>set (g_nodes g). node g2 c \<noteq> None \<and> node_idx g2 c = node_idx g c"
    "\<forall>c\<in>set (g_nodes g) - {n}. mset (succs g2 c) = filter_mset (\<lambda>x. x \<noteq> n) (mset (succs g c)) \<and>
       mset (preds g2 c) = filter_mset (\<lambda>x. x \<noteq> n) (mset (preds g c)) \<and>
       mset (nbrs g2 c) = filter_mset (\<lambda>x. x \<noteq> n) (mset (succs g c) + mset (preds g c))"
    by (rule unlinked [OF assms])
  let ?N = "set (g_nodes g) - {n}"
  define g' where "g' = g2\<lparr>g_store := (g_store g2)[n := None], g_nodes := remove1 n (g_nodes g), g_n_nodes := g_n_nodes g - 1\<rparr>"
  have dist: "distinct (g_nodes g)" using ok(1) by (simp add: dfs_ok_def)
  have shp: "set (g_nodes g') = ?N" "distinct (g_nodes g')" "g_last_index g' = g_last_index g" "g_n_edges g' = g_n_edges g2"
    using dist u(5) by (auto simp: g'_def same_shape_def)
  have nd: "node g' c = node g2 c" if "c \<noteq> n" for c using that by (simp add: node_def g'_def)
  have v: "node g' c \<noteq> None" "node_idx g' c = node_idx g c"
    "mset (succs g' c) = filter_mset (\<lambda>x. x \<noteq> n) (mset (succs g c))" "mset (preds g' c) = filter_mset (\<lambda>x. x \<noteq> n) (mset (preds g c))"
    "mset (nbrs g' c) = filter_mset (\<lambda>x. x \<noteq> n) (mset (succs g c) + mset (preds g c))" if "c \<in> ?N" for c
    using u(7) u(8) nd [of c] that by (auto simp: node_views)
  have in_N: "set (succs g' c) \<subseteq> ?N" "set (preds g' c) \<subseteq> ?N" if "c \<in> ?N" for c
    using that ok unfolding set_by_mset v(3,4) [OF that] by (auto simp: dfs_ok_def linked_def)
  have "inj_on (node_idx g') ?N" using ok(1) v(2) by (auto simp: dfs_ok_def inj_on_def)
  then have d: "dfs_ok g'" using ok(1) v(1,2) in_N(1) shp by (auto simp: dfs_ok_def)
  have l: "linked g'"
    using ok(2) in_N(2) v(3-5) unfolding linked_def shp(1) by (auto simp: count_filter_mset)
  have "(\<Sum>c\<in>?N. length (succs g' c)) + (length (preds g n) + (length (succs g n) - count (mset (succs g n)) n)) =
    (\<Sum>c\<in>set (g_nodes g). length (succs g c))"
  proof -
    have a: "length (succs g' c) + count (mset (preds g n)) c = length (succs g c)" if "c \<in> ?N" for c
    proof -
      have "count (mset (preds g n)) c = count (mset (succs g c)) n" using ok(2) assms(2) that by (simp add: linked_def)
      then show ?thesis using arg_cong [OF v(3) [OF that], of size] size_without by (metis size_mset)
    qed
    have p: "(\<Sum>c\<in>?N. count (mset (preds g n)) c) + count (mset (succs g n)) n = length (preds g n)"
      using count_sum_set [of "set (g_nodes g)" "preds g n"] ok(2) assms(2) sum.remove [of "set (g_nodes g)" n "count (mset (preds g n))"]
      by (simp add: linked_def)
    have "(\<Sum>c\<in>?N. length (succs g' c)) + (\<Sum>c\<in>?N. count (mset (preds g n)) c) = (\<Sum>c\<in>?N. length (succs g c))"
      using a by (simp flip: sum.distrib)
    moreover have "count (mset (succs g n)) n \<le> length (succs g n)" by (metis count_le_size size_mset)
    ultimately show ?thesis using p assms(2) by (simp add: sum.remove [of "set (g_nodes g)" n])
  qed
  then have s: "(\<Sum>c\<leftarrow>g_nodes g'. length (succs g' c)) + (length (preds g n) + (length (succs g n) - count (mset (succs g n)) n)) =
    (\<Sum>c\<leftarrow>g_nodes g. length (succs g c))"
    using shp(1,2) dist by (simp add: sum_list_distinct_conv_sum_set)
  have "g_n_edges g' = of_nat (\<Sum>c\<leftarrow>g_nodes g'. length (succs g' c))"
    using assms(1) u(6) shp(4) s unfolding graph_ok_def by (metis add_diff_cancel_right' of_nat_add)
  moreover have "g_n_nodes g' = of_nat (length (g_nodes g'))"
    using assms dist by (cases "length (g_nodes g)") (auto simp: graph_ok_def g'_def length_remove1)
  ultimately have "graph_ok g'" using d l assms(1) by (simp add: graph_ok_def shp(3))
  moreover have "r_graph_del_node (Some n) g = Some g'"
    using u(1-4) u(5) assms(2) by (simp add: r_graph_del_node_def g'_def same_shape_def)
  ultimately show ?thesis by (simp add: g'_def)
qed

section \<open>Reachable graphs\<close>

text \<open>The ways a program changes a graph: with nodes of the graph, in any order.\<close>

inductive graph_step :: "'d rgraph \<Rightarrow> 'd rgraph \<Rightarrow> bool" where
  add_node: "r_graph_add_node d g = Some (n, g') \<Longrightarrow> graph_step g g'"
| add_edge: "a \<in> set (g_nodes g) \<Longrightarrow> b \<in> set (g_nodes g) \<Longrightarrow> r_graph_add_edge (Some a) (Some b) g = Some g' \<Longrightarrow> graph_step g g'"
| add_edge_at: "a \<in> set (g_nodes g) \<Longrightarrow> b \<in> set (g_nodes g) \<Longrightarrow> r_graph_add_edge_at (Some a) (Some b) i g = Some g' \<Longrightarrow> graph_step g g'"
| del_edge: "a \<in> set (g_nodes g) \<Longrightarrow> r_graph_del_edge (Some a) (Some b) g = Some g' \<Longrightarrow> graph_step g g'"
| del_node: "a \<in> set (g_nodes g) \<Longrightarrow> r_graph_del_node (Some a) g = Some g' \<Longrightarrow> graph_step g g'"
| reset: "graph_step g (r_graph_reset g)"

lemma new_ok [simp]: "graph_ok r_graph_new"
  by (simp add: graph_ok_def dfs_ok_def linked_def r_graph_new_def)

lemma reset_ok: "graph_ok (r_graph_reset g)"
  by (simp add: graph_ok_def dfs_ok_def linked_def r_graph_reset_def)

lemma graph_step_ok: "graph_step g g' \<Longrightarrow> graph_ok g \<Longrightarrow> graph_ok g'"
proof (induction rule: graph_step.induct)
  case (add_node d g n g')
  then have "g_last_index g < 2 ^ 31 - 1" by (auto simp: r_graph_add_node_def split: if_splits)
  then show ?case using add_node_ok [OF add_node(2), of d] add_node(1) by auto
next
  case (add_edge a g b g')
  then show ?case using add_edge_ok [of g a b "- 1"] by (auto simp: r_graph_add_edge_def)
next
  case (add_edge_at a g b i g')
  then show ?case using add_edge_ok [of g a b i] by auto
next
  case (del_edge a g b g')
  then obtain m where m: "node g a = Some m" by (auto simp: graph_ok_def dfs_ok_def)
  show ?case
  proof (cases "b \<in> set (succs g a)")
    case True
    then show ?thesis using del_edge_ok [OF del_edge(3,1) True] del_edge(2) by auto
  next
    case False
    then have "g' = g" using del_edge(2) m by (simp add: r_graph_del_edge_def r_graph_adjacent_def succs_def)
    then show ?thesis using del_edge(3) by simp
  qed
next
  case (del_node a g g')
  then show ?case using del_node_ok [of g a] by auto
qed (rule reset_ok)

lemma graph_steps_ok: "graph_step\<^sup>*\<^sup>* g g' \<Longrightarrow> graph_ok g \<Longrightarrow> graph_ok g'"
  by (induction rule: rtranclp_induct) (auto dest: graph_step_ok)

end
