(* ===== verification/R2_Graph_Props.thy ===== *)
theory R2_Graph_Props
  imports R2_Graph_Inv
begin

text \<open>The properties of the graphs, for every graph that the operations can build.\<close>

lemma dfs_bounds:
  assumes "graph_ok g" "dfs_fuel g \<le> 2 ^ 30"
  shows "unat (g_n_edges g) < 2 ^ 30"
proof -
  have "(\<Sum>a\<leftarrow>g_nodes g. length (succs g a)) \<le> (\<Sum>a\<leftarrow>g_nodes g. Suc (length (succs g a)))" by (intro sum_list_mono) simp
  then have "(\<Sum>a\<leftarrow>g_nodes g. length (succs g a)) < 2 ^ 30" using assms(2) by (simp add: dfs_fuel_def)
  then show ?thesis using assms(1) by (simp add: graph_ok_def unat_of_nat take_bit_nat_eq_self)
qed

lemma start_state:
  assumes "graph_ok g" "c = replicate (nat (g_last_index g)) WHITE_COLOR"
  shows "int (length c) = g_last_index g" "traced g (tint g c) []" "pending g R [] (set (discovered [])) (set (finished []))"
  using assms nothing_traced [of g] by (simp_all add: graph_ok_def pending_def)

lemma dfs_node_trace:
  assumes "graph_ok g" "n \<in> set (g_nodes g)" "dfs_fuel g \<le> k" "dfs_fuel g \<le> 2 ^ 30"
  shows "\<exists>es. r_graph_dfs_node k junk g (Some n) vis v = Some (fold (play vis) es v) \<and>
    distinct (discovered es) \<and> set (discovered es) = {a. (n, a) \<in> (edges g)\<^sup>*} \<and>
    distinct (finished es) \<and> set (finished es) = {a. (n, a) \<in> (edges g)\<^sup>*}"
proof -
  let ?R = "{a. (n, a) \<in> (edges g)\<^sup>*}"
  define c where "c = replicate (nat (g_last_index g)) WHITE_COLOR"
  have ok: "dfs_ok g" using assms(1) by (simp add: graph_ok_def)
  obtain s c' es where d: "dfs_node k junk g n recorder c [] = Some (c', es)" "searching g ?R s [] c' es" "n \<in> set (discovered es)"
    using dfs_node_ok [OF ok reachable_closed [OF ok assms(2)] _ assms(3,4) dfs_bounds [OF assms(1,4)] start_state [OF assms(1) c_def], of n junk]
    by auto
  note fin = searching_done [OF d(2)]
  have "a \<in> set (discovered es)" if "(n, a) \<in> (edges g)\<^sup>*" for a
    using that by (induction rule: rtrancl_induct) (use d(3) fin(3) in \<open>auto simp: edges_def\<close>)
  then have "set (discovered es) = ?R" using fin(2) by auto
  moreover have "r_graph_dfs_node k junk g (Some n) vis v = Some (fold (play vis) es v)"
    using dfs_node_replay [of k junk g n vis c "[]" v] d(1) by (simp add: r_graph_dfs_node_def c_def replay_def)
  ultimately show ?thesis using fin(1) d(2) by (auto simp: searching_def traced_def)
qed

lemma dfs_trace:
  assumes "graph_ok g" "dfs_fuel g \<le> k" "dfs_fuel g \<le> 2 ^ 30"
  shows "\<exists>es. r_graph_dfs k junk g vis v = Some (fold (play vis) es v) \<and>
    mset (discovered es) = mset (g_nodes g) \<and> mset (finished es) = mset (g_nodes g)"
proof -
  define c where "c = replicate (nat (g_last_index g)) WHITE_COLOR"
  have ok: "dfs_ok g" "distinct (g_nodes g)" using assms(1) by (simp_all add: graph_ok_def dfs_ok_def)
  have w: "white_weight g (tint g c) \<le> 2 ^ 30" using white_weight_le [of g "tint g c"] assms(3) by simp
  have "stack_holds (r_stack_new 1) ([] :: gedge list)" by (rule stack_new_holds) simp_all
  then have "searching g (set (g_nodes g)) (r_stack_new 1) [] c []"
    using start_state [OF assms(1) c_def] w by (simp add: searching_def)
  from dfs_all_ok [OF ok(1) assms(2,3) dfs_bounds [OF assms(1,3)] order_refl this, of junk] obtain s c' es where
    d: "dfs_all k junk g (g_nodes g) recorder c [] = Some (c', es)" "searching g (set (g_nodes g)) s [] c' es"
      "set (g_nodes g) \<subseteq> set (discovered es)" by auto
  have "set (discovered es) = set (g_nodes g)" "set (finished es) = set (g_nodes g)" "distinct (discovered es)" "distinct (finished es)"
    using searching_done(1,2) [OF d(2)] d by (auto simp: searching_def traced_def)
  moreover have "r_graph_dfs k junk g vis v = Some (fold (play vis) es v)"
    using dfs_all_replay [of k junk g "g_nodes g" vis c "[]" v] d(1) by (simp add: r_graph_dfs_def c_def replay_def)
  ultimately show ?thesis using ok(2) by (metis set_eq_iff_mset_eq_distinct)
qed

section \<open>Properties\<close>

text \<open>C39: In every graph the operations can build, an edge is listed with its source as often as with its target,
  the neighbours of a node are its successors and predecessors, all of them are nodes of the graph, and the
  counters of nodes and edges are right.\<close>
theorem graph_edges_consistent:
  assumes "graph_step\<^sup>*\<^sup>* r_graph_new g" "a \<in> set (g_nodes g)" "b \<in> set (g_nodes g)"
  shows "count (mset (succs g a)) b = count (mset (preds g b)) a \<and>
    mset (nbrs g a) = mset (succs g a) + mset (preds g a) \<and> set (nbrs g a) \<subseteq> set (g_nodes g) \<and> distinct (g_nodes g) \<and>
    g_n_nodes g = of_nat (length (g_nodes g)) \<and> g_n_edges g = of_nat (\<Sum>a\<leftarrow>g_nodes g. length (succs g a))"
proof -
  have ok: "graph_ok g" using graph_steps_ok [OF assms(1)] by simp
  then have l: "mset (nbrs g a) = mset (succs g a) + mset (preds g a)" using assms(2) by (simp add: graph_ok_def linked_def)
  have "set (nbrs g a) \<subseteq> set (g_nodes g)"
    using ok assms(2) unfolding set_by_mset l by (auto simp: graph_ok_def linked_def dfs_ok_def)
  moreover have "count (mset (succs g a)) b = count (mset (preds g b)) a" "distinct (g_nodes g)"
    using ok assms(2,3) by (simp_all add: graph_ok_def linked_def dfs_ok_def)
  moreover have "g_n_nodes g = of_nat (length (g_nodes g))" "g_n_edges g = of_nat (\<Sum>a\<leftarrow>g_nodes g. length (succs g a))"
    using ok unfolding graph_ok_def by blast+
  ultimately show ?thesis using l by blast
qed

text \<open>C14: In every graph the operations can build, the depth-first search from a node ends and reports to its
  visitor a trace in which exactly the nodes that can be reached are discovered, each once, and each is
  finished once; the search of the whole graph does so with all nodes. One turn of the loop per node and
  edge is enough.\<close>
theorem graph_dfs_visits:
  assumes "graph_step\<^sup>*\<^sup>* r_graph_new g" "n \<in> set (g_nodes g)" "dfs_fuel g \<le> k" "dfs_fuel g \<le> 2 ^ 30"
  shows "(\<exists>es. r_graph_dfs_node k junk g (Some n) vis v = Some (fold (play vis) es v) \<and>
      distinct (discovered es) \<and> set (discovered es) = {a. (n, a) \<in> (edges g)\<^sup>*} \<and>
      distinct (finished es) \<and> set (finished es) = {a. (n, a) \<in> (edges g)\<^sup>*})
    \<and> (\<exists>es. r_graph_dfs k junk g vis v = Some (fold (play vis) es v) \<and>
      mset (discovered es) = mset (g_nodes g) \<and> mset (finished es) = mset (g_nodes g))"
proof -
  have "graph_ok g" using graph_steps_ok [OF assms(1)] by simp
  then show ?thesis by (intro conjI dfs_node_trace [OF _ assms(2-4)] dfs_trace [OF _ assms(3,4)])
qed

text \<open>Two nodes, an edge and a loop.\<close>

definition demo_graph :: "unit rgraph" where
  "demo_graph = \<lparr>g_n_nodes = 2, g_n_edges = 2, g_last_index = 2, g_nodes = [0, 1],
     g_store = [Some \<lparr>gn_idx = 0, gn_data = (), gn_out = [1], gn_in = [], gn_all = [1]\<rparr>,
       Some \<lparr>gn_idx = 1, gn_data = (), gn_out = [1], gn_in = [0, 1], gn_all = [0, 1, 1]\<rparr>]\<rparr>"

lemma demo_graph_built: "graph_step\<^sup>*\<^sup>* r_graph_new demo_graph"
proof -
  let ?g1 = "snd (the (r_graph_add_node () r_graph_new))"
  let ?g2 = "snd (the (r_graph_add_node () ?g1))"
  let ?g3 = "the (r_graph_add_edge (Some 0) (Some 1) ?g2)"
  have "graph_step r_graph_new ?g1" by (rule graph_step.add_node [of "()" _ 0]) (simp add: r_graph_add_node_def r_graph_new_def)
  moreover have "graph_step ?g1 ?g2" by (rule graph_step.add_node [of "()" _ 1]) (simp add: r_graph_add_node_def r_graph_new_def)
  moreover have "graph_step ?g2 ?g3"
    by (rule graph_step.add_edge [of 0 _ 1])
      (simp_all add: r_graph_add_node_def r_graph_new_def r_graph_node_new_def r_graph_add_edge_def r_graph_add_edge_at_def
        upd_node_def node_def seq_insert_def)
  moreover have "graph_step ?g3 demo_graph"
    by (rule graph_step.add_edge [of 1 _ 1])
      (simp_all add: r_graph_add_node_def r_graph_new_def r_graph_node_new_def r_graph_add_edge_def r_graph_add_edge_at_def
        upd_node_def node_def seq_insert_def demo_graph_def)
  ultimately show ?thesis by (meson converse_rtranclp_into_rtranclp rtranclp.rtrancl_refl)
qed

theorem graph_edges_consistent_witness:
  "count (mset (succs demo_graph 0)) 1 = count (mset (preds demo_graph 1)) 0 \<and> g_n_edges demo_graph = 2"
  using graph_edges_consistent [OF demo_graph_built, of 0 1] by (simp add: demo_graph_def)

theorem graph_dfs_visits_witness:
  "\<exists>es. r_graph_dfs 6 (\<lambda>_. None) demo_graph recorder [] = Some (fold (play recorder) es []) \<and>
      mset (discovered es) = mset [0, 1] \<and> mset (finished es) = mset [0, 1]"
  using graph_dfs_visits [OF demo_graph_built, of 0 6 "\<lambda>_. None" recorder "[]"]
  by (simp add: demo_graph_def dfs_fuel_def succs_def node_def)

end
