(* ===== verification/R2_Codec.thy ===== *)
theory R2_Codec
  imports R2_Num
begin

text \<open>
  Hexadecimal text, \<^verbatim>\<open>libr/util/hex.c\<close>. Output buffers are passed and returned; \<open>None\<close> is an access
  outside one of them. The locale \<open>text_codec\<close> says what a textual encoding of bytes promises;
  \<open>hex\<close> interprets it here and \<open>base64\<close> in the theory of \<^verbatim>\<open>libr/util/base64.c\<close>.
\<close>

section \<open>Hexadecimal digits\<close>

definition hex_val :: "char \<Rightarrow> ut8 option" where
  "hex_val c = (let n = char_code c in
     if 48 \<le> n \<and> n \<le> 57 then Some (of_nat (n - 48))
     else if 65 \<le> n \<and> n \<le> 70 then Some (of_nat (n - 65 + 10))
     else if 97 \<le> n \<and> n \<le> 102 then Some (of_nat (n - 97 + 10))
     else None)"

text \<open>\<open>r_hex_to_byte\<close> returns 1 and leaves the byte alone when the character is no digit; that is \<open>None\<close>.\<close>

definition r_hex_to_byte :: "ut8 \<Rightarrow> char \<Rightarrow> ut8 option" where
  "r_hex_to_byte val c = map_option (\<lambda>d. val * 16 + d) (hex_val c)"

fun pair_loop :: "nat \<Rightarrow> ut8 \<Rightarrow> string \<Rightarrow> int" where
  "pair_loop j c [] = uint c"
| "pair_loop j c (x # xs) =
     (if x = CHR '' '' \<or> j = 2 then uint c
      else (case (if x = CHR ''.'' then Some c else r_hex_to_byte c x) of
          None \<Rightarrow> - 1
        | Some c' \<Rightarrow> (let c'' = c' OR c in pair_loop (Suc j) (if j = 0 then push_bit 4 c'' else c'') xs)))"

definition r_hex_pair2bin :: "string \<Rightarrow> int" where
  "r_hex_pair2bin arg = pair_loop 0 0 arg"

definition fmt_02x :: "ut8 \<Rightarrow> string" where
  "fmt_02x b = [hex_digit (unat b div 16), hex_digit (unat b mod 16)]"

fun bin2str_loop :: "ut8 list \<Rightarrow> nat \<Rightarrow> char list \<Rightarrow> char list option" where
  "bin2str_loop [] idx out = buf_write out idx [CHR 0x00]"
| "bin2str_loop (b # bs) idx out = do {
     out \<leftarrow> buf_write out idx (fmt_02x b);
     bin2str_loop bs (idx + 2) out }"

definition r_hex_bin2str :: "ut8 list \<Rightarrow> int \<Rightarrow> char list \<Rightarrow> (int \<times> char list) option" where
  "r_hex_bin2str bin len out =
     (if len < 0 then Some (0, out)
      else do {
        bs \<leftarrow> buf_read bin 0 (nat len);
        out \<leftarrow> bin2str_loop bs 0 out;
        Some (len, out) })"

text \<open>\<open>malloc\<close> of a negative size fails; \<open>junk\<close> is what the allocated memory holds.\<close>

definition r_hex_bin2strdup :: "(nat \<Rightarrow> char) \<Rightarrow> ut8 list \<Rightarrow> int \<Rightarrow> char list option option" where
  "r_hex_bin2strdup junk bin len =
     (if (len + 1) * 2 \<ge> 2 ^ 31 \<or> (len + 1) * 2 < - (2 ^ 31) then None
      else if (len + 1) * 2 < len \<or> (len + 1) * 2 < 0 then Some None
      else do {
        bs \<leftarrow> buf_read bin 0 (nat len);
        out \<leftarrow> bin2str_loop bs 0 (map junk [0..<nat ((len + 1) * 2)]);
        Some (Some out) })"

section \<open>Reading hexadecimal text\<close>

fun read_digits :: "string \<Rightarrow> nat \<Rightarrow> ut8 list option \<Rightarrow> (string \<times> nat \<times> ut8 list option) option" where
  "read_digits [] nibbles out = Some ([], nibbles, out)"
| "read_digits (c # cs) nibbles out = (case hex_val c of
     None \<Rightarrow> Some (c # cs, nibbles, out)
   | Some _ \<Rightarrow> (case out of
       None \<Rightarrow> read_digits cs (nibbles + 1) None
     | Some b \<Rightarrow> do {
         v \<leftarrow> nth_opt b (int (nibbles div 2));
         v \<leftarrow> r_hex_to_byte v c;
         b \<leftarrow> buf_write b (nibbles div 2) [v];
         read_digits cs (nibbles + 1) (Some b) }))"

text \<open>\<open>strchr (in, '\n')\<close> and \<open>strstr (in, "*/")\<close>, and the text behind what they find.\<close>

fun after_line :: "string \<Rightarrow> string option" where
  "after_line [] = None"
| "after_line (c # cs) = (if c = CHR 0x0A then Some cs else after_line cs)"

fun after_comment :: "string \<Rightarrow> string option" where
  "after_comment [] = None"
| "after_comment (c # cs) = (if c = CHR ''*'' \<and> first_chr cs = CHR ''/'' then Some (tl cs) else after_comment cs)"

lemma read_digits_length: "read_digits s n out = Some (s', n', out') \<Longrightarrow> length s' \<le> length s"
proof (induction s arbitrary: n out)
  case (Cons c s)
  then show ?case by (fastforce intro: le_SucI split: option.splits Option.bind_splits)
qed simp

lemma after_line_length: "after_line s = Some t \<Longrightarrow> length t < length s"
  by (induction s) (auto split: if_splits intro: less_SucI)

lemma after_comment_length: "after_comment s = Some t \<Longrightarrow> length t < length s"
  by (induction s) (auto split: if_splits intro: less_SucI)

text \<open>The loop of \<open>r_hex_str2bin\<close>; no count of nibbles stands for the early return.\<close>

function str2bin_loop :: "string \<Rightarrow> nat \<Rightarrow> ut8 list option \<Rightarrow> (nat option \<times> ut8 list option) option" where
  "str2bin_loop s nibbles out =
     (if s = [] then Some (Some nibbles, out)
      else do {
        (s', nibbles, out) \<leftarrow> read_digits (if hd s = CHR ''0'' \<and> chr_at s 1 = CHR ''x'' then drop 2 s else s) nibbles out;
        (if s' = [] then Some (Some nibbles, out)
         else if hd s' = CHR ''#'' \<or> (hd s' = CHR ''/'' \<and> chr_at s' 1 = CHR ''/'') then
           (case after_line s' of None \<Rightarrow> Some (Some nibbles, out) | Some t \<Rightarrow> str2bin_loop t nibbles out)
         else if hd s' = CHR ''/'' \<and> chr_at s' 1 = CHR ''*'' then
           (case after_comment s' of None \<Rightarrow> Some (Some nibbles, out) | Some t \<Rightarrow> str2bin_loop t nibbles out)
         else if hd s' \<noteq> CHR '' '' \<and> hd s' \<noteq> CHR 0x09 \<and> hd s' \<noteq> CHR 0x0A then Some (None, out)
         else str2bin_loop (tl s') nibbles out) })"
  by pat_completeness auto
termination
proof (relation "measure (\<lambda>(s, _, _). length s)", goal_cases)
  case (2 s nibbles out x s' n o' t)
  then show ?case by (auto dest!: read_digits_length after_line_length split: if_splits)
next
  case (3 s nibbles out x s' n o' t)
  then show ?case by (auto dest!: read_digits_length after_comment_length split: if_splits)
next
  case (4 s nibbles out x s' n o')
  then show ?case by (cases s') (auto dest!: read_digits_length split: if_splits)
qed simp

declare str2bin_loop.simps [simp del]

definition r_hex_str2bin :: "string \<Rightarrow> ut8 list option \<Rightarrow> (int \<times> ut8 list option) option" where
  "r_hex_str2bin s out = do {
     (r, out) \<leftarrow> str2bin_loop s 0 out;
     (case r of
        None \<Rightarrow> Some (0, out)
      | Some n \<Rightarrow>
          if odd n then do {
            out \<leftarrow> (case out of
                None \<Rightarrow> Some None
              | Some b \<Rightarrow> do {
                  v \<leftarrow> nth_opt b (int (n div 2));
                  v \<leftarrow> r_hex_to_byte v (CHR ''0'');
                  b \<leftarrow> buf_write b (n div 2) [v];
                  Some (Some b) });
            Some (- (int n + 1) div 2, out) }
          else Some (int (n div 2), out)) }"

fun valid_loop :: "nat \<Rightarrow> string \<Rightarrow> int" where
  "valid_loop i [] = int i"
| "valid_loop i (c # cs) = (if c = CHR '' '' then int i else if hex_val c = None then - 1 else valid_loop (Suc i) cs)"

definition r_hex_str_is_valid :: "string \<Rightarrow> int" where
  "r_hex_str_is_valid s = valid_loop 0 (if take 2 s = ''0x'' then drop 2 s else s)"

definition r_hex_bin_truncate :: "ut64 \<Rightarrow> int \<Rightarrow> ut64" where
  "r_hex_bin_truncate x n =
     (if n = 1 then (if x AND 0x80 \<noteq> 0 then 0xFFFFFFFFFFFFFF00 OR x else x AND 0xFF)
      else if n = 2 then (if x AND 0x8000 \<noteq> 0 then 0xFFFFFFFFFFFF0000 OR x else x AND 0xFFFF)
      else if n = 4 then (if x AND 0x80000000 \<noteq> 0 then 0xFFFFFFFF00000000 OR x else x AND 0xFFFFFFFF)
      else if n = 8 then x AND UT64_MAX
      else x)"

section \<open>What a codec promises\<close>

lemma takeWhile_until [simp]: "z \<notin> set xs \<Longrightarrow> takeWhile (\<lambda>c. c \<noteq> z) (xs @ z # ys) = xs"
  by (induction xs) auto

text \<open>
  \<open>text_of\<close> is the text of some bytes; \<open>put\<close> writes it, with a terminator, into a buffer, and \<open>get\<close>
  reads it back into one of at least \<open>room n\<close> bytes, for \<open>n\<close> bytes of data.
\<close>

locale text_codec =
  fixes text_of :: "ut8 list \<Rightarrow> char list"
    and put :: "ut8 list \<Rightarrow> char list \<Rightarrow> char list option"
    and get :: "char list \<Rightarrow> ut8 list \<Rightarrow> (int \<times> ut8 list) option"
    and room :: "nat \<Rightarrow> nat"
  assumes put_text: "length (text_of bs) < length out \<Longrightarrow>
      put bs out = Some (text_of bs @ CHR 0x00 # drop (Suc (length (text_of bs))) out)"
    and no_nul: "CHR 0x00 \<notin> set (text_of bs)"
    and get_text: "room (length bs) \<le> length buf \<Longrightarrow>
      \<exists>buf'. get (text_of bs @ CHR 0x00 # junk) buf = Some (int (length bs), bs @ buf')"
begin

lemma read_back:
  assumes "length (text_of bs) < length out" and "room (length bs) \<le> length buf"
  shows "\<exists>out' buf'. put bs out = Some out' \<and> get out' buf = Some (int (length bs), bs @ buf')"
  using put_text [OF assms(1)] get_text [OF assms(2)] by blast

lemma text_inj: "text_of bs = text_of cs \<Longrightarrow> bs = cs"
  using get_text [of bs "replicate (room (length bs) + room (length cs)) 0" "[]"]
    get_text [of cs "replicate (room (length bs) + room (length cs)) 0" "[]"] by auto

lemma c_string: "length (text_of bs) < length out \<Longrightarrow>
    map_option (takeWhile (\<lambda>c. c \<noteq> CHR 0x00)) (put bs out) = Some (text_of bs)"
  using no_nul [of bs] by (simp add: put_text)

end

section \<open>Hexadecimal text is read back\<close>

definition hex_text :: "ut8 list \<Rightarrow> char list" where
  "hex_text bs = concat (map fmt_02x bs)"

lemma hex_text_simps [simp]: "hex_text [] = []" "hex_text (b # bs) = fmt_02x b @ hex_text bs"
  by (simp_all add: hex_text_def)

lemma length_fmt_02x [simp]: "length (fmt_02x b) = 2"
  by (simp add: fmt_02x_def)

lemma length_hex_text [simp]: "length (hex_text bs) = 2 * length bs"
  by (induction bs) auto

lemma hex_val_digit: "n < 16 \<Longrightarrow> hex_val (hex_digit n) = Some (of_nat n) \<and> hex_digit n \<noteq> CHR ''x'' \<and> hex_digit n \<noteq> CHR 0x00"
proof -
  have "list_all (\<lambda>n. hex_val (hex_digit n) = Some (of_nat n) \<and> hex_digit n \<noteq> CHR ''x'' \<and> hex_digit n \<noteq> CHR 0x00) [0..<16]"
    by code_simp
  then show "n < 16 \<Longrightarrow> ?thesis" by (simp add: list_all_iff)
qed

lemma nibbles_bounds [simp]: "unat (b :: ut8) div 16 < 16" "unat b mod 16 < 16"
  using unsigned_less [where 'a = nat, of b] by (simp_all add: less_mult_imp_div_less)

lemma nul_hex_text: "CHR 0x00 \<notin> set (hex_text bs)"
  by (induction bs) (auto simp: fmt_02x_def hex_val_digit dest: sym)

lemma buf_write_one: "i < length buf \<Longrightarrow> buf_write buf i [v] = Some (buf[i := v])"
  by (simp add: buf_write_def upd_conv_take_nth_drop)

lemma two_digits: "(v * 16 + of_nat h) * 16 + of_nat l = (of_nat (h * 16 + l) :: ut8)"
proof -
  have "(256 :: ut8) = 0" by simp
  then have "256 * v = 0" by (simp only: mult_zero_left)
  then show ?thesis by (simp add: algebra_simps)
qed

lemma two_nibbles: "(v * 16 + of_nat (unat b div 16)) * 16 + of_nat (unat b mod 16) = (b :: ut8)"
  by (subst two_digits) (simp only: div_mult_mod_eq, simp)

lemma read_digits_byte:
  assumes "k < length buf"
  shows "read_digits (fmt_02x b @ s) (2 * k) (Some buf) = read_digits s (2 * Suc k) (Some (buf[k := b]))"
  using assms two_nibbles [of "buf ! k" b]
  by (simp add: fmt_02x_def hex_val_digit nth_opt_def r_hex_to_byte_def buf_write_one)

lemma read_digits_text:
  assumes "k + length bs \<le> length buf"
  shows "read_digits (hex_text bs) (2 * k) (Some buf) =
    Some ([], 2 * (k + length bs), Some (take k buf @ bs @ drop (k + length bs) buf))"
  using assms
proof (induction bs arbitrary: k buf)
  case (Cons b bs)
  from Cons.prems have "take (Suc k) (buf[k := b]) = take k buf @ [b]"
    by (simp add: take_Suc_conv_app_nth)
  with Cons.IH [of "Suc k" "buf[k := b]"] Cons.prems show ?case by (simp add: read_digits_byte)
qed simp

lemma str2bin_text:
  assumes "length bs \<le> length buf"
  shows "r_hex_str2bin (hex_text bs) (Some buf) = Some (int (length bs), Some (bs @ drop (length bs) buf))"
proof -
  have "\<not> (hd (hex_text bs) = CHR ''0'' \<and> chr_at (hex_text bs) 1 = CHR ''x'')" if "bs \<noteq> []"
    using that by (cases bs) (auto simp: fmt_02x_def hex_val_digit dest: sym)
  then have "str2bin_loop (hex_text bs) 0 (Some buf) = Some (Some (2 * length bs), Some (bs @ drop (length bs) buf))"
    using read_digits_text [of 0 bs buf] assms by (cases "bs = []") (auto simp: str2bin_loop.simps [of "hex_text bs"] str2bin_loop.simps [of "[]"])
  then show ?thesis by (simp add: r_hex_str2bin_def)
qed

lemma bin2str_loop_text:
  assumes "i + 2 * length bs < length out"
  shows "bin2str_loop bs i out = Some (take i out @ hex_text bs @ CHR 0x00 # drop (Suc (i + 2 * length bs)) out)"
  using assms
proof (induction bs arbitrary: i out)
  case (Cons b bs)
  then show ?case by (simp add: buf_write_def add.commute)
qed (simp add: buf_write_def)

interpretation hex: text_codec hex_text
  "\<lambda>bs out. map_option snd (r_hex_bin2str bs (int (length bs)) out)"
  "\<lambda>s buf. map_option (apsnd the) (r_hex_str2bin (takeWhile (\<lambda>c. c \<noteq> CHR 0x00) s) (Some buf))"
  "\<lambda>n. n"
proof unfold_locales
  fix bs and out :: "char list" assume "length (hex_text bs) < length out"
  then show "map_option snd (r_hex_bin2str bs (int (length bs)) out) =
      Some (hex_text bs @ CHR 0x00 # drop (Suc (length (hex_text bs))) out)"
    using bin2str_loop_text [of 0 bs out] by (simp add: r_hex_bin2str_def buf_read_def)
next
  fix bs buf :: "ut8 list" and junk assume "length bs \<le> length buf"
  then show "\<exists>buf'. map_option (apsnd the) (r_hex_str2bin (takeWhile (\<lambda>c. c \<noteq> CHR 0x00) (hex_text bs @ CHR 0x00 # junk)) (Some buf)) =
      Some (int (length bs), bs @ buf')"
    using nul_hex_text [of bs] str2bin_text [of bs buf] by simp
qed (rule nul_hex_text)

end
