(* ===== verification/R2_Base64.thy ===== *)
theory R2_Base64
  imports R2_Codec
begin

text \<open>
  Base64 text, \<^verbatim>\<open>libr/util/base64.c\<close>: the encoder, the decoder and the proof that they are a \<open>text_codec\<close>.
  As in the other buffers, \<open>None\<close> is an access outside one.
\<close>

section \<open>Base64\<close>

definition cb64 :: string where
  "cb64 = ''ABCDEFGHIJKLMNOPQRSTUVWXYZabcdefghijklmnopqrstuvwxyz0123456789+/''"

definition cd64 :: string where
  "cd64 = ''|$$$}rstuvwxyz{$$$$$$$>?@ABCDEFGHIJKLMNOPQRSTUVW$$$$$$XYZ['' @ [CHR 0x5C] @ '']^_`abcdefghijklmnopq''"

definition cb64_at :: "ut8 \<Rightarrow> char option" where
  "cb64_at w = nth_opt cb64 (uint w)"

text \<open>The pointers \<open>bin + i\<close> and \<open>bout + j\<close> are the buffer and the offset; a byte is read only where the code reads it.\<close>

definition b64_encode :: "ut8 list \<Rightarrow> nat \<Rightarrow> char list \<Rightarrow> nat \<Rightarrow> int \<Rightarrow> char list option" where
  "b64_encode bin i bout j len =
     (if len < 1 then Some bout
      else do {
        x \<leftarrow> nth_opt bin (int i);
        y \<leftarrow> (if len > 1 then nth_opt bin (int i + 1) else Some 0);
        z \<leftarrow> (if len > 2 then nth_opt bin (int i + 2) else Some 0);
        c0 \<leftarrow> cb64_at (drop_bit 2 x);
        c1 \<leftarrow> cb64_at (push_bit 4 (x AND 0x03) OR (if len > 1 then drop_bit 4 (y AND 0xF0) else 0));
        c2 \<leftarrow> (if len > 1 then cb64_at (push_bit 2 (y AND 0x0F) OR (if len > 2 then drop_bit 6 (z AND 0xC0) else 0))
               else Some (CHR ''=''));
        c3 \<leftarrow> (if len > 2 then cb64_at (z AND 0x3F) else Some (CHR ''=''));
        buf_write bout j [c0, c1, c2, c3] })"

text \<open>
  The loop of \<open>b64_decode\<close>: the array \<open>v\<close> and \<open>len\<close>, or no \<open>len\<close> for the return of \<open>-1\<close>. \<open>len\<close> has the
  width of a \<open>ut8\<close>, so the \<open>-1\<close> that is assigned to it is 255.
\<close>

function b64_scan :: "char list \<Rightarrow> nat \<Rightarrow> nat \<Rightarrow> ut8 list \<Rightarrow> (ut8 option \<times> ut8 list) option" where
  "b64_scan bin at i v =
     (if i < 4 then do {
        c \<leftarrow> nth_opt bin (int (at + i));
        (if schar c < 43 \<or> schar c > 122 then Some (None, v)
         else do {
           d \<leftarrow> nth_opt cd64 (schar c - 43);
           (if d = CHR ''$'' then Some (Some (if i \<noteq> 0 then of_nat i - 1 else - 1), v[i := of_nat (char_code d)])
            else b64_scan bin at (Suc i) (v[i := of_nat (char_code d) - 62])) }) }
      else Some (Some 3, v))"
  by pat_completeness auto
termination
  by (relation "measure (\<lambda>(_, _, i, _). 4 - i)") auto

declare b64_scan.simps [simp del]

definition b64_decode :: "char list \<Rightarrow> nat \<Rightarrow> ut8 list \<Rightarrow> nat \<Rightarrow> (int \<times> ut8 list) option" where
  "b64_decode bin i bout j = do {
     (len, v) \<leftarrow> b64_scan bin i 0 [0, 0, 0, 0];
     (case len of
        None \<Rightarrow> Some (- 1, bout)
      | Some l \<Rightarrow> do {
          bout \<leftarrow> buf_write bout j
            [push_bit 2 (v ! 0) OR drop_bit 4 (v ! 1),
             push_bit 4 (v ! 1) OR drop_bit 2 (v ! 2),
             (push_bit 6 (v ! 2) AND 0xC0) OR v ! 3];
          Some (uint l, bout) }) }"

definition strlen_in :: "'a \<Rightarrow> 'a list \<Rightarrow> int option" where
  "strlen_in z buf = (if z \<in> set buf then Some (int (length (takeWhile (\<lambda>c. c \<noteq> z) buf))) else None)"

function decode_loop :: "char list \<Rightarrow> int \<Rightarrow> nat \<Rightarrow> nat \<Rightarrow> ut8 list \<Rightarrow> (nat \<times> nat \<times> ut8 list) option" where
  "decode_loop bin len i j bout =
     (if int i < len - 1 then do {
        (ret, bout) \<leftarrow> b64_decode bin i bout j;
        (if ret < 1 then Some (i, j, bout)
         else decode_loop bin len (i + 4) (j + nat ret) bout) }
      else Some (i, j, bout))"
  by pat_completeness auto
termination
  by (relation "measure (\<lambda>(_, len, i, _, _). nat (len - int i))") auto

declare decode_loop.simps [simp del]

definition r_base64_decode :: "ut8 list \<Rightarrow> char list \<Rightarrow> int \<Rightarrow> (int \<times> ut8 list) option" where
  "r_base64_decode bout bin len = do {
     len \<leftarrow> (if len < 0 then strlen_in (CHR 0x00) bin else Some len);
     (i, j, bout) \<leftarrow> decode_loop bin len 0 0 bout;
     bout \<leftarrow> buf_write bout j [0];
     Some (if i \<noteq> j then int j else 0, bout) }"

text \<open>\<open>malloc\<close> succeeds in these two; \<open>junk\<close> is again what the memory holds.\<close>

definition r_base64_decode_dyn :: "(nat \<Rightarrow> ut8) \<Rightarrow> char list option \<Rightarrow> int \<Rightarrow> ut8 list option option" where
  "r_base64_decode_dyn junk bin len = (case bin of
     None \<Rightarrow> Some None
   | Some bin \<Rightarrow> do {
       len \<leftarrow> (if len < 0 then map_option (\<lambda>n. n + 1) (strlen_in (CHR 0x00) bin) else Some len);
       (_, bout) \<leftarrow> r_base64_decode (map junk [0..<nat len]) bin len;
       Some (Some bout) })"

function encode_loop :: "ut8 list \<Rightarrow> int \<Rightarrow> nat \<Rightarrow> nat \<Rightarrow> char list \<Rightarrow> (nat \<times> char list) option" where
  "encode_loop bin len i j bout =
     (if int i < len then do {
        bout \<leftarrow> b64_encode bin i bout j (if len - int i > 3 then 3 else len - int i);
        encode_loop bin len (i + 3) (j + 4) bout }
      else Some (j, bout))"
  by pat_completeness auto
termination
  by (relation "measure (\<lambda>(_, len, i, _, _). nat (len - int i))") auto

declare encode_loop.simps [simp del]

definition r_base64_encode :: "char list \<Rightarrow> ut8 list \<Rightarrow> int \<Rightarrow> (int \<times> char list) option" where
  "r_base64_encode bout bin len = do {
     len \<leftarrow> (if len < 0 then strlen_in 0 bin else Some len);
     (j, bout) \<leftarrow> encode_loop bin len 0 0 bout;
     bout \<leftarrow> buf_write bout j [CHR 0x00];
     Some (int j, bout) }"

definition r_base64_encode_dyn :: "(nat \<Rightarrow> char) \<Rightarrow> ut8 list option \<Rightarrow> int \<Rightarrow> char list option option" where
  "r_base64_encode_dyn junk str len = (case str of
     None \<Rightarrow> Some None
   | Some str \<Rightarrow> do {
       len \<leftarrow> (if len < 0 then strlen_in 0 str else Some len);
       (if len * 4 + 2 \<ge> 2 ^ 31 then None
        else if len * 4 + 2 < len then Some None
        else do {
          (j, bout) \<leftarrow> encode_loop str len 0 0 (map junk [0..<nat (len * 4 + 2)]);
          bout \<leftarrow> buf_write bout j [CHR 0x00];
          Some (Some bout) }) })"

section \<open>Sextets\<close>

definition sextets :: "ut8 \<Rightarrow> ut8 \<Rightarrow> ut8 \<Rightarrow> ut8 list" where
  "sextets x y z =
     [drop_bit 2 x, push_bit 4 (x AND 0x03) OR drop_bit 4 (y AND 0xF0),
      push_bit 2 (y AND 0x0F) OR drop_bit 6 (z AND 0xC0), z AND 0x3F]"

definition sextet_chr :: "ut8 \<Rightarrow> char" where
  "sextet_chr w = cb64 ! unat w"

fun base64_text :: "ut8 list \<Rightarrow> char list" where
  "base64_text [] = []"
| "base64_text [x] = map sextet_chr (take 2 (sextets x 0 0)) @ ''==''"
| "base64_text [x, y] = map sextet_chr (take 3 (sextets x y 0)) @ ''=''"
| "base64_text (x # y # z # bs) = map sextet_chr (sextets x y z) @ base64_text bs"

lemma less_8_cases: "n < 8 \<Longrightarrow> n = 0 \<or> n = 1 \<or> n = 2 \<or> n = 3 \<or> n = 4 \<or> n = 5 \<or> n = 6 \<or> (n :: nat) = 7"
  by auto

lemma ut8_eqI: "(bit x 0 \<longleftrightarrow> bit y 0) \<Longrightarrow> (bit x 1 \<longleftrightarrow> bit y 1) \<Longrightarrow> (bit x 2 \<longleftrightarrow> bit y 2) \<Longrightarrow> (bit x 3 \<longleftrightarrow> bit y 3) \<Longrightarrow>
    (bit x 4 \<longleftrightarrow> bit y 4) \<Longrightarrow> (bit x 5 \<longleftrightarrow> bit y 5) \<Longrightarrow> (bit x 6 \<longleftrightarrow> bit y 6) \<Longrightarrow> (bit x 7 \<longleftrightarrow> bit y 7) \<Longrightarrow> x = y" for x y :: ut8
  by (rule bit_word_eqI) (auto dest!: less_8_cases)

lemma join_sextets:
  "push_bit 2 (sextets x y z ! 0) OR drop_bit 4 (sextets x y z ! 1) = x"
  "push_bit 4 (sextets x y z ! 1) OR drop_bit 2 (sextets x y z ! 2) = y"
  "(push_bit 6 (sextets x y z ! 2) AND 0xC0) OR sextets x y z ! 3 = z"
  by (rule ut8_eqI; simp add: sextets_def bit_simps)+

lemma high_bits_clear:
  fixes w :: ut8
  assumes "\<not> bit w 6" "\<not> bit w 7"
  shows "unat w < 64"
proof -
  have "w = take_bit 6 w" using assms by (intro ut8_eqI) (simp_all add: bit_simps)
  then have "unat w = take_bit 6 (unat w)" by (metis unsigned_take_bit_eq)
  also have "\<dots> < 2 ^ 6" by (rule take_bit_nat_less_exp)
  finally show ?thesis by simp
qed

lemma sextets_small: "w \<in> set (sextets x y z) \<Longrightarrow> unat w < 64"
  using bit_imp_le_length [of x 8] bit_imp_le_length [of x 9]
  by (auto simp: sextets_def bit_simps intro!: high_bits_clear)

lemma length_cb64 [simp]: "length cb64 = 64" and length_cd64 [simp]: "length cd64 = 80"
  by (simp_all add: cb64_def cd64_def)

lemma cb64_codes: "map char_code cb64 = [65..<91] @ [97..<123] @ [48..<58] @ [43, 47]"
  by (simp add: cb64_def char_code_def upt_conv_Cons)

lemma cd64_codes: "map (\<lambda>n. char_code (cd64 ! (n - 43))) (map char_code cb64) = [62..<126]"
  unfolding cb64_codes by (simp add: cd64_def char_code_def upt_conv_Cons)

lemma schar_ascii: "char_code c < 128 \<Longrightarrow> schar c = int (char_code c)"
proof -
  have "(of_char c :: 8 word) = of_nat (char_code c)" by (simp add: char_code_def of_nat_of_char)
  then show "char_code c < 128 \<Longrightarrow> ?thesis"
    by (simp add: schar_def sint_uint unsigned_of_nat take_bit_nat_eq_self signed_take_bit_int_eq_self)
qed

lemma cb64_lookup:
  assumes "n < 64"
  shows "43 \<le> schar (cb64 ! n)" "schar (cb64 ! n) \<le> 122" "cb64 ! n \<noteq> CHR 0x00"
    "char_code (cd64 ! nat (schar (cb64 ! n) - 43)) = n + 62"
proof -
  let ?k = "char_code (cb64 ! n)"
  have "?k \<in> set (map char_code cb64)" using assms by simp
  then have k: "43 \<le> ?k" "?k \<le> 122" unfolding cb64_codes by auto
  moreover from k have "schar (cb64 ! n) = int ?k" by (intro schar_ascii) simp
  moreover have "char_code (cd64 ! (?k - 43)) = n + 62"
    using arg_cong [OF cd64_codes, of "\<lambda>l. l ! n"] nth_upt [of 62 n 126] assms by simp
  moreover have "cb64 ! n \<noteq> CHR 0x00" using k(1) by (auto simp: char_code_def)
  ultimately show "43 \<le> schar (cb64 ! n)" "schar (cb64 ! n) \<le> 122" "cb64 ! n \<noteq> CHR 0x00"
    "char_code (cd64 ! nat (schar (cb64 ! n) - 43)) = n + 62" by (simp_all add: nat_diff_distrib)
qed

lemma sextet_lookup:
  assumes "unat w < 64"
  shows "nth_opt cb64 (uint w) = Some (sextet_chr w)"
    "43 \<le> schar (sextet_chr w)" "schar (sextet_chr w) \<le> 122" "sextet_chr w \<noteq> CHR 0x00"
proof -
  have "int (unat w) < int 64" using assms by (simp only: of_nat_less_iff)
  then show "nth_opt cb64 (uint w) = Some (sextet_chr w)" by (simp add: nth_opt_def sextet_chr_def)
  show "43 \<le> schar (sextet_chr w)" "schar (sextet_chr w) \<le> 122" "sextet_chr w \<noteq> CHR 0x00"
    using cb64_lookup [OF assms] by (simp_all add: sextet_chr_def)
qed

lemma sextet_decode:
  assumes "unat w < 64"
  shows "\<exists>d. nth_opt cd64 (schar (sextet_chr w) - 43) = Some d \<and> d \<noteq> CHR ''$'' \<and> of_nat (char_code d) - 62 = w"
proof -
  let ?d = "cd64 ! nat (schar (cb64 ! unat w) - 43)"
  have "nth_opt cd64 (schar (sextet_chr w) - 43) = Some ?d"
    using cb64_lookup(1,2) [OF assms] by (simp add: sextet_chr_def nth_opt_def)
  moreover have "char_code ?d = unat w + 62" by (rule cb64_lookup(4) [OF assms])
  moreover from this have "?d \<noteq> CHR ''$''" by (auto simp: char_code_def)
  ultimately show ?thesis by simp
qed

section \<open>The encoder writes the text\<close>

lemma drop_ConsD: "drop i xs = y # ys \<Longrightarrow> i < length xs \<and> xs ! i = y \<and> drop (Suc i) xs = ys"
  by (metis Cons_nth_drop_Suc drop_eq_Nil list.distinct(1) list.inject not_le_imp_less)

lemma nth_opt_drop:
  assumes "drop i xs = ys" and "k < length ys"
  shows "nth_opt xs (int i + int k) = Some (ys ! k)"
  using assms by (auto simp: nth_opt_def nat_add_distrib)

lemma length_base64_text: "length (base64_text bs) = 4 * ((length bs + 2) div 3)"
proof (induction bs rule: base64_text.induct)
  case (4 x y z bs)
  have "(length (x # y # z # bs) + 2) div 3 = Suc ((length bs + 2) div 3)"
    using div_add_self1 [of 3 "length bs + 2"] by (simp add: add.commute)
  with "4.IH" show ?case by (simp add: sextets_def)
qed (simp_all add: sextets_def)

lemma nul_base64_text: "CHR 0x00 \<notin> set (base64_text bs)"
  by (induction bs rule: base64_text.induct)
    (auto dest!: in_set_takeD sextets_small sextet_lookup(4) dest: sym)

lemma encode_block:
  assumes "drop i bin = x # y # z # bs"
  shows "b64_encode bin i bout j 3 = buf_write bout j (map sextet_chr (sextets x y z))"
  using nth_opt_drop [OF assms, of 0] nth_opt_drop [OF assms, of 1] nth_opt_drop [OF assms, of 2]
    sextets_small [of _ x y z]
  by (simp add: b64_encode_def cb64_at_def sextets_def sextet_lookup(1))

lemma encode_pad1:
  assumes "drop i bin = [x, y]"
  shows "b64_encode bin i bout j 2 = buf_write bout j (base64_text [x, y])"
  using nth_opt_drop [OF assms, of 0] nth_opt_drop [OF assms, of 1] sextets_small [of _ x y 0]
  by (simp add: b64_encode_def cb64_at_def sextets_def sextet_lookup(1))

lemma encode_pad2:
  assumes "drop i bin = [x]"
  shows "b64_encode bin i bout j 1 = buf_write bout j (base64_text [x])"
  using nth_opt_drop [OF assms, of 0] sextets_small [of _ x 0 0]
  by (simp add: b64_encode_def cb64_at_def sextets_def sextet_lookup(1))

lemma length_drop_eq: "drop i xs = ys \<Longrightarrow> ys \<noteq> [] \<Longrightarrow> length xs = i + length ys"
  by auto

lemma encode_loop_text:
  assumes "drop i bin = bs" and "i \<le> length bin" and "j + length (base64_text bs) \<le> length bout"
  shows "encode_loop bin (int (length bin)) i j bout =
    Some (j + length (base64_text bs), take j bout @ base64_text bs @ drop (j + length (base64_text bs)) bout)"
  using assms
proof (induction bs arbitrary: i j bout rule: base64_text.induct)
  case 1
  then show ?case by (simp add: encode_loop.simps [of _ _ i])
next
  case (2 x)
  then show ?case
    using length_drop_eq [OF "2.prems"(1)] by (simp add: encode_loop.simps encode_pad2 buf_write_def sextets_def)
next
  case (3 x y)
  then show ?case
    using length_drop_eq [OF "3.prems"(1)] by (simp add: encode_loop.simps encode_pad1 buf_write_def sextets_def)
next
  case (4 x y z bs)
  let ?c = "map sextet_chr (sextets x y z)" and ?d = "drop (j + 4) bout"
  have len: "length bin = i + 3 + length bs" and c: "length ?c = 4"
    using length_drop_eq [OF "4.prems"(1)] by (simp_all add: sextets_def)
  have drop: "drop (i + 3) bin = bs" using "4.prems"(1) by (auto dest!: drop_ConsD simp: numeral_3_eq_3)
  have "b64_encode bin i bout j 3 = Some (take j bout @ ?c @ ?d)"
    using "4.prems" c by (simp add: encode_block buf_write_def)
  then have "encode_loop bin (int (length bin)) i j bout = encode_loop bin (int (length bin)) (i + 3) (j + 4) (take j bout @ ?c @ ?d)"
    using len by (subst encode_loop.simps) auto
  also have "\<dots> = Some (j + 4 + length (base64_text bs), take (j + 4) (take j bout @ ?c @ ?d) @ base64_text bs @
      drop (j + 4 + length (base64_text bs)) (take j bout @ ?c @ ?d))"
    using "4.prems"(3) c len by (intro "4.IH" drop) simp_all
  finally show ?case using "4.prems"(3) c by (simp add: ac_simps)
qed

section \<open>The decoder reads it back\<close>

lemma scan_sextet:
  assumes "i < 4" and "nth_opt bin (int (at + i)) = Some (sextet_chr w)" and "unat w < 64"
  shows "b64_scan bin at i v = b64_scan bin at (Suc i) (v[i := w])"
  using assms sextet_lookup(2,3) [OF assms(3)] sextet_decode [OF assms(3)] by (auto simp: b64_scan.simps [of _ _ i])

lemma scan_pad:
  assumes "i < 4" and "0 < i" and "nth_opt bin (int (at + i)) = Some (CHR ''='')"
  shows "b64_scan bin at i v = Some (Some (of_nat i - 1), v[i := 36])"
proof -
  have "schar (CHR ''='') = 61" "nth_opt cd64 18 = Some (CHR ''$'')" "char_code (CHR ''$'') = 36" by code_simp+
  with assms show ?thesis by (simp add: b64_scan.simps [of _ _ i])
qed

lemma scan_sextets:
  assumes "drop i bin = map sextet_chr ws @ rest" and "k + length ws \<le> 4"
    and "list_all (\<lambda>w. unat w < 64) ws" and "k \<le> i" and "length v = 4"
  shows "b64_scan bin (i - k) k v = b64_scan bin (i - k) (k + length ws) (take k v @ ws @ drop (k + length ws) v)"
  using assms
proof (induction ws arbitrary: i k v)
  case (Cons w ws)
  have "nth_opt bin (int (i - k + k)) = Some (sextet_chr w)"
    using nth_opt_drop [OF Cons.prems(1), of 0] Cons.prems(4) by simp
  then have "b64_scan bin (i - k) k v = b64_scan bin (i - k) (Suc k) (v[k := w])"
    using Cons.prems(2,3) by (intro scan_sextet) auto
  also have "\<dots> = b64_scan bin (Suc i - Suc k) (Suc k) (v[k := w])" by simp
  also have "\<dots> = b64_scan bin (Suc i - Suc k) (Suc k + length ws) (take (Suc k) (v[k := w]) @ ws @ drop (Suc k + length ws) (v[k := w]))"
    using Cons.prems by (intro Cons.IH) (auto dest: drop_ConsD)
  also have "take (Suc k) (v[k := w]) = take k v @ [w]" using Cons.prems(2,5) by (simp add: take_Suc_conv_app_nth)
  finally show ?case by simp
qed simp

lemmas scan_start = scan_sextets [where k = 0 and v = "[0, 0, 0, 0]", simplified]

lemma sextetsE:
  obtains w0 w1 w2 w3 where "sextets x y z = [w0, w1, w2, w3]"
    and "unat w0 < 64" "unat w1 < 64" "unat w2 < 64" "unat w3 < 64"
    and "push_bit 2 w0 OR drop_bit 4 w1 = x" "push_bit 4 w1 OR drop_bit 2 w2 = y" "(push_bit 6 w2 AND 0xC0) OR w3 = z"
proof -
  obtain w0 w1 w2 w3 where w: "sextets x y z = [w0, w1, w2, w3]" by (auto simp: sextets_def)
  moreover have "unat w0 < 64" "unat w1 < 64" "unat w2 < 64" "unat w3 < 64"
    by (rule sextets_small [of _ x y z]; simp add: w)+
  ultimately show thesis using that join_sextets [of x y z] by simp
qed

lemma decode_block:
  assumes "drop i bin = map sextet_chr (sextets x y z) @ rest"
  shows "b64_decode bin i bout j = map_option (Pair 3) (buf_write bout j [x, y, z])"
proof -
  obtain w0 w1 w2 w3 where w: "sextets x y z = [w0, w1, w2, w3]"
    and small: "unat w0 < 64" "unat w1 < 64" "unat w2 < 64" "unat w3 < 64"
    and join: "push_bit 2 w0 OR drop_bit 4 w1 = x" "push_bit 4 w1 OR drop_bit 2 w2 = y" "(push_bit 6 w2 AND 0xC0) OR w3 = z"
    by (rule sextetsE)
  have "b64_scan bin i 0 [0, 0, 0, 0] = b64_scan bin i 4 [w0, w1, w2, w3]"
    using scan_start [of i bin "[w0, w1, w2, w3]" rest] assms w small by (simp add: eval_nat_numeral)
  also have "\<dots> = Some (Some 3, [w0, w1, w2, w3])" by (simp add: b64_scan.simps)
  finally show ?thesis by (simp add: b64_decode_def join map_conv_bind_option comp_def)
qed

lemma decode_pad1:
  assumes "drop i bin = base64_text [x, y] @ rest"
  shows "\<exists>z. b64_decode bin i bout j = map_option (Pair 2) (buf_write bout j [x, y, z])"
proof -
  obtain w0 w1 w2 w3 where w: "sextets x y 0 = [w0, w1, w2, w3]"
    and small: "unat w0 < 64" "unat w1 < 64" "unat w2 < 64" "unat w3 < 64"
    and join: "push_bit 2 w0 OR drop_bit 4 w1 = x" "push_bit 4 w1 OR drop_bit 2 w2 = y" "(push_bit 6 w2 AND 0xC0) OR w3 = 0"
    by (rule sextetsE)
  have d: "drop i bin = map sextet_chr [w0, w1, w2] @ CHR ''='' # rest" using assms w by simp
  have "b64_scan bin i 0 [0, 0, 0, 0] = b64_scan bin i 3 [w0, w1, w2, 0]"
    using scan_start [OF d] small by (simp add: numeral_3_eq_3)
  also have "\<dots> = Some (Some 2, [w0, w1, w2, 36])"
    using nth_opt_drop [OF d, of 3] by (subst scan_pad) (simp_all add: ac_simps numeral_3_eq_3)
  finally show ?thesis
    by (intro exI [of _ "push_bit 6 w2 AND 0xC0 OR 36"]) (simp add: b64_decode_def join map_conv_bind_option comp_def)
qed

lemma decode_pad2:
  assumes "drop i bin = base64_text [x] @ rest"
  shows "\<exists>y z. b64_decode bin i bout j = map_option (Pair 1) (buf_write bout j [x, y, z])"
proof -
  obtain w0 w1 w2 w3 where w: "sextets x 0 0 = [w0, w1, w2, w3]"
    and small: "unat w0 < 64" "unat w1 < 64" "unat w2 < 64" "unat w3 < 64"
    and join: "push_bit 2 w0 OR drop_bit 4 w1 = x" "push_bit 4 w1 OR drop_bit 2 w2 = 0" "(push_bit 6 w2 AND 0xC0) OR w3 = 0"
    by (rule sextetsE)
  have d: "drop i bin = map sextet_chr [w0, w1] @ CHR ''='' # CHR ''='' # rest" using assms w by simp
  have "b64_scan bin i 0 [0, 0, 0, 0] = b64_scan bin i 2 [w0, w1, 0, 0]"
    using scan_start [OF d] small by (simp add: numeral_2_eq_2)
  also have "\<dots> = Some (Some 1, [w0, w1, 36, 0])"
    using nth_opt_drop [OF d, of 2] by (subst scan_pad) (simp_all add: ac_simps numeral_2_eq_2)
  finally show ?thesis
    by (intro exI [of _ "push_bit 4 w1 OR drop_bit 2 36"] exI [of _ "push_bit 6 36 AND 0xC0"]) (simp add: b64_decode_def join map_conv_bind_option comp_def)
qed

lemma decode_loop_step:
  assumes "int i < len - 1" and "b64_decode bin i bout j = map_option (Pair (int n)) (buf_write bout j vs)"
    and "0 < n" and "n \<le> length vs" and "j + length vs \<le> length bout"
  shows "\<exists>bout'. decode_loop bin len i j bout = decode_loop bin len (i + 4) (j + n) bout' \<and>
    length bout' = length bout \<and> take (j + n) bout' = take j bout @ take n vs"
  using assms by (subst decode_loop.simps) (auto simp: buf_write_def)

definition base64_room :: "nat \<Rightarrow> nat" where
  "base64_room n = 3 * ((n + 2) div 3)"

lemma base64_room_Suc3: "base64_room (Suc (Suc (Suc n))) = 3 + base64_room n"
  using div_add_self1 [of 3 "n + 2"] by (simp add: base64_room_def add.commute)

lemma decode_loop_text:
  assumes "drop i bin = base64_text bs @ rest" and "j + base64_room (length bs) \<le> length bout"
  shows "\<exists>bout'. decode_loop bin (int (i + length (base64_text bs))) i j bout =
      Some (i + length (base64_text bs), j + length bs, bout') \<and>
    length bout' = length bout \<and> take (j + length bs) bout' = take j bout @ bs"
  using assms
proof (induction bs arbitrary: i j bout rule: base64_text.induct)
  case 1
  then show ?case by (simp add: decode_loop.simps)
next
  case (2 x)
  then obtain y z where "b64_decode bin i bout j = map_option (Pair (int 1)) (buf_write bout j [x, y, z])"
    using decode_pad2 [OF "2.prems"(1)] by fastforce
  then obtain bout' where "decode_loop bin (int (i + 4)) i j bout = decode_loop bin (int (i + 4)) (i + 4) (j + 1) bout'"
      "length bout' = length bout" "take (j + 1) bout' = take j bout @ [x]"
    using decode_loop_step [of i "int (i + 4)" bin bout j 1 "[x, y, z]"] "2.prems"(2) by (auto simp: base64_room_def)
  moreover have "length (base64_text [x]) = 4" by (simp add: sextets_def)
  ultimately show ?case by (simp add: decode_loop.simps [of _ _ "i + 4"] del: base64_text.simps)
next
  case (3 x y)
  then obtain z where "b64_decode bin i bout j = map_option (Pair (int 2)) (buf_write bout j [x, y, z])"
    using decode_pad1 [OF "3.prems"(1)] by fastforce
  then obtain bout' where "decode_loop bin (int (i + 4)) i j bout = decode_loop bin (int (i + 4)) (i + 4) (j + 2) bout'"
      "length bout' = length bout" "take (j + 2) bout' = take j bout @ [x, y]"
    using decode_loop_step [of i "int (i + 4)" bin bout j 2 "[x, y, z]"] "3.prems"(2) by (auto simp: base64_room_def)
  moreover have "length (base64_text [x, y]) = 4" by (simp add: sextets_def)
  ultimately show ?case by (simp add: decode_loop.simps [of _ _ "i + 4"] del: base64_text.simps)
next
  case (4 x y z bs)
  let ?n = "length (base64_text bs)"
  have d: "drop i bin = map sextet_chr (sextets x y z) @ base64_text bs @ rest" using "4.prems"(1) by simp
  have c: "length (map sextet_chr (sextets x y z)) = 4" by (simp add: sextets_def)
  have "drop (i + 4) bin = base64_text bs @ rest" using arg_cong [OF d, of "drop 4"] c by (simp add: add.commute)
  moreover obtain bout' where "decode_loop bin (int i + 4 + int ?n) i j bout = decode_loop bin (int i + 4 + int ?n) (i + 4) (j + 3) bout'"
      "length bout' = length bout" "take (j + 3) bout' = take j bout @ [x, y, z]"
    using decode_loop_step [of i "int i + 4 + int ?n" bin bout j 3 "[x, y, z]"] decode_block [OF d] "4.prems"(2)
    by (auto simp: base64_room_Suc3)
  ultimately show ?case
    using "4.IH" [of "i + 4" "j + 3" bout'] "4.prems"(2) c by (simp add: base64_room_Suc3 numeral_3_eq_3 ac_simps)
qed

lemma r_base64_encode_text:
  assumes "length (base64_text bs) < length out"
  shows "r_base64_encode out bs (int (length bs)) =
    Some (int (length (base64_text bs)), base64_text bs @ CHR 0x00 # drop (Suc (length (base64_text bs))) out)"
  using encode_loop_text [of 0 bs bs 0 out] assms by (simp add: r_base64_encode_def buf_write_def)

lemma r_base64_decode_text:
  assumes "base64_room (length bs) \<le> length buf" and "length bs < length buf"
  shows "\<exists>buf'. r_base64_decode buf (base64_text bs @ junk) (int (length (base64_text bs))) = Some (int (length bs), bs @ 0 # buf')"
proof -
  have room: "length bs \<le> base64_room (length bs)" by (simp add: base64_room_def)
  obtain b where b: "decode_loop (base64_text bs @ junk) (int (length (base64_text bs))) 0 0 buf =
      Some (length (base64_text bs), length bs, b)" "length b = length buf" "take (length bs) b = bs"
    using decode_loop_text [of 0 _ bs junk 0 buf] assms by auto
  have "length (base64_text bs) \<noteq> length bs \<or> length bs = 0"
    using room unfolding length_base64_text base64_room_def by linarith
  with b room assms show ?thesis
    by (intro exI [of _ "drop (Suc (length bs)) b"]) (auto simp: r_base64_decode_def buf_write_def)
qed

lemma r_base64_decode_string:
  "r_base64_decode buf (base64_text bs @ CHR 0x00 # junk) (- 1) =
   r_base64_decode buf (base64_text bs @ CHR 0x00 # junk) (int (length (base64_text bs)))"
  using nul_base64_text [of bs] by (simp add: r_base64_decode_def strlen_in_def)

interpretation base64: text_codec base64_text
  "\<lambda>bs out. map_option snd (r_base64_encode out bs (int (length bs)))"
  "\<lambda>s buf. r_base64_decode buf s (- 1)"
  "\<lambda>n. Suc (base64_room n)"
proof unfold_locales
  fix bs buf :: "ut8 list" and junk assume "Suc (base64_room (length bs)) \<le> length buf"
  moreover have "length bs \<le> base64_room (length bs)" by (simp add: base64_room_def)
  ultimately show "\<exists>buf'. r_base64_decode buf (base64_text bs @ CHR 0x00 # junk) (- 1) = Some (int (length bs), bs @ buf')"
    using r_base64_decode_text [of bs buf "CHR 0x00 # junk"] unfolding r_base64_decode_string by auto
qed (simp_all add: r_base64_encode_text nul_base64_text)

text \<open>C16: Hexadecimal text written by \<open>r_hex_bin2str\<close> is read back by \<open>r_hex_str2bin\<close>, and base64 text written by
  \<open>r_base64_encode\<close> by \<open>r_base64_decode\<close>, for every byte string and every buffers with room for the text, the bytes and
  the terminator; the lengths returned are those of the bytes and of the text.\<close>
theorem codecs_read_back:
  assumes "2 * length bs < length out" and "length bs \<le> length buf"
    and "4 * ((length bs + 2) div 3) < length out64" and "3 * ((length bs + 2) div 3) < length buf64"
  shows "(\<exists>t rest. r_hex_bin2str bs (int (length bs)) out = Some (int (length bs), t) \<and>
      r_hex_str2bin (takeWhile (\<lambda>c. c \<noteq> CHR 0x00) t) (Some buf) = Some (int (length bs), Some (bs @ rest))) \<and>
    (\<exists>t rest. r_base64_encode out64 bs (int (length bs)) = Some (int (4 * ((length bs + 2) div 3)), t) \<and>
      r_base64_decode buf64 t (- 1) = Some (int (length bs), bs @ rest))"
proof
  obtain t where t: "r_hex_bin2str bs (int (length bs)) out = Some (int (length bs), t)" "takeWhile (\<lambda>c. c \<noteq> CHR 0x00) t = hex_text bs"
    using hex.c_string [of bs out] assms(1) by (auto simp: r_hex_bin2str_def split: Option.bind_splits)
  then show "\<exists>t rest. r_hex_bin2str bs (int (length bs)) out = Some (int (length bs), t) \<and>
      r_hex_str2bin (takeWhile (\<lambda>c. c \<noteq> CHR 0x00) t) (Some buf) = Some (int (length bs), Some (bs @ rest))"
    using str2bin_text [OF assms(2)] by simp
  show "\<exists>t rest. r_base64_encode out64 bs (int (length bs)) = Some (int (4 * ((length bs + 2) div 3)), t) \<and>
      r_base64_decode buf64 t (- 1) = Some (int (length bs), bs @ rest)"
    using base64.read_back [of bs out64 buf64] assms(3,4) r_base64_encode_text [of bs out64]
    by (auto simp: length_base64_text base64_room_def)
qed

theorem codecs_read_back_witness:
  "(\<exists>t rest. r_hex_bin2str [222, 173] 2 (replicate 5 CHR ''z'') = Some (2, t) \<and>
      r_hex_str2bin (takeWhile (\<lambda>c. c \<noteq> CHR 0x00) t) (Some [0, 0]) = Some (2, Some ([222, 173] @ rest))) \<and>
    (\<exists>t rest. r_base64_encode (replicate 5 CHR ''z'') [222, 173] 2 = Some (4, t) \<and>
      r_base64_decode [0, 0, 0, 0] t (- 1) = Some (2, [222, 173] @ rest))"
  using codecs_read_back [of "[222, 173]" "replicate 5 CHR ''z''" "[0, 0]" "replicate 5 CHR ''z''" "[0, 0, 0, 0]"] by simp

end
