(* ===== verification/R2_Cipher.thy ===== *)
theory R2_Cipher
  imports R2_Prelude "HOL-Library.Multiset"
begin

text \<open>
  The byte ciphers of \<^verbatim>\<open>libr/crypto/p\<close>: \<open>xor\<close>, \<open>rol\<close>, \<open>ror\<close>, \<open>rot\<close> and \<open>rc4\<close>. A cipher function reads \<open>inbuf\<close>
  and fills the fresh \<open>outbuf\<close> of the same length, which it returns; \<open>None\<close> is what the code leaves
  undefined (a remainder by a key size of zero, a shift by 32 or more, an access outside a buffer). State and key
  are never null here: the state is a static variable of the plugin. The locale \<open>cipher\<close> is what \<^verbatim>\<open>crypto.c\<close> needs
  of one.
\<close>

section \<open>What a cipher promises\<close>

text \<open>
  \<open>ok\<close> holds of the states that setting a key leaves; \<open>safe\<close> restricts the plain and the cipher text on which decryption is claimed to bring the plain text back.
\<close>

locale cipher =
  fixes crypt decrypt :: "'st \<Rightarrow> ut8 list \<Rightarrow> ut8 list option"
    and ok :: "'st \<Rightarrow> bool"
    and safe :: "ut8 list \<Rightarrow> ut8 list \<Rightarrow> bool"
  assumes recover: "ok st \<Longrightarrow> crypt st bs = Some cs \<Longrightarrow> safe bs cs \<Longrightarrow> decrypt st cs = Some bs"
    and keeps_length: "ok st \<Longrightarrow> crypt st bs = Some cs \<Longrightarrow> safe bs cs \<Longrightarrow> length cs = length bs"
begin

lemma crypt_inj:
  "ok st \<Longrightarrow> crypt st bs = Some cs \<Longrightarrow> crypt st bs' = Some cs \<Longrightarrow> safe bs cs \<Longrightarrow> safe bs' cs \<Longrightarrow> bs = bs'"
  using recover [of st bs cs] recover [of st bs' cs] by simp

end

lemma ut8_high_bits [simp]: "8 \<le> n \<Longrightarrow> \<not> bit (b :: ut8) n"
  using bit_imp_le_length [of b n] by auto

lemma length_8E:
  assumes "length b = 8"
  obtains x0 x1 x2 x3 x4 x5 x6 x7 where "b = [x0, x1, x2, x3, x4, x5, x6, x7]"
  using assms by (auto simp: length_Suc_conv numeral_eq_Suc)

section \<open>Keyed bytes: xor, rol and ror\<close>

record keyed_state =
  key :: "ut8 list"
  key_size :: int

abbreviation MAX_KEY_SIZE :: int where "MAX_KEY_SIZE \<equiv> 32768"

definition xor_init :: "keyed_state \<Rightarrow> ut8 list \<Rightarrow> int \<Rightarrow> (bool \<times> keyed_state) option" where
  "xor_init st k keylen =
     (if keylen < 1 \<or> keylen > MAX_KEY_SIZE then Some (False, st)
      else do {
        bs \<leftarrow> buf_read k 0 (nat keylen);
        ks \<leftarrow> buf_write (key st) 0 bs;
        Some (True, st\<lparr>key := ks, key_size := keylen\<rparr>) })"

definition rol_init :: "keyed_state \<Rightarrow> ut8 list \<Rightarrow> int \<Rightarrow> (bool \<times> keyed_state) option" where
  "rol_init st k keylen =
     (if keylen < 1 \<or> keylen > MAX_KEY_SIZE then Some (False, st)
      else do {
        bs \<leftarrow> buf_read k 0 (nat keylen);
        ks \<leftarrow> buf_write (key st) 0 bs;
        Some (True, st\<lparr>key := ks, key_size := keylen\<rparr>) })"

definition ror_init :: "keyed_state \<Rightarrow> ut8 list \<Rightarrow> int \<Rightarrow> (bool \<times> keyed_state) option" where
  "ror_init st k keylen =
     (if keylen < 1 \<or> keylen > MAX_KEY_SIZE then Some (False, st)
      else do {
        bs \<leftarrow> buf_read k 0 (nat keylen);
        ks \<leftarrow> buf_write (key st) 0 bs;
        Some (True, st\<lparr>key := ks, key_size := keylen\<rparr>) })"

definition key_at :: "keyed_state \<Rightarrow> nat \<Rightarrow> ut8 option" where
  "key_at st i = (if key_size st = 0 then None else nth_opt (key st) (c_mod (int i) (key_size st)))"

fun xor_crypt :: "keyed_state \<Rightarrow> nat \<Rightarrow> ut8 list \<Rightarrow> ut8 list option" where
  "xor_crypt st i [] = Some []"
| "xor_crypt st i (b # inbuf) = do {
     k \<leftarrow> key_at st i;
     outbuf \<leftarrow> xor_crypt st (Suc i) inbuf;
     Some ((b XOR k) # outbuf) }"

fun rol_crypt :: "keyed_state \<Rightarrow> nat \<Rightarrow> ut8 list \<Rightarrow> ut8 list option" where
  "rol_crypt st i [] = Some []"
| "rol_crypt st i (b # inbuf) = do {
     k \<leftarrow> key_at st i;
     (if unat k < 32 then do {
        outbuf \<leftarrow> rol_crypt st (Suc i) inbuf;
        Some (push_bit (unat k) b # outbuf) }
      else None) }"

fun ror_crypt :: "keyed_state \<Rightarrow> nat \<Rightarrow> ut8 list \<Rightarrow> ut8 list option" where
  "ror_crypt st i [] = Some []"
| "ror_crypt st i (b # inbuf) = do {
     k \<leftarrow> key_at st i;
     (if unat k < 32 then do {
        outbuf \<leftarrow> ror_crypt st (Suc i) inbuf;
        Some (drop_bit (unat k) b # outbuf) }
      else None) }"

section \<open>rot\<close>

definition rot_mod :: "int \<Rightarrow> int \<Rightarrow> int" where
  "rot_mod a b = (let (a, b) = (if b < 0 then (- a, - b) else (a, b)); ret = c_mod a b in if ret < 0 then ret + b else ret)"

text \<open>\<open>atoi\<close>: white space, a sign and digits, which have to end inside the key; a value that is no \<open>int\<close> is undefined.\<close>

fun atoi_digits :: "int \<Rightarrow> ut8 list \<Rightarrow> int option" where
  "atoi_digits v [] = None"
| "atoi_digits v (b # bs) = (if 48 \<le> b \<and> b \<le> 57 then atoi_digits (v * 10 + (uint b - 48)) bs else Some v)"

fun atoi_skip :: "ut8 list \<Rightarrow> ut8 list" where
  "atoi_skip [] = []"
| "atoi_skip (b # bs) = (if b = 32 \<or> (9 \<le> b \<and> b \<le> 13) then atoi_skip bs else b # bs)"

definition atoi :: "ut8 list \<Rightarrow> int option" where
  "atoi k = do {
     v \<leftarrow> (case atoi_skip k of
         [] \<Rightarrow> None
       | b # bs \<Rightarrow> if b = 45 then map_option uminus (atoi_digits 0 bs)
           else if b = 43 then atoi_digits 0 bs else atoi_digits 0 (b # bs));
     (if - (2 ^ 31) \<le> v \<and> v < 2 ^ 31 then Some v else None) }"

definition rot_init :: "ut8 \<Rightarrow> ut8 list \<Rightarrow> int \<Rightarrow> (bool \<times> ut8) option" where
  "rot_init rotkey k keylen =
     (if keylen > 0 then do {
        i \<leftarrow> atoi k;
        Some (True, of_int (rot_mod i 26)) }
      else Some (False, rotkey))"

abbreviation is_lower :: "ut8 \<Rightarrow> bool" where "is_lower b \<equiv> 97 \<le> b \<and> b \<le> 122"
abbreviation is_upper :: "ut8 \<Rightarrow> bool" where "is_upper b \<equiv> 65 \<le> b \<and> b \<le> 90"

definition rot_byte :: "ut8 \<Rightarrow> ut8 \<Rightarrow> ut8" where
  "rot_byte k b =
     (if \<not> is_lower b \<and> \<not> is_upper b then b
      else let base = (if is_lower b then 97 else 65);
               out = b + k - base;
               out = of_int (rot_mod (uint out) 26)
           in out + base)"

definition unrot_byte :: "ut8 \<Rightarrow> ut8 \<Rightarrow> ut8" where
  "unrot_byte k b =
     (if \<not> is_lower b \<and> \<not> is_upper b then b
      else let base = (if is_lower b then 97 else 65);
               out = b + 26 - k - base;
               out = of_int (rot_mod (uint out) 26)
           in out + base)"

definition rot_crypt :: "ut8 \<Rightarrow> ut8 list \<Rightarrow> ut8 list" where
  "rot_crypt k inbuf = map (rot_byte k) inbuf"

definition rot_decrypt :: "ut8 \<Rightarrow> ut8 list \<Rightarrow> ut8 list" where
  "rot_decrypt k inbuf = map (unrot_byte k) inbuf"

section \<open>rc4\<close>

record rc4_state =
  perm :: "ut8 list"
  index1 :: ut8
  index2 :: ut8
  rc4_key_size :: int

definition swap_bytes :: "ut8 list \<Rightarrow> ut8 \<Rightarrow> ut8 \<Rightarrow> ut8 list" where
  "swap_bytes p a b = (if a \<noteq> b then p[unat a := p ! unat b, unat b := p ! unat a] else p)"

fun rc4_shuffle :: "ut8 list \<Rightarrow> int \<Rightarrow> nat list \<Rightarrow> ut8 \<Rightarrow> ut8 list \<Rightarrow> ut8 list option" where
  "rc4_shuffle k keylen [] j p = Some p"
| "rc4_shuffle k keylen (i # is) j p = do {
     b \<leftarrow> nth_opt k (c_mod (int i) keylen);
     (let j = j + (p ! i + b) in rc4_shuffle k keylen is j (swap_bytes p (of_nat i) j)) }"

definition rc4_init :: "rc4_state \<Rightarrow> ut8 list \<Rightarrow> int \<Rightarrow> (bool \<times> rc4_state) option" where
  "rc4_init st k keylen =
     (if keylen < 1 then Some (False, st)
      else do {
        p \<leftarrow> rc4_shuffle k keylen [0..<256] 0 (map of_nat [0..<256]);
        Some (True, st\<lparr>perm := p, index1 := 0, index2 := 0, rc4_key_size := keylen\<rparr>) })"

definition rc4_step :: "rc4_state \<Rightarrow> ut8 \<times> rc4_state" where
  "rc4_step st =
     (let i = index1 st + 1;
          j = index2 st + perm st ! unat i;
          p = swap_bytes (perm st) i j
      in (p ! unat (p ! unat i + p ! unat j), st\<lparr>perm := p, index1 := i, index2 := j\<rparr>))"

fun rc4_crypt :: "rc4_state \<Rightarrow> ut8 list \<Rightarrow> ut8 list \<times> rc4_state" where
  "rc4_crypt st [] = ([], st)"
| "rc4_crypt st (b # inbuf) =
     (let (k, st) = rc4_step st; (outbuf, st) = rc4_crypt st inbuf in ((b XOR k) # outbuf, st))"

section \<open>They are ciphers\<close>

lemma xor_crypt_recover: "xor_crypt st i bs = Some cs \<Longrightarrow> xor_crypt st i cs = Some bs \<and> length cs = length bs"
  by (induction st i bs arbitrary: cs rule: xor_crypt.induct)
    (auto split: Option.bind_splits simp: bit.xor_left_self ac_simps)

interpretation xor: cipher "\<lambda>st. xor_crypt st 0" "\<lambda>st. xor_crypt st 0" "\<lambda>_. True" "\<lambda>_ _. True"
  by unfold_locales (auto dest: xor_crypt_recover)

lemma rc4_crypt_recover:
  "rc4_crypt st (fst (rc4_crypt st bs)) = (bs, snd (rc4_crypt st bs)) \<and> length (fst (rc4_crypt st bs)) = length bs"
proof (induction bs arbitrary: st)
  case (Cons b bs)
  obtain k st1 where "rc4_step st = (k, st1)" by force
  with Cons.IH [of st1] show ?case by (simp add: case_prod_beta xor.assoc)
qed simp

interpretation rc4: cipher "\<lambda>st bs. Some (fst (rc4_crypt st bs))" "\<lambda>st bs. Some (fst (rc4_crypt st bs))" "\<lambda>_. True" "\<lambda>_ _. True"
  by unfold_locales (auto simp: rc4_crypt_recover)

lemma ut8_cases: obtains n where "n < 256" "b = (of_nat n :: ut8)"
  using that [of "unat b"] unsigned_less [where 'a = nat, of b] by simp

lemma of_nat_le_ut8: "m < 256 \<Longrightarrow> n < 256 \<Longrightarrow> (of_nat m :: ut8) \<le> of_nat n \<longleftrightarrow> m \<le> n"
  by (simp add: word_le_nat_alt unat_of_nat)

lemma letter_range:
  "n < 256 \<Longrightarrow> is_lower (of_nat n) \<longleftrightarrow> 97 \<le> n \<and> n \<le> 122"
  "n < 256 \<Longrightarrow> is_upper (of_nat n) \<longleftrightarrow> 65 \<le> n \<and> n \<le> 90"
  using of_nat_le_ut8 [of 97 n] of_nat_le_ut8 [of n 122] of_nat_le_ut8 [of 65 n] of_nat_le_ut8 [of n 90] by auto

lemma rot_mod_26_int: "rot_mod i 26 = i mod 26"
proof (cases "0 \<le> i")
  case True
  then show ?thesis by (simp add: rot_mod_def Let_def)
next
  case False
  define q r where "q = - i div 26" and "r = - i mod 26"
  have i: "i = - (26 * q + r)" unfolding q_def r_def using mult_div_mod_eq [of 26 "- i"] by linarith
  have r: "0 \<le> r" "r < 26" by (simp_all add: r_def)
  have "rot_mod i 26 = (if r = 0 then 0 else 26 - r)"
    using False i r by (auto simp: rot_mod_def Let_def c_mod_def c_div_def simp flip: q_def)
  also have "\<dots> = i mod 26" using zmod_zminus1_eq_if [of "- i" 26] by (simp add: r_def)
  finally show ?thesis .
qed

lemma rot_mod_26: "rot_mod (int n) 26 = int (n mod 26)"
  by (simp add: rot_mod_def Let_def zmod_int)

lemma uint_small: "n < 256 \<Longrightarrow> uint (of_nat n :: ut8) = int n"
  by (simp add: unsigned_of_nat take_bit_nat_eq_self)

lemma letter_cases:
  assumes "base = 97 \<or> base = (65 :: nat)" and "x < 26"
  shows "\<not> (\<not> is_lower (of_nat (base + x)) \<and> \<not> is_upper (of_nat (base + x)))"
    and "(if is_lower (of_nat (base + x)) then 97 else 65) = (of_nat base :: ut8)"
  using assms letter_range [of "base + x"] by auto

lemma rot_letter:
  assumes "base = 97 \<or> base = (65 :: nat)" and "x < 26" and "k < 26"
  shows "rot_byte (of_nat k) (of_nat (base + x)) = of_nat (base + (x + k) mod 26)"
proof -
  have "(of_nat (base + x) :: ut8) + of_nat k - of_nat base = of_nat (x + k)" by simp
  then show ?thesis
    using letter_cases [OF assms(1,2)] uint_small [of "x + k"] assms
    unfolding rot_byte_def Let_def by (simp only: if_False rot_mod_26) (simp add: add.commute)
qed

lemma unrot_letter:
  assumes "base = 97 \<or> base = (65 :: nat)" and "x < 26" and "k < 26"
  shows "unrot_byte (of_nat k) (of_nat (base + x)) = of_nat (base + (x + 26 - k) mod 26)"
proof -
  have "(of_nat (base + x) :: ut8) + 26 - of_nat k - of_nat base = of_nat (x + 26 - k)"
    using assms by (simp add: of_nat_diff)
  then show ?thesis
    using letter_cases [OF assms(1,2)] uint_small [of "x + 26 - k"] assms
    unfolding unrot_byte_def Let_def by (simp only: if_False rot_mod_26) (simp add: add.commute)
qed

lemma rot_shift_back: "x < 26 \<Longrightarrow> k < 26 \<Longrightarrow> ((x + k) mod 26 + 26 - k) mod 26 = (x :: nat)"
  by (cases "x + k < 26") (auto simp: mod_if)

lemma unrot_rot_letter:
  assumes "base = 97 \<or> base = (65 :: nat)" and "x < 26" and "k < 26"
  shows "unrot_byte (of_nat k) (rot_byte (of_nat k) (of_nat (base + x))) = of_nat (base + x)"
  unfolding rot_letter [OF assms] using assms by (subst unrot_letter) (simp_all add: rot_shift_back)

lemma unrot_rot_byte:
  assumes "unat k < 26"
  shows "unrot_byte k (rot_byte k b) = b"
proof -
  obtain n where n: "n < 256" "b = of_nat n" by (rule ut8_cases)
  consider "97 \<le> n \<and> n \<le> 122" | "65 \<le> n \<and> n \<le> 90" | "\<not> is_lower b" "\<not> is_upper b"
    using letter_range [OF n(1)] n(2) by blast
  then show ?thesis
  proof cases
    case 1
    with unrot_rot_letter [of 97 "n - 97" "unat k"] assms n(2) show ?thesis by auto
  next
    case 2
    with unrot_rot_letter [of 65 "n - 65" "unat k"] assms n(2) show ?thesis by auto
  next
    case 3
    then show ?thesis by (simp add: rot_byte_def unrot_byte_def)
  qed
qed

interpretation rot: cipher "\<lambda>k bs. Some (rot_crypt k bs)" "\<lambda>k cs. Some (rot_decrypt k cs)" "\<lambda>k. unat k < 26" "\<lambda>_ _. True"
  by unfold_locales (auto simp: rot_crypt_def rot_decrypt_def unrot_rot_byte map_idI)

lemma rot_init_ok: "rot_init r k n = Some (True, r') \<Longrightarrow> unat r' < 26"
proof -
  assume "rot_init r k n = Some (True, r')"
  then obtain i where r': "r' = of_int (rot_mod i 26)" by (auto simp: rot_init_def split: if_splits Option.bind_splits)
  have "0 \<le> rot_mod i 26 \<and> rot_mod i 26 < 26" by (simp add: rot_mod_26_int)
  then obtain m where "rot_mod i 26 = int m" "m < 26" by (metis of_nat_less_iff of_nat_numeral zero_le_imp_eq_int)
  then show ?thesis by (simp add: r' unat_of_nat)
qed

section \<open>The permutation of rc4\<close>

definition rc4_wf :: "rc4_state \<Rightarrow> bool" where
  "rc4_wf st \<longleftrightarrow> mset (perm st) = mset (map of_nat [0..<256])"

lemma swap_bytes_mset: "length p = 256 \<Longrightarrow> mset (swap_bytes p a b) = mset p"
proof -
  have "unat x < 256" for x :: ut8 using unsigned_less [where 'a = nat, of x] by simp
  then show "length p = 256 \<Longrightarrow> ?thesis" by (simp add: swap_bytes_def mset_swap)
qed

lemma rc4_shuffle_mset:
  "rc4_shuffle k n is j p = Some p' \<Longrightarrow> length p = 256 \<Longrightarrow> mset p' = mset p"
proof (induction k n "is" j p rule: rc4_shuffle.induct)
  case (2 k n i "is" j p)
  then show ?case
    by (auto simp: Let_def swap_bytes_mset split: Option.bind_splits) (metis size_mset swap_bytes_mset)
qed simp

lemma rc4_init_wf: "rc4_init st k n = Some (True, st') \<Longrightarrow> rc4_wf st'"
  by (auto simp: rc4_init_def rc4_wf_def dest!: rc4_shuffle_mset split: if_splits Option.bind_splits simp del: mset_map mset_upt upt_rec_numeral)

lemma rc4_wf_length: "rc4_wf st \<Longrightarrow> length (perm st) = 256"
  by (metis rc4_wf_def length_map length_upt diff_zero size_mset)

lemma rc4_step_wf: "rc4_wf st \<Longrightarrow> rc4_wf (snd (rc4_step st))"
  using rc4_wf_length [of st] by (simp add: rc4_wf_def rc4_step_def Let_def swap_bytes_mset)

lemma rc4_crypt_wf: "rc4_wf st \<Longrightarrow> rc4_wf (snd (rc4_crypt st bs))"
  by (induction bs arbitrary: st) (simp_all add: case_prod_beta rc4_step_wf)

end
