(* ===== verification/R2_Cipher_Block.thy ===== *)
theory R2_Cipher_Block
  imports R2_Cipher R2_Cipher_Tables
begin

text \<open>
  Two block ciphers of \<^verbatim>\<open>libr/crypto/p\<close>, \<open>rc6\<close> and \<open>blowfish\<close>, with their key schedules. A shift of an
  octet into the sign bit of an \<open>int\<close> is taken as gcc computes it; a rotation of \<open>rc6\<close> by a multiple of 32
  shifts by the width of the word, which is undefined and so \<open>None\<close>.
\<close>

section \<open>Blocks\<close>

text \<open>A loop over \<open>n\<close> blocks of \<open>k\<close> bytes.\<close>

fun each_block :: "nat \<Rightarrow> (ut8 list \<Rightarrow> ut8 list option) \<Rightarrow> nat \<Rightarrow> ut8 list \<Rightarrow> ut8 list option" where
  "each_block k f 0 bs = Some []"
| "each_block k f (Suc n) bs = do {
     c \<leftarrow> f (take k bs);
     cs \<leftarrow> each_block k f n (drop k bs);
     Some (c @ cs) }"

lemma each_block_recover:
  assumes "\<And>b c. length b = k \<Longrightarrow> f b = Some c \<Longrightarrow> length c = k \<and> g c = Some b"
  shows "each_block k f n bs = Some cs \<Longrightarrow> length bs = n * k \<Longrightarrow> length cs = n * k \<and> each_block k g n cs = Some bs"
proof (induction n arbitrary: bs cs)
  case (Suc n)
  then obtain c cs' where c: "f (take k bs) = Some c" "each_block k f n (drop k bs) = Some cs'" "cs = c @ cs'"
    by (auto split: Option.bind_splits)
  then show ?case using Suc.IH [OF c(2)] assms [of "take k bs" c] Suc.prems(2) by simp
qed simp

lemma each_block_update:
  assumes "\<And>b c. length b = k \<Longrightarrow> f b = Some c \<Longrightarrow> length c = k \<and> g c = Some b"
    and "0 < k" and "length bs mod k = 0" and "each_block k f (length bs div k) bs = Some cs"
  shows "length cs = length bs \<and> each_block k g (length cs div k) cs = Some bs"
proof -
  obtain n where n: "length bs = n * k" using assms(3) by (metis mod_0_imp_dvd dvd_def mult.commute)
  with assms(2,4) have "each_block k f n bs = Some cs" by simp
  from each_block_recover [OF assms(1) this n] show ?thesis using assms(2) n by simp
qed

section \<open>rc6\<close>

definition ROTL :: "ut32 \<Rightarrow> ut32 \<Rightarrow> ut32 option" where
  "ROTL x y = (let n = unat (y AND 31) in if n = 0 then None else Some (push_bit n x OR drop_bit (32 - n) x))"

definition ROTR :: "ut32 \<Rightarrow> ut32 \<Rightarrow> ut32 option" where
  "ROTR x y = (let n = unat (y AND 31) in if n = 0 then None else Some (drop_bit n x OR push_bit (32 - n) x))"

record rc6_state =
  S :: "ut32 list"
  rc6_key_size :: int

fun le32_words :: "ut8 list \<Rightarrow> ut32 list" where
  "le32_words (a # b # c # d # bs) =
     (ucast a OR push_bit 8 (ucast b) OR push_bit 16 (ucast c) OR push_bit 24 (ucast d)) # le32_words bs"
| "le32_words _ = []"

definition le32_bytes :: "ut32 \<Rightarrow> ut8 list" where
  "le32_bytes v = [ucast v, ucast (drop_bit 8 v), ucast (drop_bit 16 v), ucast (drop_bit 24 v)]"

primrec rc6_seed :: "nat \<Rightarrow> ut32 \<Rightarrow> ut32 list" where
  "rc6_seed 0 x = []"
| "rc6_seed (Suc n) x = x # rc6_seed n (x + 0x9e3779b9)"

primrec rc6_mix :: "nat \<Rightarrow> ut32 \<Rightarrow> ut32 \<Rightarrow> nat \<Rightarrow> nat \<Rightarrow> ut32 list \<Rightarrow> ut32 list \<Rightarrow> ut32 list option" where
  "rc6_mix 0 A B k j s L = Some s"
| "rc6_mix (Suc n) A B k j s L = do {
     A \<leftarrow> ROTL (s ! k + A + B) 3;
     (let s = s[k := A] in do {
       B \<leftarrow> ROTL (L ! j + A + B) (A + B);
       rc6_mix n A B ((k + 1) mod 44) ((j + 1) mod length L) s (L[j := B]) }) }"

definition rc6_schedule :: "ut8 list \<Rightarrow> int \<Rightarrow> ut32 list option" where
  "rc6_schedule k keylen = do {
     bs \<leftarrow> buf_read k 0 (nat keylen);
     rc6_mix 132 0 0 0 0 (rc6_seed 44 0xb7e15163) (le32_words bs) }"

text \<open>The flag for the direction is a static variable of its own, returned with the state.\<close>

definition rc6_init :: "rc6_state \<Rightarrow> bool \<Rightarrow> ut8 list \<Rightarrow> int \<Rightarrow> int \<Rightarrow> (bool \<times> bool \<times> rc6_state) option" where
  "rc6_init st flag k keylen direction =
     (if keylen \<noteq> 16 \<and> keylen \<noteq> 24 \<and> keylen \<noteq> 32 then Some (False, flag, st)
      else do {
        s \<leftarrow> rc6_schedule k keylen;
        Some (True, direction \<noteq> 0, st\<lparr>S := s, rc6_key_size := keylen div 8\<rparr>) })"

type_synonym quad = "ut32 \<times> ut32 \<times> ut32 \<times> ut32"

fun rc6_round :: "ut32 list \<Rightarrow> nat \<Rightarrow> quad \<Rightarrow> quad option" where
  "rc6_round s i (A, B, C, D) = do {
     t \<leftarrow> ROTL (B * (2 * B + 1)) 5;
     u \<leftarrow> ROTL (D * (2 * D + 1)) 5;
     A \<leftarrow> ROTL (A XOR t) u;
     C \<leftarrow> ROTL (C XOR u) t;
     Some (B, C + s ! (2 * i + 1), D, A + s ! (2 * i)) }"

fun rc6_rounds :: "ut32 list \<Rightarrow> nat list \<Rightarrow> quad \<Rightarrow> quad option" where
  "rc6_rounds s [] q = Some q"
| "rc6_rounds s (i # is) q = do { q \<leftarrow> rc6_round s i q; rc6_rounds s is q }"

definition rc6_encrypt :: "rc6_state \<Rightarrow> ut8 list \<Rightarrow> ut8 list option" where
  "rc6_encrypt st inbuf = (case le32_words inbuf of
     [A, B, C, D] \<Rightarrow> do {
       (A, B, C, D) \<leftarrow> rc6_rounds (S st) [1..<21] (A, B + S st ! 0, C, D + S st ! 1);
       Some (concat (map le32_bytes [A + S st ! 42, B, C + S st ! 43, D])) }
   | _ \<Rightarrow> None)"

fun rc6_unround :: "ut32 list \<Rightarrow> nat \<Rightarrow> quad \<Rightarrow> quad option" where
  "rc6_unround s i (A, B, C, D) = (let (A, B, C, D) = (D, A, B, C) in do {
     u \<leftarrow> ROTL (D * (2 * D + 1)) 5;
     t \<leftarrow> ROTL (B * (2 * B + 1)) 5;
     C \<leftarrow> ROTR (C - s ! (2 * i + 1)) t;
     A \<leftarrow> ROTR (A - s ! (2 * i)) u;
     Some (A XOR t, B, C XOR u, D) })"

fun rc6_unrounds :: "ut32 list \<Rightarrow> nat list \<Rightarrow> quad \<Rightarrow> quad option" where
  "rc6_unrounds s [] q = Some q"
| "rc6_unrounds s (i # is) q = do { q \<leftarrow> rc6_unround s i q; rc6_unrounds s is q }"

definition rc6_decrypt :: "rc6_state \<Rightarrow> ut8 list \<Rightarrow> ut8 list option" where
  "rc6_decrypt st inbuf = (case le32_words inbuf of
     [A, B, C, D] \<Rightarrow> do {
       (A, B, C, D) \<leftarrow> rc6_unrounds (S st) (rev [1..<21]) (A - S st ! 42, B, C - S st ! 43, D);
       Some (concat (map le32_bytes [A, B - S st ! 0, C, D - S st ! 1])) }
   | _ \<Rightarrow> None)"

lemma and_31_less: "unat (y AND 31 :: ut32) < 32"
  using word_and_mask_unat [of y 5] by (simp add: mask_eq_exp_minus_1)

lemma ROTR_ROTL:
  assumes "ROTL x y = Some z"
  shows "ROTR z y = Some x"
proof -
  define n where "n = unat (y AND 31)"
  have n: "0 < n" "n < 32" and z: "z = push_bit n x OR drop_bit (32 - n) x"
    using assms and_31_less [of y] by (auto simp: ROTL_def Let_def n_def split: if_splits)
  have "drop_bit n z OR push_bit (32 - n) z = x"
    using n by (auto simp: z bit_simps intro!: bit_word_eqI)
  then show ?thesis using n(1) by (simp add: ROTR_def Let_def flip: n_def)
qed

lemma le32_words_bytes: "le32_words (le32_bytes v @ bs) = v # le32_words bs"
proof -
  have "ucast (ucast v :: ut8) OR push_bit 8 (ucast (ucast (drop_bit 8 v) :: ut8)) OR
      push_bit 16 (ucast (ucast (drop_bit 16 v) :: ut8)) OR push_bit 24 (ucast (ucast (drop_bit 24 v) :: ut8)) = v"
  proof (rule bit_word_eqI)
    fix n assume "n < LENGTH(32)"
    then consider "n < 8" | "8 \<le> n" "n < 16" | "16 \<le> n" "n < 24" | "24 \<le> n" "n < 32" by fastforce
    then show "bit (ucast (ucast v :: ut8) OR push_bit 8 (ucast (ucast (drop_bit 8 v) :: ut8)) OR
        push_bit 16 (ucast (ucast (drop_bit 16 v) :: ut8)) OR push_bit 24 (ucast (ucast (drop_bit 24 v) :: ut8)) :: ut32) n = bit v n"
      by cases (auto simp: bit_simps)
  qed
  then show ?thesis by (simp add: le32_bytes_def)
qed

lemma le32_bytes_words: "length bs = 4 * n \<Longrightarrow> concat (map le32_bytes (le32_words bs)) = bs"
proof (induction bs arbitrary: n rule: le32_words.induct)
  case (1 a b c d bs)
  let ?v = "ucast a OR push_bit 8 (ucast b) OR push_bit 16 (ucast c) OR push_bit 24 (ucast d) :: ut32"
  have "ucast ?v = a" "ucast (drop_bit 8 ?v) = b" "ucast (drop_bit 16 ?v) = c" "ucast (drop_bit 24 ?v) = d"
    by (auto simp: bit_simps intro!: bit_word_eqI)
  with 1 show ?case by (cases n) (simp_all add: le32_bytes_def)
qed (simp_all, presburger+)

lemma rc6_unround_round: "rc6_round s i q = Some q' \<Longrightarrow> rc6_unround s i q' = Some q"
proof -
  assume *: "rc6_round s i q = Some q'"
  obtain A B C D where q: "q = (A, B, C, D)" by (cases q)
  from * obtain t u a c where r: "ROTL (B * (2 * B + 1)) 5 = Some t" "ROTL (D * (2 * D + 1)) 5 = Some u"
      "ROTL (A XOR t) u = Some a" "ROTL (C XOR u) t = Some c" and q': "q' = (B, c + s ! (2 * i + 1), D, a + s ! (2 * i))"
    by (auto simp: q split: Option.bind_splits)
  with ROTR_ROTL [OF r(3)] ROTR_ROTL [OF r(4)] show ?thesis by (simp add: q xor.assoc)
qed

lemma rc6_unrounds_append: "rc6_unrounds s (is @ js) q = rc6_unrounds s is q \<bind> rc6_unrounds s js"
  by (induction "is" arbitrary: q) (auto split: Option.bind_splits)

lemma rc6_unrounds_rounds: "rc6_rounds s is q = Some q' \<Longrightarrow> rc6_unrounds s (rev is) q' = Some q"
  by (induction "is" arbitrary: q) (auto simp: rc6_unrounds_append rc6_unround_round simp del: rc6_round.simps rc6_unround.simps split: Option.bind_splits)

lemma rc6_recover:
  assumes "rc6_encrypt st b = Some c" and "length b = 16"
  shows "length c = 16 \<and> rc6_decrypt st c = Some b"
proof -
  from assms(1) obtain A B C D A' B' C' D' where
    b: "le32_words b = [A, B, C, D]" and
    r: "rc6_rounds (S st) [1..<21] (A, B + S st ! 0, C, D + S st ! 1) = Some (A', B', C', D')" and
    c: "c = concat (map le32_bytes [A' + S st ! 42, B', C' + S st ! 43, D'])"
    by (auto simp: rc6_encrypt_def split: list.splits Option.bind_splits)
  have "le32_words c = [A' + S st ! 42, B', C' + S st ! 43, D']"
    using le32_words_bytes [of D' "[]"] by (simp add: c le32_words_bytes)
  moreover have "concat (map le32_bytes [A, B, C, D]) = b" using le32_bytes_words [of b 4] assms(2) b by simp
  ultimately show ?thesis using rc6_unrounds_rounds [OF r]
    by (simp add: rc6_decrypt_def c del: upt_rec_numeral) (simp add: le32_bytes_def)
qed

definition rc6_update :: "bool \<Rightarrow> rc6_state \<Rightarrow> ut8 list \<Rightarrow> ut8 list option" where
  "rc6_update flag st buf = each_block 16 (if flag then rc6_decrypt st else rc6_encrypt st) (length buf div 16) buf"

interpretation rc6: cipher "rc6_update False" "rc6_update True" "\<lambda>_. True" "\<lambda>bs _. length bs mod 16 = 0"
proof unfold_locales
  fix st bs cs assume "rc6_update False st bs = Some cs" "length bs mod 16 = 0"
  then have "length cs = length bs \<and> each_block 16 (rc6_decrypt st) (length cs div 16) cs = Some bs"
    by (intro each_block_update [of 16 "rc6_encrypt st"]) (use rc6_recover in \<open>auto simp: rc6_update_def\<close>)
  then show "rc6_update True st cs = Some bs" "length cs = length bs" by (auto simp: rc6_update_def)
qed

section \<open>blowfish\<close>

record blowfish_state =
  bf_ps :: "ut32 list"
  bf_ss :: "ut32 list list"
  bf_key_size :: int

definition F :: "blowfish_state \<Rightarrow> ut32 \<Rightarrow> ut32" where
  "F st x =
     (let a = ucast (drop_bit 24 x AND 0xff) :: ut8; b = ucast (drop_bit 16 x AND 0xff) :: ut8;
          c = ucast (drop_bit 8 x AND 0xff) :: ut8; d = ucast (x AND 0xff) :: ut8
      in ((bf_ss st ! 0 ! unat a + bf_ss st ! 1 ! unat b) XOR bf_ss st ! 2 ! unat c) + bf_ss st ! 3 ! unat d)"

definition be32 :: "ut8 \<Rightarrow> ut8 \<Rightarrow> ut8 \<Rightarrow> ut8 \<Rightarrow> ut32" where
  "be32 a b c d = push_bit 24 (ucast a) OR push_bit 16 (ucast b) OR push_bit 8 (ucast c) OR ucast d"

definition be32_bytes :: "ut32 \<Rightarrow> ut8 list" where
  "be32_bytes v = [ucast (drop_bit 24 v), ucast (drop_bit 16 v), ucast (drop_bit 8 v), ucast v]"

text \<open>One turn of the inner loop, the swap included.\<close>

definition bf_round :: "blowfish_state \<Rightarrow> ut32 \<times> ut32 \<Rightarrow> nat \<Rightarrow> ut32 \<times> ut32" where
  "bf_round st lr i = (let left = fst lr XOR bf_ps st ! i; right = snd lr XOR F st left in (right, left))"

fun bf_pair :: "ut8 list \<Rightarrow> ut32 \<times> ut32" where
  "bf_pair [a, b, c, d, e, f, g, h] = (be32 a b c d, be32 e f g h)"
| "bf_pair _ = (0, 0)"

definition bf_crypt_block :: "blowfish_state \<Rightarrow> ut8 list \<Rightarrow> ut8 list" where
  "bf_crypt_block st block =
     (let lr = foldl (bf_round st) (bf_pair block) [0..<16];
          left = snd lr XOR bf_ps st ! 17; right = fst lr XOR bf_ps st ! 16
      in be32_bytes left @ be32_bytes right)"

definition bf_decrypt_block :: "blowfish_state \<Rightarrow> ut8 list \<Rightarrow> ut8 list" where
  "bf_decrypt_block st block =
     (let lr = foldl (bf_round st) (bf_pair block) (rev [2..<18]);
          left = snd lr XOR bf_ps st ! 0; right = fst lr XOR bf_ps st ! 1
      in be32_bytes left @ be32_bytes right)"

text \<open>
  The two loops over the blocks. \<open>outbuf\<close> is not written when the length is no multiple of 8; it is all
  zero then, as the callers allocate it.
\<close>

definition blowfish_crypt :: "blowfish_state \<Rightarrow> ut8 list \<Rightarrow> ut8 list option" where
  "blowfish_crypt st inbuf =
     (if length inbuf mod 8 \<noteq> 0 then Some (replicate (length inbuf) 0)
      else each_block 8 (\<lambda>b. Some (bf_crypt_block st b)) (length inbuf div 8) inbuf)"

definition blowfish_decrypt :: "blowfish_state \<Rightarrow> ut8 list \<Rightarrow> ut8 list option" where
  "blowfish_decrypt st inbuf =
     (if length inbuf mod 8 \<noteq> 0 then Some (replicate (length inbuf) 0)
      else each_block 8 (\<lambda>b. Some (bf_decrypt_block st b)) (length inbuf div 8) inbuf)"

fun bf_xor_key :: "ut8 list \<Rightarrow> int \<Rightarrow> nat list \<Rightarrow> ut32 list \<Rightarrow> ut32 list option" where
  "bf_xor_key k keylen [] ps = Some ps"
| "bf_xor_key k keylen (i # is) ps =
     (if keylen = 0 then None
      else do {
        a \<leftarrow> nth_opt k (int (4 * i) mod \<bar>keylen\<bar>);
        b \<leftarrow> nth_opt k (int (4 * i + 1) mod \<bar>keylen\<bar>);
        c \<leftarrow> nth_opt k (int (4 * i + 2) mod \<bar>keylen\<bar>);
        d \<leftarrow> nth_opt k (int (4 * i + 3) mod \<bar>keylen\<bar>);
        bf_xor_key k keylen is (ps[i := ps ! i XOR be32 a b c d]) })"

fun bf_fill_p :: "nat list \<Rightarrow> ut8 list \<times> blowfish_state \<Rightarrow> ut8 list \<times> blowfish_state" where
  "bf_fill_p [] bs = bs"
| "bf_fill_p (i # is) (block, st) =
     (let block = bf_crypt_block st block; (l, r) = bf_pair block
      in bf_fill_p is (block, st\<lparr>bf_ps := (bf_ps st)[i := l, i + 1 := r]\<rparr>))"

fun bf_fill_s :: "(nat \<times> nat) list \<Rightarrow> ut8 list \<times> blowfish_state \<Rightarrow> ut8 list \<times> blowfish_state" where
  "bf_fill_s [] bs = bs"
| "bf_fill_s ((i, j) # ijs) (block, st) =
     (let block = bf_crypt_block st block; (l, r) = bf_pair block
      in bf_fill_s ijs (block, st\<lparr>bf_ss := (bf_ss st)[i := (bf_ss st ! i)[j := l, j + 1 := r]]\<rparr>))"

definition blowfish_init :: "blowfish_state \<Rightarrow> ut8 list \<Rightarrow> int \<Rightarrow> (bool \<times> blowfish_state) option" where
  "blowfish_init st k keylen =
     (if keylen > 56 then Some (False, st)
      else do {
        ps \<leftarrow> bf_xor_key k keylen [0..<18] bf_p;
        (let st = st\<lparr>bf_ps := ps, bf_ss := bf_s, bf_key_size := keylen\<rparr>;
             bs = bf_fill_p (map (\<lambda>n. 2 * n) [0..<9]) (replicate 8 0, st);
             bs = bf_fill_s (concat (map (\<lambda>i. map (\<lambda>n. (i, 2 * n)) [0..<128]) [0..<4])) bs
         in Some (True, snd bs)) })"

lemma bf_pair_bytes: "bf_pair (be32_bytes l @ be32_bytes r) = (l, r)"
proof -
  have "be32 (ucast (drop_bit 24 v)) (ucast (drop_bit 16 v)) (ucast (drop_bit 8 v)) (ucast v) = v" for v
    using le32_words_bytes [of v "[]"] by (simp add: le32_bytes_def be32_def ac_simps)
  then show ?thesis by (simp add: be32_bytes_def)
qed

lemma be32_bytes_be32: "be32_bytes (be32 a b c d) = [a, b, c, d]"
  using le32_bytes_words [of "[d, c, b, a]" 1] by (simp add: be32_bytes_def be32_def le32_bytes_def ac_simps)

text \<open>Before its turn \<open>i\<close>, counted backwards, decryption holds the halves of encryption after \<open>i\<close> turns, xored with the keys.\<close>

lemma bf_unround:
  "bf_round st (snd (bf_round st lr i) XOR bf_ps st ! (i + 2), fst (bf_round st lr i) XOR bf_ps st ! (i + 1)) (i + 2) =
   (snd lr XOR bf_ps st ! (i + 1), fst lr XOR bf_ps st ! i)"
  by (simp add: bf_round_def Let_def ac_simps xor.assoc)

lemma bf_unrounds:
  "foldl (bf_round st)
     (snd (foldl (bf_round st) lr [0..<n]) XOR bf_ps st ! (n + 1), fst (foldl (bf_round st) lr [0..<n]) XOR bf_ps st ! n)
     (rev [2..<n + 2]) = (snd lr XOR bf_ps st ! 1, fst lr XOR bf_ps st ! 0)"
proof (induction n)
  case (Suc n)
  then show ?case using bf_unround [of st "foldl (bf_round st) lr [0..<n]" n] by simp
qed simp

lemma bf_decrypt_crypt:
  assumes "length b = 8"
  shows "bf_decrypt_block st (bf_crypt_block st b) = b \<and> length (bf_crypt_block st b) = 8"
proof -
  obtain x0 x1 x2 x3 x4 x5 x6 x7 where b: "b = [x0, x1, x2, x3, x4, x5, x6, x7]"
    by (rule length_8E [OF assms])
  have "foldl (bf_round st) (bf_pair (bf_crypt_block st b)) (rev [2..<18]) = (snd (bf_pair b) XOR bf_ps st ! 1, fst (bf_pair b) XOR bf_ps st ! 0)"
    using bf_unrounds [of st "bf_pair b" 16] by (simp add: bf_crypt_block_def bf_pair_bytes Let_def del: upt_rec_numeral)
  then have "bf_decrypt_block st (bf_crypt_block st b) = b"
    by (simp add: bf_decrypt_block_def Let_def be32_bytes_be32 b xor.assoc del: upt_rec_numeral)
  moreover have "length (bf_crypt_block st b) = 8" by (simp add: bf_crypt_block_def Let_def be32_bytes_def)
  ultimately show ?thesis by simp
qed

interpretation blowfish: cipher blowfish_crypt blowfish_decrypt "\<lambda>_. True" "\<lambda>bs _. length bs mod 8 = 0"
proof unfold_locales
  fix st bs cs assume *: "blowfish_crypt st bs = Some cs" "length bs mod 8 = 0"
  then have "length cs = length bs \<and> each_block 8 (\<lambda>b. Some (bf_decrypt_block st b)) (length cs div 8) cs = Some bs"
    by (intro each_block_update [of 8 "\<lambda>b. Some (bf_crypt_block st b)"]) (auto simp: blowfish_crypt_def bf_decrypt_crypt)
  then show "blowfish_decrypt st cs = Some bs" "length cs = length bs"
    using *(2) by (auto simp: blowfish_decrypt_def)
qed

end
