(* ===== verification/R2_Cipher_Rc2.thy ===== *)
theory R2_Cipher_Rc2
  imports R2_Cipher R2_Cipher_Tables
begin

text \<open>
  The block cipher \<open>rc2\<close>, \<^verbatim>\<open>libr/crypto/p/crypto_rc2.c\<close>. Blocks are copied to the output with \<open>strncpy\<close>, which
  stops at a zero byte, so decryption is shown to bring back texts without one.
\<close>

section \<open>rc2\<close>

record rc2_state =
  ekey :: "ut16 list"
  rc2_key_size :: int

text \<open>The key schedule works on the bytes of \<open>ekey\<close>.\<close>

fun rc2_expand :: "int \<Rightarrow> nat list \<Rightarrow> ut8 list \<Rightarrow> ut8 list" where
  "rc2_expand key_len [] k = k"
| "rc2_expand key_len (i # is) k = rc2_expand key_len is (k[i := PITABLE ! unat (k ! nat (int i - key_len) + k ! (i - 1))])"

primrec rc2_expand_down :: "nat \<Rightarrow> nat \<Rightarrow> ut8 list \<Rightarrow> ut8 list" where
  "rc2_expand_down ekey_len 0 k = k"
| "rc2_expand_down ekey_len (Suc i) k = rc2_expand_down ekey_len i (k[i := PITABLE ! unat (k ! (i + 1) XOR k ! (i + ekey_len))])"

fun le16_words :: "ut8 list \<Rightarrow> ut16 list" where
  "le16_words (a # b # bs) = (ucast a + push_bit 8 (ucast b)) # le16_words bs"
| "le16_words _ = []"

definition rc2_expandKey :: "rc2_state \<Rightarrow> ut8 list \<Rightarrow> int \<Rightarrow> (bool \<times> rc2_state) option" where
  "rc2_expandKey st k key_len =
     (if key_len < 1 \<or> key_len > 128 then Some (False, st)
      else do {
        bs \<leftarrow> buf_read k 0 (nat key_len);
        (let old = concat (map (\<lambda>w. [ucast w, ucast (drop_bit 8 w)]) (ekey st)) in do {
          b \<leftarrow> buf_write old 0 bs;
          (let b = rc2_expand key_len [nat key_len..<128] b;
               ekey_len = (1024 + 7) div 8; i = 128 - ekey_len;
               b = b[i := PITABLE ! unat (b ! i AND 255)];
               b = rc2_expand_down ekey_len i b
           in Some (True, st\<lparr>ekey := le16_words b\<rparr>)) }) })"

type_synonym quad16 = "ut16 \<times> ut16 \<times> ut16 \<times> ut16"

definition rc2_round :: "ut16 list \<Rightarrow> nat \<Rightarrow> quad16 \<Rightarrow> quad16" where
  "rc2_round ek i q = (case q of (x10, x32, x54, x76) \<Rightarrow>
     (let x10 = x10 + ((x32 AND NOT x76) + (x54 AND x76) + ek ! (4 * i));
          x10 = push_bit 1 x10 + (drop_bit 15 x10 AND 1);
          x32 = x32 + ((x54 AND NOT x10) + (x76 AND x10) + ek ! (4 * i + 1));
          x32 = push_bit 2 x32 + (drop_bit 14 x32 AND 3);
          x54 = x54 + ((x76 AND NOT x32) + (x10 AND x32) + ek ! (4 * i + 2));
          x54 = push_bit 3 x54 + (drop_bit 13 x54 AND 7);
          x76 = x76 + ((x10 AND NOT x54) + (x32 AND x54) + ek ! (4 * i + 3));
          x76 = push_bit 5 x76 + (drop_bit 11 x76 AND 31)
      in (x10, x32, x54, x76)))"

fun rc2_mash :: "ut16 list \<Rightarrow> quad16 \<Rightarrow> quad16" where
  "rc2_mash ek (x10, x32, x54, x76) =
     (let x10 = x10 + ek ! unat (x76 AND 63); x32 = x32 + ek ! unat (x10 AND 63);
          x54 = x54 + ek ! unat (x32 AND 63); x76 = x76 + ek ! unat (x54 AND 63)
      in (x10, x32, x54, x76))"

definition rc2_turn :: "ut16 list \<Rightarrow> quad16 \<Rightarrow> nat \<Rightarrow> quad16" where
  "rc2_turn ek q i = (let q = rc2_round ek i q in if i = 4 \<or> i = 10 then rc2_mash ek q else q)"

fun rc2_unround :: "ut16 list \<Rightarrow> nat \<Rightarrow> quad16 \<Rightarrow> quad16" where
  "rc2_unround ek i (x10, x32, x54, x76) =
     (let x76 = push_bit 11 x76 OR drop_bit 5 x76;
          x76 = x76 - (((x10 AND NOT x54) OR (x32 AND x54)) + ek ! (4 * i + 3));
          x54 = push_bit 13 x54 OR drop_bit 3 x54;
          x54 = x54 - (((x76 AND NOT x32) OR (x10 AND x32)) + ek ! (4 * i + 2));
          x32 = push_bit 14 x32 OR drop_bit 2 x32;
          x32 = x32 - (((x54 AND NOT x10) OR (x76 AND x10)) + ek ! (4 * i + 1));
          x10 = push_bit 15 x10 OR drop_bit 1 x10;
          x10 = x10 - (((x32 AND NOT x76) OR (x54 AND x76)) + ek ! (4 * i))
      in (x10, x32, x54, x76))"

fun rc2_unmash :: "ut16 list \<Rightarrow> quad16 \<Rightarrow> quad16" where
  "rc2_unmash ek (x10, x32, x54, x76) =
     (let x76 = x76 - ek ! unat (x54 AND 63); x54 = x54 - ek ! unat (x32 AND 63);
          x32 = x32 - ek ! unat (x10 AND 63); x10 = x10 - ek ! unat (x76 AND 63)
      in (x10, x32, x54, x76))"

definition rc2_unturn :: "ut16 list \<Rightarrow> quad16 \<Rightarrow> nat \<Rightarrow> quad16" where
  "rc2_unturn ek q i = (let q = rc2_unround ek i q in if i = 5 \<or> i = 11 then rc2_unmash ek q else q)"

fun rc2_load :: "ut8 list \<Rightarrow> quad16" where
  "rc2_load [a, b, c, d, e, f, g, h] =
     (push_bit 8 (ucast b) OR ucast a, push_bit 8 (ucast d) OR ucast c, push_bit 8 (ucast f) OR ucast e, push_bit 8 (ucast h) OR ucast g)"
| "rc2_load _ = (0, 0, 0, 0)"

fun rc2_store :: "quad16 \<Rightarrow> ut8 list" where
  "rc2_store (x10, x32, x54, x76) =
     [ucast x10, ucast (drop_bit 8 x10), ucast x32, ucast (drop_bit 8 x32),
      ucast x54, ucast (drop_bit 8 x54), ucast x76, ucast (drop_bit 8 x76)]"

definition rc2_crypt8 :: "rc2_state \<Rightarrow> ut8 list \<Rightarrow> ut8 list" where
  "rc2_crypt8 st inbuf = rc2_store (foldl (rc2_turn (ekey st)) (rc2_load inbuf) [0..<16])"

definition rc2_dcrypt8 :: "rc2_state \<Rightarrow> ut8 list \<Rightarrow> ut8 list" where
  "rc2_dcrypt8 st inbuf = rc2_store (foldl (rc2_unturn (ekey st)) (rc2_load inbuf) (rev [0..<16]))"

definition strncpy :: "nat \<Rightarrow> ut8 list \<Rightarrow> ut8 list" where
  "strncpy n src = (let s = takeWhile (\<lambda>b. b \<noteq> 0) (take n src) in s @ replicate (n - length s) 0)"

text \<open>The loop that both directions share: \<open>blk\<close>, \<open>idx\<close> and \<open>ptr\<close> are its variables.\<close>

fun rc2_loop :: "(ut8 list \<Rightarrow> ut8 list) \<Rightarrow> ut8 list \<Rightarrow> ut8 list \<Rightarrow> nat \<Rightarrow> nat \<Rightarrow> ut8 list \<Rightarrow> (ut8 list \<times> nat \<times> nat \<times> ut8 list) option" where
  "rc2_loop f [] blk idx ptr out = Some (blk, idx, ptr, out)"
| "rc2_loop f (b # bs) blk idx ptr out =
     (let blk = blk[idx := b]; idx = idx + 1
      in if idx mod 8 = 0 then do {
           out \<leftarrow> buf_write out ptr (strncpy 8 (f blk));
           rc2_loop f bs blk 0 (ptr + 8) out }
         else rc2_loop f bs blk idx ptr out)"

definition rc2_crypt :: "rc2_state \<Rightarrow> ut8 list \<Rightarrow> ut8 list option" where
  "rc2_crypt st inbuf = do {
     (blk, idx, ptr, out) \<leftarrow> rc2_loop (rc2_crypt8 st) inbuf (replicate 8 0) 0 0 (replicate (length inbuf) 0);
     (if idx mod 8 \<noteq> 0 then buf_write out ptr (strncpy 8 (rc2_crypt8 st (take idx blk @ replicate (8 - idx) 0)))
      else Some out) }"

definition rc2_dcrypt :: "rc2_state \<Rightarrow> ut8 list \<Rightarrow> ut8 list option" where
  "rc2_dcrypt st inbuf = do {
     (blk, idx, ptr, out) \<leftarrow> rc2_loop (rc2_dcrypt8 st) inbuf (replicate 8 0) 0 0 (replicate (length inbuf) 0);
     Some out }"

section \<open>Decryption undoes a block\<close>

lemma select_or: "(a AND NOT c) OR (b AND c) = (a AND NOT c) + (b AND c)" for a b c :: ut16
  by (rule disjunctive_add_eq_or [symmetric]) (auto simp: bit_simps intro!: bit_word_eqI)

lemma rotate_back:
  "push_bit 15 (push_bit 1 x + (drop_bit 15 x AND 1)) OR drop_bit 1 (push_bit 1 x + (drop_bit 15 x AND 1)) = x"
  "push_bit 14 (push_bit 2 x + (drop_bit 14 x AND 3)) OR drop_bit 2 (push_bit 2 x + (drop_bit 14 x AND 3)) = x"
  "push_bit 13 (push_bit 3 x + (drop_bit 13 x AND 7)) OR drop_bit 3 (push_bit 3 x + (drop_bit 13 x AND 7)) = x"
  "push_bit 11 (push_bit 5 x + (drop_bit 11 x AND 31)) OR drop_bit 5 (push_bit 5 x + (drop_bit 11 x AND 31)) = x"
  for x :: ut16
proof -
  have *: "push_bit (16 - n) (push_bit n x + (drop_bit (16 - n) x AND mask n)) OR drop_bit n (push_bit n x + (drop_bit (16 - n) x AND mask n)) = x"
    if "n < 16" for n
  proof -
    have "push_bit n x + (drop_bit (16 - n) x AND mask n) = push_bit n x OR (drop_bit (16 - n) x AND mask n)"
      by (rule disjunctive_add_eq_or) (auto simp: bit_simps intro!: bit_word_eqI)
    then show ?thesis using that by (auto simp: bit_simps intro!: bit_word_eqI)
  qed
  show "push_bit 15 (push_bit 1 x + (drop_bit 15 x AND 1)) OR drop_bit 1 (push_bit 1 x + (drop_bit 15 x AND 1)) = x"
    "push_bit 14 (push_bit 2 x + (drop_bit 14 x AND 3)) OR drop_bit 2 (push_bit 2 x + (drop_bit 14 x AND 3)) = x"
    "push_bit 13 (push_bit 3 x + (drop_bit 13 x AND 7)) OR drop_bit 3 (push_bit 3 x + (drop_bit 13 x AND 7)) = x"
    "push_bit 11 (push_bit 5 x + (drop_bit 11 x AND 31)) OR drop_bit 5 (push_bit 5 x + (drop_bit 11 x AND 31)) = x"
    using * [of 1] * [of 2] * [of 3] * [of 5] by (simp_all add: mask_eq_exp_minus_1)
qed

lemma rc2_unround_round: "rc2_unround ek i (rc2_round ek i q) = q"
proof (cases q)
  case (fields x10 x32 x54 x76)
  define y10 where "y10 = x10 + ((x32 AND NOT x76) + (x54 AND x76) + ek ! (4 * i))"
  define z10 where "z10 = push_bit 1 y10 + (drop_bit 15 y10 AND 1)"
  define y32 where "y32 = x32 + ((x54 AND NOT z10) + (x76 AND z10) + ek ! (4 * i + 1))"
  define z32 where "z32 = push_bit 2 y32 + (drop_bit 14 y32 AND 3)"
  define y54 where "y54 = x54 + ((x76 AND NOT z32) + (z10 AND z32) + ek ! (4 * i + 2))"
  define z54 where "z54 = push_bit 3 y54 + (drop_bit 13 y54 AND 7)"
  define y76 where "y76 = x76 + ((z10 AND NOT z54) + (z32 AND z54) + ek ! (4 * i + 3))"
  define z76 where "z76 = push_bit 5 y76 + (drop_bit 11 y76 AND 31)"
  have "push_bit 15 z10 OR drop_bit 1 z10 = y10" "push_bit 14 z32 OR drop_bit 2 z32 = y32"
    "push_bit 13 z54 OR drop_bit 3 z54 = y54" "push_bit 11 z76 OR drop_bit 5 z76 = y76"
    unfolding z10_def z32_def z54_def z76_def by (rule rotate_back)+
  moreover have "rc2_round ek i q = (z10, z32, z54, z76)"
    unfolding fields rc2_round_def prod.case Let_def y10_def [symmetric] z10_def [symmetric] y32_def [symmetric] z32_def [symmetric]
      y54_def [symmetric] z54_def [symmetric] y76_def [symmetric] z76_def [symmetric] ..
  moreover have "y76 - ((z10 AND NOT z54) + (z32 AND z54) + ek ! (4 * i + 3)) = x76"
    "y54 - ((x76 AND NOT z32) + (z10 AND z32) + ek ! (4 * i + 2)) = x54"
    "y32 - ((x54 AND NOT z10) + (x76 AND z10) + ek ! (4 * i + 1)) = x32"
    "y10 - ((x32 AND NOT x76) + (x54 AND x76) + ek ! (4 * i)) = x10"
    unfolding y10_def y32_def y54_def y76_def by (rule add_diff_cancel_right')+
  ultimately show ?thesis unfolding fields by (simp only: rc2_unround.simps Let_def select_or)
qed

lemma rc2_unmash_mash: "rc2_unmash ek (rc2_mash ek q) = q"
  by (cases q) (simp add: Let_def)

lemma rc2_load_store: "rc2_load (rc2_store q) = q"
proof -
  have "push_bit 8 (ucast (ucast (drop_bit 8 x) :: ut8)) OR ucast (ucast x :: ut8) = x" for x :: ut16
    by (auto simp: bit_simps intro!: bit_word_eqI)
  then show ?thesis by (cases q) simp
qed

lemma rc2_store_load:
  assumes "length b = 8"
  shows "rc2_store (rc2_load b) = b"
proof -
  obtain x0 x1 x2 x3 x4 x5 x6 x7 where b: "b = [x0, x1, x2, x3, x4, x5, x6, x7]"
    by (rule length_8E [OF assms])
  have "ucast (push_bit 8 (ucast y) OR ucast x :: ut16) = x" "ucast (drop_bit 8 (push_bit 8 (ucast y) OR ucast x :: ut16)) = y" for x y :: ut8
    by (auto simp: bit_simps intro!: bit_word_eqI)
  then show ?thesis by (simp add: b)
qed

text \<open>\<open>rc2_before ek q n\<close> is the state after \<open>n\<close> turns, without the mashing that may end the last one.\<close>

definition rc2_before :: "ut16 list \<Rightarrow> quad16 \<Rightarrow> nat \<Rightarrow> quad16" where
  "rc2_before ek q n = (if n = 5 \<or> n = 11 then rc2_unmash ek (foldl (rc2_turn ek) q [0..<n]) else foldl (rc2_turn ek) q [0..<n])"

lemma rc2_unturn_before: "rc2_unturn ek (rc2_before ek q (Suc n)) n = rc2_before ek q n"
proof -
  have "rc2_before ek q (Suc n) = rc2_round ek n (foldl (rc2_turn ek) q [0..<n])"
    by (simp add: rc2_before_def rc2_turn_def Let_def rc2_unmash_mash)
  then show ?thesis by (simp add: rc2_unturn_def rc2_unround_round Let_def rc2_before_def)
qed

lemma rc2_unturns: "foldl (rc2_unturn ek) (rc2_before ek q n) (rev [0..<n]) = rc2_before ek q 0"
  by (induction n) (simp_all add: rc2_unturn_before)

lemma rc2_dcrypt8_crypt8:
  assumes "length b = 8"
  shows "rc2_dcrypt8 st (rc2_crypt8 st b) = b"
  using rc2_unturns [of "ekey st" "rc2_load b" 16] assms
  by (simp add: rc2_dcrypt8_def rc2_crypt8_def rc2_load_store rc2_before_def rc2_store_load del: upt_rec_numeral)

lemma length_rc2_store: "length (rc2_store q) = 8"
  by (cases q) simp

section \<open>Decryption undoes a text\<close>

fun rc2_blocks :: "(ut8 list \<Rightarrow> ut8 list) \<Rightarrow> ut8 list \<Rightarrow> ut8 list" where
  "rc2_blocks f (a # b # c # d # e # g # h # i # bs) = strncpy 8 (f [a, b, c, d, e, g, h, i]) @ rc2_blocks f bs"
| "rc2_blocks f _ = []"

lemma length_strncpy [simp]: "length (strncpy n src) = n"
proof -
  have "length (takeWhile P (take n src)) \<le> n" for P
    by (rule order_trans [OF length_takeWhile_le]) simp
  then show ?thesis by (simp add: strncpy_def Let_def)
qed

lemma strncpy_id: "0 \<notin> set src \<Longrightarrow> length src = n \<Longrightarrow> strncpy n src = src"
proof -
  assume *: "0 \<notin> set src" "length src = n"
  then have "takeWhile (\<lambda>b. b \<noteq> 0) src = src" unfolding takeWhile_eq_all_conv by blast
  with *(2) show ?thesis unfolding strncpy_def Let_def by (simp del: takeWhile_eq_all_conv)
qed

lemma strncpy_nonzero: "0 \<notin> set (strncpy n src) \<Longrightarrow> length src = n \<Longrightarrow> strncpy n src = src"
proof -
  assume *: "0 \<notin> set (strncpy n src)" "length src = n"
  let ?t = "takeWhile (\<lambda>b. b \<noteq> 0) src"
  from * have "length ?t = length src" using length_takeWhile_le [of "\<lambda>b. b \<noteq> 0" src]
    by (auto simp: strncpy_def Let_def)
  then have "?t = src" by (metis takeWhile_eq_take take_all order_refl)
  with *(2) show ?thesis unfolding strncpy_def Let_def by (simp del: takeWhile_eq_all_conv)
qed

lemma rc2_blocks_append:
  assumes "length b = 8"
  shows "rc2_blocks f (b @ bs) = strncpy 8 (f b) @ rc2_blocks f bs"
proof -
  obtain x0 x1 x2 x3 x4 x5 x6 x7 where "b = [x0, x1, x2, x3, x4, x5, x6, x7]"
    by (rule length_8E [OF assms])
  then show ?thesis by simp
qed

lemma rc2_loop_append:
  assumes "length blk = 8" and "length b = 8"
  shows "rc2_loop f (b @ bs) blk 0 ptr out = buf_write out ptr (strncpy 8 (f b)) \<bind> rc2_loop f bs b 0 (ptr + 8)"
proof -
  obtain x0 x1 x2 x3 x4 x5 x6 x7 where "blk = [x0, x1, x2, x3, x4, x5, x6, x7]"
    by (rule length_8E [OF assms(1)])
  moreover obtain y0 y1 y2 y3 y4 y5 y6 y7 where "b = [y0, y1, y2, y3, y4, y5, y6, y7]"
    by (rule length_8E [OF assms(2)])
  ultimately show ?thesis by (simp add: Let_def)
qed

lemma rc2_loop_blocks:
  "length bs = 8 * n \<Longrightarrow> length blk = 8 \<Longrightarrow> ptr + 8 * n \<le> length out \<Longrightarrow>
   \<exists>blk'. rc2_loop f bs blk 0 ptr out = Some (blk', 0, ptr + 8 * n, take ptr out @ rc2_blocks f bs @ drop (ptr + 8 * n) out)"
proof (induction n arbitrary: bs blk ptr out)
  case (Suc n)
  define b bs' where "b = take 8 bs" and "bs' = drop 8 bs"
  have bs: "bs = b @ bs'" "length b = 8" "length bs' = 8 * n" using Suc.prems(1) by (simp_all add: b_def bs'_def)
  let ?o = "take ptr out @ strncpy 8 (f b) @ drop (ptr + 8) out"
  have "buf_write out ptr (strncpy 8 (f b)) = Some ?o" using Suc.prems(3) by (simp add: buf_write_def)
  then have "rc2_loop f bs blk 0 ptr out = rc2_loop f bs' b 0 (ptr + 8) ?o"
    unfolding bs(1) rc2_loop_append [OF Suc.prems(2) bs(2)] by simp
  moreover have room: "ptr + 8 + 8 * n \<le> length ?o" using Suc.prems(3) by simp
  obtain blk' where "rc2_loop f bs' b 0 (ptr + 8) ?o =
      Some (blk', 0, ptr + 8 + 8 * n, take (ptr + 8) ?o @ rc2_blocks f bs' @ drop (ptr + 8 + 8 * n) ?o)"
    using Suc.IH [OF bs(3,2) room] by blast
  ultimately show ?case using Suc.prems(3) by (simp add: bs(1) rc2_blocks_append [OF bs(2)] ac_simps)
qed simp

lemma rc2_blocks_recover:
  assumes f: "\<And>b. length b = 8 \<Longrightarrow> length (f b) = 8 \<and> g (f b) = b"
  shows "length bs = 8 * n \<Longrightarrow> 0 \<notin> set bs \<Longrightarrow> 0 \<notin> set (rc2_blocks f bs) \<Longrightarrow> rc2_blocks g (rc2_blocks f bs) = bs"
proof (induction n arbitrary: bs)
  case (Suc n)
  define b bs' where "b = take 8 bs" and "bs' = drop 8 bs"
  have bs: "bs = b @ bs'" "length b = 8" "length bs' = 8 * n" using Suc.prems(1) by (simp_all add: b_def bs'_def)
  with Suc.prems(3) have "0 \<notin> set (strncpy 8 (f b))" "0 \<notin> set (rc2_blocks f bs')" by (simp_all add: rc2_blocks_append)
  with strncpy_nonzero [of 8 "f b"] f [of b] bs(2) have "strncpy 8 (f b) = f b" by simp
  moreover have "strncpy 8 b = b" using Suc.prems(2) bs by (intro strncpy_id) auto
  moreover have "rc2_blocks g (rc2_blocks f bs') = bs'"
    using Suc.prems(2) bs \<open>0 \<notin> set (rc2_blocks f bs')\<close> by (intro Suc.IH) auto
  ultimately show ?case using f [of b] bs by (simp add: rc2_blocks_append)
qed simp

lemma length_rc2_blocks: "length bs = 8 * n \<Longrightarrow> length (rc2_blocks f bs) = 8 * n"
proof (induction n arbitrary: bs)
  case (Suc n)
  then show ?case using rc2_blocks_append [of "take 8 bs" f "drop 8 bs"] by simp
qed simp

lemma rc2_crypt_blocks:
  assumes "length bs mod 8 = 0"
  shows "rc2_crypt st bs = Some (rc2_blocks (rc2_crypt8 st) bs)" "rc2_dcrypt st bs = Some (rc2_blocks (rc2_dcrypt8 st) bs)"
proof -
  obtain n where n: "length bs = 8 * n" using assms by (metis mod_0_imp_dvd dvd_def)
  have "\<exists>blk. rc2_loop f bs (replicate 8 0) 0 0 (replicate (length bs) 0) = Some (blk, 0, length bs, rc2_blocks f bs)" for f
    using rc2_loop_blocks [of bs n "replicate 8 0" 0 "replicate (length bs) 0" f] n by auto
  from this [of "rc2_crypt8 st"] this [of "rc2_dcrypt8 st"]
  show "rc2_crypt st bs = Some (rc2_blocks (rc2_crypt8 st) bs)" "rc2_dcrypt st bs = Some (rc2_blocks (rc2_dcrypt8 st) bs)"
    by (auto simp: rc2_crypt_def rc2_dcrypt_def)
qed

interpretation rc2: cipher rc2_crypt rc2_dcrypt "\<lambda>_. True" "\<lambda>bs cs. length bs mod 8 = 0 \<and> 0 \<notin> set bs \<and> 0 \<notin> set cs"
proof unfold_locales
  fix st bs cs assume *: "rc2_crypt st bs = Some cs" "length bs mod 8 = 0 \<and> 0 \<notin> set bs \<and> 0 \<notin> set cs"
  then obtain n where n: "length bs = 8 * n" by (metis mod_0_imp_dvd dvd_def)
  have cs: "cs = rc2_blocks (rc2_crypt8 st) bs" using * by (simp add: rc2_crypt_blocks)
  show "length cs = length bs" using length_rc2_blocks [OF n] n cs by simp
  then show "rc2_dcrypt st cs = Some bs"
    using * cs rc2_blocks_recover [of "rc2_crypt8 st" "rc2_dcrypt8 st" bs n] n
    by (simp add: rc2_crypt_blocks rc2_dcrypt8_crypt8) (simp add: rc2_crypt8_def length_rc2_store)
qed

end
