(* ===== verification/R2_Crypto.thy ===== *)
theory R2_Crypto
  imports R2_Base64 R2_Cipher_Block R2_Cipher_Rc2
begin

text \<open>
  The crypto component: \<^verbatim>\<open>libr/crypto/crypto.c\<close>, the \<open>set_key\<close> and \<open>update\<close> functions of the plugins and the client of
  \<^verbatim>\<open>binr/rahash2\<close> that runs one of them. A plugin keeps its state in static variables, which outlive a run; they are
  the record \<open>statics\<close>. The cipher functions come from the theories of the ciphers. Allocations succeed
  unless their size is negative; \<open>fresh\<close> is what new memory holds. \<open>None\<close> is undefined behaviour.
\<close>

section \<open>State\<close>

datatype rplugin = Plug_xor | Plug_rol | Plug_ror | Plug_rot | Plug_rc4 | Plug_rc6 | Plug_rc2 | Plug_blowfish | Plug_base64

record statics =
  xor_st :: keyed_state
  rol_st :: keyed_state
  rol_flag :: int
  ror_st :: keyed_state
  ror_flag :: int
  rot_key :: ut8
  rot_flag :: int
  rc4_st :: rc4_state
  rc6_st :: rc6_state
  rc6_flag :: bool
  rc2_st :: rc2_state
  rc2_flag :: int
  bf_st :: blowfish_state
  bf_flag :: int
  b64_flag :: int

record rcrypto =
  cry_h :: "rplugin option"
  cry_key :: "ut8 list"
  cry_iv :: "ut8 list"
  key_len :: int
  cry_output :: "ut8 list"
  output_len :: int
  output_size :: int
  plugins :: "rplugin list"
  fresh :: "nat \<Rightarrow> ut8"
  vars :: statics

section \<open>The output buffer\<close>

text \<open>\<open>realloc\<close> to a larger size keeps the bytes.\<close>

definition realloc_to :: "(nat \<Rightarrow> ut8) \<Rightarrow> ut8 list \<Rightarrow> int \<Rightarrow> ut8 list" where
  "realloc_to junk buf n = take (nat n) buf @ map junk [length buf..<nat n]"

definition r_crypto_append :: "rcrypto \<Rightarrow> ut8 list \<Rightarrow> int \<Rightarrow> (int \<times> rcrypto) option" where
  "r_crypto_append cry buf len =
     (if len < 0 \<or> output_len cry + len \<ge> 2 ^ 31 \<or>
         (output_len cry + len > output_size cry \<and> output_size cry + (4096 + len) \<ge> 2 ^ 31) then None
      else do {
        let cry = (if output_len cry + len > output_size cry
          then cry\<lparr>output_size := output_size cry + (4096 + len),
            cry_output := realloc_to (fresh cry) (cry_output cry) (output_size cry + (4096 + len))\<rparr>
          else cry);
        bs \<leftarrow> buf_read buf 0 (nat len);
        out \<leftarrow> buf_write (cry_output cry) (nat (output_len cry)) bs;
        Some (output_len cry + len, cry\<lparr>cry_output := out, output_len := output_len cry + len\<rparr>) })"

text \<open>\<open>r_crypto_get_output\<close> with and without a place for the size.\<close>

definition r_crypto_get_output :: "rcrypto \<Rightarrow> (int \<times> ut8 list) option option" where
  "r_crypto_get_output cry =
     (if output_size cry < 1 then Some None
      else do {
        bs \<leftarrow> buf_read (cry_output cry) 0 (nat (output_len cry));
        buf \<leftarrow> buf_write (replicate (nat (output_size cry)) 0) 0 bs;
        Some (Some (output_len cry, buf)) })"

definition r_crypto_get_output_null :: "rcrypto \<Rightarrow> rcrypto" where
  "r_crypto_get_output_null cry =
     (if output_size cry < 1 then cry
      else cry\<lparr>cry_output := realloc_to (fresh cry) (replicate (nat (output_size cry)) 0) 4096, output_len := 0, output_size := 4096\<rparr>)"

section \<open>Setting a key\<close>

definition xor_set_key :: "rcrypto \<Rightarrow> ut8 list \<Rightarrow> int \<Rightarrow> int \<Rightarrow> (bool \<times> rcrypto) option" where
  "xor_set_key cry k keylen direction = do {
     (r, st) \<leftarrow> xor_init (xor_st (vars cry)) k keylen;
     Some (r, cry\<lparr>vars := (vars cry)\<lparr>xor_st := st\<rparr>\<rparr>) }"

definition rol_set_key :: "rcrypto \<Rightarrow> ut8 list \<Rightarrow> int \<Rightarrow> int \<Rightarrow> (bool \<times> rcrypto) option" where
  "rol_set_key cry k keylen direction = do {
     (r, st) \<leftarrow> rol_init (rol_st (vars cry)) k keylen;
     Some (r, cry\<lparr>vars := (vars cry)\<lparr>rol_st := st, rol_flag := direction\<rparr>\<rparr>) }"

definition ror_set_key :: "rcrypto \<Rightarrow> ut8 list \<Rightarrow> int \<Rightarrow> int \<Rightarrow> (bool \<times> rcrypto) option" where
  "ror_set_key cry k keylen direction = do {
     (r, st) \<leftarrow> ror_init (ror_st (vars cry)) k keylen;
     Some (r, cry\<lparr>vars := (vars cry)\<lparr>ror_st := st, ror_flag := direction\<rparr>\<rparr>) }"

definition rot_set_key :: "rcrypto \<Rightarrow> ut8 list \<Rightarrow> int \<Rightarrow> int \<Rightarrow> (bool \<times> rcrypto) option" where
  "rot_set_key cry k keylen direction = do {
     (r, st) \<leftarrow> rot_init (rot_key (vars cry)) k keylen;
     Some (r, cry\<lparr>vars := (vars cry)\<lparr>rot_key := st, rot_flag := direction\<rparr>\<rparr>) }"

definition rc4_set_key :: "rcrypto \<Rightarrow> ut8 list \<Rightarrow> int \<Rightarrow> int \<Rightarrow> (bool \<times> rcrypto) option" where
  "rc4_set_key cry k keylen direction = do {
     (r, st) \<leftarrow> rc4_init (rc4_st (vars cry)) k keylen;
     Some (r, cry\<lparr>vars := (vars cry)\<lparr>rc4_st := st\<rparr>\<rparr>) }"

definition rc6_set_key :: "rcrypto \<Rightarrow> ut8 list \<Rightarrow> int \<Rightarrow> int \<Rightarrow> (bool \<times> rcrypto) option" where
  "rc6_set_key cry k keylen direction = do {
     (r, flag, st) \<leftarrow> rc6_init (rc6_st (vars cry)) (rc6_flag (vars cry)) k keylen direction;
     Some (r, cry\<lparr>vars := (vars cry)\<lparr>rc6_st := st, rc6_flag := flag\<rparr>\<rparr>) }"

definition rc2_set_key :: "rcrypto \<Rightarrow> ut8 list \<Rightarrow> int \<Rightarrow> int \<Rightarrow> (bool \<times> rcrypto) option" where
  "rc2_set_key cry k keylen direction = do {
     (r, st) \<leftarrow> rc2_expandKey ((rc2_st (vars cry))\<lparr>rc2_key_size := 1024\<rparr>) k keylen;
     Some (r, cry\<lparr>vars := (vars cry)\<lparr>rc2_st := st, rc2_flag := direction\<rparr>\<rparr>) }"

definition blowfish_set_key :: "rcrypto \<Rightarrow> ut8 list \<Rightarrow> int \<Rightarrow> int \<Rightarrow> (bool \<times> rcrypto) option" where
  "blowfish_set_key cry k keylen direction = do {
     (r, st) \<leftarrow> blowfish_init (bf_st (vars cry)) k keylen;
     Some (r, cry\<lparr>vars := (vars cry)\<lparr>bf_st := st, bf_flag := direction\<rparr>\<rparr>) }"

definition base64_set_key :: "rcrypto \<Rightarrow> ut8 list \<Rightarrow> int \<Rightarrow> int \<Rightarrow> (bool \<times> rcrypto) option" where
  "base64_set_key cry k keylen direction = Some (True, cry\<lparr>vars := (vars cry)\<lparr>b64_flag := direction\<rparr>\<rparr>)"

section \<open>Update\<close>

text \<open>What the \<open>update\<close> functions share once the output is computed into \<open>obuf\<close>.\<close>

definition append_obuf :: "rcrypto \<Rightarrow> ut8 list \<Rightarrow> int \<Rightarrow> (int \<times> rcrypto) option" where
  "append_obuf cry obuf len = do {
     (_, cry) \<leftarrow> r_crypto_append cry obuf len;
     Some (0, cry) }"

definition xor_update :: "rcrypto \<Rightarrow> ut8 list \<Rightarrow> int \<Rightarrow> (int \<times> rcrypto) option" where
  "xor_update cry buf len =
     (if len < 0 then Some (0, cry)
      else do {
        inbuf \<leftarrow> buf_read buf 0 (nat len);
        obuf \<leftarrow> xor_crypt (xor_st (vars cry)) 0 inbuf;
        append_obuf cry obuf len })"

definition rol_update :: "rcrypto \<Rightarrow> ut8 list \<Rightarrow> int \<Rightarrow> (int \<times> rcrypto) option" where
  "rol_update cry buf len =
     (if rol_flag (vars cry) \<noteq> 0 \<or> len < 0 then Some (0, cry)
      else do {
        inbuf \<leftarrow> buf_read buf 0 (nat len);
        obuf \<leftarrow> rol_crypt (rol_st (vars cry)) 0 inbuf;
        append_obuf cry obuf len })"

definition ror_update :: "rcrypto \<Rightarrow> ut8 list \<Rightarrow> int \<Rightarrow> (int \<times> rcrypto) option" where
  "ror_update cry buf len =
     (if ror_flag (vars cry) \<noteq> 0 \<or> len < 0 then Some (0, cry)
      else do {
        inbuf \<leftarrow> buf_read buf 0 (nat len);
        obuf \<leftarrow> ror_crypt (ror_st (vars cry)) 0 inbuf;
        append_obuf cry obuf len })"

definition rot_update :: "rcrypto \<Rightarrow> ut8 list \<Rightarrow> int \<Rightarrow> (int \<times> rcrypto) option" where
  "rot_update cry buf len =
     (if len < 0 then Some (0, cry)
      else do {
        inbuf \<leftarrow> buf_read buf 0 (nat len);
        let obuf = (if rot_flag (vars cry) = 0 then rot_crypt (rot_key (vars cry)) inbuf
          else if rot_flag (vars cry) = 1 then rot_decrypt (rot_key (vars cry)) inbuf
          else replicate (nat len) 0);
        append_obuf cry obuf len })"

definition rc4_update :: "rcrypto \<Rightarrow> ut8 list \<Rightarrow> int \<Rightarrow> (int \<times> rcrypto) option" where
  "rc4_update cry buf len =
     (if len < 0 then Some (0, cry)
      else do {
        inbuf \<leftarrow> buf_read buf 0 (nat len);
        let (obuf, st) = rc4_crypt (rc4_st (vars cry)) inbuf;
        append_obuf (cry\<lparr>vars := (vars cry)\<lparr>rc4_st := st\<rparr>\<rparr>) obuf len })"

definition rc6_plugin_update :: "rcrypto \<Rightarrow> ut8 list \<Rightarrow> int \<Rightarrow> (int \<times> rcrypto) option" where
  "rc6_plugin_update cry buf len =
     (if c_mod len 16 \<noteq> 0 \<or> len < 0 then Some (0, cry)
      else do {
        inbuf \<leftarrow> buf_read buf 0 (nat len);
        obuf \<leftarrow> rc6_update (rc6_flag (vars cry)) (rc6_st (vars cry)) inbuf;
        append_obuf cry obuf len })"

definition rc2_update :: "rcrypto \<Rightarrow> ut8 list \<Rightarrow> int \<Rightarrow> (int \<times> rcrypto) option" where
  "rc2_update cry buf len =
     (if len < 0 then Some (0, cry)
      else do {
        inbuf \<leftarrow> buf_read buf 0 (nat len);
        obuf \<leftarrow> (if rc2_flag (vars cry) = 0 then rc2_crypt (rc2_st (vars cry)) inbuf
          else if rc2_flag (vars cry) = 1 then rc2_dcrypt (rc2_st (vars cry)) inbuf
          else Some (replicate (nat len) 0));
        append_obuf cry obuf len })"

definition blowfish_update :: "rcrypto \<Rightarrow> ut8 list \<Rightarrow> int \<Rightarrow> (int \<times> rcrypto) option" where
  "blowfish_update cry buf len =
     (if len < 0 then Some (0, cry)
      else do {
        inbuf \<leftarrow> buf_read buf 0 (nat len);
        obuf \<leftarrow> (if bf_flag (vars cry) = 0 then blowfish_crypt (bf_st (vars cry)) inbuf
          else if bf_flag (vars cry) = 1 then blowfish_decrypt (bf_st (vars cry)) inbuf
          else Some (replicate (nat len) 0));
        append_obuf cry obuf len })"

definition chr_of_byte :: "ut8 \<Rightarrow> char" where
  "chr_of_byte b = char_of (unat b)"

definition byte_of_chr :: "char \<Rightarrow> ut8" where
  "byte_of_chr c = of_nat (char_code c)"

text \<open>The padding at the end of the text, which is looked at without a check of the length.\<close>

definition b64_pad :: "ut8 list \<Rightarrow> int \<Rightarrow> int option" where
  "b64_pad buf len =
     (if len > 0 then do {
        a \<leftarrow> nth_opt buf (len - 1);
        (if a = 61 then do {
           b \<leftarrow> nth_opt buf (len - 2);
           Some (if b = 61 then 2 else 1) }
         else Some 0) }
      else Some 0)"

definition base64_update :: "rcrypto \<Rightarrow> ut8 list \<Rightarrow> int \<Rightarrow> (int \<times> rcrypto) option" where
  "base64_update cry buf len = do {
     (olen, obuf) \<leftarrow>
       (if b64_flag (vars cry) = 0 then do {
          let olen = c_div (len + 2) 3 * 4;
          (_, out) \<leftarrow> r_base64_encode (map (chr_of_byte \<circ> fresh cry) [0..<nat (olen + 1)]) buf len;
          Some (olen, map byte_of_chr out) }
        else if b64_flag (vars cry) = 1 then do {
          pad \<leftarrow> b64_pad buf len;
          let olen = c_div len 4 * 3 - pad;
          r_base64_decode (map (fresh cry) [0..<nat (olen + 1)]) (map chr_of_byte buf) len }
        else Some (0, []));
     (if olen > 0 then append_obuf cry obuf olen else Some (0, cry)) }"

section \<open>The plugins\<close>

definition plugin_name :: "rplugin \<Rightarrow> string" where
  "plugin_name p = (case p of
     Plug_xor \<Rightarrow> ''xor'' | Plug_rol \<Rightarrow> ''rol'' | Plug_ror \<Rightarrow> ''ror'' | Plug_rot \<Rightarrow> ''rot'' | Plug_rc4 \<Rightarrow> ''rc4''
   | Plug_rc6 \<Rightarrow> ''rc6'' | Plug_rc2 \<Rightarrow> ''rc2'' | Plug_blowfish \<Rightarrow> ''blowfish'' | Plug_base64 \<Rightarrow> ''base64'')"

definition plugin_use :: "rplugin \<Rightarrow> string \<Rightarrow> bool" where
  "plugin_use p algo \<longleftrightarrow> algo = plugin_name p"

definition plugin_get_key_size :: "rplugin \<Rightarrow> rcrypto \<Rightarrow> int" where
  "plugin_get_key_size p cry = (case p of
     Plug_xor \<Rightarrow> key_size (xor_st (vars cry)) | Plug_rol \<Rightarrow> key_size (rol_st (vars cry))
   | Plug_ror \<Rightarrow> key_size (ror_st (vars cry)) | Plug_rot \<Rightarrow> 1 | Plug_rc4 \<Rightarrow> rc4_key_size (rc4_st (vars cry))
   | Plug_rc6 \<Rightarrow> rc6_key_size (rc6_st (vars cry)) | Plug_rc2 \<Rightarrow> rc2_key_size (rc2_st (vars cry))
   | Plug_blowfish \<Rightarrow> bf_key_size (bf_st (vars cry)) | Plug_base64 \<Rightarrow> 0)"

definition plugin_set_key :: "rplugin \<Rightarrow> rcrypto \<Rightarrow> ut8 list \<Rightarrow> int \<Rightarrow> int \<Rightarrow> (bool \<times> rcrypto) option" where
  "plugin_set_key p = (case p of
     Plug_xor \<Rightarrow> xor_set_key | Plug_rol \<Rightarrow> rol_set_key | Plug_ror \<Rightarrow> ror_set_key | Plug_rot \<Rightarrow> rot_set_key
   | Plug_rc4 \<Rightarrow> rc4_set_key | Plug_rc6 \<Rightarrow> rc6_set_key | Plug_rc2 \<Rightarrow> rc2_set_key | Plug_blowfish \<Rightarrow> blowfish_set_key
   | Plug_base64 \<Rightarrow> base64_set_key)"

definition plugin_update :: "rplugin \<Rightarrow> rcrypto \<Rightarrow> ut8 list \<Rightarrow> int \<Rightarrow> (int \<times> rcrypto) option" where
  "plugin_update p = (case p of
     Plug_xor \<Rightarrow> xor_update | Plug_rol \<Rightarrow> rol_update | Plug_ror \<Rightarrow> ror_update | Plug_rot \<Rightarrow> rot_update
   | Plug_rc4 \<Rightarrow> rc4_update | Plug_rc6 \<Rightarrow> rc6_plugin_update | Plug_rc2 \<Rightarrow> rc2_update | Plug_blowfish \<Rightarrow> blowfish_update
   | Plug_base64 \<Rightarrow> base64_update)"

section \<open>The interface of crypto.c\<close>

definition r_crypto_add :: "rcrypto \<Rightarrow> rplugin \<Rightarrow> rcrypto" where
  "r_crypto_add cry p = cry\<lparr>plugins := plugins cry @ [p]\<rparr>"

definition r_crypto_del :: "rcrypto \<Rightarrow> rplugin \<Rightarrow> rcrypto" where
  "r_crypto_del cry p = cry\<lparr>plugins := remove1 p (plugins cry)\<rparr>"

text \<open>The static list of plugins is a choice of the build, so a parameter.\<close>

definition r_crypto_init :: "rplugin list \<Rightarrow> rcrypto \<Rightarrow> bool \<Rightarrow> rcrypto" where
  "r_crypto_init static_plugins cry hard =
     (let cry = cry\<lparr>cry_iv := [], cry_key := [], key_len := 0\<rparr>
      in if hard then foldl r_crypto_add ((r_crypto_get_output_null cry)\<lparr>plugins := []\<rparr>) static_plugins
         else cry)"

definition r_crypto_new :: "rplugin list \<Rightarrow> (nat \<Rightarrow> ut8) \<Rightarrow> statics \<Rightarrow> rcrypto" where
  "r_crypto_new static_plugins mem vs =
     r_crypto_init static_plugins
       \<lparr>cry_h = None, cry_key = [], cry_iv = [], key_len = 0, cry_output = [], output_len = 0, output_size = 0,
        plugins = [], fresh = mem, vars = vs\<rparr> True"

definition r_crypto_as_new :: "rcrypto \<Rightarrow> rcrypto" where
  "r_crypto_as_new cry =
     (r_crypto_init []
       \<lparr>cry_h = None, cry_key = [], cry_iv = [], key_len = 0, cry_output = [], output_len = 0, output_size = 0,
        plugins = [], fresh = fresh cry, vars = vars cry\<rparr> False)\<lparr>plugins := plugins cry\<rparr>"

fun use_loop :: "rcrypto \<Rightarrow> string \<Rightarrow> rplugin list \<Rightarrow> bool \<times> rcrypto" where
  "use_loop cry algo [] = (False, cry)"
| "use_loop cry algo (p # ps) =
     (if plugin_use p algo then
        (let cry = cry\<lparr>cry_h := Some p\<rparr>; cry = cry\<lparr>key_len := plugin_get_key_size p cry\<rparr>
         in if key_len cry < 0 then (False, cry)
            else (True, cry\<lparr>cry_key := replicate (nat (key_len cry)) 0\<rparr>))
      else use_loop cry algo ps)"

definition r_crypto_use :: "rcrypto \<Rightarrow> string \<Rightarrow> bool \<times> rcrypto" where
  "r_crypto_use cry algo = use_loop cry algo (plugins cry)"

definition r_crypto_set_key :: "rcrypto \<Rightarrow> ut8 list \<Rightarrow> int \<Rightarrow> int \<Rightarrow> (bool \<times> rcrypto) option" where
  "r_crypto_set_key cry k keylen direction = do {
     keylen \<leftarrow> (if keylen < 0 then strlen_in 0 k else Some keylen);
     (case cry_h cry of
        None \<Rightarrow> Some (False, cry)
      | Some p \<Rightarrow> plugin_set_key p cry k keylen direction) }"

definition r_crypto_get_key_size :: "rcrypto \<Rightarrow> int" where
  "r_crypto_get_key_size cry = (case cry_h cry of None \<Rightarrow> 0 | Some p \<Rightarrow> plugin_get_key_size p cry)"

text \<open>None of the plugins here has a \<open>set_iv\<close>.\<close>

definition r_crypto_set_iv :: "rcrypto \<Rightarrow> ut8 list \<Rightarrow> int \<Rightarrow> int" where
  "r_crypto_set_iv cry iv ivlen = 0"

definition r_crypto_update :: "rcrypto \<Rightarrow> ut8 list \<Rightarrow> int \<Rightarrow> (int \<times> rcrypto) option" where
  "r_crypto_update cry buf len = (case cry_h cry of None \<Rightarrow> Some (0, cry) | Some p \<Rightarrow> plugin_update p cry buf len)"

definition r_crypto_final :: "rcrypto \<Rightarrow> ut8 list \<Rightarrow> int \<Rightarrow> (int \<times> rcrypto) option" where
  "r_crypto_final cry buf len = (case cry_h cry of None \<Rightarrow> Some (0, cry) | Some p \<Rightarrow> plugin_update p cry buf len)"

section \<open>The client\<close>

text \<open>
  \<open>encrypt_or_decrypt\<close> of \<^verbatim>\<open>rahash2.c\<close>: the result, the bytes it writes to the standard output and the static
  variables it leaves. The seed \<open>s\<close> is passed as its buffer and length.
\<close>

definition encrypt_or_decrypt ::
  "rplugin list \<Rightarrow> (nat \<Rightarrow> ut8) \<Rightarrow> ut8 list \<times> int \<Rightarrow> string \<Rightarrow> int \<Rightarrow> ut8 list \<Rightarrow> int \<Rightarrow> (ut8 list \<times> int) option \<Rightarrow> statics \<Rightarrow>
   (int \<times> ut8 list \<times> statics) option" where
  "encrypt_or_decrypt static_plugins mem seed algo direction hashstr hashstr_len iv vs =
     (if algo \<in> {''base64'', ''base91'', ''punycode''} \<or> snd seed > 0 then
        (let (used, cry) = r_crypto_use (r_crypto_new static_plugins mem vs) algo
         in if used then do {
              (keyed, cry) \<leftarrow> r_crypto_set_key cry (fst seed) (snd seed) direction;
              (if keyed then
                 (if (case iv of None \<Rightarrow> False | Some (v, n) \<Rightarrow> r_crypto_set_iv cry v n = 0) then Some (0, [], vars cry)
                  else do {
                    (_, cry) \<leftarrow> r_crypto_update cry hashstr hashstr_len;
                    (_, cry) \<leftarrow> r_crypto_final cry [] 0;
                    r \<leftarrow> r_crypto_get_output cry;
                    (case r of
                       None \<Rightarrow> Some (0, [], vars cry)
                     | Some (n, result) \<Rightarrow> Some (0, take (nat n) result, vars cry)) })
               else Some (0, [], vars cry)) }
            else Some (1, [], vars cry))
      else Some (1, [], vs))"

end
