(* ===== verification/R2_Crypto_Props.thy ===== *)
theory R2_Crypto_Props
  imports R2_Crypto
begin

text \<open>
  Properties of the crypto component. The locale \<open>crypto_plugin\<close> extends \<open>cipher\<close> by what a plugin owes to
  \<^verbatim>\<open>crypto.c\<close>; inside it, running the client forth and back is shown to restore the text. It is interpreted for the six
  plugins that promise this.
\<close>

section \<open>The output buffer\<close>

definition out_wf :: "rcrypto \<Rightarrow> bool" where
  "out_wf cry \<longleftrightarrow> 0 \<le> output_len cry \<and> output_len cry \<le> output_size cry \<and> length (cry_output cry) = nat (output_size cry)"

definition out_bytes :: "rcrypto \<Rightarrow> ut8 list" where
  "out_bytes cry = take (nat (output_len cry)) (cry_output cry)"

lemma append_obuf_law:
  assumes "out_wf cry" and "output_len cry + int (length buf) < 2 ^ 31" and "output_size cry + 4096 + int (length buf) < 2 ^ 31"
  shows "\<exists>cry'. append_obuf cry buf (int (length buf)) = Some (0, cry') \<and> out_wf cry' \<and>
    out_bytes cry' = out_bytes cry @ buf \<and> cry_h cry' = cry_h cry \<and> vars cry' = vars cry \<and>
    output_len cry' = output_len cry + int (length buf) \<and> output_size cry' \<le> output_size cry + 4096 + int (length buf)"
proof -
  let ?n = "output_len cry + int (length buf)"
  define c where "c = (if ?n > output_size cry
     then cry\<lparr>output_size := output_size cry + (4096 + int (length buf)),
       cry_output := realloc_to (fresh cry) (cry_output cry) (output_size cry + (4096 + int (length buf)))\<rparr> else cry)"
  have c: "length (cry_output c) = nat (output_size c)" "?n \<le> output_size c" "take (nat (output_len cry)) (cry_output c) = out_bytes cry"
    "output_len c = output_len cry" "cry_h c = cry_h cry" "vars c = vars cry" "output_size c \<le> output_size cry + 4096 + int (length buf)"
    using assms(1) by (auto simp: c_def out_wf_def realloc_to_def out_bytes_def)
  let ?o = "out_bytes cry @ buf @ drop (nat ?n) (cry_output c)"
  have len: "length (out_bytes cry) = nat (output_len cry)" using assms(1) by (auto simp: out_bytes_def out_wf_def)
  have nat_n: "nat ?n = nat (output_len cry) + length buf" using assms(1) by (simp add: out_wf_def nat_add_distrib)
  have "buf_write (cry_output c) (nat (output_len cry)) buf = Some ?o"
    using c(1,2,3) nat_n by (simp add: buf_write_def)
  then have "append_obuf cry buf (int (length buf)) = Some (0, c\<lparr>cry_output := ?o, output_len := ?n\<rparr>)"
    using assms c by (simp add: append_obuf_def r_crypto_append_def buf_read_def Let_def flip: c_def)
  moreover have "out_wf (c\<lparr>cry_output := ?o, output_len := ?n\<rparr>)"
    using assms(1) c(1,2) len nat_n by (auto simp: out_wf_def)
  moreover have "take (nat ?n) ?o = out_bytes cry @ buf" using len nat_n by simp
  ultimately show ?thesis using c by (simp add: out_bytes_def)
qed

lemma append_nothing: "out_wf cry \<Longrightarrow> output_size cry < 2 ^ 30 \<Longrightarrow> append_obuf cry [] 0 = Some (0, cry)"
  by (auto simp: append_obuf_def r_crypto_append_def out_wf_def buf_read_def buf_write_def)

lemma get_output_bytes:
  assumes "out_wf cry" and "0 < output_size cry"
  shows "\<exists>r. r_crypto_get_output cry = Some (Some (output_len cry, r)) \<and> take (nat (output_len cry)) r = out_bytes cry"
  using assms by (auto simp: r_crypto_get_output_def out_wf_def out_bytes_def buf_read_def buf_write_def)

lemma run_output:
  assumes "out_wf c" "output_len c = 0" "output_size c = 0" "out_bytes c = []" "length obuf < 2 ^ 29" "obuf \<noteq> []"
  obtains c2 r where "append_obuf c obuf (int (length obuf)) = Some (0, c2)" "append_obuf c2 [] 0 = Some (0, c2)"
    "cry_h c2 = cry_h c" "vars c2 = vars c"
    "r_crypto_get_output c2 = Some (Some (output_len c2, r))" "take (nat (output_len c2)) r = obuf"
proof -
  obtain c2 where c2: "append_obuf c obuf (int (length obuf)) = Some (0, c2)" "out_wf c2" "out_bytes c2 = obuf"
      "cry_h c2 = cry_h c" "vars c2 = vars c" "output_len c2 = int (length obuf)" "output_size c2 \<le> 4096 + int (length obuf)"
    using append_obuf_law [of c obuf] assms by auto
  have "0 < int (length obuf)" using assms(6) by simp
  then have "0 < output_size c2" using c2(2,6) unfolding out_wf_def by linarith
  then obtain r where "r_crypto_get_output c2 = Some (Some (output_len c2, r))" "take (nat (output_len c2)) r = obuf"
    using get_output_bytes [OF c2(2)] c2(3) by auto
  moreover have "append_obuf c2 [] 0 = Some (0, c2)" using append_nothing [OF c2(2)] c2(7) assms(5) by simp
  ultimately show thesis using that c2 by blast
qed

section \<open>What a plugin owes\<close>

text \<open>Static variables as the C declarations size them, with the key sizes a run can leave.\<close>

definition vars_wf :: "statics \<Rightarrow> bool" where
  "vars_wf v \<longleftrightarrow> length (key (xor_st v)) = 32768 \<and> length (ekey (rc2_st v)) = 64 \<and>
     0 \<le> key_size (xor_st v) \<and> 0 \<le> key_size (rol_st v) \<and> 0 \<le> key_size (ror_st v) \<and> 0 \<le> rc4_key_size (rc4_st v) \<and>
     0 \<le> rc6_key_size (rc6_st v) \<and> 0 \<le> rc2_key_size (rc2_st v) \<and> 0 \<le> bf_key_size (bf_st v)"

lemma plugin_name_inject: "plugin_name p = plugin_name q \<longleftrightarrow> p = q"
  by (cases p; cases q) (simp_all add: plugin_name_def)

definition used :: "rplugin list \<Rightarrow> (nat \<Rightarrow> ut8) \<Rightarrow> statics \<Rightarrow> rplugin \<Rightarrow> rcrypto" where
  "used ps mem vs p = snd (r_crypto_use (r_crypto_new ps mem vs) (plugin_name p))"

lemma add_all_plugins: "foldl r_crypto_add c ps = c\<lparr>plugins := plugins c @ ps\<rparr>"
  by (induction ps arbitrary: c) (simp_all add: r_crypto_add_def)

lemma use_loop_finds:
  assumes "p \<in> set ps" and "vars_wf (vars c)"
  shows "use_loop c (plugin_name p) ps =
    (True, c\<lparr>cry_h := Some p, key_len := plugin_get_key_size p c, cry_key := replicate (nat (plugin_get_key_size p c)) 0\<rparr>)"
proof -
  have "plugin_get_key_size p (c\<lparr>cry_h := h\<rparr>) = plugin_get_key_size p c" "0 \<le> plugin_get_key_size p c" for h
    using assms(2) by (cases p; simp add: plugin_get_key_size_def vars_wf_def)+
  then show ?thesis
    using assms(1) by (induction ps) (auto simp: plugin_use_def plugin_name_inject Let_def)
qed

lemma used_law:
  assumes "p \<in> set ps" and "vars_wf vs"
  shows "r_crypto_use (r_crypto_new ps mem vs) (plugin_name p) = (True, used ps mem vs p)"
    and "cry_h (used ps mem vs p) = Some p" "vars (used ps mem vs p) = vs" "out_wf (used ps mem vs p)"
    and "out_bytes (used ps mem vs p) = []" "output_size (used ps mem vs p) = 0" "output_len (used ps mem vs p) = 0"
  using assms
  by (simp_all add: used_def r_crypto_use_def r_crypto_new_def r_crypto_init_def r_crypto_get_output_null_def add_all_plugins
      use_loop_finds Let_def out_wf_def out_bytes_def)

locale crypto_plugin = cipher crypt decrypt ok safe
  for crypt decrypt :: "'st \<Rightarrow> ut8 list \<Rightarrow> ut8 list option"
    and ok :: "'st \<Rightarrow> bool" and safe :: "ut8 list \<Rightarrow> ut8 list \<Rightarrow> bool" +
  fixes p :: rplugin and st :: "statics \<Rightarrow> 'st" and fits :: "nat \<Rightarrow> bool"
  assumes key_law: "vars_wf (vars cry) \<Longrightarrow> 0 < n \<Longrightarrow> plugin_set_key p cry k n d = Some (True, c) \<Longrightarrow>
      ok (st (vars c)) \<and> vars_wf (vars c) \<and> c = cry\<lparr>vars := vars c\<rparr>"
    and key_again: "vars_wf (vars cry) \<Longrightarrow> 0 < n \<Longrightarrow> plugin_set_key p cry k n 0 = Some (True, c) \<Longrightarrow> vars_wf (vars cry2) \<Longrightarrow>
      \<exists>c2. plugin_set_key p cry2 k n 1 = Some (True, c2) \<and> decrypt (st (vars c2)) = decrypt (st (vars c))"
    and update_crypt: "plugin_set_key p cry k n 0 = Some (True, c) \<Longrightarrow> vars_wf (vars c) \<Longrightarrow> fits (length bs) \<Longrightarrow>
      \<exists>v. vars_wf v \<and> plugin_update p c bs (int (length bs)) =
        crypt (st (vars c)) bs \<bind> (\<lambda>obuf. append_obuf (c\<lparr>vars := v\<rparr>) obuf (int (length bs)))"
    and update_decrypt: "plugin_set_key p cry k n 1 = Some (True, c) \<Longrightarrow> vars_wf (vars c) \<Longrightarrow> fits (length bs) \<Longrightarrow>
      \<exists>v. vars_wf v \<and> plugin_update p c bs (int (length bs)) =
        decrypt (st (vars c)) bs \<bind> (\<lambda>obuf. append_obuf (c\<lparr>vars := v\<rparr>) obuf (int (length bs)))"
    and final_law: "plugin_update p c [] 0 = append_obuf c [] 0"
    and fits_length: "ok s \<Longrightarrow> fits (length bs) \<Longrightarrow> crypt s bs = Some cs \<Longrightarrow> length cs = length bs"
    and safe_fits: "safe bs cs \<Longrightarrow> fits (length bs)"
begin

text \<open>The client after the key is set, in one direction.\<close>

lemma run_keyed:
  assumes "p \<in> set ps" "vars_wf vs" "0 < n" "length bs < 2 ^ 29" "bs \<noteq> []" "length obuf = length bs"
    and key: "plugin_set_key p (used ps mem vs p) k n d = Some (True, c)"
    and upd: "plugin_update p c bs (int (length bs)) = append_obuf (c\<lparr>vars := v\<rparr>) obuf (int (length bs))"
  shows "encrypt_or_decrypt ps mem (k, n) (plugin_name p) d bs (int (length bs)) None vs = Some (0, obuf, v)"
proof -
  note u = used_law [OF assms(1,2), of mem]
  obtain w where c: "c = (used ps mem vs p)\<lparr>vars := w\<rparr>"
    using key_law [OF _ assms(3) key] assms(2) u(3) by auto
  have c': "out_wf (c\<lparr>vars := v\<rparr>)" "output_len (c\<lparr>vars := v\<rparr>) = 0" "output_size (c\<lparr>vars := v\<rparr>) = 0"
      "out_bytes (c\<lparr>vars := v\<rparr>) = []" "cry_h c = Some p"
    using u unfolding c by (simp_all add: out_wf_def out_bytes_def)
  obtain c2 r where c2: "append_obuf (c\<lparr>vars := v\<rparr>) obuf (int (length obuf)) = Some (0, c2)" "append_obuf c2 [] 0 = Some (0, c2)"
      "cry_h c2 = cry_h (c\<lparr>vars := v\<rparr>)" "vars c2 = vars (c\<lparr>vars := v\<rparr>)"
      "r_crypto_get_output c2 = Some (Some (output_len c2, r))" "take (nat (output_len c2)) r = obuf"
    by (rule run_output [OF c'(1-4), of obuf]) (use assms(4-6) in auto)
  then show ?thesis
    using u(1,2) key upd c'(5) assms(3,6) final_law [of c2]
    by (simp add: encrypt_or_decrypt_def r_crypto_set_key_def r_crypto_update_def r_crypto_final_def)
qed

lemma keyed_or_silent:
  assumes "p \<in> set ps" "vars_wf vs" "0 < n"
    and "encrypt_or_decrypt ps mem (k, n) (plugin_name p) d bs m None vs = Some (r, cs, vs')" and "cs \<noteq> []"
  obtains c where "plugin_set_key p (used ps mem vs p) k n d = Some (True, c)" "cry_h c = Some p" "\<exists>q. plugin_update p c bs m = Some q"
proof -
  note u = used_law [OF assms(1,2), of mem]
  from assms(3-5) obtain b c where k: "plugin_set_key p (used ps mem vs p) k n d = Some (b, c)"
    by (auto simp: encrypt_or_decrypt_def u r_crypto_set_key_def split: Option.bind_splits)
  moreover from this have b using assms(3-5)
    by (auto simp: encrypt_or_decrypt_def u r_crypto_set_key_def split: if_splits)
  ultimately have k: "plugin_set_key p (used ps mem vs p) k n d = Some (True, c)" by simp
  obtain w where "c = (used ps mem vs p)\<lparr>vars := w\<rparr>" using key_law [OF _ assms(3) k] assms(2) u(3) by auto
  then have h: "cry_h c = Some p" using u(2) by simp
  then have "\<exists>q. plugin_update p c bs m = Some q"
    using assms(3-5) k by (auto simp: encrypt_or_decrypt_def u r_crypto_set_key_def r_crypto_update_def split: Option.bind_splits)
  with k h that show thesis by blast
qed

lemma run_roundtrip:
  assumes "p \<in> set ps" "vars_wf vs" "0 < n" "length bs < 2 ^ 29"
    and enc: "encrypt_or_decrypt ps mem (k, n) (plugin_name p) 0 bs (int (length bs)) None vs = Some (r, cs, vs')"
    and "cs \<noteq> []" and "safe bs cs" and "bs \<noteq> []"
  shows "r = 0 \<and> (\<exists>vs''. encrypt_or_decrypt ps mem (k, n) (plugin_name p) 1 cs (int (length cs)) None vs' = Some (0, bs, vs''))"
proof -
  note u = used_law [OF assms(1,2), of mem]
  have fits: "fits (length bs)" by (rule safe_fits [OF assms(7)])
  obtain c where c: "plugin_set_key p (used ps mem vs p) k n 0 = Some (True, c)" and upd: "\<exists>q. plugin_update p c bs (int (length bs)) = Some q"
    by (rule keyed_or_silent [OF assms(1-3) enc assms(6)])
  have ok: "ok (st (vars c))" "vars_wf (vars c)" using key_law [OF _ assms(3) c] u(3) assms(2) by simp_all
  obtain v where v: "vars_wf v" "plugin_update p c bs (int (length bs)) =
      crypt (st (vars c)) bs \<bind> (\<lambda>obuf. append_obuf (c\<lparr>vars := v\<rparr>) obuf (int (length bs)))"
    using update_crypt [OF c ok(2) fits] by blast
  with upd obtain obuf where obuf: "crypt (st (vars c)) bs = Some obuf" by (auto split: Option.bind_splits)
  have len: "length obuf = length bs" by (rule fits_length [OF ok(1) fits obuf])
  from v(2) obuf have "plugin_update p c bs (int (length bs)) = append_obuf (c\<lparr>vars := v\<rparr>) obuf (int (length bs))" by simp
  from run_keyed [OF assms(1-4) assms(8) len c this] enc have cs: "r = 0" "cs = obuf" "vs' = v" by simp_all
  note u' = used_law [OF assms(1) v(1), of mem]
  obtain c2 where c2: "plugin_set_key p (used ps mem v p) k n 1 = Some (True, c2)" "decrypt (st (vars c2)) = decrypt (st (vars c))"
    using key_again [OF _ assms(3) c, of "used ps mem v p"] u(3) u'(3) assms(2) v(1) by auto
  have "vars_wf (vars c2)" using key_law [OF _ assms(3) c2(1)] u'(3) v(1) by simp
  then obtain w where w: "plugin_update p c2 obuf (int (length obuf)) =
      decrypt (st (vars c2)) obuf \<bind> (\<lambda>o2. append_obuf (c2\<lparr>vars := w\<rparr>) o2 (int (length obuf)))"
    using update_decrypt [OF c2(1) _ fits [folded len]] by blast
  have "decrypt (st (vars c2)) obuf = Some bs" using recover [OF ok(1) obuf] assms(7) cs(2) c2(2) by simp
  with w have "plugin_update p c2 obuf (int (length obuf)) = append_obuf (c2\<lparr>vars := w\<rparr>) bs (int (length obuf))" by simp
  from run_keyed [OF assms(1) v(1) assms(3) _ _ len [symmetric] c2(1) this]
  have "encrypt_or_decrypt ps mem (k, n) (plugin_name p) 1 obuf (int (length obuf)) None v = Some (0, bs, w)"
    using assms(4,6) len cs(2) by simp
  then show ?thesis unfolding cs by blast
qed

end

section \<open>The plugins keep it\<close>

lemma all_fields:
  "a\<lparr>perm := p, index1 := i, index2 := j, rc4_key_size := m\<rparr> = \<lparr>perm = p, index1 = i, index2 = j, rc4_key_size = m\<rparr>"
  "b\<lparr>S := s, rc6_key_size := m\<rparr> = \<lparr>S = s, rc6_key_size = m\<rparr>"
  "c\<lparr>bf_ps := ps, bf_ss := ss, bf_key_size := m\<rparr> = \<lparr>bf_ps = ps, bf_ss = ss, bf_key_size = m\<rparr>"
  "d\<lparr>ekey := e, rc2_key_size := m\<rparr> = \<lparr>ekey = e, rc2_key_size = m\<rparr>"
  by simp_all

lemmas plugin_defs = plugin_set_key_def plugin_update_def

lemma xor_init_law:
  assumes "xor_init st k n = Some (True, st')"
  shows "key_size st' = n \<and> 1 \<le> n \<and> n \<le> 32768 \<and> take (nat n) (key st') = take (nat n) k \<and> length (key st') = length (key st)"
  using assms by (auto simp: xor_init_def buf_read_def buf_write_def split: if_splits)

lemma xor_init_defined:
  assumes "xor_init st k n = Some (True, st')" and "length (key st2) = 32768"
  shows "\<exists>st2'. xor_init st2 k n = Some (True, st2')"
  using assms by (auto simp: xor_init_def buf_read_def buf_write_def split: if_splits)

lemma key_at_prefix:
  assumes "key_size a = n" "key_size b = n" "1 \<le> n" "take (nat n) (key a) = take (nat n) (key b)" "nat n \<le> length (key a)" "nat n \<le> length (key b)"
  shows "key_at a i = key_at b i"
proof -
  have "nat (int i mod n) < nat n" using assms(3) by simp
  then have "key a ! nat (int i mod n) = key b ! nat (int i mod n)" using assms(4) by (metis nth_take)
  moreover have "int i mod n < n" using assms(3) by simp
  then have "int i mod n < int (length (key a))" "int i mod n < int (length (key b))" using assms(5,6) by linarith+
  ultimately show ?thesis using assms by (simp add: key_at_def nth_opt_def)
qed

lemma xor_crypt_cong: "(\<And>i. key_at a i = key_at b i) \<Longrightarrow> xor_crypt a i bs = xor_crypt b i bs"
  by (induction bs arbitrary: i) auto

lemma xor_key_again:
  assumes "xor_init a k n = Some (True, a')" "xor_init b k n = Some (True, b')" "length (key a) = 32768" "length (key b) = 32768"
  shows "xor_crypt a' i = xor_crypt b' i"
  using xor_init_law [OF assms(1)] xor_init_law [OF assms(2)] assms(3,4)
  by (intro ext xor_crypt_cong key_at_prefix [of _ n]) auto

interpretation xor_plugin: crypto_plugin "\<lambda>st. xor_crypt st 0" "\<lambda>st. xor_crypt st 0" "\<lambda>_. True" "\<lambda>_ _. True" Plug_xor xor_st "\<lambda>_. True"
proof unfold_locales
  fix cry n k d c assume "vars_wf (vars cry)" "0 < n" "plugin_set_key Plug_xor cry k n d = Some (True, c)"
  then show "True \<and> vars_wf (vars c) \<and> c = cry\<lparr>vars := vars c\<rparr>"
    by (auto simp: plugin_defs xor_set_key_def vars_wf_def dest!: xor_init_law split: Option.bind_splits)
next
  fix cry n k c and cry2 :: rcrypto assume "vars_wf (vars cry)" "0 < n" "plugin_set_key Plug_xor cry k n 0 = Some (True, c)" "vars_wf (vars cry2)"
  then obtain a b where "xor_init (xor_st (vars cry)) k n = Some (True, a)" "c = cry\<lparr>vars := (vars cry)\<lparr>xor_st := a\<rparr>\<rparr>"
    "xor_init (xor_st (vars cry2)) k n = Some (True, b)"
    using xor_init_defined [of "xor_st (vars cry)" k n _ "xor_st (vars cry2)"]
    by (auto simp: plugin_defs xor_set_key_def vars_wf_def split: Option.bind_splits)
  then show "\<exists>c2. plugin_set_key Plug_xor cry2 k n 1 = Some (True, c2) \<and> xor_crypt (xor_st (vars c2)) 0 = xor_crypt (xor_st (vars c)) 0"
    using xor_key_again [of "xor_st (vars cry)" k n a "xor_st (vars cry2)" b 0] \<open>vars_wf (vars cry)\<close> \<open>vars_wf (vars cry2)\<close>
    by (simp add: plugin_defs xor_set_key_def vars_wf_def)
next
  fix c :: rcrypto and bs assume "vars_wf (vars c)"
  moreover have "c\<lparr>vars := vars c\<rparr> = c" by simp
  ultimately show "\<exists>v. vars_wf v \<and> plugin_update Plug_xor c bs (int (length bs)) =
      xor_crypt (xor_st (vars c)) 0 bs \<bind> (\<lambda>obuf. append_obuf (c\<lparr>vars := v\<rparr>) obuf (int (length bs)))"
    by (intro exI [of _ "vars c"]) (simp add: plugin_defs xor_update_def buf_read_def)
  then show "\<exists>v. vars_wf v \<and> plugin_update Plug_xor c bs (int (length bs)) =
      xor_crypt (xor_st (vars c)) 0 bs \<bind> (\<lambda>obuf. append_obuf (c\<lparr>vars := v\<rparr>) obuf (int (length bs)))" .
qed (auto simp: plugin_defs xor_update_def buf_read_def dest: xor_crypt_recover)

interpretation rot_plugin: crypto_plugin "\<lambda>k bs. Some (rot_crypt k bs)" "\<lambda>k cs. Some (rot_decrypt k cs)"
  "\<lambda>k. unat k < 26" "\<lambda>_ _. True" Plug_rot rot_key "\<lambda>_. True"
proof unfold_locales
  fix cry n k d c assume "vars_wf (vars cry)" "0 < n" "plugin_set_key Plug_rot cry k n d = Some (True, c)"
  then show "unat (rot_key (vars c)) < 26 \<and> vars_wf (vars c) \<and> c = cry\<lparr>vars := vars c\<rparr>"
    by (auto simp: plugin_defs rot_set_key_def vars_wf_def dest!: rot_init_ok split: Option.bind_splits)
next
  fix cry n k c and cry2 :: rcrypto assume "0 < n" "plugin_set_key Plug_rot cry k n 0 = Some (True, c)"
  then show "\<exists>c2. plugin_set_key Plug_rot cry2 k n 1 = Some (True, c2) \<and>
      (\<lambda>cs. Some (rot_decrypt (rot_key (vars c2)) cs)) = (\<lambda>cs. Some (rot_decrypt (rot_key (vars c)) cs))"
    by (auto simp: plugin_defs rot_set_key_def rot_init_def split: Option.bind_splits)
next
  fix cry k n c bs assume "plugin_set_key Plug_rot cry k n 0 = Some (True, c)" "vars_wf (vars c)"
  then show "\<exists>v. vars_wf v \<and> plugin_update Plug_rot c bs (int (length bs)) =
      Some (rot_crypt (rot_key (vars c)) bs) \<bind> (\<lambda>obuf. append_obuf (c\<lparr>vars := v\<rparr>) obuf (int (length bs)))"
    by (intro exI [of _ "vars c"]) (auto simp: plugin_defs rot_set_key_def rot_update_def buf_read_def split: Option.bind_splits)
next
  fix cry k n c bs assume "plugin_set_key Plug_rot cry k n 1 = Some (True, c)" "vars_wf (vars c)"
  then show "\<exists>v. vars_wf v \<and> plugin_update Plug_rot c bs (int (length bs)) =
      Some (rot_decrypt (rot_key (vars c)) bs) \<bind> (\<lambda>obuf. append_obuf (c\<lparr>vars := v\<rparr>) obuf (int (length bs)))"
    by (intro exI [of _ "vars c"]) (auto simp: plugin_defs rot_set_key_def rot_update_def buf_read_def split: Option.bind_splits)
qed (auto simp: plugin_defs rot_update_def buf_read_def rot_crypt_def rot_decrypt_def)

lemma rc4_init_again: "rc4_init st k n = Some (True, st') \<Longrightarrow> rc4_init st2 k n = Some (True, st')"
  unfolding rc4_init_def all_fields by (simp split: if_splits del: upt_rec_numeral)

lemma rc4_init_key_size: "rc4_init st k n = Some (True, st') \<Longrightarrow> rc4_key_size st' = n"
  unfolding rc4_init_def by (auto split: if_splits Option.bind_splits simp del: upt_rec_numeral)

interpretation rc4_plugin: crypto_plugin "\<lambda>st bs. Some (fst (rc4_crypt st bs))" "\<lambda>st bs. Some (fst (rc4_crypt st bs))"
  "\<lambda>_. True" "\<lambda>_ _. True" Plug_rc4 rc4_st "\<lambda>_. True"
proof unfold_locales
  fix cry n k d c assume "vars_wf (vars cry)" "0 < n" "plugin_set_key Plug_rc4 cry k n d = Some (True, c)"
  then show "True \<and> vars_wf (vars c) \<and> c = cry\<lparr>vars := vars c\<rparr>"
    by (auto simp: plugin_defs rc4_set_key_def vars_wf_def dest: rc4_init_key_size split: Option.bind_splits)
next
  fix cry n k c and cry2 :: rcrypto assume "0 < n" "plugin_set_key Plug_rc4 cry k n 0 = Some (True, c)"
  then show "\<exists>c2. plugin_set_key Plug_rc4 cry2 k n 1 = Some (True, c2) \<and>
      (\<lambda>bs. Some (fst (rc4_crypt (rc4_st (vars c2)) bs))) = (\<lambda>bs. Some (fst (rc4_crypt (rc4_st (vars c)) bs)))"
    using rc4_init_again [of "rc4_st (vars cry)" k n _ "rc4_st (vars cry2)"]
    by (auto simp: plugin_defs rc4_set_key_def split: Option.bind_splits)
next
  fix c :: rcrypto and bs assume "vars_wf (vars c)"
  moreover have "rc4_key_size (snd (rc4_crypt st bs)) = rc4_key_size st" for st
    by (induction bs arbitrary: st) (simp_all add: case_prod_beta rc4_step_def Let_def)
  ultimately show "\<exists>v. vars_wf v \<and> plugin_update Plug_rc4 c bs (int (length bs)) =
      Some (fst (rc4_crypt (rc4_st (vars c)) bs)) \<bind> (\<lambda>obuf. append_obuf (c\<lparr>vars := v\<rparr>) obuf (int (length bs)))"
    by (intro exI [of _ "(vars c)\<lparr>rc4_st := snd (rc4_crypt (rc4_st (vars c)) bs)\<rparr>"])
      (simp add: plugin_defs rc4_update_def buf_read_def case_prod_beta vars_wf_def)
  then show "\<exists>v. vars_wf v \<and> plugin_update Plug_rc4 c bs (int (length bs)) =
      Some (fst (rc4_crypt (rc4_st (vars c)) bs)) \<bind> (\<lambda>obuf. append_obuf (c\<lparr>vars := v\<rparr>) obuf (int (length bs)))" .
qed (auto simp: plugin_defs rc4_update_def buf_read_def rc4_crypt_recover)

lemma rc6_init_law:
  assumes "rc6_init st fl k n d = Some (True, fl', st')"
  shows "fl' = (d \<noteq> 0)" and "0 < n \<Longrightarrow> 0 \<le> rc6_key_size st'" and "rc6_init st2 fl2 k n d2 = Some (True, d2 \<noteq> 0, st')"
proof -
  obtain s where n: "\<not> (n \<noteq> 16 \<and> n \<noteq> 24 \<and> n \<noteq> 32)" and s: "rc6_schedule k n = Some s"
    using assms unfolding rc6_init_def by (cases "rc6_schedule k n") (auto split: if_splits)
  from assms n s have "fl' = (d \<noteq> 0)" "st' = \<lparr>S = s, rc6_key_size = n div 8\<rparr>" unfolding rc6_init_def all_fields by simp_all
  moreover from n s have "rc6_init st2 fl2 k n d2 = Some (True, d2 \<noteq> 0, \<lparr>S = s, rc6_key_size = n div 8\<rparr>)"
    unfolding rc6_init_def all_fields if_not_P [OF n] by simp
  ultimately show "fl' = (d \<noteq> 0)" "0 < n \<Longrightarrow> 0 \<le> rc6_key_size st'" "rc6_init st2 fl2 k n d2 = Some (True, d2 \<noteq> 0, st')" by simp_all
qed

interpretation rc6_plugin: crypto_plugin "rc6_update False" "rc6_update True" "\<lambda>_. True" "\<lambda>bs _. length bs mod 16 = 0"
  Plug_rc6 rc6_st "\<lambda>n. n mod 16 = 0"
proof unfold_locales
  fix cry n k d c assume "vars_wf (vars cry)" "0 < n" "plugin_set_key Plug_rc6 cry k n d = Some (True, c)"
  then show "True \<and> vars_wf (vars c) \<and> c = cry\<lparr>vars := vars c\<rparr>"
    by (auto simp: plugin_defs rc6_set_key_def vars_wf_def dest: rc6_init_law(2) split: Option.bind_splits)
next
  fix cry n k c and cry2 :: rcrypto assume "0 < n" "plugin_set_key Plug_rc6 cry k n 0 = Some (True, c)"
  then show "\<exists>c2. plugin_set_key Plug_rc6 cry2 k n 1 = Some (True, c2) \<and> rc6_update True (rc6_st (vars c2)) = rc6_update True (rc6_st (vars c))"
    using rc6_init_law(3) [of "rc6_st (vars cry)" "rc6_flag (vars cry)" k n 0 _ _ "rc6_st (vars cry2)" "rc6_flag (vars cry2)" 1]
    by (auto simp: plugin_defs rc6_set_key_def split: Option.bind_splits)
next
  fix cry k n c and bs :: "ut8 list" assume "plugin_set_key Plug_rc6 cry k n 0 = Some (True, c)" "vars_wf (vars c)" "length bs mod 16 = 0"
  moreover from this have "\<not> rc6_flag (vars c)"
    by (auto simp: plugin_defs rc6_set_key_def dest: rc6_init_law(1) split: Option.bind_splits)
  ultimately show "\<exists>v. vars_wf v \<and> plugin_update Plug_rc6 c bs (int (length bs)) =
      rc6_update False (rc6_st (vars c)) bs \<bind> (\<lambda>obuf. append_obuf (c\<lparr>vars := v\<rparr>) obuf (int (length bs)))"
    by (intro exI [of _ "vars c"]) (auto simp: plugin_defs rc6_plugin_update_def buf_read_def simp flip: zmod_int)
next
  fix cry k n c and bs :: "ut8 list" assume "plugin_set_key Plug_rc6 cry k n 1 = Some (True, c)" "vars_wf (vars c)" "length bs mod 16 = 0"
  moreover from this have "rc6_flag (vars c)"
    by (auto simp: plugin_defs rc6_set_key_def dest: rc6_init_law(1) split: Option.bind_splits)
  ultimately show "\<exists>v. vars_wf v \<and> plugin_update Plug_rc6 c bs (int (length bs)) =
      rc6_update True (rc6_st (vars c)) bs \<bind> (\<lambda>obuf. append_obuf (c\<lparr>vars := v\<rparr>) obuf (int (length bs)))"
    by (intro exI [of _ "vars c"]) (auto simp: plugin_defs rc6_plugin_update_def buf_read_def simp flip: zmod_int)
qed (auto simp: plugin_defs rc6_plugin_update_def buf_read_def rc6_update_def intro: rc6.keeps_length [unfolded rc6_update_def])

lemma blowfish_init_again: "blowfish_init st k n = Some (True, st') \<Longrightarrow> blowfish_init st2 k n = Some (True, st')"
  unfolding blowfish_init_def all_fields Let_def by (simp split: if_splits)

lemma bf_fill_key_size: "bf_key_size (snd (bf_fill_s ijs (bf_fill_p is (b, st)))) = bf_key_size st"
proof -
  have "bf_key_size (snd (bf_fill_s ijs q)) = bf_key_size (snd q)" for q
    by (induction ijs q rule: bf_fill_s.induct) (simp_all add: Let_def case_prod_beta)
  moreover have "bf_key_size (snd (bf_fill_p is q)) = bf_key_size (snd q)" for q
    by (induction "is" q rule: bf_fill_p.induct) (simp_all add: Let_def case_prod_beta)
  ultimately show ?thesis by simp
qed

lemma blowfish_init_key_size: "blowfish_init st k n = Some (True, st') \<Longrightarrow> bf_key_size st' = n"
  unfolding blowfish_init_def Let_def
  by (auto simp: bf_fill_key_size split: if_splits Option.bind_splits simp del: upt_rec_numeral bf_fill_p.simps bf_fill_s.simps)

interpretation blowfish_plugin: crypto_plugin blowfish_crypt blowfish_decrypt "\<lambda>_. True" "\<lambda>bs _. length bs mod 8 = 0"
  Plug_blowfish bf_st "\<lambda>n. n mod 8 = 0"
proof unfold_locales
  fix cry n k d c assume "vars_wf (vars cry)" "0 < n" "plugin_set_key Plug_blowfish cry k n d = Some (True, c)"
  then show "True \<and> vars_wf (vars c) \<and> c = cry\<lparr>vars := vars c\<rparr>"
    by (auto simp: plugin_defs blowfish_set_key_def vars_wf_def dest: blowfish_init_key_size split: Option.bind_splits)
next
  fix cry n k c and cry2 :: rcrypto assume "0 < n" "plugin_set_key Plug_blowfish cry k n 0 = Some (True, c)"
  then show "\<exists>c2. plugin_set_key Plug_blowfish cry2 k n 1 = Some (True, c2) \<and> blowfish_decrypt (bf_st (vars c2)) = blowfish_decrypt (bf_st (vars c))"
    using blowfish_init_again [of "bf_st (vars cry)" k n _ "bf_st (vars cry2)"]
    by (auto simp: plugin_defs blowfish_set_key_def split: Option.bind_splits)
next
  fix cry k n c bs assume "plugin_set_key Plug_blowfish cry k n 0 = Some (True, c)" "vars_wf (vars c)"
  moreover from this have "bf_flag (vars c) = 0" by (auto simp: plugin_defs blowfish_set_key_def split: Option.bind_splits)
  ultimately show "\<exists>v. vars_wf v \<and> plugin_update Plug_blowfish c bs (int (length bs)) =
      blowfish_crypt (bf_st (vars c)) bs \<bind> (\<lambda>obuf. append_obuf (c\<lparr>vars := v\<rparr>) obuf (int (length bs)))"
    by (intro exI [of _ "vars c"]) (auto simp: plugin_defs blowfish_update_def buf_read_def)
next
  fix cry k n c bs assume "plugin_set_key Plug_blowfish cry k n 1 = Some (True, c)" "vars_wf (vars c)"
  moreover from this have "bf_flag (vars c) = 1" by (auto simp: plugin_defs blowfish_set_key_def split: Option.bind_splits)
  ultimately show "\<exists>v. vars_wf v \<and> plugin_update Plug_blowfish c bs (int (length bs)) =
      blowfish_decrypt (bf_st (vars c)) bs \<bind> (\<lambda>obuf. append_obuf (c\<lparr>vars := v\<rparr>) obuf (int (length bs)))"
    by (intro exI [of _ "vars c"]) (auto simp: plugin_defs blowfish_update_def buf_read_def)
next
  show "length cs = length bs" if "length bs mod 8 = 0" "blowfish_crypt s bs = Some cs" for s bs cs
    using blowfish.keeps_length [of s bs cs] that by simp
qed (auto simp: plugin_defs blowfish_update_def buf_read_def blowfish_crypt_def blowfish_decrypt_def)

text \<open>The key schedule of \<open>rc2\<close> overwrites whatever an earlier key left.\<close>

lemma length_rc2_expand [simp]: "length (rc2_expand kl is b) = length b"
  by (induction kl "is" b rule: rc2_expand.induct) simp_all

lemma rc2_expand_prefix:
  assumes "1 \<le> kl" "kl \<le> int i"
  shows "i \<le> 128 \<Longrightarrow> length b = 128 \<Longrightarrow> length b' = 128 \<Longrightarrow> take i b = take i b' \<Longrightarrow>
    rc2_expand kl [i..<128] b = rc2_expand kl [i..<128] b'"
  using assms
proof (induction "128 - i" arbitrary: i b b')
  case (Suc d)
  let ?f = "\<lambda>b. b[i := PITABLE ! unat (b ! nat (int i - kl) + b ! (i - 1))]"
  have i: "i < 128" "nat (int i - kl) < i" "i - 1 < i" using Suc.hyps(2) Suc.prems(5,6) by auto
  then have "b ! nat (int i - kl) = b' ! nat (int i - kl)" "b ! (i - 1) = b' ! (i - 1)"
    using Suc.prems(4) by (metis nth_take)+
  then have "take (Suc i) (?f b) = take (Suc i) (?f b')"
    using Suc.prems(2-4) i(1) by (simp add: take_Suc_conv_app_nth)
  then have "rc2_expand kl [Suc i..<128] (?f b) = rc2_expand kl [Suc i..<128] (?f b')"
    using Suc i(1) by (intro Suc.hyps(1)) auto
  then show ?case using i(1) by (simp add: upt_conv_Cons)
qed simp

lemma length_le16_words: "length b = 2 * n \<Longrightarrow> length (le16_words b) = n"
proof (induction b arbitrary: n rule: le16_words.induct)
  case (1 x y b)
  then show ?case by (cases n) auto
qed auto

lemma length_rc2_old: "length (ekey st) = 64 \<Longrightarrow> length (concat (map (\<lambda>w. [ucast w, ucast (drop_bit 8 w)]) (ekey st)) :: ut8 list) = 128"
proof -
  have "length (concat (map (\<lambda>w. [ucast w, ucast (drop_bit 8 w)]) ws) :: ut8 list) = 2 * length ws" for ws :: "ut16 list"
    by (induction ws) auto
  then show "length (ekey st) = 64 \<Longrightarrow> ?thesis" by simp
qed

lemma rc2_expandKey_law:
  assumes "rc2_expandKey st k n = Some (True, st')" "length (ekey st) = 64" "length (ekey st2) = 64"
  shows "length (ekey st') = 64 \<and> rc2_key_size st' = rc2_key_size st \<and>
    (\<exists>st2'. rc2_expandKey st2 k n = Some (True, st2') \<and> ekey st2' = ekey st' \<and> rc2_key_size st2' = rc2_key_size st2)"
proof -
  define old :: "rc2_state \<Rightarrow> ut8 list" where "old = (\<lambda>st. concat (map (\<lambda>w. [ucast w, ucast (drop_bit 8 w)]) (ekey st)))"
  define fill where "fill = (\<lambda>b. let b = rc2_expand n [nat n..<128] b; b = b[0 := PITABLE ! unat (b ! 0 AND 255)] in b)"
  have n: "1 \<le> n" "n \<le> 128" "nat n \<le> length k" using assms(1) by (auto simp: rc2_expandKey_def buf_read_def split: if_splits)
  have run: "rc2_expandKey x k n = Some (True, x\<lparr>ekey := le16_words (fill (take (nat n) k @ drop (nat n) (old x)))\<rparr>)" if "length (ekey x) = 64" for x
    using n length_rc2_old [OF that]
    by (simp add: rc2_expandKey_def buf_read_def buf_write_def old_def fill_def Let_def)
  have "rc2_expand n [nat n..<128] (take (nat n) k @ drop (nat n) (old st)) = rc2_expand n [nat n..<128] (take (nat n) k @ drop (nat n) (old st2))"
    using n length_rc2_old [OF assms(2)] length_rc2_old [OF assms(3)] by (intro rc2_expand_prefix) (auto simp: old_def)
  then have "fill (take (nat n) k @ drop (nat n) (old st)) = fill (take (nat n) k @ drop (nat n) (old st2))" by (simp add: fill_def)
  moreover have "length (le16_words (fill (take (nat n) k @ drop (nat n) (old st)))) = 64"
    using n length_rc2_old [OF assms(2)] by (intro length_le16_words) (simp add: fill_def old_def Let_def)
  ultimately show ?thesis using run [OF assms(2)] run [OF assms(3)] assms(1) by auto
qed

lemma rc2_expandKey_keeps:
  "rc2_expandKey st k n = Some (True, st') \<Longrightarrow> length (ekey st) = 64 \<Longrightarrow> length (ekey st') = 64 \<and> rc2_key_size st' = rc2_key_size st"
  using rc2_expandKey_law [of st k n st' st] by blast

interpretation rc2_plugin: crypto_plugin rc2_crypt rc2_dcrypt "\<lambda>_. True" "\<lambda>bs cs. length bs mod 8 = 0 \<and> 0 \<notin> set bs \<and> 0 \<notin> set cs"
  Plug_rc2 rc2_st "\<lambda>n. n mod 8 = 0"
proof unfold_locales
  fix cry n k d c assume "vars_wf (vars cry)" "0 < n" "plugin_set_key Plug_rc2 cry k n d = Some (True, c)"
  then show "True \<and> vars_wf (vars c) \<and> c = cry\<lparr>vars := vars c\<rparr>"
    by (auto simp: plugin_defs rc2_set_key_def vars_wf_def split: Option.bind_splits dest!: rc2_expandKey_keeps)
next
  fix cry n k c and cry2 :: rcrypto assume *: "vars_wf (vars cry)" "plugin_set_key Plug_rc2 cry k n 0 = Some (True, c)" "vars_wf (vars cry2)"
  then obtain a where a: "rc2_expandKey ((rc2_st (vars cry))\<lparr>rc2_key_size := 1024\<rparr>) k n = Some (True, a)" "rc2_st (vars c) = a"
    by (auto simp: plugin_defs rc2_set_key_def split: Option.bind_splits)
  from rc2_expandKey_law [OF a(1), of "(rc2_st (vars cry2))\<lparr>rc2_key_size := 1024\<rparr>"] *(1,3)
  obtain b where b: "rc2_expandKey ((rc2_st (vars cry2))\<lparr>rc2_key_size := 1024\<rparr>) k n = Some (True, b)" "b = a" by (auto simp: vars_wf_def)
  then show "\<exists>c2. plugin_set_key Plug_rc2 cry2 k n 1 = Some (True, c2) \<and> rc2_dcrypt (rc2_st (vars c2)) = rc2_dcrypt (rc2_st (vars c))"
    using a by (simp add: plugin_defs rc2_set_key_def)
next
  fix cry k n c bs assume "plugin_set_key Plug_rc2 cry k n 0 = Some (True, c)" "vars_wf (vars c)"
  moreover from this have "rc2_flag (vars c) = 0" by (auto simp: plugin_defs rc2_set_key_def split: Option.bind_splits)
  ultimately show "\<exists>v. vars_wf v \<and> plugin_update Plug_rc2 c bs (int (length bs)) =
      rc2_crypt (rc2_st (vars c)) bs \<bind> (\<lambda>obuf. append_obuf (c\<lparr>vars := v\<rparr>) obuf (int (length bs)))"
    by (intro exI [of _ "vars c"]) (auto simp: plugin_defs rc2_update_def buf_read_def)
next
  fix cry k n c bs assume "plugin_set_key Plug_rc2 cry k n 1 = Some (True, c)" "vars_wf (vars c)"
  moreover from this have "rc2_flag (vars c) = 1" by (auto simp: plugin_defs rc2_set_key_def split: Option.bind_splits)
  ultimately show "\<exists>v. vars_wf v \<and> plugin_update Plug_rc2 c bs (int (length bs)) =
      rc2_dcrypt (rc2_st (vars c)) bs \<bind> (\<lambda>obuf. append_obuf (c\<lparr>vars := v\<rparr>) obuf (int (length bs)))"
    by (intro exI [of _ "vars c"]) (auto simp: plugin_defs rc2_update_def buf_read_def)
next
  show "length cs = length bs" if len: "length bs mod 8 = 0" and "rc2_crypt s bs = Some cs" for s bs cs
  proof -
    obtain n where "length bs = 8 * n" using len by (metis mod_0_imp_dvd dvd_def)
    then show ?thesis using that length_rc2_blocks [of bs n "rc2_crypt8 s"] by (simp add: rc2_crypt_blocks)
  qed
qed (auto simp: plugin_defs rc2_update_def buf_read_def rc2_crypt_def rc2_dcrypt_def)

section \<open>Decryption after encryption\<close>

text \<open>The texts that each plugin brings back: whole blocks, and for \<open>rc2\<close> no zero byte on either side.\<close>

definition recoverable :: "rplugin \<Rightarrow> ut8 list \<Rightarrow> ut8 list \<Rightarrow> bool" where
  "recoverable p bs cs = (case p of
     Plug_xor \<Rightarrow> True | Plug_rot \<Rightarrow> True | Plug_rc4 \<Rightarrow> True
   | Plug_rc6 \<Rightarrow> length bs mod 16 = 0 | Plug_blowfish \<Rightarrow> length bs mod 8 = 0
   | Plug_rc2 \<Rightarrow> length bs mod 8 = 0 \<and> 0 \<notin> set bs \<and> 0 \<notin> set cs
   | _ \<Rightarrow> False)"


text \<open>The static variables of a fresh process.\<close>

definition zero_key :: "ut8 list" where
  "zero_key = replicate 32768 0"

definition zero_ekey :: "ut16 list" where
  "zero_ekey = replicate 64 0"

definition zero_statics :: statics where
  "zero_statics =
     (let ks = \<lparr>key = zero_key, key_size = 0\<rparr>
      in \<lparr>xor_st = ks, rol_st = ks, rol_flag = 0, ror_st = ks, ror_flag = 0, rot_key = 0, rot_flag = 0,
          rc4_st = \<lparr>perm = replicate 256 0, index1 = 0, index2 = 0, rc4_key_size = 0\<rparr>,
          rc6_st = \<lparr>S = replicate 44 0, rc6_key_size = 0\<rparr>, rc6_flag = False,
          rc2_st = \<lparr>ekey = zero_ekey, rc2_key_size = 0\<rparr>, rc2_flag = 0,
          bf_st = \<lparr>bf_ps = replicate 18 0, bf_ss = replicate 4 (replicate 256 0), bf_key_size = 0\<rparr>, bf_flag = 0, b64_flag = 0\<rparr>)"

lemma zero_statics_wf: "vars_wf zero_statics"
proof -
  have "length zero_key = 32768" "length zero_ekey = 64" by (simp_all only: zero_key_def zero_ekey_def length_replicate)
  then show ?thesis by (simp add: vars_wf_def zero_statics_def Let_def)
qed

lemma rot_example:
  "\<exists>vs'. encrypt_or_decrypt [Plug_xor, Plug_rot] (\<lambda>_. 0) ([51, 0], 1) (plugin_name Plug_rot) 0 [72, 105, 33, 122] 4 None zero_statics =
     Some (0, [75, 108, 33, 99], vs')"
proof -
  let ?u = "used [Plug_xor, Plug_rot] (\<lambda>_. 0) zero_statics Plug_rot"
  let ?c = "?u\<lparr>vars := (vars ?u)\<lparr>rot_key := 3, rot_flag := 0\<rparr>\<rparr>"
  have "atoi [51, 0] = Some 3" by (simp add: atoi_def)
  then have key: "plugin_set_key Plug_rot ?u [51, 0] 1 0 = Some (True, ?c)"
    by (simp add: plugin_defs rot_set_key_def rot_init_def rot_mod_26_int)
  have "rot_crypt 3 [72, 105, 33, 122] = [75, 108, 33, 99]"
    by (simp add: rot_crypt_def rot_byte_def Let_def rot_mod_26_int)
  then have "plugin_update Plug_rot ?c [72, 105, 33, 122] (int (length [72, 105, 33, 122 :: ut8])) =
      append_obuf (?c\<lparr>vars := vars ?c\<rparr>) [75, 108, 33, 99] (int (length [72, 105, 33, 122 :: ut8]))"
    by (simp add: plugin_defs rot_update_def buf_read_def)
  from rot_plugin.run_keyed [OF _ zero_statics_wf _ _ _ _ key this] show ?thesis by simp
qed


section \<open>Base64 as a plugin\<close>

lemma chr_byte_chr [simp]: "chr_of_byte (byte_of_chr c) = c"
proof -
  have "char_code c < 256" by (simp add: char_code_def)
  then show ?thesis by (simp add: chr_of_byte_def byte_of_chr_def unat_of_nat char_code_def)
qed

lemma sextet_chr_not_pad: "unat w < 64 \<Longrightarrow> sextet_chr w \<noteq> CHR ''=''"
proof
  assume w: "unat w < 64" and "sextet_chr w = CHR ''=''"
  then have "61 \<in> set (map char_code cb64)" by (force simp: sextet_chr_def char_code_def in_set_conv_nth)
  then show False by (simp only: cb64_codes) simp
qed

lemma text_padding:
  assumes "bs \<noteq> []"
  shows "(base64_text bs ! (length (base64_text bs) - 1) = CHR ''='' \<longleftrightarrow> length bs mod 3 \<noteq> 0) \<and>
    (base64_text bs ! (length (base64_text bs) - 2) = CHR ''='' \<longleftrightarrow> length bs mod 3 = 1)"
  using assms
proof (induction bs rule: base64_text.induct)
  case (4 x y z bs)
  obtain w0 w1 w2 w3 where w: "sextets x y z = [w0, w1, w2, w3]" "unat w2 < 64" "unat w3 < 64" by (rule sextetsE) blast
  show ?case
  proof (cases "bs = []")
    case True
    then show ?thesis using w by (simp add: sextet_chr_not_pad)
  next
    case False
    then have "length (base64_text bs) \<ge> 4" by (cases bs rule: base64_text.cases) (auto simp: sextets_def)
    moreover have "Suc (Suc (Suc m)) mod 3 = m mod 3" for m by presburger
    ultimately show ?thesis using "4.IH" [OF False] w by (auto simp: nth_Cons' numeral_2_eq_2)
  qed
next
  case (3 x y)
  obtain w0 w1 w2 w3 where "sextets x y 0 = [w0, w1, w2, w3]" "unat w2 < 64" by (rule sextetsE) blast
  then show ?case by (simp add: sextet_chr_not_pad)
next
  case (2 x)
  obtain w0 w1 w2 w3 where "sextets x 0 0 = [w0, w1, w2, w3]" by (rule sextetsE) blast
  then show ?case by simp
qed simp

lemma decode_loop_short:
  assumes "drop i bin = base64_text bs @ rest" and "length bs mod 3 = 1" and "j + base64_room (length bs) = Suc (length bout)"
  shows "decode_loop bin (int (i + length (base64_text bs))) i j bout = None"
  using assms
proof (induction bs arbitrary: i j bout rule: base64_text.induct)
  case (2 x)
  obtain y z where "b64_decode bin i bout j = map_option (Pair 1) (buf_write bout j [x, y, z])"
    using decode_pad2 [OF "2.prems"(1)] by blast
  moreover have "length (base64_text [x]) = 4" by (simp add: sextets_def)
  ultimately show ?case using "2.prems"(3)
    by (simp add: decode_loop.simps base64_room_def buf_write_def del: base64_text.simps)
next
  case (4 x y z bs)
  let ?n = "length (base64_text bs)"
  have mod: "length bs mod 3 = 1" using "4.prems"(2) by (simp; presburger)
  then have "bs \<noteq> []" by auto
  then have room: "3 \<le> base64_room (length bs)" by (cases bs) (auto simp: base64_room_def)
  have d: "drop i bin = map sextet_chr (sextets x y z) @ base64_text bs @ rest" using "4.prems"(1) by simp
  have c: "length (map sextet_chr (sextets x y z)) = 4" by (simp add: sextets_def)
  have "drop (i + 4) bin = base64_text bs @ rest" using arg_cong [OF d, of "drop 4"] c by (simp add: add.commute)
  moreover obtain bout' where "decode_loop bin (int i + 4 + int ?n) i j bout = decode_loop bin (int i + 4 + int ?n) (i + 4) (j + 3) bout'"
      "length bout' = length bout"
    using decode_loop_step [of i "int i + 4 + int ?n" bin bout j 3 "[x, y, z]"] decode_block [OF d] "4.prems"(3) room
    by (auto simp: base64_room_Suc3)
  ultimately show ?case
    using "4.IH" [of "i + 4" "j + 3" bout'] "4.prems"(3) mod c by (simp add: base64_room_Suc3 ac_simps)
qed simp_all

lemma append_obuf_take: "nat n \<le> length buf \<Longrightarrow> append_obuf cry buf n = append_obuf cry (take (nat n) buf) n"
  by (simp add: append_obuf_def r_crypto_append_def buf_read_def)

lemma base64_final: "b64_flag (vars c) = 0 \<or> b64_flag (vars c) = 1 \<Longrightarrow> plugin_update Plug_base64 c [] 0 = Some (0, c)"
  by (auto simp: plugin_defs base64_update_def b64_pad_def r_base64_encode_def r_base64_decode_def encode_loop.simps decode_loop.simps buf_write_def)

lemma base64_run:
  fixes ps mem vs d
  defines "c \<equiv> (used ps mem vs Plug_base64)\<lparr>vars := vs\<lparr>b64_flag := d\<rparr>\<rparr>"
  assumes "Plug_base64 \<in> set ps" "vars_wf vs" "0 \<le> n" "d = 0 \<or> d = 1"
    and upd: "base64_update c bs (int (length bs)) = append_obuf c obuf (int (length obuf))"
    and "obuf \<noteq> []" "length obuf < 2 ^ 29"
  shows "encrypt_or_decrypt ps mem (k, n) ''base64'' d bs (int (length bs)) None vs = Some (0, obuf, vs\<lparr>b64_flag := d\<rparr>)"
proof -
  note u = used_law [OF assms(2,3), of mem]
  have c: "out_wf c" "output_len c = 0" "output_size c = 0" "out_bytes c = []" "cry_h c = Some Plug_base64" "vars c = vs\<lparr>b64_flag := d\<rparr>"
    using u by (simp_all add: c_def out_wf_def out_bytes_def)
  have key: "plugin_set_key Plug_base64 (used ps mem vs Plug_base64) k n d = Some (True, c)"
    using u(3) by (simp add: plugin_defs base64_set_key_def c_def)
  obtain c2 r where c2: "append_obuf c obuf (int (length obuf)) = Some (0, c2)" "cry_h c2 = cry_h c" "vars c2 = vars c"
      "r_crypto_get_output c2 = Some (Some (output_len c2, r))" "take (nat (output_len c2)) r = obuf"
    using run_output [OF c(1-4) assms(8,7)] by metis
  have "plugin_update Plug_base64 c2 [] 0 = Some (0, c2)" using c2(3) c(6) assms(5) by (intro base64_final) simp
  moreover have "plugin_name Plug_base64 = ''base64''" by (simp add: plugin_name_def)
  moreover have "plugin_update Plug_base64 c bs (int (length bs)) = Some (0, c2)" using upd c2(1) by (simp add: plugin_defs)
  ultimately show ?thesis
    using u(1,2) key c(5,6) c2 assms(4)
    by (simp add: encrypt_or_decrypt_def r_crypto_set_key_def r_crypto_update_def r_crypto_final_def)
qed

lemma base64_update_encode:
  assumes "b64_flag (vars c) = 0" "bs \<noteq> []"
  shows "base64_update c bs (int (length bs)) =
    append_obuf c (map byte_of_chr (base64_text bs)) (int (length (base64_text bs)))"
proof -
  have "c_div (int (length bs) + 2) 3 * 4 = int (length (base64_text bs))"
    by (simp add: length_base64_text c_div_def zdiv_int)
  moreover have "0 < length (base64_text bs)" using assms(2) by (cases bs rule: base64_text.cases) (auto simp: sextets_def)
  ultimately show ?thesis
    using assms(1) r_base64_encode_text [of bs "map (chr_of_byte \<circ> fresh c) [0..<nat (int (length (base64_text bs)) + 1)]"]
    by (simp add: base64_update_def append_obuf_take [of _ "map byte_of_chr (base64_text bs) @ _"] take_map)
qed

lemma room_mod: "base64_room n = (if n mod 3 = 0 then n else if n mod 3 = 1 then n + 2 else n + 1)"
proof -
  define q r where "q = n div 3" and "r = n mod 3"
  then have n: "n = 3 * q + r" "r < 3" by simp_all
  consider "r = 0" | "r = 1" | "r = 2" using n(2) by linarith
  then show ?thesis unfolding base64_room_def r_def [symmetric] by cases (simp_all add: n(1))
qed

lemma byte_of_pad: "byte_of_chr c = 61 \<longleftrightarrow> c = CHR ''=''"
proof -
  have "byte_of_chr (CHR ''='') = 61" by (simp add: byte_of_chr_def char_code_def)
  then show ?thesis by (metis chr_byte_chr)
qed

lemma base64_update_decode:
  assumes "b64_flag (vars c) = 1" "bs \<noteq> []"
  shows "base64_update c (map byte_of_chr (base64_text bs)) (int (length (base64_text bs))) =
    (if length bs mod 3 = 1 then None else append_obuf c bs (int (length bs)))"
proof -
  define t where "t = base64_text bs"
  define pad :: int where "pad = (if length bs mod 3 = 0 then 0 else if length bs mod 3 = 1 then 2 else 1)"
  let ?buf = "map (fresh c) [0..<Suc (length bs)]"
  have t: "2 \<le> length t" using assms(2) by (cases bs rule: base64_text.cases) (auto simp: t_def sextets_def)
  then have ends: "nth_opt (map byte_of_chr t) (int (length t) - 1) = Some (byte_of_chr (t ! (length t - 1)))"
      "nth_opt (map byte_of_chr t) (int (length t) - 2) = Some (byte_of_chr (t ! (length t - 2)))"
    by (auto simp: nth_opt_def nat_diff_distrib)
  have "4 * base64_room (length bs) = 3 * length t" by (simp add: t_def length_base64_text base64_room_def)
  then have "c_div (int (length t)) 4 * 3 = int (base64_room (length bs))"
    by (simp add: t_def length_base64_text c_div_def base64_room_def zdiv_int)
  then have olen: "c_div (int (length t)) 4 * 3 - pad = int (length bs)" by (simp add: pad_def room_mod)
  have p: "b64_pad (map byte_of_chr t) (int (length t)) = Some pad"
    using t text_padding [OF assms(2), folded t_def] unfolding b64_pad_def ends pad_def
    by (simp add: ends byte_of_pad split: if_splits) (auto simp: byte_of_pad)
  have "map chr_of_byte (map byte_of_chr t) = t" by (simp add: comp_def)
  moreover have "nat (int (length bs) + 1) = Suc (length bs)" by simp
  ultimately have upd: "base64_update c (map byte_of_chr t) (int (length t)) = do {
      (olen, obuf) \<leftarrow> r_base64_decode ?buf t (int (length t));
      (if olen > 0 then append_obuf c obuf olen else Some (0, c)) }"
    using assms(1) unfolding base64_update_def p by (simp only: bind.bind_lunit Let_def olen) simp
  show ?thesis
  proof (cases "length bs mod 3 = 1")
    case True
    have "decode_loop t (int (0 + length (base64_text bs))) 0 0 ?buf = None"
      using True by (intro decode_loop_short [where rest = "[]"]) (simp_all add: t_def room_mod)
    with upd True show ?thesis by (simp add: r_base64_decode_def t_def del: upt_Suc)
  next
    case False
    then have room: "base64_room (length bs) \<le> length ?buf" by (simp add: room_mod)
    obtain b where "r_base64_decode ?buf t (int (length t)) = Some (int (length bs), bs @ 0 # b)"
      using r_base64_decode_text [OF room, of "[]"] by (auto simp: t_def)
    with upd False assms(2) show ?thesis by (simp add: t_def append_obuf_take [of _ "bs @ _"] del: upt_Suc)
  qed
qed

text \<open>C17: The base64 plugin encodes every text, and decodes the result again when the length of the text leaves
  remainder 0 or 2 modulo 3. With remainder 1, so with two padding characters, decoding writes one byte past the
  buffer that the plugin allocates.\<close>
theorem base64_plugin_decodes:
  assumes "Plug_base64 \<in> set ps" "vars_wf vs" "0 \<le> n" "bs \<noteq> []" "length bs < 2 ^ 28"
  shows "encrypt_or_decrypt ps mem (k, n) ''base64'' 0 bs (int (length bs)) None vs =
      Some (0, map byte_of_chr (base64_text bs), vs\<lparr>b64_flag := 0\<rparr>) \<and>
    encrypt_or_decrypt ps mem (k, n) ''base64'' 1 (map byte_of_chr (base64_text bs)) (int (length (base64_text bs))) None vs =
      (if length bs mod 3 = 1 then None else Some (0, bs, vs\<lparr>b64_flag := 1\<rparr>))"
proof
  let ?t = "map byte_of_chr (base64_text bs)"
  note u = used_law [OF assms(1,2), of mem]
  have t: "?t \<noteq> []" "length ?t < 2 ^ 29"
    using assms(4,5) by (cases bs rule: base64_text.cases; simp add: sextets_def length_base64_text)+
  show "encrypt_or_decrypt ps mem (k, n) ''base64'' 0 bs (int (length bs)) None vs = Some (0, ?t, vs\<lparr>b64_flag := 0\<rparr>)"
    using t by (intro base64_run assms(1-3)) (simp_all add: base64_update_encode assms(4))
  show "encrypt_or_decrypt ps mem (k, n) ''base64'' 1 ?t (int (length (base64_text bs))) None vs =
      (if length bs mod 3 = 1 then None else Some (0, bs, vs\<lparr>b64_flag := 1\<rparr>))"
  proof (cases "length bs mod 3 = 1")
    case True
    have "plugin_name Plug_base64 = ''base64''" by (simp add: plugin_name_def)
    then show ?thesis using True u assms(3,4)
      by (simp add: encrypt_or_decrypt_def r_crypto_set_key_def plugin_defs base64_set_key_def r_crypto_update_def base64_update_decode)
  next
    case False
    then have "encrypt_or_decrypt ps mem (k, n) ''base64'' 1 ?t (int (length ?t)) None vs = Some (0, bs, vs\<lparr>b64_flag := 1\<rparr>)"
      using assms(4,5) by (intro base64_run assms(1-3)) (simp_all add: base64_update_decode)
    with False show ?thesis by simp
  qed
qed

theorem base64_plugin_decodes_witness:
  "encrypt_or_decrypt [Plug_base64] (\<lambda>_. 0) ([], 0) ''base64'' 0 [65] 1 None zero_statics =
     Some (0, [81, 81, 61, 61], zero_statics\<lparr>b64_flag := 0\<rparr>) \<and>
   encrypt_or_decrypt [Plug_base64] (\<lambda>_. 0) ([], 0) ''base64'' 1 [81, 81, 61, 61] 4 None zero_statics = None"
proof -
  have "map byte_of_chr (base64_text [65]) = [81, 81, 61, 61]"
    by (simp add: sextets_def sextet_chr_def cb64_def byte_of_chr_def char_code_def)
  then show ?thesis
    using base64_plugin_decodes [of "[Plug_base64]" zero_statics 0 "[65]" "\<lambda>_. 0" "[]"] zero_statics_wf by (simp add: sextets_def)
qed

section \<open>Undefined and lossy cases\<close>

lemma rol_drops_bits: "rol_crypt \<lparr>key = [1], key_size = 1\<rparr> 0 [0x80] = Some [0]"
  by (simp add: key_at_def nth_opt_def)

lemma base64_decode_length_zero: "r_base64_decode bout bin 0 = map_option (Pair 0) (buf_write bout 0 [0])"
  by (simp add: r_base64_decode_def decode_loop.simps map_conv_bind_option comp_def)

lemma base64_padding_first: "b64_decode ''===='' 0 [0, 0, 0] 0 = Some (255, [144, 0, 0])"
proof -
  have "schar (CHR ''='') = 61" "nth_opt cd64 18 = Some (CHR ''$'')" "char_code (CHR ''$'') = 36" by code_simp+
  then show ?thesis by (simp add: b64_decode_def b64_scan.simps nth_opt_def buf_write_def unsigned_minus_1_eq_mask mask_eq_exp_minus_1)
qed

lemma output_not_initialised: "output_size (r_crypto_new ps mem vs) = 0"
  by (simp add: r_crypto_new_def r_crypto_init_def r_crypto_get_output_null_def add_all_plugins Let_def)

lemma rc2_loop_rest:
  "idx + length bs < 8 \<Longrightarrow> \<exists>blk'. rc2_loop f bs blk idx ptr out = Some (blk', idx + length bs, ptr, out)"
proof (induction bs arbitrary: blk idx)
  case (Cons b bs)
  then show ?case using Cons.IH [of "Suc idx" "blk[idx := b]"] by (simp add: Let_def)
qed simp

lemma rc2_loop_split:
  "rc2_loop f (as @ bs) blk idx ptr out = rc2_loop f as blk idx ptr out \<bind> (\<lambda>(blk, idx, ptr, out). rc2_loop f bs blk idx ptr out)"
  by (induction as arbitrary: blk idx ptr out) (auto simp: Let_def split: Option.bind_splits)

lemma rc2_partial_block_overflows:
  assumes "length bs mod 8 \<noteq> 0"
  shows "rc2_crypt st bs = None"
proof -
  define n r where "n = length bs div 8" and "r = length bs mod 8"
  have len: "length bs = 8 * n + r" "0 < r" "r < 8" using assms by (simp_all add: n_def r_def)
  let ?f = "rc2_crypt8 st" and ?o = "replicate (length bs) (0 :: ut8)"
  let ?out = "rc2_blocks ?f (take (8 * n) bs) @ drop (8 * n) ?o"
  obtain blk where 1: "rc2_loop ?f (take (8 * n) bs) (replicate 8 0) 0 0 ?o = Some (blk, 0, 8 * n, ?out)"
    using rc2_loop_blocks [of "take (8 * n) bs" n "replicate 8 0" 0 ?o ?f] len(1) by auto
  obtain blk' where 2: "rc2_loop ?f (drop (8 * n) bs) blk 0 (8 * n) ?out = Some (blk', r, 8 * n, ?out)"
    using rc2_loop_rest [of 0 "drop (8 * n) bs" ?f blk "8 * n" ?out] len by auto
  have loop: "rc2_loop ?f bs (replicate 8 0) 0 0 ?o = Some (blk', r, 8 * n, ?out)"
    using rc2_loop_split [of ?f "take (8 * n) bs" "drop (8 * n) bs" "replicate 8 0" 0 0 ?o] 1 2
    by (simp only: append_take_drop_id bind.bind_lunit prod.case)
  have "length ?out = 8 * n + r" using len(1) length_rc2_blocks [of "take (8 * n) bs" n ?f] by simp
  then have "buf_write ?out (8 * n) (strncpy 8 x) = None" for x using len(3) by (simp add: buf_write_def)
  moreover have "r mod 8 \<noteq> 0" using len(2,3) by simp
  ultimately show ?thesis unfolding rc2_crypt_def loop by (simp only: bind.bind_lunit prod.case if_True not_False_eq_True)
qed

section \<open>The table of rc4\<close>

lemma rc4_wf_distinct: "rc4_wf st \<Longrightarrow> distinct (perm st)"
proof -
  assume "rc4_wf st"
  moreover have "distinct (map of_nat [0..<256] :: ut8 list)"
    unfolding distinct_map by (auto simp: inj_on_def dest!: arg_cong [where f = unat] simp: unat_of_nat simp del: upt_rec_numeral)
  ultimately show ?thesis unfolding rc4_wf_def by (metis mset_eq_imp_distinct_iff)
qed

lemma rc4_shuffle_defined:
  "1 \<le> n \<Longrightarrow> nat n \<le> length k \<Longrightarrow> \<exists>p'. rc4_shuffle k n is j p = Some p'"
proof (induction "is" arbitrary: j p)
  case (Cons i "is")
  have "int i mod n < n" "0 \<le> int i mod n" using Cons.prems(1) by simp_all
  moreover from this(1) have "int i mod n < int (length k)" using Cons.prems(2) by linarith
  ultimately have "nth_opt k (c_mod (int i) n) = Some (k ! nat (int i mod n))" using Cons.prems by (auto simp: nth_opt_def)
  with Cons show ?case by (simp add: Let_def)
qed simp

lemma rc4_init_defined: "1 \<le> n \<Longrightarrow> nat n \<le> length k \<Longrightarrow> \<exists>st'. rc4_init st k n = Some (True, st')"
  using rc4_shuffle_defined [of n k "[0..<256]" 0 "map of_nat [0..<256]"] by (auto simp: rc4_init_def simp del: upt_rec_numeral)

text \<open>C18: After a key is set, and after any sequence of texts is encrypted, the table of rc4 is a permutation of the 256
  byte values: 256 entries, no two equal, so every index the cipher computes lies in the table.\<close>
theorem rc4_table_permutation:
  assumes "rc4_init st k n = Some (True, st')"
    and "st'' = foldl (\<lambda>s text. snd (rc4_crypt s text)) st' texts"
  shows "length (perm st'') = 256 \<and> distinct (perm st'') \<and> set (perm st'') = UNIV"
proof -
  have wf: "rc4_wf st''"
    unfolding assms(2) by (induction texts rule: rev_induct) (simp_all add: rc4_init_wf [OF assms(1)] rc4_crypt_wf)
  have len: "length (perm st'') = 256" and dist: "distinct (perm st'')"
    using rc4_wf_length [OF wf] rc4_wf_distinct [OF wf] .
  have "card (set (perm st'')) = card (UNIV :: ut8 set)" using len dist by (simp add: distinct_card card_word)
  then have "set (perm st'') = UNIV" by (intro card_subset_eq) auto
  with len dist show ?thesis by simp
qed

theorem rc4_table_permutation_witness:
  "\<exists>st'. rc4_init (rc4_st zero_statics) [107, 101, 121] 3 = Some (True, st') \<and>
     set (perm (foldl (\<lambda>s text. snd (rc4_crypt s text)) st' [[1, 2], [3]])) = UNIV"
proof -
  obtain st' where "rc4_init (rc4_st zero_statics) [107, 101, 121] 3 = Some (True, st')"
    using rc4_init_defined [of 3 "[107, 101, 121]" "rc4_st zero_statics"] by auto
  with rc4_table_permutation [OF this refl, of "[[1, 2], [3]]"] show ?thesis by blast
qed

end
