(* ===== verification/R2_Bp.thy ===== *)
theory R2_Bp
  imports R2_Esil R2_IO_Memory
begin

text \<open>
  The breakpoints of \<^verbatim>\<open>libr/bp\<close>: the list of breakpoints with its table of slots (\<^verbatim>\<open>bp.c\<close>), the plugins with the trap
  instructions of the architectures (\<^verbatim>\<open>plugin.c\<close>, \<^verbatim>\<open>p/*.c\<close>), putting the traps into memory and taking them out
  (\<^verbatim>\<open>io.c\<close>), conditions (\<^verbatim>\<open>watch.c\<close>) and trap traces (\<^verbatim>\<open>traptrace.c\<close>).

  \<^item> The list and the table of slots point to the same items, and an item may be freed while a slot still points
    to it. A pointer is a position in a store, a freed item is \<open>None\<close> there; reading, changing or freeing it again is
    undefined. The list of pointers is a HOL list, which \<open>R2_List_Ops\<close> justifies.
  \<^item> The target that is read and written (the object the IO binding is bound to, and the process behind it) is passed
    beside the state of the component. The callback \<open>bp->breakpoint\<close> of a debugger plugin acts on it too.
  \<^item> What \<open>malloc\<close> returns comes from the field \<open>bp_garbage\<close>; an integer that was never set is \<open>None\<close>.
\<close>

section \<open>Data\<close>

record bp_arch =
  ba_bits :: int
  ba_length :: int
  ba_endian :: int
  ba_bytes :: "ut8 list option"

record bp_plugin =
  bpp_name :: string
  bpp_arch :: string
  bpp_nbps :: int
  bpp_bps :: "bp_arch list"

record bp_item =
  it_name :: "string option"
  it_module_name :: "string option"
  it_module_delta :: ut64
  it_addr :: ut64
  it_size :: int
  it_recoil :: int
  it_swstep :: bool
  it_rwx :: int
  it_hw :: int
  it_trace :: int
  it_internal :: int
  it_enabled :: int
  it_hits :: int
  it_obytes :: "ut8 list option"
  it_bbytes :: "ut8 list option"
  it_pids :: "int list"
  it_data :: "string option"
  it_cond :: "string option"

record bp_trace =
  tr_addr :: ut64
  tr_addr_end :: ut64
  tr_traps :: "ut8 list"
  tr_buffer :: "ut8 list"
  tr_bits :: "ut8 list"
  tr_length :: int
  tr_bitlen :: "int option"

record 'io rbp =
  bp_stepcont :: int
  bp_endian :: int
  bp_bits :: int
  bp_iob :: "'io io_bind option"
  bp_cur :: "bp_plugin option"
  bp_traces :: "nat list"
  bp_plugins :: "bp_plugin list"
  bp_breakpoint :: "(bp_item \<Rightarrow> bool \<Rightarrow> 'io \<Rightarrow> (int \<times> 'io) option) option"
  bp_nbps :: int
  bp_bps :: "nat list"
  bp_bps_idx :: "nat option list"
  bp_delta :: ut64
  bp_store :: "bp_item option list"
  bp_tstore :: "bp_trace option list"
  bp_garbage :: "nat \<Rightarrow> ut8"

section \<open>Items\<close>

definition bp_deref :: "'io rbp \<Rightarrow> nat \<Rightarrow> bp_item option" where
  "bp_deref bp a = (if a < length (bp_store bp) then bp_store bp ! a else None)"

definition bp_update :: "nat \<Rightarrow> (bp_item \<Rightarrow> bp_item) \<Rightarrow> 'io rbp \<Rightarrow> 'io rbp option" where
  "bp_update a f bp = do { b \<leftarrow> bp_deref bp a; Some (bp\<lparr>bp_store := (bp_store bp)[a := Some (f b)]\<rparr>) }"

definition r_bp_item_free :: "nat \<Rightarrow> 'io rbp \<Rightarrow> 'io rbp option" where
  "r_bp_item_free a bp = do { _ \<leftarrow> bp_deref bp a; Some (bp\<lparr>bp_store := (bp_store bp)[a := None]\<rparr>) }"

definition bp_item_zero :: bp_item where
  "bp_item_zero = \<lparr>it_name = None, it_module_name = None, it_module_delta = 0, it_addr = 0, it_size = 0, it_recoil = 0,
     it_swstep = False, it_rwx = 0, it_hw = 0, it_trace = 0, it_internal = 0, it_enabled = 0, it_hits = 0,
     it_obytes = None, it_bbytes = None, it_pids = replicate 10 0, it_data = None, it_cond = None\<rparr>"

text \<open>The first empty slot of the table, or sixteen more slots. The length of the list is \<open>bps_idx_count\<close>.\<close>

definition r_bp_item_new :: "'io rbp \<Rightarrow> nat \<times> 'io rbp" where
  "r_bp_item_new bp = (let i = length (takeWhile (\<lambda>s. s \<noteq> None) (bp_bps_idx bp));
       idx = (if i < length (bp_bps_idx bp) then bp_bps_idx bp else bp_bps_idx bp @ replicate 16 None);
       a = length (bp_store bp)
     in (a, bp\<lparr>bp_bps_idx := idx[i := Some a], bp_store := bp_store bp @ [Some bp_item_zero]\<rparr>))"

definition r_bp_get_index :: "'io rbp \<Rightarrow> int \<Rightarrow> nat option" where
  "r_bp_get_index bp idx =
     (if 0 \<le> idx \<and> idx < int (length (bp_bps_idx bp)) then bp_bps_idx bp ! nat idx else None)"

section \<open>Plugins\<close>

text \<open>
  The list walked for duplicates is the list of breakpoints. Its items are read as plugins; the name is the first
  member of both.
\<close>

fun dup_loop :: "'io rbp \<Rightarrow> string \<Rightarrow> nat list \<Rightarrow> bool option" where
  "dup_loop bp nm [] = Some False"
| "dup_loop bp nm (a # as) = do {
     h \<leftarrow> bp_deref bp a; s \<leftarrow> it_name h; (if s = nm then Some True else dup_loop bp nm as) }"

definition r_bp_plugin_add :: "'io rbp \<Rightarrow> bp_plugin \<Rightarrow> (bool \<times> 'io rbp) option" where
  "r_bp_plugin_add bp foo = do {
     dup \<leftarrow> dup_loop bp (bpp_name foo) (bp_bps bp);
     if dup then Some (False, bp)
     else do { n \<leftarrow> c_add (bp_nbps bp) 1; Some (True, bp\<lparr>bp_nbps := n, bp_plugins := bp_plugins bp @ [foo]\<rparr>) } }"

definition r_bp_use :: "'io rbp \<Rightarrow> string \<Rightarrow> int \<Rightarrow> bool \<times> 'io rbp" where
  "r_bp_use bp nm bits = (case find (\<lambda>h. bpp_name h = nm) (bp_plugins bp) of
     Some h \<Rightarrow> (True, bp\<lparr>bp_bits := bits, bp_cur := Some h\<rparr>)
   | None \<Rightarrow> (False, bp\<lparr>bp_bits := bits\<rparr>))"

text \<open>The list \<open>R_BP_STATIC_PLUGINS\<close> is made by the build.\<close>

fun add_statics :: "bp_plugin list \<Rightarrow> 'io rbp \<Rightarrow> 'io rbp option" where
  "add_statics [] bp = Some bp"
| "add_statics (p # ps) bp = do { (_, bp) \<leftarrow> r_bp_plugin_add bp p; add_statics ps bp }"

definition r_bp_new :: "(nat \<Rightarrow> ut8) \<Rightarrow> bp_plugin list \<Rightarrow> 'io rbp option" where
  "r_bp_new g statics = add_statics statics
     \<lparr>bp_stepcont = 0, bp_endian = 0, bp_bits = 0, bp_iob = None, bp_cur = None, bp_traces = [], bp_plugins = [],
      bp_breakpoint = None, bp_nbps = 0, bp_bps = [], bp_bps_idx = replicate 16 None, bp_delta = 0, bp_store = [],
      bp_tstore = [], bp_garbage = g\<rparr>"

section \<open>Trap instructions\<close>

text \<open>The loop over the entries of the plugin: it reads \<open>nbps\<close> of them, however long the array is.\<close>

fun match_bps :: "int \<Rightarrow> int \<Rightarrow> int \<Rightarrow> nat \<Rightarrow> bp_arch list \<Rightarrow> bp_arch option option" where
  "match_bps bits len endian 0 bs = Some None"
| "match_bps bits len endian (Suc n) [] = None"
| "match_bps bits len endian (Suc n) (b # bs) =
     (if ba_bits b \<noteq> 0 \<and> bits \<noteq> ba_bits b then match_bps bits len endian n bs
      else if ba_length b = len \<and> ba_endian b = endian then Some (Some b)
      else match_bps bits len endian n bs)"

definition copy_bytes :: "bp_arch \<Rightarrow> nat \<Rightarrow> ut8 list \<Rightarrow> ut8 list option" where
  "copy_bytes b off buf =
     (if ba_length b < 0 then None
      else do { src \<leftarrow> ba_bytes b; bs \<leftarrow> buf_read src 0 (nat (ba_length b)); buf_write buf off bs })"

fun pad_loop :: "bp_arch \<Rightarrow> nat \<Rightarrow> nat \<Rightarrow> ut8 list \<Rightarrow> ut8 list option" where
  "pad_loop b i 0 buf = Some buf"
| "pad_loop b i (Suc n) buf = do { buf \<leftarrow> copy_bytes b i buf; pad_loop b (Suc i) n buf }"

definition pad_first :: "bp_plugin \<Rightarrow> ut8 list \<Rightarrow> (int \<times> ut8 list) option" where
  "pad_first p buf = do {
     b \<leftarrow> nth_opt (bpp_bps p) 0;
     if ba_length b = 0 then None
     else if c_mod 4 (ba_length b) \<noteq> 0 then Some (0, buf)
     else do { buf \<leftarrow> pad_loop b 0 4 buf; Some (ba_length b, buf) } }"

definition r_bp_get_bytes :: "'io rbp \<Rightarrow> ut8 list \<Rightarrow> int \<Rightarrow> int \<Rightarrow> int \<Rightarrow> (int \<times> ut8 list) option" where
  "r_bp_get_bytes bp buf len endian idx = (case bp_cur bp of
     None \<Rightarrow> Some (0, buf)
   | Some p \<Rightarrow> do {
       r \<leftarrow> match_bps (bp_bits bp) len endian (nat (bpp_nbps p)) (bpp_bps p);
       r \<leftarrow> (if r = None \<and> len \<noteq> 4 then match_bps (bp_bits bp) 4 endian (nat (bpp_nbps p)) (bpp_bps p) else Some r);
       (case r of
          Some b \<Rightarrow> do { buf \<leftarrow> copy_bytes b 0 buf; Some (ba_length b, buf) }
        | None \<Rightarrow> pad_first p buf) })"

section \<open>Finding breakpoints\<close>

fun first_item :: "(bp_item \<Rightarrow> bool) \<Rightarrow> 'io rbp \<Rightarrow> nat list \<Rightarrow> nat option option" where
  "first_item P bp [] = Some None"
| "first_item P bp (a # as) = do { b \<leftarrow> bp_deref bp a; (if P b then Some (Some a) else first_item P bp as) }"

definition r_bp_get_at :: "'io rbp \<Rightarrow> ut64 \<Rightarrow> nat option option" where
  "r_bp_get_at bp addr = first_item (\<lambda>b. it_addr b = addr) bp (bp_bps bp)"

definition inRange :: "bp_item \<Rightarrow> ut64 \<Rightarrow> bool" where
  "inRange b addr \<longleftrightarrow> it_addr b \<le> addr \<and> addr < it_addr b + of_int (it_size b)"

definition matchProt :: "bp_item \<Rightarrow> int \<Rightarrow> bool" where
  "matchProt b rwx \<longleftrightarrow> rwx = 0 \<or> (rwx \<noteq> 0 \<and> it_rwx b \<noteq> 0)"

definition r_bp_get_in :: "'io rbp \<Rightarrow> ut64 \<Rightarrow> int \<Rightarrow> nat option option" where
  "r_bp_get_in bp addr rwx = first_item (\<lambda>b. inRange b addr \<and> matchProt b rwx) bp (bp_bps bp)"

section \<open>Changing breakpoints\<close>

definition r_bp_enable :: "'io rbp \<Rightarrow> ut64 \<Rightarrow> int \<Rightarrow> (nat option \<times> 'io rbp) option" where
  "r_bp_enable bp addr st = do {
     r \<leftarrow> r_bp_get_in bp addr 0;
     (case r of
        Some a \<Rightarrow> do { bp \<leftarrow> bp_update a (\<lambda>b. b\<lparr>it_enabled := st\<rparr>) bp; Some (Some a, bp) }
      | None \<Rightarrow> Some (None, bp)) }"

fun update_all :: "(bp_item \<Rightarrow> bp_item) \<Rightarrow> nat list \<Rightarrow> 'io rbp \<Rightarrow> 'io rbp option" where
  "update_all f [] bp = Some bp"
| "update_all f (a # as) bp = do { bp \<leftarrow> bp_update a f bp; update_all f as bp }"

definition r_bp_enable_all :: "'io rbp \<Rightarrow> int \<Rightarrow> (bool \<times> 'io rbp) option" where
  "r_bp_enable_all bp st = do { bp \<leftarrow> update_all (\<lambda>b. b\<lparr>it_enabled := st\<rparr>) (bp_bps bp) bp; Some (True, bp) }"

definition r_bp_set_trace :: "'io rbp \<Rightarrow> ut64 \<Rightarrow> int \<Rightarrow> (bool \<times> 'io rbp) option" where
  "r_bp_set_trace bp addr st = do {
     r \<leftarrow> r_bp_get_in bp addr 0;
     (case r of
        Some a \<Rightarrow> do { bp \<leftarrow> bp_update a (\<lambda>b. b\<lparr>it_trace := st\<rparr>) bp; Some (True, bp) }
      | None \<Rightarrow> Some (False, bp)) }"

definition r_bp_set_trace_all :: "'io rbp \<Rightarrow> int \<Rightarrow> (bool \<times> 'io rbp) option" where
  "r_bp_set_trace_all bp st = do { bp \<leftarrow> update_all (\<lambda>b. b\<lparr>it_trace := st\<rparr>) (bp_bps bp) bp; Some (True, bp) }"

definition r_bp_stepy_continuation :: "'io rbp \<Rightarrow> int" where
  "r_bp_stepy_continuation bp = bp_stepcont bp"

definition r_bp_add_cond :: "'io rbp \<Rightarrow> string \<Rightarrow> int \<times> 'io rbp" where
  "r_bp_add_cond bp cond = (0, bp\<lparr>bp_stepcont := 1\<rparr>)"

definition r_bp_del_cond :: "'io rbp \<Rightarrow> int \<Rightarrow> bool \<times> 'io rbp" where
  "r_bp_del_cond bp idx = (True, bp\<lparr>bp_stepcont := 0\<rparr>)"

section \<open>Adding\<close>

text \<open>The bytes of a software breakpoint: \<open>None\<close> for the item when the plugin has none of that size.\<close>

definition item_bytes :: "'io rbp \<Rightarrow> ut8 list option \<Rightarrow> bp_item \<Rightarrow> bp_item option option" where
  "item_bytes bp obytes b =
     (if it_hw b \<noteq> 0 then Some (Some b)
      else do {
        n \<leftarrow> c_add (it_size b) 16;
        ob \<leftarrow> (case obytes of None \<Rightarrow> Some None | Some ob \<Rightarrow> do { ob \<leftarrow> buf_read ob 0 (nat (it_size b)); Some (Some ob) });
        (ret, bb) \<leftarrow> r_bp_get_bytes bp (replicate (nat n) 0) (it_size b) (bp_endian bp) 0;
        Some (if ret \<noteq> it_size b then None
          else Some (b\<lparr>it_bbytes := Some bb, it_obytes := ob, it_recoil := ret\<rparr>)) })"

text \<open>The new item: filled in, given its bytes when it is a software breakpoint, and put into the list.\<close>

definition bare_item :: "ut64 \<Rightarrow> int \<Rightarrow> int \<Rightarrow> int \<Rightarrow> bp_item" where
  "bare_item addr sz hw rwx =
     bp_item_zero\<lparr>it_addr := addr, it_size := sz, it_enabled := 1, it_rwx := rwx, it_hw := hw\<rparr>"

definition add_item ::
  "nat \<Rightarrow> 'io rbp \<Rightarrow> ut8 list option \<Rightarrow> bp_item \<Rightarrow> (nat option \<times> 'io rbp) option" where
  "add_item a bp obytes b = do {
     r \<leftarrow> item_bytes bp obytes b;
     (case r of
        None \<Rightarrow> do { bp \<leftarrow> r_bp_item_free a bp; Some (None, bp) }
      | Some b \<Rightarrow> do {
          bp \<leftarrow> bp_update a (\<lambda>_. b) bp;
          n \<leftarrow> c_add (bp_nbps bp) 1;
          Some (Some a, bp\<lparr>bp_nbps := n, bp_bps := bp_bps bp @ [a]\<rparr>) }) }"

definition r_bp_add ::
  "'io rbp \<Rightarrow> ut8 list option \<Rightarrow> ut64 \<Rightarrow> int \<Rightarrow> int \<Rightarrow> int \<Rightarrow> (nat option \<times> 'io rbp) option" where
  "r_bp_add bp obytes addr sz hw rwx =
     (if addr = UT64_MAX \<or> sz < 1 then Some (None, bp)
      else do {
        r \<leftarrow> r_bp_get_in bp addr rwx;
        if r \<noteq> None then Some (None, bp)
        else let (a, bp) = r_bp_item_new bp in add_item a bp obytes (bare_item (addr + bp_delta bp) sz hw rwx) })"

definition r_bp_add_sw :: "'io rbp \<Rightarrow> 'io \<Rightarrow> ut64 \<Rightarrow> int \<Rightarrow> int \<Rightarrow> (nat option \<times> 'io rbp \<times> 'io) option" where
  "r_bp_add_sw bp io addr sz rwx = (let sz = (if sz < 1 then 1 else sz) in do {
     (bytes, io) \<leftarrow> (case bp_iob bp of
         Some iob \<Rightarrow> do {
           ((_, bytes), io) \<leftarrow> iob_read_at iob io addr (replicate (nat sz) 0) sz; Some (bytes, io) }
       | None \<Rightarrow> Some (replicate (nat sz) 0, io));
     (r, bp) \<leftarrow> r_bp_add bp (Some bytes) addr sz 0 rwx;
     Some (r, bp, io) })"

definition r_bp_add_hw :: "'io rbp \<Rightarrow> ut64 \<Rightarrow> int \<Rightarrow> int \<Rightarrow> (nat option \<times> 'io rbp) option" where
  "r_bp_add_hw bp addr sz rwx = r_bp_add bp None addr sz 1 rwx"

section \<open>Deleting\<close>

fun free_all :: "nat list \<Rightarrow> 'io rbp \<Rightarrow> 'io rbp option" where
  "free_all [] bp = Some bp"
| "free_all (a # as) bp = do { bp \<leftarrow> r_bp_item_free a bp; free_all as bp }"

definition r_bp_del_all :: "'io rbp \<Rightarrow> (bool \<times> 'io rbp) option" where
  "r_bp_del_all bp =
     (if bp_bps bp = [] then Some (False, bp)
      else do { bp' \<leftarrow> free_all (bp_bps bp) bp; Some (True, bp'\<lparr>bp_bps := []\<rparr>) })"

definition r_bp_del :: "'io rbp \<Rightarrow> ut64 \<Rightarrow> (bool \<times> 'io rbp) option" where
  "r_bp_del bp addr = do {
     r \<leftarrow> first_item (\<lambda>b. it_addr b = addr) bp (bp_bps bp);
     (case r of
        Some a \<Rightarrow> do { bp \<leftarrow> r_bp_item_free a bp; Some (True, bp\<lparr>bp_bps := remove1 a (bp_bps bp)\<rparr>) }
      | None \<Rightarrow> Some (False, bp)) }"

text \<open>\<open>r_list_delete_data\<close> frees the item of the list with the function of the list; the slot is freed after it.\<close>

definition r_bp_del_index :: "'io rbp \<Rightarrow> int \<Rightarrow> (bool \<times> 'io rbp) option" where
  "r_bp_del_index bp idx =
     (if 0 \<le> idx \<and> idx < int (length (bp_bps_idx bp))
      then do {
        bp \<leftarrow> (case bp_bps_idx bp ! nat idx of
            None \<Rightarrow> Some bp
          | Some a \<Rightarrow> do {
              bp \<leftarrow> (if a \<in> set (bp_bps bp)
                then do { bp \<leftarrow> r_bp_item_free a bp; Some (bp\<lparr>bp_bps := remove1 a (bp_bps bp)\<rparr>) } else Some bp);
              r_bp_item_free a bp });
        Some (True, bp\<lparr>bp_bps_idx := (bp_bps_idx bp)[nat idx := None]\<rparr>) }
      else Some (False, bp))"

section \<open>Traps in memory\<close>

definition iob_write :: "'io rbp \<Rightarrow> 'io \<Rightarrow> ut64 \<Rightarrow> ut8 list \<Rightarrow> int \<Rightarrow> 'io option" where
  "iob_write bp io addr buf len = do { iob \<leftarrow> bp_iob bp; (_, io) \<leftarrow> iob_write_at iob io addr buf len; Some io }"

definition r_bp_restore_one :: "'io rbp \<Rightarrow> 'io \<Rightarrow> bp_item \<Rightarrow> bool \<Rightarrow> 'io option" where
  "r_bp_restore_one bp io b st = (case if st then it_bbytes b else it_obytes b of
     Some bytes \<Rightarrow> if it_hw b \<noteq> 0 then Some io else iob_write bp io (it_addr b) bytes (it_size b)
   | None \<Rightarrow> Some io)"

definition restore_item :: "'io rbp \<Rightarrow> bool \<Rightarrow> ut64 \<Rightarrow> bp_item \<Rightarrow> 'io \<Rightarrow> 'io option" where
  "restore_item bp st addr b io =
     (if addr \<noteq> 0 \<and> it_addr b = addr then Some io
      else do {
        (handled, io) \<leftarrow> (case bp_breakpoint bp of None \<Rightarrow> Some (0, io) | Some f \<Rightarrow> f b st io);
        if handled \<noteq> 0 then Some io else r_bp_restore_one bp io b st })"

fun restore_loop :: "'io rbp \<Rightarrow> bool \<Rightarrow> ut64 \<Rightarrow> nat list \<Rightarrow> 'io \<Rightarrow> 'io option" where
  "restore_loop bp st addr [] io = Some io"
| "restore_loop bp st addr (a # as) io = do {
     b \<leftarrow> bp_deref bp a; io \<leftarrow> restore_item bp st addr b io; restore_loop bp st addr as io }"

definition r_bp_restore_except :: "'io rbp \<Rightarrow> 'io \<Rightarrow> bool \<Rightarrow> ut64 \<Rightarrow> (bool \<times> 'io) option" where
  "r_bp_restore_except bp io st addr = do { io \<leftarrow> restore_loop bp st addr (bp_bps bp) io; Some (True, io) }"

definition r_bp_restore :: "'io rbp \<Rightarrow> 'io \<Rightarrow> bool \<Rightarrow> (bool \<times> 'io) option" where
  "r_bp_restore bp io st = r_bp_restore_except bp io st 0"

section \<open>The plugins\<close>

text \<open>Each table ends with an entry of zeros and no bytes.\<close>

definition arch_entry :: "int \<Rightarrow> int \<Rightarrow> int \<Rightarrow> ut8 list \<Rightarrow> bp_arch" where
  "arch_entry bits len endian bs = \<lparr>ba_bits = bits, ba_length = len, ba_endian = endian, ba_bytes = Some bs\<rparr>"

definition arch_end :: bp_arch where
  "arch_end = \<lparr>ba_bits = 0, ba_length = 0, ba_endian = 0, ba_bytes = None\<rparr>"

definition r_bp_plugin_arm :: bp_plugin where
  "r_bp_plugin_arm = \<lparr>bpp_name = ''arm'', bpp_arch = ''arm'', bpp_nbps = 9, bpp_bps = [
     arch_entry 64 4 0 [0xfe, 0xde, 0xff, 0xe7],
     arch_entry 64 1 0 [0xfe, 0xde, 0xff, 0xe7],
     arch_entry 32 4 0 [0x01, 0x00, 0x9f, 0xef],
     arch_entry 32 4 1 [0xef, 0x9f, 0x00, 0x01],
     arch_entry 16 2 0 [0xde, 0x01],
     arch_entry 16 2 1 [0x01, 0xde],
     arch_entry 16 2 0 [0xfe, 0xdf],
     arch_entry 16 2 1 [0xdf, 0xfe],
     arch_entry 16 4 1 [0xff, 0xff, 0xff, 0xff],
     arch_entry 16 1 1 [0xff, 0xff, 0xff, 0xff], arch_end]\<rparr>"

definition r_bp_plugin_bf :: bp_plugin where
  "r_bp_plugin_bf = \<lparr>bpp_name = ''bf'', bpp_arch = ''bf'', bpp_nbps = 2, bpp_bps = [
     arch_entry 0 1 0 [0xff],
     arch_entry 0 1 0 [0x00], arch_end]\<rparr>"

definition r_bp_plugin_mips :: bp_plugin where
  "r_bp_plugin_mips = \<lparr>bpp_name = ''mips'', bpp_arch = ''mips'', bpp_nbps = 10, bpp_bps = [
     arch_entry 32 4 0 [0x0d, 0x00, 0x00, 0x00],
     arch_entry 32 4 1 [0x00, 0x00, 0x00, 0x0d], arch_end]\<rparr>"

definition r_bp_plugin_ppc :: bp_plugin where
  "r_bp_plugin_ppc = \<lparr>bpp_name = ''ppc'', bpp_arch = ''ppc'', bpp_nbps = 2, bpp_bps = [
     arch_entry 32 4 0 [0x00, 0x00, 0x00, 0x0d],
     arch_entry 32 4 1 [0x0d, 0x00, 0x00, 0x00], arch_end]\<rparr>"

definition r_bp_plugin_sh :: bp_plugin where
  "r_bp_plugin_sh = \<lparr>bpp_name = ''sh'', bpp_arch = ''sh'', bpp_nbps = 2, bpp_bps = [
     arch_entry 32 2 0 [0x20, 0xc3],
     arch_entry 32 2 1 [0xc3, 0x20], arch_end]\<rparr>"

definition r_bp_plugin_x86 :: bp_plugin where
  "r_bp_plugin_x86 = \<lparr>bpp_name = ''x86'', bpp_arch = ''x86'', bpp_nbps = 2, bpp_bps = [
     arch_entry 0 1 0 [0xcc],
     arch_entry 0 2 0 [0xcd, 0x03], arch_end]\<rparr>"

end
