(* ===== verification/R2_Bp_Inv.thy ===== *)
theory R2_Bp_Inv
  imports R2_Bp
begin

text \<open>
  The invariant of the breakpoints: the list holds distinct pointers to live items, each with a slot in the table, and
  a software breakpoint has its trap and the bytes it replaces. The operations are described by what they do to
  the list of items (\<open>items\<close>); with a well-formed plugin each of them but \<open>r_bp_del_index\<close> is defined.
\<close>

section \<open>The invariant\<close>

definition trap_ok :: "bp_item \<Rightarrow> bool" where
  "trap_ok b \<longleftrightarrow> 1 \<le> it_size b \<and> (it_hw b = 0 \<longrightarrow> (\<exists>ob bb. it_obytes b = Some ob \<and> it_bbytes b = Some bb \<and>
     length ob = nat (it_size b) \<and> length bb = nat (it_size b) + 16))"

definition bp_ok :: "'io rbp \<Rightarrow> bool" where
  "bp_ok bp \<longleftrightarrow> distinct (bp_bps bp) \<and>
     (\<forall>a \<in> set (bp_bps bp). Some a \<in> set (bp_bps_idx bp) \<and> (\<exists>b. bp_deref bp a = Some b \<and> trap_ok b))"

definition items :: "'io rbp \<Rightarrow> bp_item list" where
  "items bp = map (\<lambda>a. the (bp_deref bp a)) (bp_bps bp)"

lemma deref_less: "bp_deref bp a = Some b \<Longrightarrow> a < length (bp_store bp)"
  by (simp add: bp_deref_def split: if_splits)

lemma deref_store:
  "bp_deref (bp\<lparr>bp_store := st\<rparr>) a = (if a < length st then st ! a else None)"
  by (simp add: bp_deref_def)

lemma deref_other [simp]:
  "bp_deref (bp\<lparr>bp_nbps := n\<rparr>) = bp_deref bp" "bp_deref (bp\<lparr>bp_bps := l\<rparr>) = bp_deref bp"
  "bp_deref (bp\<lparr>bp_bps_idx := i\<rparr>) = bp_deref bp" "bp_deref (bp\<lparr>bp_stepcont := c\<rparr>) = bp_deref bp"
  "bp_deref (bp\<lparr>bp_bits := x\<rparr>) = bp_deref bp" "bp_deref (bp\<lparr>bp_cur := p\<rparr>) = bp_deref bp"
  "bp_deref (bp\<lparr>bp_plugins := ps\<rparr>) = bp_deref bp" "bp_deref (bp\<lparr>bp_iob := iob\<rparr>) = bp_deref bp"
  by (simp_all add: fun_eq_iff bp_deref_def)

lemma set_items: "bp_ok bp \<Longrightarrow> b \<in> set (items bp) \<longleftrightarrow> (\<exists>a \<in> set (bp_bps bp). bp_deref bp a = Some b)"
  by (force simp: items_def bp_ok_def)

lemma items_ok: "bp_ok bp \<Longrightarrow> b \<in> set (items bp) \<Longrightarrow> trap_ok b"
  by (force simp: items_def bp_ok_def)

lemma bp_ok_live: "bp_ok bp \<Longrightarrow> a \<in> set (bp_bps bp) \<Longrightarrow> bp_deref bp a = Some (the (bp_deref bp a))"
  by (force simp: bp_ok_def)

section \<open>Items by pointer\<close>

lemma deref_set:
  assumes "bp_deref bp a = Some b"
  shows "bp_deref (bp\<lparr>bp_store := (bp_store bp)[a := x]\<rparr>) c = (if c = a then x else bp_deref bp c)"
  using deref_less [OF assms] by (simp add: bp_deref_def nth_list_update)

lemma update_live:
  assumes "bp_deref bp a = Some b"
  shows "bp_update a f bp = Some (bp\<lparr>bp_store := (bp_store bp)[a := Some (f b)]\<rparr>)"
  using assms by (simp add: bp_update_def)

lemma free_live:
  assumes "bp_deref bp a = Some b"
  shows "r_bp_item_free a bp = Some (bp\<lparr>bp_store := (bp_store bp)[a := None]\<rparr>)"
  using assms by (simp add: r_bp_item_free_def)

text \<open>Searching the list is searching the items.\<close>

lemma first_item_find:
  assumes "\<forall>a \<in> set as. bp_deref bp a \<noteq> None"
  shows "first_item P bp as = Some (find (\<lambda>a. P (the (bp_deref bp a))) as)"
  using assms by (induction as) auto

lemma first_item_ok:
  "bp_ok bp \<Longrightarrow> first_item P bp (bp_bps bp) = Some (find (\<lambda>a. P (the (bp_deref bp a))) (bp_bps bp))"
  by (rule first_item_find) (auto simp: bp_ok_def)

lemma get_in_ok:
  assumes "bp_ok bp"
  shows "\<exists>r. r_bp_get_in bp addr rwx = Some r \<and> (r = None \<longleftrightarrow> (\<forall>b \<in> set (items bp). \<not> (inRange b addr \<and> matchProt b rwx))) \<and>
    (\<forall>a. r = Some a \<longrightarrow> a \<in> set (bp_bps bp))"
  unfolding r_bp_get_in_def first_item_ok [OF assms]
  by (auto simp: items_def find_None_iff dest: find_SomeD)

lemma get_at_ok:
  assumes "bp_ok bp"
  shows "r_bp_get_at bp addr = Some (find (\<lambda>a. it_addr (the (bp_deref bp a)) = addr) (bp_bps bp))"
  unfolding r_bp_get_at_def by (rule first_item_ok [OF assms])

section \<open>Changes to one item\<close>

text \<open>What decides where traps go.\<close>

definition same_trap :: "bp_item \<Rightarrow> bp_item \<Rightarrow> bool" where
  "same_trap b c \<longleftrightarrow> it_addr c = it_addr b \<and> it_size c = it_size b \<and> it_hw c = it_hw b \<and> it_rwx c = it_rwx b \<and>
     it_obytes c = it_obytes b \<and> it_bbytes c = it_bbytes b"

text \<open>The parts of the state the traps come from.\<close>

definition same_set_up :: "'io rbp \<Rightarrow> 'io rbp \<Rightarrow> bool" where
  "same_set_up bp bp' \<longleftrightarrow> bp_iob bp' = bp_iob bp \<and> bp_delta bp' = bp_delta bp \<and>
     bp_breakpoint bp' = bp_breakpoint bp \<and> bp_plugins bp' = bp_plugins bp \<and>
     bp_nbps bp \<le> bp_nbps bp' \<and> (bp_cur bp' = bp_cur bp \<or> (\<exists>p \<in> set (bp_plugins bp). bp_cur bp' = Some p))"

lemma same_set_up_refl [simp]: "same_set_up bp bp"
  by (simp add: same_set_up_def)

lemma same_trap_keeps: "same_trap b c \<Longrightarrow> trap_ok b \<Longrightarrow> trap_ok c"
  by (simp add: same_trap_def trap_ok_def)

lemma same_trap_refl [simp]: "same_trap b b"
  by (simp add: same_trap_def)

lemma same_trap_trans: "same_trap a b \<Longrightarrow> same_trap b c \<Longrightarrow> same_trap a c"
  by (simp add: same_trap_def)

text \<open>A change of the state that keeps the list and every trap.\<close>

definition keeps_traps :: "'io rbp \<Rightarrow> 'io rbp \<Rightarrow> bool" where
  "keeps_traps bp bp' \<longleftrightarrow> bp_ok bp' \<and> bp_bps bp' = bp_bps bp \<and> list_all2 same_trap (items bp) (items bp') \<and>
     same_set_up bp bp'"

lemma keeps_refl: "bp_ok bp \<Longrightarrow> keeps_traps bp bp"
  by (simp add: keeps_traps_def list_all2_refl)

lemma same_set_up_trans: "same_set_up bp bp' \<Longrightarrow> same_set_up bp' bp'' \<Longrightarrow> same_set_up bp bp''"
  unfolding same_set_up_def by force

lemma keeps_trans: "keeps_traps bp bp' \<Longrightarrow> keeps_traps bp' bp'' \<Longrightarrow> keeps_traps bp bp''"
  unfolding keeps_traps_def
  using list_all2_trans [of same_trap same_trap same_trap] same_trap_trans same_set_up_trans by metis

lemma update_keeps:
  assumes "bp_ok bp" "a \<in> set (bp_bps bp)" "\<And>b. same_trap b (f b)"
  shows "\<exists>bp'. bp_update a f bp = Some bp' \<and> keeps_traps bp bp'"
proof -
  from assms(1,2) obtain b where b: "bp_deref bp a = Some b" "trap_ok b" by (auto simp: bp_ok_def)
  let ?bp = "bp\<lparr>bp_store := (bp_store bp)[a := Some (f b)]\<rparr>"
  have d: "bp_deref ?bp c = (if c = a then Some (f b) else bp_deref bp c)" for c by (rule deref_set [OF b(1)])
  have "bp_ok ?bp" using assms(1) same_trap_keeps [OF assms(3) b(2)] by (auto simp: bp_ok_def d)
  moreover have "list_all2 same_trap (items bp) (items ?bp)"
    using assms(3) b(1) by (auto simp: items_def d list_all2_conv_all_nth)
  ultimately show ?thesis by (simp add: update_live [OF b(1)] keeps_traps_def same_set_up_def)
qed

lemma update_all_keeps:
  assumes "bp_ok bp" "set as \<subseteq> set (bp_bps bp)" "\<And>b. same_trap b (f b)"
  shows "\<exists>bp'. update_all f as bp = Some bp' \<and> keeps_traps bp bp'"
  using assms(1,2)
proof (induction as arbitrary: bp)
  case Nil
  then show ?case by (simp add: keeps_refl)
next
  case (Cons a as)
  from update_keeps [OF Cons(2), of a f] Cons(3) assms(3) obtain bp1 where
    one: "bp_update a f bp = Some bp1" "keeps_traps bp bp1" by auto
  then have "bp_ok bp1" "set as \<subseteq> set (bp_bps bp1)" using Cons(3) by (simp_all add: keeps_traps_def)
  from Cons(1) [OF this] one show ?case by (auto intro: keeps_trans)
qed

lemma keeps_plain:
  assumes "bp_ok bp"
  shows "keeps_traps bp (bp\<lparr>bp_stepcont := c\<rparr>)"
  using assms by (auto simp: keeps_traps_def bp_ok_def items_def same_set_up_def list_all2_refl)

lemma use_keeps: "bp_ok bp \<Longrightarrow> keeps_traps bp (snd (r_bp_use bp nm bits))"
  by (auto simp: r_bp_use_def keeps_traps_def bp_ok_def items_def same_set_up_def list_all2_refl
    split: option.split dest: find_SomeD)

lemma enable_keeps: "bp_ok bp \<Longrightarrow> \<exists>r bp'. r_bp_enable bp addr st = Some (r, bp') \<and> keeps_traps bp bp'"
  using get_in_ok [of bp addr 0] update_keeps [of bp _ "\<lambda>b. b\<lparr>it_enabled := st\<rparr>"]
  by (fastforce simp: r_bp_enable_def keeps_refl same_trap_def split: option.splits)

lemma set_trace_keeps: "bp_ok bp \<Longrightarrow> \<exists>r bp'. r_bp_set_trace bp addr st = Some (r, bp') \<and> keeps_traps bp bp'"
  using get_in_ok [of bp addr 0] update_keeps [of bp _ "\<lambda>b. b\<lparr>it_trace := st\<rparr>"]
  by (fastforce simp: r_bp_set_trace_def keeps_refl same_trap_def split: option.splits)

lemma all_keeps:
  assumes "bp_ok bp"
  shows "\<exists>bp'. r_bp_enable_all bp st = Some (True, bp') \<and> keeps_traps bp bp'"
    "\<exists>bp'. r_bp_set_trace_all bp st = Some (True, bp') \<and> keeps_traps bp bp'"
  using update_all_keeps [OF assms subset_refl, of "\<lambda>b. b\<lparr>it_enabled := st\<rparr>"]
    update_all_keeps [OF assms subset_refl, of "\<lambda>b. b\<lparr>it_trace := st\<rparr>"]
  by (auto simp: r_bp_enable_all_def r_bp_set_trace_all_def same_trap_def)

section \<open>Deleting\<close>

lemma remove1_delete_first:
  assumes "distinct as" "find (\<lambda>a. P (f a)) as = Some a"
  shows "delete_first P (map f as) = (True, map f (remove1 a as))"
  using assms by (induction as) (auto split: if_splits dest: find_SomeD)

lemma find_None_delete_first:
  assumes "find (\<lambda>a. P (f a)) as = None"
  shows "delete_first P (map f as) = (False, map f as)"
  using assms by (induction as) (auto split: if_splits)

lemma free_in_list:
  assumes "bp_ok bp" "a \<in> set (bp_bps bp)"
  defines "bp' \<equiv> bp\<lparr>bp_store := (bp_store bp)[a := None], bp_bps := remove1 a (bp_bps bp)\<rparr>"
  shows "bp_ok bp'" "items bp' = map (\<lambda>c. the (bp_deref bp c)) (remove1 a (bp_bps bp))"
    "bp_deref bp' a = None"
proof -
  from assms(1,2) obtain b where b: "bp_deref bp a = Some b" by (auto simp: bp_ok_def)
  have d: "bp_deref bp' c = (if c = a then None else bp_deref bp c)" for c
    unfolding bp'_def using deref_set [OF b, of None c] by simp
  show "bp_ok bp'" using assms(1) by (auto simp: bp_ok_def d) (simp_all add: bp'_def)
  have "a \<notin> set (remove1 a (bp_bps bp))" using assms(1) by (simp add: bp_ok_def)
  then show "items bp' = map (\<lambda>c. the (bp_deref bp c)) (remove1 a (bp_bps bp))"
    by (auto simp: items_def d) (auto simp: bp'_def)
  show "bp_deref bp' a = None" by (simp add: d)
qed

lemma del_ok:
  assumes "bp_ok bp"
  shows "\<exists>bp'. r_bp_del bp addr = Some (fst (delete_first (\<lambda>b. it_addr b = addr) (items bp)), bp') \<and> bp_ok bp' \<and>
    items bp' = snd (delete_first (\<lambda>b. it_addr b = addr) (items bp)) \<and> same_set_up bp bp'"
proof (cases "find (\<lambda>a. it_addr (the (bp_deref bp a)) = addr) (bp_bps bp)")
  case None
  then show ?thesis
    using find_None_delete_first [where P = "\<lambda>b. it_addr b = addr" and f = "\<lambda>a. the (bp_deref bp a)"] assms
    by (simp add: r_bp_del_def first_item_ok items_def)
next
  case (Some a)
  then have a: "a \<in> set (bp_bps bp)" by (auto dest: find_SomeD)
  note f = free_in_list [OF assms a] 
    and d = remove1_delete_first [where P = "\<lambda>b. it_addr b = addr" and f = "\<lambda>a. the (bp_deref bp a)", OF _ Some]
  have "distinct (bp_bps bp)" using assms by (simp add: bp_ok_def)
  then show ?thesis
    using f d Some free_live [OF bp_ok_live [OF assms a]]
    by (simp add: r_bp_del_def first_item_ok [OF assms] items_def [of bp] same_set_up_def)
qed

lemma free_all_live:
  assumes "distinct as" "\<forall>a \<in> set as. bp_deref bp a \<noteq> None"
  shows "\<exists>st. free_all as bp = Some (bp\<lparr>bp_store := st\<rparr>)"
  using assms
proof (induction as arbitrary: bp)
  case Nil
  have "free_all [] bp = Some (bp\<lparr>bp_store := bp_store bp\<rparr>)" by simp
  then show ?case by blast
next
  case (Cons a as)
  from Cons(3) obtain b where b: "bp_deref bp a = Some b" by auto
  let ?bp = "bp\<lparr>bp_store := (bp_store bp)[a := None]\<rparr>"
  have "\<forall>c \<in> set as. bp_deref ?bp c \<noteq> None" using Cons(2,3) deref_set [OF b, of None] by auto
  from Cons(1) [OF _ this] Cons(2) show ?case by (simp add: free_live [OF b])
qed

lemma del_all_ok:
  assumes "bp_ok bp"
  shows "\<exists>bp'. r_bp_del_all bp = Some (items bp \<noteq> [], bp') \<and> bp_ok bp' \<and> items bp' = [] \<and> same_set_up bp bp'"
proof -
  have "distinct (bp_bps bp)" "\<forall>a \<in> set (bp_bps bp). bp_deref bp a \<noteq> None" using assms by (auto simp: bp_ok_def)
  from free_all_live [OF this] assms show ?thesis
    by (auto simp: r_bp_del_all_def items_def bp_ok_def same_set_up_def)
qed

section \<open>Trap instructions stay inside their buffers\<close>

definition entry_ok :: "bp_arch \<Rightarrow> bool" where
  "entry_ok b \<longleftrightarrow> 0 < ba_length b \<and> (case ba_bytes b of None \<Rightarrow> False | Some bs \<Rightarrow> nat (ba_length b) \<le> length bs)"

definition plugin_ok :: "bp_plugin \<Rightarrow> bool" where
  "plugin_ok p \<longleftrightarrow> 0 < bpp_nbps p \<and> nat (bpp_nbps p) \<le> length (bpp_bps p) \<and>
     list_all entry_ok (take (nat (bpp_nbps p)) (bpp_bps p))"

lemma copy_length: "copy_bytes b off buf = Some buf' \<Longrightarrow> length buf' = length buf"
  by (auto simp: copy_bytes_def bind_eq_Some_conv dest: buf_write_length split: if_splits)

lemma pad_length: "pad_loop b i n buf = Some buf' \<Longrightarrow> length buf' = length buf"
  by (induction n arbitrary: i buf) (auto simp: bind_eq_Some_conv dest!: copy_length)

lemma get_bytes_length: "r_bp_get_bytes bp buf len e i = Some (r, buf') \<Longrightarrow> length buf' = length buf"
  by (auto simp: r_bp_get_bytes_def pad_first_def bind_eq_Some_conv
    split: option.splits if_splits dest!: copy_length pad_length)

lemma copy_defined:
  assumes "entry_ok b" "off + nat (ba_length b) \<le> length buf"
  shows "\<exists>buf'. copy_bytes b off buf = Some buf'"
  using assms by (auto simp: entry_ok_def copy_bytes_def buf_read_def buf_write_def split: option.splits)

lemma pad_defined:
  assumes "entry_ok b" "i + n + nat (ba_length b) \<le> Suc (length buf)"
  shows "\<exists>buf'. pad_loop b i n buf = Some buf'"
  using assms(2)
proof (induction n arbitrary: i buf)
  case (Suc n)
  then have "i + nat (ba_length b) \<le> length buf" by simp
  from copy_defined [OF assms(1) this] obtain buf1 where one: "copy_bytes b i buf = Some buf1" by blast
  from Suc(1) [of "Suc i" buf1] Suc(2) one copy_length [OF one] show ?case by simp
qed simp

lemma match_defined:
  assumes "n \<le> length bs" "list_all entry_ok (take n bs)"
  shows "\<exists>r. match_bps bits len e n bs = Some r \<and> (\<forall>b. r = Some b \<longrightarrow> entry_ok b \<and> ba_length b = len)"
  using assms by (induction bits len e n bs rule: match_bps.induct) auto

lemma c_mod_4:
  assumes "0 < n" "c_mod 4 n = 0"
  shows "n \<le> 4"
  using assms zdvd_imp_le [of n 4] by (simp add: dvd_eq_mod_eq_0)

lemma pad_first_defined:
  assumes "plugin_ok p" "7 \<le> length buf"
  shows "\<exists>r buf'. pad_first p buf = Some (r, buf')"
proof -
  obtain b bs where bs: "bpp_bps p = b # bs" using assms(1) by (cases "bpp_bps p") (auto simp: plugin_ok_def)
  then have e: "entry_ok b" using assms(1) by (cases "nat (bpp_nbps p)") (auto simp: plugin_ok_def)
  show ?thesis
  proof (cases "c_mod 4 (ba_length b) = 0")
    case True
    then have "ba_length b \<le> 4" using e c_mod_4 by (auto simp: entry_ok_def)
    then have "0 + 4 + nat (ba_length b) \<le> Suc (length buf)" using assms(2) by simp
    from pad_defined [OF e this] True e bs show ?thesis by (auto simp: pad_first_def nth_opt_def entry_ok_def)
  next
    case False
    then show ?thesis using e bs by (auto simp: pad_first_def nth_opt_def entry_ok_def)
  qed
qed

lemma get_bytes_defined:
  assumes "\<forall>p. bp_cur bp = Some p \<longrightarrow> plugin_ok p" "nat len \<le> length buf" "7 \<le> length buf"
  shows "\<exists>r buf'. r_bp_get_bytes bp buf len e i = Some (r, buf')"
proof (cases "bp_cur bp")
  case None
  then show ?thesis by (simp add: r_bp_get_bytes_def)
next
  case (Some p)
  then have p: "plugin_ok p" using assms(1) by simp
  let ?m = "\<lambda>l. match_bps (bp_bits bp) l e (nat (bpp_nbps p)) (bpp_bps p)"
  have m: "\<exists>r. ?m l = Some r \<and> (\<forall>b. r = Some b \<longrightarrow> entry_ok b \<and> ba_length b = l)" for l
    using match_defined p unfolding plugin_ok_def by blast
  from m [of len] m [of 4] obtain r r' where
    r: "?m len = Some r" "\<forall>b. r = Some b \<longrightarrow> entry_ok b \<and> ba_length b = len" and
    r': "?m 4 = Some r'" "\<forall>b. r' = Some b \<longrightarrow> entry_ok b \<and> ba_length b = 4" by auto
  have c: "\<exists>buf'. copy_bytes b 0 buf = Some buf'" if "entry_ok b" "ba_length b = len \<or> ba_length b = 4" for b
    using copy_defined [OF that(1), of 0 buf] that(2) assms(2,3) by auto
  show ?thesis
    using Some r r' c pad_first_defined [OF p assms(3)]
    by (cases r; cases r'; cases "len = 4") (fastforce simp: r_bp_get_bytes_def)+
qed

section \<open>Adding\<close>

lemma item_new_facts:
  assumes "r_bp_item_new bp = (a, bp1)"
  shows "a = length (bp_store bp)" "bp_store bp1 = bp_store bp @ [Some bp_item_zero]"
    "Some a \<in> set (bp_bps_idx bp1)" "\<And>c. Some c \<in> set (bp_bps_idx bp) \<Longrightarrow> Some c \<in> set (bp_bps_idx bp1)"
    "bp_bps bp1 = bp_bps bp" "bp_nbps bp1 = bp_nbps bp" "bp_bits bp1 = bp_bits bp" "bp_endian bp1 = bp_endian bp"
    "bp_cur bp1 = bp_cur bp" "same_set_up bp bp1"
proof -
  let ?i = "length (takeWhile (\<lambda>s. s \<noteq> None) (bp_bps_idx bp))"
  define idx where "idx = (if ?i < length (bp_bps_idx bp) then bp_bps_idx bp else bp_bps_idx bp @ replicate 16 None)"
  have eq: "a = length (bp_store bp)"
    "bp1 = bp\<lparr>bp_bps_idx := idx[?i := Some a], bp_store := bp_store bp @ [Some bp_item_zero]\<rparr>"
    using assms by (auto simp: r_bp_item_new_def idx_def Let_def)
  have "?i \<le> length (bp_bps_idx bp)" by (rule length_takeWhile_le)
  then have i: "?i < length idx" "idx ! ?i = None"
    using nth_length_takeWhile [of "\<lambda>s. s \<noteq> None" "bp_bps_idx bp"] by (auto simp: idx_def nth_append)
  have sub: "set (bp_bps_idx bp) \<subseteq> set idx" by (auto simp: idx_def)
  show "Some a \<in> set (bp_bps_idx bp1)" using i by (simp add: eq(2) set_update_memI)
  show "Some c \<in> set (bp_bps_idx bp1)" if "Some c \<in> set (bp_bps_idx bp)" for c
  proof -
    from that sub have "Some c \<in> set idx" by blast
    then obtain j where j: "j < length idx" "idx ! j = Some c" by (auto simp: in_set_conv_nth)
    then have "j \<noteq> ?i" using i(2) by auto
    then show ?thesis using j by (auto simp: eq(2) in_set_conv_nth)
  qed
qed (use assms in \<open>auto simp: r_bp_item_new_def Let_def same_set_up_def\<close>)

text \<open>An item at a fresh address, added to the list.\<close>

lemma append_item:
  fixes n :: int
  assumes "bp_ok bp" "r_bp_item_new bp = (a, bp1)" "trap_ok b"
    and "bp_nbps bp1 \<le> n"
  defines "bp2 \<equiv> bp1\<lparr>bp_store := (bp_store bp1)[a := Some b], bp_nbps := n, bp_bps := bp_bps bp1 @ [a]\<rparr>"
  shows "bp_ok bp2 \<and> items bp2 = items bp @ [b] \<and> same_set_up bp bp2"
proof -
  note f = item_new_facts [OF assms(2)]
  have new: "c \<in> set (bp_bps bp) \<Longrightarrow> c < a" for c
    using assms(1) f(1) by (auto simp: bp_ok_def dest: deref_less)
  have d: "bp_deref bp2 c = (if c = a then Some b else bp_deref bp c)" for c
    by (auto simp: bp2_def bp_deref_def f(1,2) nth_append nth_list_update)
  have l: "bp_bps bp2 = bp_bps bp @ [a]" "bp_bps_idx bp2 = bp_bps_idx bp1" by (simp_all add: bp2_def f)
  have "bp_ok bp2" using assms(1,3) new f(3,4) by (force simp: bp_ok_def d l)
  moreover have "items bp2 = items bp @ [b]" using new by (auto simp: items_def d l)
  ultimately show ?thesis using f(6,10) assms(4) by (simp add: bp2_def same_set_up_def)
qed

lemma drop_item:
  assumes "bp_ok bp" "r_bp_item_new bp = (a, bp1)"
  defines "bp2 \<equiv> bp1\<lparr>bp_store := (bp_store bp1)[a := None]\<rparr>"
  shows "bp_ok bp2 \<and> items bp2 = items bp \<and> same_set_up bp bp2"
proof -
  note f = item_new_facts [OF assms(2)]
  have new: "c \<in> set (bp_bps bp) \<Longrightarrow> c < a" for c
    using assms(1) f(1) by (auto simp: bp_ok_def dest: deref_less)
  have d: "bp_deref bp2 c = (if c = a then None else bp_deref bp c)" for c
    by (auto simp: bp2_def bp_deref_def f(1,2) nth_append nth_list_update)
  have l: "bp_bps bp2 = bp_bps bp" "bp_bps_idx bp2 = bp_bps_idx bp1" by (simp_all add: bp2_def f)
  have "bp_ok bp2" using assms(1) new f(4) by (fastforce simp: bp_ok_def d l)
  moreover have "items bp2 = items bp" using new by (auto simp: items_def d l)
  ultimately show ?thesis using f(10) by (simp add: bp2_def same_set_up_def)
qed

text \<open>What a new breakpoint looks like.\<close>

definition new_item :: "'io rbp \<Rightarrow> ut8 list option \<Rightarrow> ut64 \<Rightarrow> int \<Rightarrow> int \<Rightarrow> int \<Rightarrow> bp_item \<Rightarrow> bool" where
  "new_item bp ob addr sz hw rwx b \<longleftrightarrow> trap_ok b \<and> it_addr b = addr + bp_delta bp \<and> it_size b = sz \<and> it_hw b = hw \<and>
     it_rwx b = rwx \<and> it_enabled b = 1 \<and> (hw = 0 \<longrightarrow> it_obytes b = map_option (take (nat sz)) ob \<and> it_recoil b = sz)"

lemma bare_item_fields [simp]:
  "it_addr (bare_item a sz hw rwx) = a" "it_size (bare_item a sz hw rwx) = sz" "it_hw (bare_item a sz hw rwx) = hw"
  "it_rwx (bare_item a sz hw rwx) = rwx" "it_enabled (bare_item a sz hw rwx) = 1"
  by (simp_all add: bare_item_def)

lemma item_bytes_new:
  assumes "item_bytes bp1 ob (bare_item (addr + bp_delta bp) sz hw rwx) = Some (Some b)" "1 \<le> sz" "hw = 0 \<Longrightarrow> ob \<noteq> None"
  shows "new_item bp ob addr sz hw rwx b"
proof (cases "hw = 0")
  case True
  with assms(3) obtain o' where o': "ob = Some o'" by auto
  let ?b = "bare_item (addr + bp_delta bp) sz hw rwx"
  from assms(1) True o' obtain n ob' ret bb where
    *: "c_add sz 16 = Some n" "buf_read o' 0 (nat sz) = Some ob'"
      "r_bp_get_bytes bp1 (replicate (nat n) 0) sz (bp_endian bp1) 0 = Some (ret, bb)"
      "ret = sz" "b = ?b\<lparr>it_bbytes := Some bb, it_obytes := Some ob', it_recoil := sz\<rparr>"
    unfolding item_bytes_def by (auto simp: bind_eq_Some_conv split: if_splits)
  have "length bb = nat sz + 16"
    using get_bytes_length [OF *(3)] *(1) assms(2) by (auto simp: c_add_def nat_add_distrib split: if_splits)
  moreover have "ob' = take (nat sz) o'" "length ob' = nat sz" using *(2) by (auto simp: buf_read_def split: if_splits)
  ultimately show ?thesis using *(5) assms(2) o' True by (auto simp: new_item_def trap_ok_def)
next
  case False
  then show ?thesis using assms(1,2) by (auto simp: item_bytes_def new_item_def trap_ok_def)
qed

lemma item_bytes_defined:
  assumes "\<forall>p. bp_cur bp = Some p \<longrightarrow> plugin_ok p" "1 \<le> it_size b" "it_hw b = 0 \<Longrightarrow> it_size b + 16 < 2 ^ 31"
    and "it_hw b = 0 \<Longrightarrow> \<exists>ob'. ob = Some ob' \<and> nat (it_size b) \<le> length ob'"
  shows "\<exists>s. item_bytes bp ob b = Some s"
proof (cases "it_hw b = 0")
  case True
  from assms(4) [OF True] obtain ob' where ob': "ob = Some ob'" "nat (it_size b) \<le> length ob'" by blast
  have "nat (it_size b) \<le> length (replicate (nat (it_size b + 16)) (0::ut8))"
    "7 \<le> length (replicate (nat (it_size b + 16)) (0::ut8))" using assms(2) by auto
  from get_bytes_defined [OF assms(1) this, of "bp_endian bp" 0] assms(2) assms(3) [OF True] ob' True
  show ?thesis by (auto simp: item_bytes_def c_add_def buf_read_def)
qed (simp add: item_bytes_def)

lemma add_eq:
  assumes "\<not> (addr = UT64_MAX \<or> sz < 1)" "r_bp_get_in bp addr rwx = Some None" "r_bp_item_new bp = (a, bp1)"
  shows "r_bp_add bp ob addr sz hw rwx = add_item a bp1 ob (bare_item (addr + bp_delta bp) sz hw rwx)"
  using assms item_new_facts(10) [OF assms(3)] by (simp add: r_bp_add_def same_set_up_def)

lemma new_item_live: "r_bp_item_new bp = (a, bp1) \<Longrightarrow> bp_deref bp1 a = Some bp_item_zero"
  using item_new_facts(1,2) [of bp a bp1] by (simp add: bp_deref_def)

lemma add_item_spec:
  assumes "bp_ok bp" "r_bp_item_new bp = (a, bp1)" "add_item a bp1 ob (bare_item (addr + bp_delta bp) sz hw rwx) = Some (r, bp')"
    and "hw = 0 \<Longrightarrow> ob \<noteq> None" "1 \<le> sz"
  shows "bp_ok bp' \<and> same_set_up bp bp' \<and> (items bp' = items bp \<and> r = None \<or>
    (\<exists>b. items bp' = items bp @ [b] \<and> new_item bp ob addr sz hw rwx b \<and> r \<noteq> None))"
proof -
  note live = new_item_live [OF assms(2)]
  from assms(3) obtain s where s: "item_bytes bp1 ob (bare_item (addr + bp_delta bp) sz hw rwx) = Some s"
    by (auto simp: add_item_def bind_eq_Some_conv)
  show ?thesis
  proof (cases s)
    case None
    then show ?thesis using s assms(3) drop_item [OF assms(1,2)] free_live [OF live] by (auto simp: add_item_def)
  next
    case (Some b)
    have new: "new_item bp ob addr sz hw rwx b" using item_bytes_new s Some assms(4,5) by blast
    then have "trap_ok b" by (simp add: new_item_def)
    with append_item [OF assms(1,2)] assms(3) s Some update_live [OF live, of "\<lambda>_. b"] new
    show ?thesis by (auto simp: add_item_def bind_eq_Some_conv c_add_def split: if_splits)
  qed
qed

lemma add_spec:
  assumes "bp_ok bp" "r_bp_add bp ob addr sz hw rwx = Some (r, bp')" "hw = 0 \<Longrightarrow> ob \<noteq> None"
  shows "bp_ok bp' \<and> same_set_up bp bp' \<and>
    (items bp' = items bp \<and> r = None \<or>
     (\<exists>b. items bp' = items bp @ [b] \<and> new_item bp ob addr sz hw rwx b \<and> r \<noteq> None \<and>
       (\<forall>c \<in> set (items bp). \<not> (inRange c addr \<and> matchProt c rwx))))"
proof -
  from get_in_ok [OF assms(1), of addr rwx] obtain q where
    q: "r_bp_get_in bp addr rwx = Some q" "q = None \<longleftrightarrow> (\<forall>b \<in> set (items bp). \<not> (inRange b addr \<and> matchProt b rwx))"
    by blast
  obtain a bp1 where n: "r_bp_item_new bp = (a, bp1)" by fastforce
  show ?thesis
  proof (cases "addr = UT64_MAX \<or> sz < 1 \<or> q \<noteq> None")
    case True
    then have "bp' = bp \<and> r = None" using assms(2) q(1) by (simp add: r_bp_add_def split: if_splits)
    then show ?thesis using assms(1) by simp
  next
    case False
    then show ?thesis
      using add_item_spec [OF assms(1) n, of ob addr sz hw rwx r bp'] add_eq [of addr sz bp rwx a bp1 ob hw] assms(2,3) q n
      by auto
  qed
qed

lemma add_defined:
  assumes "bp_ok bp" "\<forall>p. bp_cur bp = Some p \<longrightarrow> plugin_ok p" "0 \<le> bp_nbps bp" "bp_nbps bp + 1 < 2 ^ 31"
    and "hw = 0 \<Longrightarrow> sz + 16 < 2 ^ 31" "hw = 0 \<Longrightarrow> \<exists>ob'. ob = Some ob' \<and> nat sz \<le> length ob'"
  shows "\<exists>r bp'. r_bp_add bp ob addr sz hw rwx = Some (r, bp')"
proof -
  from get_in_ok [OF assms(1), of addr rwx] obtain q where q: "r_bp_get_in bp addr rwx = Some q" by blast
  obtain a bp1 where n: "r_bp_item_new bp = (a, bp1)" by fastforce
  note f = item_new_facts [OF n] and live = new_item_live [OF n]
  show ?thesis
  proof (cases "addr = UT64_MAX \<or> sz < 1 \<or> q \<noteq> None")
    case True
    then show ?thesis using q by (auto simp: r_bp_add_def)
  next
    case False
    have cur: "\<forall>p. bp_cur bp1 = Some p \<longrightarrow> plugin_ok p" using assms(2) f(9) by simp
    from item_bytes_defined [OF cur, of "bare_item (addr + bp_delta bp) sz hw rwx" ob] False assms(5,6)
    obtain s where s: "item_bytes bp1 ob (bare_item (addr + bp_delta bp) sz hw rwx) = Some s" by auto
    then have "\<exists>r bp'. add_item a bp1 ob (bare_item (addr + bp_delta bp) sz hw rwx) = Some (r, bp')"
      using free_live [OF live] update_live [OF live] f(6) assms(3,4)
      by (auto simp: add_item_def c_add_def split: option.split)
    then show ?thesis using add_eq [OF _ _ n, of addr sz rwx ob hw] False q by auto
  qed
qed

end
