(* ===== verification/R2_Bp_Trace.thy ===== *)
theory R2_Bp_Trace
  imports R2_Bp
begin

text \<open>
  The trap traces of \<^verbatim>\<open>libr/bp/traptrace.c\<close>: a range of code filled with traps, with a bit per instruction that was
  reached. Traces live in a store of their own (\<open>bp_tstore\<close>), as the items do.
\<close>

section \<open>Bits\<close>

text \<open>
  The macros of \<^verbatim>\<open>r_types.h\<close>. \<open>R_BIT_CHK\<close> looks at the first byte only and shifts an \<open>int\<close> by the position;
  \<open>R_BIT_SET\<close> takes a byte per sixteen positions.
\<close>

definition R_BIT_CHK :: "ut8 list \<Rightarrow> int \<Rightarrow> bool option" where
  "R_BIT_CHK x y =
     (if 0 \<le> y \<and> y < 31 then map_option (\<lambda>b. bit b (nat y)) (nth_opt x 0) else None)"

definition R_BIT_SET :: "ut8 list \<Rightarrow> int \<Rightarrow> ut8 list option" where
  "R_BIT_SET x y = do {
     b \<leftarrow> nth_opt x (y div 16);
     Some (x[nat (y div 16) := b OR push_bit (nat (y mod 16)) 1]) }"

section \<open>Traces\<close>

definition trace_deref :: "'io rbp \<Rightarrow> nat \<Rightarrow> bp_trace option" where
  "trace_deref bp a = (if a < length (bp_tstore bp) then bp_tstore bp ! a else None)"

definition r_bp_traptrace_free :: "nat \<Rightarrow> 'io rbp \<Rightarrow> 'io rbp option" where
  "r_bp_traptrace_free a bp = do {
     _ \<leftarrow> trace_deref bp a; Some (bp\<lparr>bp_tstore := (bp_tstore bp)[a := None]\<rparr>) }"

fun trace_enable_loop :: "'io rbp \<Rightarrow> bool \<Rightarrow> nat list \<Rightarrow> 'io \<Rightarrow> 'io option" where
  "trace_enable_loop bp enable [] io = Some io"
| "trace_enable_loop bp enable (a # as) io = do {
     t \<leftarrow> trace_deref bp a;
     io \<leftarrow> iob_write bp io (tr_addr t) (if enable then tr_traps t else tr_buffer t) (tr_length t);
     trace_enable_loop bp enable as io }"

definition r_bp_traptrace_enable :: "'io rbp \<Rightarrow> 'io \<Rightarrow> bool \<Rightarrow> 'io option" where
  "r_bp_traptrace_enable bp io enable = trace_enable_loop bp enable (bp_traces bp) io"

text \<open>\<open>memset (trace->bits, 0, trace->bitlen)\<close>.\<close>

definition clear_bits :: "bp_trace \<Rightarrow> bp_trace option" where
  "clear_bits t = do {
     n \<leftarrow> tr_bitlen t;
     if n < 0 then None
     else do { b \<leftarrow> buf_write (tr_bits t) 0 (replicate (nat n) 0); Some (t\<lparr>tr_bits := b\<rparr>) } }"

fun reset_loop :: "bool \<Rightarrow> nat list \<Rightarrow> 'io rbp \<Rightarrow> 'io rbp option" where
  "reset_loop hard [] bp = Some bp"
| "reset_loop hard (a # as) bp = do {
     t \<leftarrow> trace_deref bp a;
     bp \<leftarrow> (if hard then r_bp_traptrace_free a bp
       else do { t \<leftarrow> clear_bits t; Some (bp\<lparr>bp_tstore := (bp_tstore bp)[a := Some t]\<rparr>) });
     reset_loop hard as bp }"

definition r_bp_traptrace_reset :: "'io rbp \<Rightarrow> bool \<Rightarrow> 'io rbp option" where
  "r_bp_traptrace_reset bp hard = do {
     bp \<leftarrow> reset_loop hard (bp_traces bp) bp;
     Some (if hard then bp\<lparr>bp_traces := []\<rparr> else bp) }"

text \<open>The positions \<open>i\<close>, \<open>i + 1\<close>, \dots of a trace, \<open>n\<close> of them.\<close>

fun next_bit :: "ut8 list \<Rightarrow> int \<Rightarrow> nat \<Rightarrow> int option option" where
  "next_bit bits i 0 = Some None"
| "next_bit bits i (Suc n) = do { c \<leftarrow> R_BIT_CHK bits i; (if c then Some (Some i) else next_bit bits (i + 1) n) }"

fun next_loop :: "'io rbp \<Rightarrow> ut64 \<Rightarrow> nat list \<Rightarrow> ut64 option" where
  "next_loop bp addr [] = Some 0"
| "next_loop bp addr (a # as) = do {
     t \<leftarrow> trace_deref bp a;
     if tr_addr t \<le> addr \<and> addr \<le> tr_addr_end t
     then let delta = c_int (addr - tr_addr t) in do {
       r \<leftarrow> next_bit (tr_bits t) delta (nat (tr_length t - delta));
       (case r of Some i \<Rightarrow> Some (addr + of_int i) | None \<Rightarrow> next_loop bp addr as) }
     else next_loop bp addr as }"

definition r_bp_traptrace_next :: "'io rbp \<Rightarrow> ut64 \<Rightarrow> ut64 option" where
  "r_bp_traptrace_next bp addr = next_loop bp addr (bp_traces bp)"

text \<open>\<open>bitlen\<close> of the new trace is not set.\<close>

definition r_bp_traptrace_add :: "'io rbp \<Rightarrow> 'io \<Rightarrow> ut64 \<Rightarrow> ut64 \<Rightarrow> (bool \<times> 'io rbp \<times> 'io) option" where
  "r_bp_traptrace_add bp io from to =
     (if from = 0 \<or> to < from \<or> 0x7fffffff \<le> to - from then Some (False, bp, io)
      else let len = uint (to - from) in do {
        n \<leftarrow> c_add len 4;
        iob \<leftarrow> bp_iob bp;
        ((_, buf), io) \<leftarrow> iob_read_at iob io from (map (bp_garbage bp) [0..<nat len]) len;
        (_, trap) \<leftarrow> r_bp_get_bytes bp (map (bp_garbage bp) [0..<nat n]) len (bp_endian bp) 0;
        Some (True, bp\<lparr>bp_tstore := bp_tstore bp @ [Some \<lparr>tr_addr = from, tr_addr_end = to, tr_traps = trap,
            tr_buffer = buf, tr_bits = replicate (nat (len div 16) + 1) 0, tr_length = len, tr_bitlen = None\<rparr>],
          bp_traces := bp_traces bp @ [length (bp_tstore bp)]\<rparr>, io) })"

text \<open>The list of traces frees its elements too: \<open>r_list_delete\<close> calls \<open>r_bp_traptrace_free\<close> after the loop did.\<close>

fun free_at_loop :: "ut64 \<Rightarrow> nat list \<Rightarrow> bool \<Rightarrow> 'io rbp \<Rightarrow> 'io \<Rightarrow> (bool \<times> 'io rbp \<times> 'io) option" where
  "free_at_loop from [] ret bp io = Some (ret, bp, io)"
| "free_at_loop from (a # as) ret bp io = do {
     t \<leftarrow> trace_deref bp a;
     if tr_addr t \<le> from \<and> from \<le> tr_addr_end t
     then do {
       io \<leftarrow> iob_write bp io (tr_addr t) (tr_buffer t) (tr_length t);
       bp \<leftarrow> r_bp_traptrace_free a bp;
       bp \<leftarrow> r_bp_traptrace_free a (bp\<lparr>bp_traces := remove1 a (bp_traces bp)\<rparr>);
       free_at_loop from as True bp io }
     else free_at_loop from as ret bp io }"

definition r_bp_traptrace_free_at :: "'io rbp \<Rightarrow> 'io \<Rightarrow> ut64 \<Rightarrow> (bool \<times> 'io rbp \<times> 'io) option" where
  "r_bp_traptrace_free_at bp io from = free_at_loop from (bp_traces bp) False bp io"

fun at_loop :: "ut64 \<Rightarrow> int \<Rightarrow> nat list \<Rightarrow> 'io rbp \<Rightarrow> (bool \<times> 'io rbp) option" where
  "at_loop from len [] bp = Some (False, bp)"
| "at_loop from len (a # as) bp = do {
     t \<leftarrow> trace_deref bp a;
     if tr_addr t \<le> from \<and> from + of_int len \<le> tr_addr_end t
     then let delta = c_int (from - tr_addr t) in do {
       c \<leftarrow> R_BIT_CHK (tr_bits t) delta;
       stop \<leftarrow> (if c then map_option (\<lambda>x. x = 0) (nth_opt (tr_traps t) delta) else Some False);
       if stop then Some (False, bp)
       else do {
         b \<leftarrow> R_BIT_SET (tr_bits t) delta;
         Some (True, bp\<lparr>bp_tstore := (bp_tstore bp)[a := Some (t\<lparr>tr_bits := b\<rparr>)]\<rparr>) } }
     else at_loop from len as bp }"

definition r_bp_traptrace_at :: "'io rbp \<Rightarrow> ut64 \<Rightarrow> int \<Rightarrow> (bool \<times> 'io rbp) option" where
  "r_bp_traptrace_at bp from len = at_loop from len (bp_traces bp) bp"

end
