(* ===== verification/R2_Bp_Props.thy ===== *)
theory R2_Bp_Props
  imports R2_Bp_Inv R2_Bp_Trace R2_Esil_Memory
begin

text \<open>
  Breakpoints over a memory. What \<open>r_bp_restore\<close> does to the bytes is proved in the locale \<open>byte_memory\<close> and obtained
  for the component bound to the IO layer over a mapped file: the whole way from the list of breakpoints through maps,
  descriptors and plugin to the bytes of the file.
\<close>

section \<open>Traps as an overlay\<close>

text \<open>The addresses of a software breakpoint, and the bytes with its trap in place or taken out.\<close>

definition covers :: "bp_item \<Rightarrow> nat \<Rightarrow> bool" where
  "covers b a \<longleftrightarrow> it_hw b = 0 \<and> unat (it_addr b) \<le> a \<and> a < unat (it_addr b) + nat (it_size b)"

definition place :: "bool \<Rightarrow> bp_item \<Rightarrow> (nat \<Rightarrow> ut8) \<Rightarrow> nat \<Rightarrow> ut8" where
  "place st b m = (\<lambda>a. if covers b a
     then the (if st then it_bbytes b else it_obytes b) ! (a - unat (it_addr b)) else m a)"

text \<open>The bytes kept by the breakpoints are those of the memory.\<close>

definition saved :: "bp_item list \<Rightarrow> (nat \<Rightarrow> ut8) \<Rightarrow> bool" where
  "saved bs m \<longleftrightarrow> (\<forall>b \<in> set bs. it_hw b = 0 \<longrightarrow>
     it_obytes b = Some (map m [unat (it_addr b)..<unat (it_addr b) + nat (it_size b)]))"

lemma fold_place_outside: "\<forall>b \<in> set bs. \<not> covers b a \<Longrightarrow> fold (place st) bs m a = m a"
  by (induction bs arbitrary: m) (auto simp: place_def)

lemma place_out_saved: "saved [b] m0 \<Longrightarrow> place False b m = (\<lambda>a. if covers b a then m0 a else m a)"
  by (auto simp: place_def saved_def covers_def fun_eq_iff)

lemma fold_place_out:
  "saved bs m0 \<Longrightarrow> fold (place False) bs m a = (if \<exists>b \<in> set bs. covers b a then m0 a else m a)"
proof (induction bs arbitrary: m)
  case (Cons b bs)
  then have "saved bs m0" "saved [b] m0" by (auto simp: saved_def)
  then show ?case using Cons(1) by (auto simp: place_out_saved)
qed simp

lemma out_after_in: "saved bs m \<Longrightarrow> fold (place False) bs (fold (place True) bs m) = m"
  by (rule ext) (auto simp: fold_place_out fold_place_outside)

text \<open>The last breakpoint that covers an address decides.\<close>

lemma fold_place_last:
  assumes "covers b a" "\<forall>c \<in> set ys. \<not> covers c a"
  shows "fold (place True) (xs @ b # ys) m a = the (it_bbytes b) ! (a - unat (it_addr b))"
  using assms by (simp add: fold_place_outside place_def)

lemma saved_same_trap: "list_all2 same_trap bs cs \<Longrightarrow> saved bs m \<Longrightarrow> saved cs m"
proof (induction rule: list_all2_induct)
  case (Cons b bs c cs)
  from Cons(4) have "saved bs m" "saved [b] m" by (auto simp: saved_def)
  with Cons(1,3) show ?case by (auto simp: saved_def same_trap_def)
qed simp

section \<open>The operations of a session\<close>

text \<open>
  What a debugger does to the breakpoints while the target is stopped and the traps are out. Addresses are those of
  \<open>inside\<close>, and breakpoints have a permission.
\<close>

inductive bp_step :: "(ut64 \<Rightarrow> int \<Rightarrow> bool) \<Rightarrow> 'io rbp \<times> 'io \<Rightarrow> 'io rbp \<times> 'io \<Rightarrow> bool" for inside where
  add_sw: "inside addr (max 1 sz) \<Longrightarrow> rwx \<noteq> 0 \<Longrightarrow> r_bp_add_sw bp io addr sz rwx = Some (r, bp', io') \<Longrightarrow>
    bp_step inside (bp, io) (bp', io')"
| add_hw: "inside addr sz \<Longrightarrow> rwx \<noteq> 0 \<Longrightarrow> r_bp_add_hw bp addr sz rwx = Some (r, bp') \<Longrightarrow>
    bp_step inside (bp, io) (bp', io)"
| del: "r_bp_del bp addr = Some (r, bp') \<Longrightarrow> bp_step inside (bp, io) (bp', io)"
| del_all: "r_bp_del_all bp = Some (r, bp') \<Longrightarrow> bp_step inside (bp, io) (bp', io)"
| enable: "r_bp_enable bp addr st = Some (q, bp') \<Longrightarrow> bp_step inside (bp, io) (bp', io)"
| enable_all: "r_bp_enable_all bp st = Some (r, bp') \<Longrightarrow> bp_step inside (bp, io) (bp', io)"
| set_trace: "r_bp_set_trace bp addr st = Some (r, bp') \<Longrightarrow> bp_step inside (bp, io) (bp', io)"
| set_trace_all: "r_bp_set_trace_all bp st = Some (r, bp') \<Longrightarrow> bp_step inside (bp, io) (bp', io)"
| use: "bp_step inside (bp, io) (snd (r_bp_use bp nm bits), io)"
| add_cond: "bp_step inside (bp, io) (snd (r_bp_add_cond bp cond), io)"
| del_cond: "bp_step inside (bp, io) (snd (r_bp_del_cond bp idx), io)"

text \<open>No breakpoint starts inside one that was set before it.\<close>

definition starts_apart :: "bp_item list \<Rightarrow> bool" where
  "starts_apart bs \<longleftrightarrow> sorted_wrt (\<lambda>b c. \<not> inRange b (it_addr c)) bs"

lemma starts_apart_same_trap: "list_all2 same_trap bs cs \<Longrightarrow> starts_apart bs \<Longrightarrow> starts_apart cs"
  by (simp add: starts_apart_def sorted_wrt_iff_nth_less list_all2_conv_all_nth same_trap_def inRange_def)

lemma delete_first_sorted: "sorted_wrt R xs \<Longrightarrow> sorted_wrt R (snd (delete_first P xs))"
proof (induction xs)
  case (Cons x xs)
  then show ?case using delete_first_set [of P xs] by (cases "delete_first P xs") auto
qed simp

section \<open>The contract of the memory gives the traps\<close>

context byte_memory
begin

definition bound_bp :: "'io rbp \<Rightarrow> bool" where
  "bound_bp bp \<longleftrightarrow> bp_iob bp = Some \<lparr>iob_read_at = rd, iob_write_at = wr\<rparr> \<and> bp_breakpoint bp = None"

definition in_memory :: "bp_item list \<Rightarrow> bool" where
  "in_memory bs \<longleftrightarrow> (\<forall>b \<in> set bs. inside (it_addr b) (it_size b) \<and> it_rwx b \<noteq> 0)"

definition session_ok :: "(nat \<Rightarrow> ut8) \<Rightarrow> 'io rbp \<times> 'io \<Rightarrow> bool" where
  "session_ok m s \<longleftrightarrow> (case s of (bp, io) \<Rightarrow> bp_ok bp \<and> bound_bp bp \<and> bp_delta bp = 0 \<and> in_memory (items bp) \<and>
     saved (items bp) m \<and> starts_apart (items bp) \<and> ok io \<and> byte io = m \<and> 0 \<le> bp_nbps bp)"

lemma session_bp_ok: "session_ok m (bp, io) \<Longrightarrow> bp_ok bp"
  by (simp add: session_ok_def)

lemma restore_item_bytes:
  assumes "ok io" "bound_bp bp" "trap_ok b" "inside (it_addr b) (it_size b)"
  shows "\<exists>io'. restore_item bp st ex b io = Some io' \<and> ok io' \<and>
    byte io' = (if ex \<noteq> 0 \<and> it_addr b = ex then byte io else place st b (byte io))"
proof (cases "ex \<noteq> 0 \<and> it_addr b = ex")
  case True
  then show ?thesis using assms(1) by (simp add: restore_item_def)
next
  case False
  have r: "restore_item bp st ex b io = r_bp_restore_one bp io b st"
    using False assms(2) by (auto simp: restore_item_def bound_bp_def)
  show ?thesis
  proof (cases "it_hw b = 0")
    case True
    with assms(3) obtain bs where bs: "(if st then it_bbytes b else it_obytes b) = Some bs" "nat (it_size b) \<le> length bs"
      by (cases st) (auto simp: trap_ok_def)
    from wr [OF assms(1,4) bs(2)] obtain io' where
      "wr io (it_addr b) bs (it_size b) = Some (it_size b, io')" "ok io'"
      "byte io' = (\<lambda>a. if unat (it_addr b) \<le> a \<and> a < unat (it_addr b) + nat (it_size b)
         then bs ! (a - unat (it_addr b)) else byte io a)" by blast
    then show ?thesis using r True False bs(1) assms(2)
      by (auto simp: r_bp_restore_one_def iob_write_def bound_bp_def place_def covers_def)
  next
    case hw: False
    then have "place st b (byte io) = byte io" by (simp add: place_def covers_def)
    then show ?thesis using r hw False assms(1) by (auto simp: r_bp_restore_one_def split: option.split)
  qed
qed

lemma restore_loop_bytes:
  assumes "ok io" "bound_bp bp" "\<forall>a \<in> set as. \<exists>b. bp_deref bp a = Some b \<and> trap_ok b \<and> inside (it_addr b) (it_size b)"
  shows "\<exists>io'. restore_loop bp st ex as io = Some io' \<and> ok io' \<and>
    byte io' = fold (place st) (filter (\<lambda>b. ex = 0 \<or> it_addr b \<noteq> ex) (map (\<lambda>a. the (bp_deref bp a)) as)) (byte io)"
  using assms(1,3)
proof (induction as arbitrary: io)
  case (Cons a as)
  from Cons(3) obtain b where b: "bp_deref bp a = Some b" "trap_ok b" "inside (it_addr b) (it_size b)" by auto
  from restore_item_bytes [OF Cons(2) assms(2) b(2,3)] obtain io1 where
    one: "restore_item bp st ex b io = Some io1" "ok io1"
      "byte io1 = (if ex \<noteq> 0 \<and> it_addr b = ex then byte io else place st b (byte io))" by blast
  from Cons(1) [OF one(2)] Cons(3) b(1) one(1,3) show ?case by auto
qed simp

lemma restore_bytes:
  assumes "session_ok m (bp, io0)" "ok io"
  shows "\<exists>io'. r_bp_restore_except bp io st ex = Some (True, io') \<and> ok io' \<and>
    byte io' = fold (place st) (filter (\<lambda>b. ex = 0 \<or> it_addr b \<noteq> ex) (items bp)) (byte io)"
proof -
  have "\<forall>a \<in> set (bp_bps bp). \<exists>b. bp_deref bp a = Some b \<and> trap_ok b \<and> inside (it_addr b) (it_size b)"
    using assms(1) by (force simp: session_ok_def in_memory_def bp_ok_def items_def)
  from restore_loop_bytes [OF assms(2) _ this, of st ex] assms(1)
  show ?thesis by (auto simp: session_ok_def r_bp_restore_except_def items_def)
qed

lemma session_keeps:
  assumes "session_ok m (bp, io)" "keeps_traps bp bp'"
  shows "session_ok m (bp', io)"
proof -
  have l: "list_all2 same_trap (items bp) (items bp')" using assms(2) by (simp add: keeps_traps_def)
  have "in_memory (items bp')" if "in_memory (items bp)"
    using that l by (fastforce simp: in_memory_def list_all2_conv_all_nth in_set_conv_nth same_trap_def)
  then show ?thesis using assms saved_same_trap [OF l] starts_apart_same_trap [OF l]
    by (auto simp: session_ok_def keeps_traps_def same_set_up_def bound_bp_def)
qed

lemma session_shrinks:
  assumes "session_ok m (bp, io)" "bp_ok bp'" "same_set_up bp bp'" "set (items bp') \<subseteq> set (items bp)"
    and "starts_apart (items bp')"
  shows "session_ok m (bp', io)"
  using assms by (auto simp: session_ok_def same_set_up_def bound_bp_def in_memory_def saved_def)

lemma session_grows:
  assumes "session_ok m (bp, io)" "bp_ok bp'" "same_set_up bp bp'" "items bp' = items bp @ [b]" "ok io'" "byte io' = m"
    and "new_item bp ob addr sz hw rwx b" "inside addr sz" "rwx \<noteq> 0"
    and "hw = 0 \<Longrightarrow> ob = Some (map m [unat addr..<unat addr + nat sz])"
    and "\<forall>c \<in> set (items bp). \<not> (inRange c addr \<and> matchProt c rwx)"
  shows "session_ok m (bp', io')"
proof -
  have b: "it_addr b = addr" "it_size b = sz" "it_rwx b = rwx" "it_hw b = hw" "hw = 0 \<longrightarrow> it_obytes b = map_option (take (nat sz)) ob"
    using assms(1,7) by (auto simp: new_item_def session_ok_def)
  have "\<forall>c \<in> set (items bp). matchProt c rwx" using assms(1,9) by (auto simp: session_ok_def in_memory_def matchProt_def)
  then have "starts_apart (items bp')"
    using assms(1,4,11) b(1) by (auto simp: session_ok_def starts_apart_def sorted_wrt_append)
  moreover have "in_memory (items bp')" using assms(1,4,8,9) b by (auto simp: session_ok_def in_memory_def)
  moreover have "saved (items bp') m" using assms(1,4,10) b by (auto simp: session_ok_def saved_def)
  ultimately show ?thesis using assms(1-3,5,6) by (auto simp: session_ok_def same_set_up_def bound_bp_def)
qed

lemma session_same:
  assumes "session_ok m (bp, io)" "bp_ok bp'" "same_set_up bp bp'" "items bp' = items bp" "ok io'" "byte io' = m"
  shows "session_ok m (bp', io')"
  using assms by (auto simp: session_ok_def same_set_up_def bound_bp_def)

text \<open>Reading the bytes under a new breakpoint.\<close>

lemma add_sw_reads:
  assumes "session_ok m (bp, io)" "inside addr (max 1 sz)"
  shows "\<exists>io'. ok io' \<and> byte io' = m \<and> r_bp_add_sw bp io addr sz rwx =
    map_option (\<lambda>(r, bp'). (r, bp', io')) (r_bp_add bp (Some (map m [unat addr..<unat addr + nat (max 1 sz)])) addr (max 1 sz) 0 rwx)"
proof -
  have s: "ok io" "bp_iob bp = Some \<lparr>iob_read_at = rd, iob_write_at = wr\<rparr>" "byte io = m"
    using assms(1) by (auto simp: session_ok_def bound_bp_def)
  have sz: "(if sz < 1 then 1 else sz) = max 1 sz" by (simp add: max_def)
  from rd [OF s(1) assms(2), of "replicate (nat (max 1 sz)) 0"] s(3) obtain io' where
    "rd io addr (replicate (nat (max 1 sz)) 0) (max 1 sz) =
      Some ((max 1 sz, map m [unat addr..<unat addr + nat (max 1 sz)]), io')" "ok io'" "byte io' = m" by auto
  then show ?thesis using s(2) unfolding r_bp_add_sw_def sz
    by (auto simp: Let_def map_option_bind map_conv_bind_option split_def comp_def intro!: exI [of _ io'])
qed

lemma add_swD:
  assumes "session_ok m (bp, io)" "inside addr (max 1 sz)" "r_bp_add_sw bp io addr sz rwx = Some (r, bp', io')"
  shows "r_bp_add bp (Some (map m [unat addr..<unat addr + nat (max 1 sz)])) addr (max 1 sz) 0 rwx = Some (r, bp') \<and>
    ok io' \<and> byte io' = m"
proof -
  from add_sw_reads [OF assms(1,2), of rwx] obtain io2 where
    "ok io2" "byte io2 = m" "r_bp_add_sw bp io addr sz rwx = map_option (\<lambda>(r, bp'). (r, bp', io2))
      (r_bp_add bp (Some (map m [unat addr..<unat addr + nat (max 1 sz)])) addr (max 1 sz) 0 rwx)" by blast
  then show ?thesis using assms(3)
    by (cases "r_bp_add bp (Some (map m [unat addr..<unat addr + nat (max 1 sz)])) addr (max 1 sz) 0 rwx") auto
qed

lemma session_step: "bp_step inside s s' \<Longrightarrow> session_ok m s \<Longrightarrow> session_ok m s'"
proof (induction rule: bp_step.induct)
  case (add_sw addr sz rwx bp io r bp' io')
  let ?ob = "map m [unat addr..<unat addr + nat (max 1 sz)]"
  from add_swD [OF add_sw(4,1,3)]
  have a: "r_bp_add bp (Some ?ob) addr (max 1 sz) 0 rwx = Some (r, bp')" and io: "ok io'" "byte io' = m" by auto
  have ok: "bp_ok bp" using add_sw(4) by (simp add: session_ok_def)
  from add_spec [OF ok a] show ?case
    using session_grows [OF add_sw(4) _ _ _ io _ add_sw(1,2)] session_same [OF add_sw(4) _ _ _ io] by auto
next
  case (add_hw addr sz rwx bp r bp' io)
  have ok: "bp_ok bp" "ok io" "byte io = m" using add_hw(4) by (auto simp: session_ok_def)
  from add_spec [OF ok(1) add_hw(3) [unfolded r_bp_add_hw_def]] show ?case
    using session_grows [OF add_hw(4) _ _ _ ok(2,3) _ add_hw(1,2)] session_same [OF add_hw(4) _ _ _ ok(2,3)] by auto
next
  case (del bp addr r bp' io)
  then have "bp_ok bp" "starts_apart (items bp)" by (simp_all add: session_ok_def)
  with del_ok [of bp addr] del delete_first_set [of "\<lambda>b. it_addr b = addr" "items bp"]
    delete_first_sorted [of _ "items bp" "\<lambda>b. it_addr b = addr"]
  show ?case by (auto simp: starts_apart_def intro!: session_shrinks [OF del(2)])
next
  case (del_all bp r bp' io)
  then have "bp_ok bp" by (simp add: session_ok_def)
  with del_all_ok [of bp] del_all show ?case by (auto simp: starts_apart_def intro!: session_shrinks [OF del_all(2)])
next
  case (enable bp addr st q bp' io)
  then show ?case using enable_keeps [OF session_bp_ok [OF enable(2)], of addr st] session_keeps [OF enable(2)] by auto
next
  case (enable_all bp st r bp' io)
  then show ?case using all_keeps(1) [OF session_bp_ok [OF enable_all(2)], of st] session_keeps [OF enable_all(2)] by auto
next
  case (set_trace bp addr st r bp' io)
  then show ?case using set_trace_keeps [OF session_bp_ok [OF set_trace(2)], of addr st] session_keeps [OF set_trace(2)] by auto
next
  case (set_trace_all bp st r bp' io)
  then show ?case using all_keeps(2) [OF session_bp_ok [OF set_trace_all(2)], of st] session_keeps [OF set_trace_all(2)] by auto
next
  case (use bp io nm bits)
  then show ?case using use_keeps [OF session_bp_ok [OF use]] session_keeps [OF use] by blast
next
  case (add_cond bp io cond)
  then show ?case using keeps_plain [OF session_bp_ok [OF add_cond]] session_keeps [OF add_cond] by (simp add: r_bp_add_cond_def)
next
  case (del_cond bp io idx)
  then show ?case using keeps_plain [OF session_bp_ok [OF del_cond]] session_keeps [OF del_cond] by (simp add: r_bp_del_cond_def)
qed

lemma session_steps: "(bp_step inside)\<^sup>*\<^sup>* s s' \<Longrightarrow> session_ok m s \<Longrightarrow> session_ok m s'"
  by (induction rule: rtranclp_induct) (auto dest: session_step)

text \<open>Traps in and out again.\<close>

lemma restore_round:
  assumes "session_ok m (bp, io)"
  shows "\<exists>io1 io2. r_bp_restore bp io True = Some (True, io1) \<and> r_bp_restore bp io1 False = Some (True, io2) \<and>
    ok io2 \<and> byte io2 = m"
proof -
  have s: "ok io" "byte io = m" "saved (items bp) m" using assms by (simp_all add: session_ok_def)
  from restore_bytes [OF assms s(1), of True 0] obtain io1 where
    one: "r_bp_restore bp io True = Some (True, io1)" "ok io1" "byte io1 = fold (place True) (items bp) m"
    using s(2) by (auto simp: r_bp_restore_def)
  from restore_bytes [OF assms one(2), of False 0] out_after_in [OF s(3)] one show ?thesis
    by (auto simp: r_bp_restore_def)
qed

lemma restore_shows_trap:
  assumes "session_ok m (bp, io)" "items bp = xs @ b # ys" "it_hw b = 0" "ex = 0 \<or> it_addr b \<noteq> ex"
    and "\<forall>c \<in> set ys. \<forall>a. \<not> (covers b a \<and> covers c a)"
  shows "\<exists>io' bb. r_bp_restore_except bp io True ex = Some (True, io') \<and> ok io' \<and> it_bbytes b = Some bb \<and>
    bytes io' (it_addr b) (it_size b) = take (nat (it_size b)) bb \<and>
    (\<forall>a. (\<forall>c \<in> set (items bp). \<not> covers c a) \<longrightarrow> byte io' a = m a)"
proof -
  let ?f = "filter (\<lambda>b. ex = 0 \<or> it_addr b \<noteq> ex)"
  have s: "ok io" "byte io = m" "bp_ok bp" using assms(1) by (simp_all add: session_ok_def)
  from restore_bytes [OF assms(1) s(1), of True ex] obtain io' where
    io': "r_bp_restore_except bp io True ex = Some (True, io')" "ok io'"
      "byte io' = fold (place True) (?f (items bp)) m" using s(2) by auto
  have "trap_ok b" using items_ok [OF s(3)] assms(2) by simp
  with assms(3) obtain bb where bb: "it_bbytes b = Some bb" "nat (it_size b) \<le> length bb" by (auto simp: trap_ok_def)
  have split: "?f (items bp) = ?f xs @ b # ?f ys" using assms(2,4) by simp
  have "bytes io' (it_addr b) (it_size b) = take (nat (it_size b)) bb"
  proof (rule nth_equalityI)
    fix i assume "i < length (bytes io' (it_addr b) (it_size b))"
    then have i: "i < nat (it_size b)" by (simp add: bytes_def)
    then have c: "covers b (unat (it_addr b) + i)" using assms(3) by (simp add: covers_def)
    then have "\<forall>c \<in> set (?f ys). \<not> covers c (unat (it_addr b) + i)" using assms(5) by auto
    from fold_place_last [OF c this, of "?f xs" m] show
      "bytes io' (it_addr b) (it_size b) ! i = take (nat (it_size b)) bb ! i"
      using i bb by (simp add: bytes_def io'(3) split)
  qed (use bb in \<open>simp add: bytes_def\<close>)
  moreover have "byte io' a = m a" if "\<forall>c \<in> set (items bp). \<not> covers c a" for a
    using fold_place_outside [of "?f (items bp)" a True m] that io'(3) by simp
  ultimately show ?thesis using io'(1,2) bb(1) by blast
qed

lemma add_sw_defined:
  assumes "session_ok m (bp, io)" "inside addr (max 1 sz)" "\<forall>p. bp_cur bp = Some p \<longrightarrow> plugin_ok p"
    and "bp_nbps bp + 1 < 2 ^ 31" "sz + 16 < 2 ^ 31"
  shows "r_bp_add_sw bp io addr sz rwx \<noteq> None"
proof -
  from assms(5) have sz: "max 1 sz + 16 < 2 ^ 31" by simp
  from assms(1) have "bp_ok bp" "0 \<le> bp_nbps bp" by (simp_all add: session_ok_def)
  from add_defined [OF this(1) assms(3) this(2) assms(4),
      where hw = 0 and sz = "max 1 sz" and ob = "Some (map m [unat addr..<unat addr + nat (max 1 sz)])" and addr = addr and rwx = rwx] sz
    add_sw_reads [OF assms(1,2), of rwx] show ?thesis by fastforce
qed

text \<open>A trap trace over a range, switched on and off.\<close>

lemma traptrace_round:
  assumes "ok io" "bound_bp bp" "bp_traces bp = []" "\<forall>p. bp_cur bp = Some p \<longrightarrow> plugin_ok p"
    and "from \<noteq> 0" "from \<le> to" "inside from (uint (to - from))" "3 \<le> uint (to - from)" "uint (to - from) + 4 < 2 ^ 31"
  shows "\<exists>bp' io1 io2 io3. r_bp_traptrace_add bp io from to = Some (True, bp', io1) \<and>
    r_bp_traptrace_enable bp' io1 True = Some io2 \<and> r_bp_traptrace_enable bp' io2 False = Some io3 \<and> ok io3 \<and> byte io3 = byte io"
proof -
  define len where "len = uint (to - from)"
  have len: "3 \<le> len" "len + 4 < 2 ^ 31" "inside from len" using assms(7-9) by (simp_all add: len_def)
  have guard: "\<not> (from = 0 \<or> to < from \<or> 0x7fffffff \<le> to - from)"
  proof -
    have "to - from < 0x7fffffff" using assms(9) by (simp add: word_less_def)
    then show ?thesis using assms(5,6) by (simp add: not_less not_le)
  qed
  have "nat len \<le> length (map (bp_garbage bp) [0..<nat len])" by simp
  from rd [OF assms(1) len(3) this] obtain io1 where
    r: "rd io from (map (bp_garbage bp) [0..<nat len]) len =
        Some ((len, map (byte io) [unat from..<unat from + nat len]), io1)" "ok io1" "byte io1 = byte io" by auto
  obtain q trap where q: "r_bp_get_bytes bp (map (bp_garbage bp) [0..<nat (len + 4)]) len (bp_endian bp) 0 = Some (q, trap)"
    using get_bytes_defined [OF assms(4), of len "map (bp_garbage bp) [0..<nat (len + 4)]" "bp_endian bp" 0] len(1)
    by (auto simp: le_nat_iff nat_le_iff)
  have trap: "nat len \<le> length trap" using get_bytes_length [OF q] by simp
  from wr [OF r(2) len(3) trap] obtain io2 where w: "wr io1 from trap len = Some (len, io2)" "ok io2"
    "byte io2 = (\<lambda>a. if unat from \<le> a \<and> a < unat from + nat len then trap ! (a - unat from) else byte io a)"
    unfolding r(3) by blast
  have "nat len \<le> length (map (byte io) [unat from..<unat from + nat len])" by simp
  from wr [OF w(2) len(3) this] obtain io3 where
    io3: "wr io2 from (map (byte io) [unat from..<unat from + nat len]) len = Some (len, io3)" "ok io3"
      "byte io3 = (\<lambda>a. if unat from \<le> a \<and> a < unat from + nat len
        then map (byte io) [unat from..<unat from + nat len] ! (a - unat from) else byte io2 a)" by blast
  have "byte io3 = byte io" by (rule ext) (auto simp: io3(3) w(3))
  with guard r q w io3(1,2) assms(2,3) len show ?thesis
    by (simp add: r_bp_traptrace_add_def r_bp_traptrace_enable_def trace_deref_def iob_write_def bound_bp_def c_add_def
      flip: len_def)
qed

end

section \<open>Sessions over a mapped file\<close>

text \<open>\<open>r_debug_io_bind\<close>, the part that concerns breakpoints.\<close>

definition bp_bind_io :: "nat \<Rightarrow> 'd rio rbp \<Rightarrow> 'd rio rbp" where
  "bp_bind_io n bp = bp\<lparr>bp_iob := Some (r_io_bind n)\<rparr>"

definition bp_session :: "nat \<Rightarrow> bp_plugin list \<Rightarrow> io_map \<Rightarrow> malloc_data rio \<Rightarrow> malloc_data rio rbp \<Rightarrow> malloc_data rio \<Rightarrow> bool" where
  "bp_session n ps mp io0 bp io \<longleftrightarrow>
     (\<exists>g bp0. r_bp_new g ps = Some bp0 \<and> (bp_step (inside_map mp))\<^sup>*\<^sup>* (bp_bind_io n bp0, io0) (bp, io))"

lemma add_statics_facts:
  assumes "add_statics ps bp = Some bp'" "bp_bps bp = []" "0 \<le> bp_nbps bp"
  shows "bp_bps bp' = [] \<and> 0 \<le> bp_nbps bp' \<and> bp_plugins bp' = bp_plugins bp @ ps \<and> bp_cur bp' = bp_cur bp \<and>
    bp_delta bp' = bp_delta bp \<and> bp_breakpoint bp' = bp_breakpoint bp"
  using assms
proof (induction ps arbitrary: bp)
  case (Cons p ps)
  then obtain n where n: "c_add (bp_nbps bp) 1 = Some n"
      "add_statics ps (bp\<lparr>bp_nbps := n, bp_plugins := bp_plugins bp @ [p]\<rparr>) = Some bp'"
    by (auto simp: r_bp_plugin_add_def bind_eq_Some_conv)
  then have "0 \<le> n" using Cons(4) by (auto simp: c_add_def split: if_splits)
  with Cons(1) [OF n(2)] Cons(3) show ?case by simp
qed simp

lemma new_facts:
  assumes "r_bp_new g ps = Some bp"
  shows "bp_bps bp = []" "0 \<le> bp_nbps bp" "bp_plugins bp = ps" "bp_cur bp = None" "bp_delta bp = 0" "bp_breakpoint bp = None"
  using add_statics_facts [OF assms [unfolded r_bp_new_def]] by simp_all

lemma session_starts:
  assumes "r_bp_new g ps = Some bp" "mapped_file k mp io"
  shows "malloc_mem.session_ok j k mp (map_bytes mp (file_of k io)) (bp_bind_io (Suc (Suc j)) bp, io)"
  using new_facts [OF assms(1)] assms(2)
  by (simp add: malloc_mem.session_ok_def malloc_mem.bound_bp_def malloc_mem.in_memory_def bp_bind_io_def r_io_bind_def bp_ok_def
    items_def saved_def starts_apart_def)

lemma sessionE:
  assumes "bp_session n ps mp io0 bp io" "mapped_file k mp io0" "2 \<le> n"
  obtains j where "n = Suc (Suc j)" "malloc_mem.session_ok j k mp (map_bytes mp (file_of k io0)) (bp, io)"
  using two_or_more [OF assms(3)] assms(1) session_starts [OF _ assms(2)] malloc_mem.session_steps
  unfolding bp_session_def by metis

text \<open>The plugins in use come from the list the component was made with.\<close>

lemma step_plugins:
  assumes "bp_step inside s s'" "bp_ok (fst s)"
  shows "bp_plugins (fst s') = bp_plugins (fst s) \<and>
    (bp_cur (fst s') = bp_cur (fst s) \<or> (\<exists>p \<in> set (bp_plugins (fst s)). bp_cur (fst s') = Some p))"
proof -
  have "same_set_up (fst s) (fst s')" using assms
  proof (induction rule: bp_step.induct)
    case (add_sw addr sz rwx bp io r bp' io')
    then show ?case using add_spec [of bp "Some _" addr] by (fastforce simp: r_bp_add_sw_def bind_eq_Some_conv Let_def)
  next
    case (add_hw addr sz rwx bp r bp' io)
    then show ?case using add_spec [of bp None addr sz 1 rwx r bp'] by (simp add: r_bp_add_hw_def)
  next
    case (del bp addr r bp' io)
    then show ?case using del_ok [of bp addr] by auto
  next
    case (del_all bp r bp' io)
    then show ?case using del_all_ok [of bp] by auto
  next
    case (enable bp addr st q bp' io)
    then show ?case using enable_keeps [of bp addr st] by (auto simp: keeps_traps_def)
  next
    case (enable_all bp st r bp' io)
    then show ?case using all_keeps(1) [of bp st] by (auto simp: keeps_traps_def)
  next
    case (set_trace bp addr st r bp' io)
    then show ?case using set_trace_keeps [of bp addr st] by (auto simp: keeps_traps_def)
  next
    case (set_trace_all bp st r bp' io)
    then show ?case using all_keeps(2) [of bp st] by (auto simp: keeps_traps_def)
  next
    case (use bp io nm bits)
    then show ?case using use_keeps [of bp nm bits] by (simp add: keeps_traps_def)
  qed (simp_all add: r_bp_add_cond_def r_bp_del_cond_def same_set_up_def)
  then show ?thesis by (auto simp: same_set_up_def)
qed

lemma session_plugins:
  assumes "bp_session n ps mp io0 bp io" "mapped_file k mp io0" "2 \<le> n"
  shows "bp_plugins bp = ps \<and> (\<forall>p. bp_cur bp = Some p \<longrightarrow> p \<in> set ps)"
proof -
  obtain j where n: "n = Suc (Suc j)" using two_or_more [OF assms(3)] by blast
  from assms(1) obtain g bp0 where new: "r_bp_new g ps = Some bp0"
    and steps: "(bp_step (inside_map mp))\<^sup>*\<^sup>* (bp_bind_io n bp0, io0) (bp, io)" by (auto simp: bp_session_def)
  have "malloc_mem.session_ok j k mp (map_bytes mp (file_of k io0)) s \<and> bp_plugins (fst s) = ps \<and>
      (\<forall>p. bp_cur (fst s) = Some p \<longrightarrow> p \<in> set ps)" if "(bp_step (inside_map mp))\<^sup>*\<^sup>* (bp_bind_io n bp0, io0) s" for s
    using that
  proof (induction rule: rtranclp_induct)
    case base
    then show ?case using session_starts [OF new assms(2), of j] new_facts [OF new] by (simp add: n bp_bind_io_def)
  next
    case (step s t)
    then have "bp_ok (fst s)" by (auto simp: malloc_mem.session_ok_def)
    with step step_plugins [of "inside_map mp" s t] malloc_mem.session_step show ?case by (metis option.inject)
  qed
  from this [OF steps] show ?thesis by simp
qed

text \<open>C11: breakpoints leave no trace. In any session of adding, deleting and changing breakpoints over a mapped file,
  putting all traps into memory and taking them out again is defined and leaves every byte as it was before the session,
  also where breakpoints overlap.\<close>
theorem bp_traps_leave_no_trace:
  assumes "bp_session n ps mp io0 bp io" "mapped_file k mp io0" "2 \<le> n"
  shows "\<exists>io1 io2. r_bp_restore bp io True = Some (True, io1) \<and> r_bp_restore bp io1 False = Some (True, io2) \<and>
    mapped_file k mp io2 \<and> map_bytes mp (file_of k io2) = map_bytes mp (file_of k io0)"
  using sessionE [OF assms] malloc_mem.restore_round by metis



lemma inside_own_start: "inside_map mp (it_addr b) (it_size b) \<Longrightarrow> inRange b (it_addr b)"
proof -
  assume i: "inside_map mp (it_addr b) (it_size b)"
  then have u: "unat (of_int (it_size b) :: ut64) = nat (it_size b)" by (intro unat_of_small) (simp add: inside_map_def)
  moreover have "unat (mp_to mp) < 2 ^ 64" by (rule unat_less_64)
  ultimately have "unat (it_addr b + of_int (it_size b)) = unat (it_addr b) + nat (it_size b)"
    using i end_no_wrap [of "it_addr b" "of_int (it_size b)"] unfolding inside_map_def by linarith
  then show ?thesis using i by (auto simp: inRange_def inside_map_def word_less_nat_alt)
qed

lemma starts_distinct:
  assumes "starts_apart bs" "\<forall>b \<in> set bs. inRange b (it_addr b)"
  shows "distinct (map it_addr bs)"
  using assms by (induction bs) (auto simp: starts_apart_def inRange_def)

lemma delete_first_key:
  assumes "distinct (map f xs)"
  shows "set (snd (delete_first (\<lambda>x. f x = v) xs)) = {x \<in> set xs. f x \<noteq> v}"
    "fst (delete_first (\<lambda>x. f x = v) xs) \<longleftrightarrow> v \<in> f ` set xs"
  using assms by (induction xs) (auto simp: Let_def rev_image_eqI split: prod.splits)

text \<open>C24: there is at most one breakpoint per address in a session, and none starts inside an earlier one;
  so \<open>r_bp_del\<close> removes the breakpoint of its address, reports whether there was one, and leaves all others.\<close>
theorem bp_one_per_address:
  assumes "bp_session n ps mp io0 bp io" "mapped_file k mp io0" "2 \<le> n"
  shows "distinct (map it_addr (items bp)) \<and> starts_apart (items bp) \<and>
    (\<exists>bp'. r_bp_del bp addr = Some (addr \<in> it_addr ` set (items bp), bp') \<and> r_bp_get_at bp' addr = Some None \<and>
      set (items bp') = {b \<in> set (items bp). it_addr b \<noteq> addr})"
proof -
  obtain j where s: "malloc_mem.session_ok j k mp (map_bytes mp (file_of k io0)) (bp, io)" using sessionE [OF assms] by blast
  then have ok: "bp_ok bp" "starts_apart (items bp)" "\<forall>b \<in> set (items bp). inside_map mp (it_addr b) (it_size b)"
    by (auto simp: malloc_mem.session_ok_def malloc_mem.in_memory_def)
  have d: "distinct (map it_addr (items bp))" using ok(2,3) inside_own_start by (blast intro: starts_distinct)
  from del_ok [OF ok(1), of addr] delete_first_key [OF d, of addr] obtain bp' where
    bp': "r_bp_del bp addr = Some (addr \<in> it_addr ` set (items bp), bp')" "bp_ok bp'"
      "set (items bp') = {b \<in> set (items bp). it_addr b \<noteq> addr}" by auto
  from bp'(3) have "find (\<lambda>a. it_addr (the (bp_deref bp' a)) = addr) (bp_bps bp') = None"
    by (auto simp: find_None_iff items_def)
  with bp' d ok(2) show ?thesis by (auto simp: get_at_ok [OF bp'(2)])
qed

section \<open>Slots and freed items\<close>

text \<open>
  Every listed breakpoint has a slot, and deleting by slot frees the item twice: \<open>r_list_delete_data\<close> through the
  function of the list, \<open>r_bp_del_index\<close> once more.
\<close>

lemma index_of_item:
  assumes "Some a \<in> set (bp_bps_idx bp)"
  obtains i where "r_bp_get_index bp (int i) = Some a" "i < length (bp_bps_idx bp)" "bp_bps_idx bp ! i = Some a"
  using assms by (auto simp: in_set_conv_nth r_bp_get_index_def)

theorem del_index_frees_twice:
  assumes "bp_ok bp" "a \<in> set (bp_bps bp)"
  shows "\<exists>i. r_bp_get_index bp i = Some a \<and> r_bp_del_index bp i = None"
proof -
  have "Some a \<in> set (bp_bps_idx bp)" using assms by (simp add: bp_ok_def)
  then obtain i where i: "r_bp_get_index bp (int i) = Some a" "i < length (bp_bps_idx bp)" "bp_bps_idx bp ! i = Some a"
    by (rule index_of_item)
  have "r_bp_item_free a (bp\<lparr>bp_store := (bp_store bp)[a := None], bp_bps := remove1 a (bp_bps bp)\<rparr>) = None"
    using free_in_list(3) [OF assms] by (simp add: r_bp_item_free_def)
  with i assms(2) free_live [OF bp_ok_live [OF assms]] show ?thesis
    by (intro exI [of _ "int i"]) (simp add: r_bp_del_index_def)
qed

text \<open>After \<open>r_bp_del\<close> the slot still points to the freed item.\<close>

theorem del_leaves_dangling_slot:
  assumes "bp_ok bp" "r_bp_del bp addr = Some (True, bp')"
  shows "\<exists>i a. r_bp_get_index bp' i = Some a \<and> bp_deref bp' a = None"
proof -
  from assms obtain a where a: "find (\<lambda>a. it_addr (the (bp_deref bp a)) = addr) (bp_bps bp) = Some a"
    by (auto simp: r_bp_del_def first_item_ok split: option.splits)
  then have in_list: "a \<in> set (bp_bps bp)" by (auto dest: find_SomeD)
  have bp': "bp' = bp\<lparr>bp_store := (bp_store bp)[a := None], bp_bps := remove1 a (bp_bps bp)\<rparr>"
    using assms(2) a free_live [OF bp_ok_live [OF assms(1) in_list]] by (simp add: r_bp_del_def first_item_ok [OF assms(1)])
  have "Some a \<in> set (bp_bps_idx bp')" using assms(1) in_list by (simp add: bp_ok_def bp')
  then obtain i where "r_bp_get_index bp' (int i) = Some a" by (rule index_of_item)
  with free_in_list(3) [OF assms(1) in_list] show ?thesis unfolding bp' by blast
qed

text \<open>Whether a breakpoint is enabled makes no difference to its trap.\<close>

theorem restore_ignores_enabled:
  assumes "bp_breakpoint bp = None"
  shows "restore_item bp st ex (b\<lparr>it_enabled := e\<rparr>) io = restore_item bp st ex b io"
  using assms by (simp add: restore_item_def r_bp_restore_one_def split: option.split)

section \<open>The tables of the plugins\<close>

lemmas arch_plugins = r_bp_plugin_x86_def r_bp_plugin_arm_def r_bp_plugin_bf_def r_bp_plugin_ppc_def r_bp_plugin_sh_def
  r_bp_plugin_mips_def arch_entry_def arch_end_def

theorem plugins_ok:
  "list_all plugin_ok [r_bp_plugin_arm, r_bp_plugin_bf, r_bp_plugin_ppc, r_bp_plugin_sh, r_bp_plugin_x86]"
  by (simp add: plugin_ok_def entry_ok_def arch_plugins)

text \<open>The table of mips has two entries and claims ten: a size or a width it does not have is looked for past its end.\<close>

theorem mips_reads_past_table:
  assumes "bp_cur bp = Some r_bp_plugin_mips" "bp_bits bp \<noteq> 32" "len \<noteq> 0"
  shows "r_bp_get_bytes bp buf len e i = None"
  using assms by (simp add: r_bp_get_bytes_def arch_plugins eval_nat_numeral)

text \<open>
  A breakpoint of four bytes in little endian Thumb code is padded with the first entry of the table, at every
  byte instead of every four: what lands in memory is no trap instruction.
\<close>

theorem thumb_padding:
  assumes "bp_cur bp = Some r_bp_plugin_arm" "bp_bits bp = 16"
  shows "r_bp_get_bytes bp (replicate 20 0) 4 0 0 = Some (4, [0xfe, 0xfe, 0xfe, 0xfe, 0xde, 0xff, 0xe7] @ replicate 13 0)"
  using assms
  by (simp add: r_bp_get_bytes_def pad_first_def copy_bytes_def nth_opt_def buf_read_def buf_write_def arch_plugins eval_nat_numeral)

text \<open>The list searched for a plugin of the same name is that of the breakpoints, so none is ever found in an empty one.\<close>

theorem plugin_added_twice:
  assumes "bp_bps bp = []" "0 \<le> bp_nbps bp" "bp_nbps bp + 1 < 2 ^ 31" "p \<in> set (bp_plugins bp)"
  shows "\<exists>bp'. r_bp_plugin_add bp p = Some (True, bp') \<and> bp_plugins bp' = bp_plugins bp @ [p]"
  using assms by (simp add: r_bp_plugin_add_def c_add_def)

section \<open>Trap traces\<close>

text \<open>A trap trace of a mapped file, switched on and off, leaves the file as it was.\<close>

theorem traptrace_leaves_no_trace:
  assumes "bp_session n ps mp io0 bp io" "mapped_file k mp io0" "2 \<le> n" "list_all plugin_ok ps" "bp_traces bp = []"
    and "from \<noteq> 0" "from \<le> to" "inside_map mp from (uint (to - from))" "3 \<le> uint (to - from)" "uint (to - from) + 4 < 2 ^ 31"
  shows "\<exists>bp' io1 io2 io3. r_bp_traptrace_add bp io from to = Some (True, bp', io1) \<and>
    r_bp_traptrace_enable bp' io1 True = Some io2 \<and> r_bp_traptrace_enable bp' io2 False = Some io3 \<and>
    map_bytes mp (file_of k io3) = map_bytes mp (file_of k io0)"
proof -
  obtain j where s: "malloc_mem.session_ok j k mp (map_bytes mp (file_of k io0)) (bp, io)" using sessionE [OF assms(1-3)] by blast
  then have "mapped_file k mp io" "malloc_mem.bound_bp j bp" "map_bytes mp (file_of k io) = map_bytes mp (file_of k io0)"
    by (simp_all add: malloc_mem.session_ok_def)
  moreover have "\<forall>p. bp_cur bp = Some p \<longrightarrow> plugin_ok p"
    using session_plugins [OF assms(1-3)] assms(4) by (auto simp: list_all_iff)
  ultimately show ?thesis using malloc_mem.traptrace_round [of k mp io j bp "from" to] assms(5-10) by metis
qed

text \<open>A trace that covers the address is written back and then freed twice.\<close>

theorem trace_free_at_frees_twice:
  assumes "bp_traces bp = a # as" "trace_deref bp a = Some t" "tr_addr t \<le> from" "from \<le> tr_addr_end t"
  shows "r_bp_traptrace_free_at bp io from = None"
proof -
  have "a < length (bp_tstore bp)" using assms(2) by (simp add: trace_deref_def split: if_splits)
  then show ?thesis
    using assms by (auto simp: r_bp_traptrace_free_at_def r_bp_traptrace_free_def trace_deref_def split: bind_splits)
qed

text \<open>The length of the bits of a new trace is never set, so they cannot be cleared.\<close>

theorem new_trace_cannot_be_reset:
  assumes "r_bp_traptrace_add bp io from to = Some (True, bp', io')" "bp_traces bp = []"
  shows "r_bp_traptrace_reset bp' False = None"
proof -
  from assms(1) obtain t where "bp_tstore bp' = bp_tstore bp @ [Some t]" "tr_bitlen t = None"
      "bp_traces bp' = bp_traces bp @ [length (bp_tstore bp)]"
    by (auto simp: r_bp_traptrace_add_def bind_eq_Some_conv Let_def split: if_splits)
  then show ?thesis using assms(2) by (simp add: r_bp_traptrace_reset_def trace_deref_def clear_bits_def)
qed

text \<open>\<open>R_BIT_SET\<close> and \<open>R_BIT_CHK\<close> do not agree: from the eighth position on no bit is ever seen.\<close>

theorem bits_not_seen: "x \<noteq> [] \<Longrightarrow> 8 \<le> y \<Longrightarrow> y < 31 \<Longrightarrow> R_BIT_CHK x y = Some False"
  by (auto simp: R_BIT_CHK_def nth_opt_def impossible_bit)

lemma bits_set_not_seen: "R_BIT_SET [0, 0] 16 = Some [0, 1]" "R_BIT_CHK [0, 1] 16 = Some False"
  by (simp_all add: R_BIT_SET_def R_BIT_CHK_def nth_opt_def impossible_bit)

text \<open>The address of the next hit is counted twice: from the start of the trace and from the address asked for.\<close>

theorem next_counts_twice:
  assumes "bp_traces bp = [0]" "trace_deref bp 0 = Some \<lparr>tr_addr = 0x1000, tr_addr_end = 0x1008, tr_traps = ts,
    tr_buffer = bs, tr_bits = [8], tr_length = 8, tr_bitlen = None\<rparr>"
  shows "r_bp_traptrace_next bp 0x1002 = Some 0x1005"
proof -
  have "next_bit [8] 2 6 = Some (Some 3)" by code_simp
  then show ?thesis using assms by (simp add: r_bp_traptrace_next_def c_int_def)
qed

section \<open>A session\<close>

text \<open>A breakpoint for x86 in a file of 64 bytes mapped at \<open>0x1000\<close>.\<close>

definition bp_demo_map :: io_map where
  "bp_demo_map = \<lparr>mp_fd = 3, mp_flags = 7, mp_delta = 0, mp_from = 0x1000, mp_to = 0x1040\<rparr>"

definition demo_bp :: "bp_item" where
  "demo_bp = (bare_item 0x1010 1 0 4)\<lparr>it_bbytes := Some (0xcc # replicate 16 0), it_obytes := Some [0], it_recoil := 1\<rparr>"

lemma bp_demo_mapped: "mapped_file 0 bp_demo_map (malloc_rio 64 0x1000 0)"
  unfolding bp_demo_map_def by (rule malloc_rio_mapped)

lemma demo_bytes: "map_bytes bp_demo_map (file_of 0 (malloc_rio 64 0x1000 0)) 0x1010 = 0"
  by (simp add: map_bytes_def bp_demo_map_def file_of_def malloc_rio_def malloc_new_def)

lemma demo_add:
  assumes "bp_bps bp = []" "bp_nbps bp = 1" "bp_endian bp = 0" "bp_bps_idx bp = replicate 16 None" "bp_store bp = []"
    and "bp_cur bp = Some r_bp_plugin_x86" "bp_bits bp = 32" "bp_delta bp = 0"
  shows "\<exists>r bp'. r_bp_add bp (Some [0]) 0x1010 1 0 4 = Some (r, bp') \<and> items bp' = [demo_bp] \<and> bp_nbps bp' = 2"
proof -
  obtain a bp1 where n: "r_bp_item_new bp = (a, bp1)" by fastforce
  note f = item_new_facts [OF n]
  have g: "r_bp_get_in bp 0x1010 4 = Some None" using assms(1) by (simp add: r_bp_get_in_def)
  have "item_bytes bp1 (Some [0]) (bare_item 0x1010 1 0 4) = Some (Some demo_bp)"
    using f assms by (simp add: item_bytes_def c_add_def buf_read_def buf_write_def r_bp_get_bytes_def copy_bytes_def
      arch_plugins demo_bp_def numeral_2_eq_2)
  then have "add_item a bp1 (Some [0]) (bare_item 0x1010 1 0 4) =
      Some (Some a, bp1\<lparr>bp_store := (bp_store bp1)[a := Some demo_bp], bp_nbps := 2, bp_bps := [a]\<rparr>)"
    using update_live [OF new_item_live [OF n]] f assms(1,2) by (simp add: add_item_def c_add_def)
  moreover have "r_bp_add bp (Some [0]) 0x1010 1 0 4 = add_item a bp1 (Some [0]) (bare_item 0x1010 1 0 4)"
    using add_eq [OF _ g n, of 1 "Some [0]" 0] assms(8) by simp
  ultimately show ?thesis using f(1,2) by (simp add: items_def bp_deref_def)
qed

lemma demo_session:
  "\<exists>bp io. bp_session 2 [r_bp_plugin_x86] bp_demo_map (malloc_rio 64 0x1000 0) bp io \<and> items bp = [demo_bp] \<and> bp_nbps bp = 2"
proof -
  let ?io = "malloc_rio 64 0x1000 0" and ?g = "\<lambda>_::nat. 0 :: ut8"
  obtain bp0 :: "malloc_data rio rbp" where bp0: "r_bp_new ?g [r_bp_plugin_x86] = Some bp0" "bp_nbps bp0 = 1"
    "bp_endian bp0 = 0" "bp_bps_idx bp0 = replicate 16 None" "bp_store bp0 = []"
    by (simp add: r_bp_new_def r_bp_plugin_add_def c_add_def)
  note new = new_facts [OF bp0(1)]
  define bp1 where "bp1 = (bp_bind_io 2 bp0)\<lparr>bp_bits := 32, bp_cur := Some r_bp_plugin_x86\<rparr>"
  have "snd (r_bp_use (bp_bind_io 2 bp0) ''x86'' 32) = bp1"
    using new by (simp add: r_bp_use_def bp_bind_io_def r_bp_plugin_x86_def bp1_def)
  then have one: "bp_step (inside_map bp_demo_map) (bp_bind_io 2 bp0, ?io) (bp1, ?io)" using bp_step.use by metis
  have "malloc_mem.session_ok 0 0 bp_demo_map (map_bytes bp_demo_map (file_of 0 ?io)) (bp_bind_io 2 bp0, ?io)"
    using session_starts [OF bp0(1) bp_demo_mapped, of 0] by (simp add: numeral_2_eq_2)
  from malloc_mem.session_step [OF one this]
  have s: "malloc_mem.session_ok 0 0 bp_demo_map (map_bytes bp_demo_map (file_of 0 ?io)) (bp1, ?io)" .
  have i: "inside_map bp_demo_map 0x1010 (max 1 1)" by (simp add: inside_map_def bp_demo_map_def small_def)
  from demo_add [of bp1] new bp0 obtain r bp where
    add: "r_bp_add bp1 (Some [0]) 0x1010 1 0 4 = Some (r, bp)" "items bp = [demo_bp]" "bp_nbps bp = 2"
    by (auto simp: bp1_def bp_bind_io_def)
  from malloc_mem.add_sw_reads [OF s i, of 4] demo_bytes add(1) obtain io where
    "r_bp_add_sw bp1 ?io 0x1010 1 4 = Some (r, bp, io)" by auto
  then have "bp_step (inside_map bp_demo_map) (bp1, ?io) (bp, io)" using i by (intro bp_step.add_sw) simp_all
  with one have "(bp_step (inside_map bp_demo_map))\<^sup>*\<^sup>* (bp_bind_io 2 bp0, ?io) (bp, io)"
    by (rule converse_rtranclp_into_rtranclp [OF _ r_into_rtranclp])
  with bp0(1) add show ?thesis by (auto simp: bp_session_def)
qed

theorem bp_traps_leave_no_trace_witness:
  "\<exists>(bp :: malloc_data rio rbp) io io1 io2. items bp = [demo_bp] \<and> r_bp_restore bp io True = Some (True, io1) \<and>
    r_bp_restore bp io1 False = Some (True, io2)"
  using demo_session bp_traps_leave_no_trace [OF _ bp_demo_mapped, of 2 "[r_bp_plugin_x86]"] by fastforce



theorem bp_one_per_address_witness:
  "\<exists>(bp :: malloc_data rio rbp) bp'. items bp = [demo_bp] \<and> r_bp_del bp 0x1010 = Some (True, bp') \<and> r_bp_get_at bp' 0x1010 = Some None"
proof -
  from demo_session obtain bp io where
    b: "bp_session 2 [r_bp_plugin_x86] bp_demo_map (malloc_rio 64 0x1000 0) bp io" "items bp = [demo_bp]" by blast
  have "it_addr demo_bp = 0x1010" by (simp add: demo_bp_def)
  with bp_one_per_address [OF b(1) bp_demo_mapped, of "0x1010"] b(2) have
    "\<exists>bp'. r_bp_del bp 0x1010 = Some (True, bp') \<and> r_bp_get_at bp' 0x1010 = Some None" by auto
  with b(2) show ?thesis by blast
qed

end
